(* ===== verification/Prelude.thy ===== *)
theory Prelude
  imports Main "HOL-Library.Sublist" "HOL-Library.List_Lexorder" "HOL-Library.Char_ord"
begin

text \<open>
  Shared ground of the development: the collections of facts the component proofs draw on,
  and generic lemmas on lists, options and association lists that more than one component
  uses.  Nothing here models code of the repository except the association-list reading of
  the ordered maps (\<open>BTreeMap\<close>, JSON objects) that the sources use everywhere.
\<close>

named_theorems str_simps \<comment> \<open>unfolding facts of the string library\<close>
named_theorems db_defs \<comment> \<open>definitions of the guarded table updates\<close>
named_theorems inv_intros \<comment> \<open>preservation facts of the pipeline tables' invariant\<close>

section \<open>Lists and options\<close>

lemma list_all_set [str_simps]: "list_all P xs \<longleftrightarrow> (\<forall>x\<in>set xs. P x)"
  by (induction xs) auto

lemma option_bind_Some:
  "(case x of None \<Rightarrow> None | Some y \<Rightarrow> f y) = Some z \<longleftrightarrow> (\<exists>y. x = Some y \<and> f y = Some z)"
  by (cases x) auto

text \<open>The first element with a property, as \<open>Iterator::find\<close>.\<close>

fun first_with :: "('a \<Rightarrow> bool) \<Rightarrow> 'a list \<Rightarrow> 'a option" where
  "first_with P [] = None"
| "first_with P (x # xs) = (if P x then Some x else first_with P xs)"

lemma first_with_Some: "first_with P xs = Some x \<Longrightarrow> x \<in> set xs \<and> P x"
  by (induction xs) (auto split: if_splits)

lemma first_with_None: "first_with P xs = None \<longleftrightarrow> (\<forall>x\<in>set xs. \<not> P x)"
  by (induction xs) auto

text \<open>Elements in order, each kept only the first time it is seen.\<close>

fun dedup_onto :: "'a list \<Rightarrow> 'a list \<Rightarrow> 'a list" where
  "dedup_onto acc [] = acc"
| "dedup_onto acc (x # xs) = dedup_onto (if x \<in> set acc then acc else acc @ [x]) xs"

lemma set_dedup_onto: "set (dedup_onto acc xs) = set acc \<union> set xs"
  by (induction acc xs rule: dedup_onto.induct) auto

lemma distinct_dedup_onto: "distinct acc \<Longrightarrow> distinct (dedup_onto acc xs)"
  by (induction acc xs rule: dedup_onto.induct) auto

section \<open>Fallible steps\<close>

text \<open>
  A step takes the state and returns a result beside the new state; the \<open>?\<close> operator and
  a \<open>for\<close> loop with \<open>?\<close> in its body are \<open>and_then\<close> and \<open>for_each\<close>.  The state a
  failed step has reached stays.
\<close>

definition and_then :: "('e + 'a) \<times> 's \<Rightarrow> ('a \<Rightarrow> 's \<Rightarrow> ('e + 'b) \<times> 's) \<Rightarrow> ('e + 'b) \<times> 's" where
  "and_then rs f = (case fst rs of Inl e \<Rightarrow> (Inl e, snd rs) | Inr x \<Rightarrow> f x (snd rs))"

lemma and_then_simps [simp]:
  "and_then (Inl e, s) f = (Inl e, s)" "and_then (Inr x, s) f = f x s"
  by (simp_all add: and_then_def)

fun for_each :: "('x \<Rightarrow> 's \<Rightarrow> ('e + unit) \<times> 's) \<Rightarrow> 'x list \<Rightarrow> 's \<Rightarrow> ('e + unit) \<times> 's" where
  "for_each f [] s = (Inr (), s)"
| "for_each f (x # xs) s = and_then (f x s) (\<lambda>_. for_each f xs)"

lemma and_then_state:
  assumes "P (snd rs)" "\<And>x s. P s \<Longrightarrow> P (snd (f x s))"
  shows "P (snd (and_then rs f))"
  using assms by (auto simp: and_then_def split: sum.splits)

lemma for_each_state:
  assumes "P s" "\<And>x s. x \<in> set xs \<Longrightarrow> P s \<Longrightarrow> P (snd (f x s))"
  shows "P (snd (for_each f xs s))"
  using assms
proof (induction xs arbitrary: s)
  case (Cons x xs)
  have "P (snd (f x s))" by (rule Cons.prems(2)) (simp_all add: Cons.prems(1))
  then show ?case
    by (simp only: for_each.simps) (rule and_then_state, assumption, rule Cons.IH, assumption,
      rule Cons.prems(2), simp_all)
qed simp

section \<open>Preorders on states\<close>

text \<open>What every operation of a component does to the state, as a preorder: it then holds of every
  program built from the operations.\<close>

locale state_order =
  fixes R :: "'s \<Rightarrow> 's \<Rightarrow> bool"
  assumes refl: "R s s"
    and trans: "R s t \<Longrightarrow> R t u \<Longrightarrow> R s u"
begin

lemma and_then_R:
  assumes "R s (snd rs)" "\<And>x t. R t (snd (f x t))"
  shows "R s (snd (and_then rs f))"
  using assms(1) trans [OF assms(1) assms(2)] by (auto simp: and_then_def split: sum.splits)

lemma for_each_R: "(\<And>x t. R t (snd (f x t))) \<Longrightarrow> R s (snd (for_each f xs s))"
proof (induction xs arbitrary: s)
  case (Cons x xs)
  show ?case unfolding for_each.simps by (rule and_then_R) (use Cons in auto)
qed (simp add: refl)

lemma fold_R: "(\<And>x t. R t (f x t)) \<Longrightarrow> R s (fold f xs s)"
proof (induction xs arbitrary: s)
  case (Cons x xs)
  from trans [OF Cons.prems Cons.IH [OF Cons.prems]] show ?case by simp
qed (simp add: refl)

end

section \<open>Ordered maps as association lists\<close>

text \<open>
  \<open>BTreeMap\<close> and the JSON library's object keep their entries in ascending key order and
  hold each key once.  \<open>bt_insert\<close> is their \<open>insert\<close>: it replaces the value of a
  key that is present and otherwise puts the entry at its place.
\<close>

fun bt_insert :: "'k::linorder \<Rightarrow> 'v \<Rightarrow> ('k \<times> 'v) list \<Rightarrow> ('k \<times> 'v) list" where
  "bt_insert k v [] = [(k, v)]"
| "bt_insert k v ((k', v') # m) =
     (if k = k' then (k, v) # m
      else if k < k' then (k, v) # (k', v') # m
      else (k', v') # bt_insert k v m)"

fun bt_extend :: "('k::linorder \<times> 'v) list \<Rightarrow> ('k \<times> 'v) list \<Rightarrow> ('k \<times> 'v) list" where
  "bt_extend m [] = m"
| "bt_extend m ((k, v) # kvs) = bt_extend (bt_insert k v m) kvs"

definition bt_ok :: "('k::linorder \<times> 'v) list \<Rightarrow> bool" where
  "bt_ok m \<longleftrightarrow> sorted_wrt (<) (map fst m)"

lemma bt_ok_Nil [simp]: "bt_ok []"
  by (simp add: bt_ok_def)

lemma set_keys_bt_insert: "set (map fst (bt_insert k v m)) = insert k (set (map fst m))"
  by (induction k v m rule: bt_insert.induct) auto

lemma bt_ok_insert: "bt_ok m \<Longrightarrow> bt_ok (bt_insert k v m)"
proof (induction k v m rule: bt_insert.induct)
  case (1 k v)
  then show ?case by (simp add: bt_ok_def)
next
  case (2 k v k' v' m)
  have tl: "bt_ok m" and lt: "\<forall>x\<in>set (map fst m). k' < x"
    using "2.prems" by (auto simp: bt_ok_def)
  show ?case
  proof (cases "k = k' \<or> k < k'")
    case True
    with tl lt show ?thesis by (auto simp: bt_ok_def)
  next
    case False
    then have "bt_ok (bt_insert k v m)" using "2.IH" tl by auto
    moreover have "\<forall>x\<in>set (map fst (bt_insert k v m)). k' < x"
      using lt False by (auto simp: set_keys_bt_insert simp del: set_map)
    ultimately show ?thesis using False by (auto simp: bt_ok_def)
  qed
qed

lemma bt_ok_extend: "bt_ok m \<Longrightarrow> bt_ok (bt_extend m kvs)"
  by (induction m kvs rule: bt_extend.induct) (auto intro: bt_ok_insert)

lemma map_of_bt_insert [simp]: "map_of (bt_insert k v m) = (map_of m)(k \<mapsto> v)"
  by (induction k v m rule: bt_insert.induct) (auto simp: fun_eq_iff)

lemma map_of_bt_extend: "map_of (bt_extend m kvs) = map_of m ++ map_of (rev kvs)"
proof (induction m kvs rule: bt_extend.induct)
  case (1 m)
  then show ?case by simp
next
  case (2 m k v kvs)
  then have "map_of (bt_extend m ((k, v) # kvs)) = (map_of m)(k \<mapsto> v) ++ map_of (rev kvs)"
    by (simp del: fun_upd_apply)
  moreover have "map_of m ++ map_of (rev ((k, v) # kvs)) = (map_of m)(k \<mapsto> v) ++ map_of (rev kvs)"
    by (auto simp: fun_eq_iff map_add_def split: option.splits)
  ultimately show ?case by simp
qed

end
