(* ===== verification/RustStr.thy ===== *)
theory RustStr
  imports Prelude
begin

text \<open>
  The part of Rust's \<open>str\<close> and \<open>char\<close> that the sources use.  A \<open>str\<close> is its
  UTF-8 bytes, an Isabelle \<open>string\<close> (a list of 8-bit \<open>char\<close>), so \<open>len()\<close> is
  \<open>length\<close> and byte offsets are list positions.  A Rust \<open>char\<close> is its scalar value,
  a \<open>nat\<close>; \<open>chars\<close> decodes and \<open>of_chars\<close> encodes.
\<close>

type_synonym rstr = string
type_synonym uchar = nat

abbreviation ch :: "char \<Rightarrow> uchar" where
  "ch c \<equiv> of_char c"

section \<open>UTF-8\<close>

definition scalar :: "uchar \<Rightarrow> bool" where
  "scalar n \<longleftrightarrow> n < 0xD800 \<or> (0xE000 \<le> n \<and> n < 0x110000)"

definition enc_char :: "uchar \<Rightarrow> rstr" where
  "enc_char n =
     (if n < 0x80 then [char_of n]
      else if n < 0x800 then [char_of (0xC0 + n div 64), char_of (0x80 + n mod 64)]
      else if n < 0x10000 then
        [char_of (0xE0 + n div 4096), char_of (0x80 + n div 64 mod 64), char_of (0x80 + n mod 64)]
      else
        [char_of (0xF0 + n div 262144), char_of (0x80 + n div 4096 mod 64),
         char_of (0x80 + n div 64 mod 64), char_of (0x80 + n mod 64)])"

definition of_chars :: "uchar list \<Rightarrow> rstr" where
  "of_chars cs = concat (map enc_char cs)"

definition cont :: "rstr \<Rightarrow> nat \<Rightarrow> nat" where
  "cont bs i = (if i < length bs then of_char (bs ! i) mod 64 else 0)"

fun chars :: "rstr \<Rightarrow> uchar list" where
  "chars [] = []"
| "chars (b # bs) =
     (let n = (of_char b :: nat) in
      if n < 0x80 then n # chars bs
      else if n < 0xE0 then ((n - 0xC0) * 64 + cont bs 0) # chars (drop 1 bs)
      else if n < 0xF0 then ((n - 0xE0) * 4096 + cont bs 0 * 64 + cont bs 1) # chars (drop 2 bs)
      else ((n - 0xF0) * 262144 + cont bs 0 * 4096 + cont bs 1 * 64 + cont bs 2) # chars (drop 3 bs))"

text \<open>A value of type \<open>str\<close> is always valid UTF-8.\<close>

definition utf8 :: "rstr \<Rightarrow> bool" where
  "utf8 s \<longleftrightarrow> (\<exists>cs. (\<forall>c\<in>set cs. scalar c) \<and> s = of_chars cs)"

lemma of_char_char_of_lt [simp]: "n < 256 \<Longrightarrow> of_char (char_of n :: char) = (n::nat)"
  by (simp add: of_char_of)

lemma cont_byte_mod [simp]: "(b::nat) < 64 \<Longrightarrow> (128 + b) mod 64 = b"
proof -
  assume "b < 64"
  have "(128 + b) mod 64 = (b + 2 * 64) mod 64" by (simp add: add.commute)
  also have "\<dots> = b mod 64" by (rule mod_mult_self1)
  finally show ?thesis using \<open>b < 64\<close> by simp
qed

lemma of_chars_Nil [simp]: "of_chars [] = []"
  by (simp add: of_chars_def)

lemma of_chars_Cons [simp]: "of_chars (c # cs) = enc_char c @ of_chars cs"
  by (simp add: of_chars_def)

lemma of_chars_append [simp]: "of_chars (xs @ ys) = of_chars xs @ of_chars ys"
  by (simp add: of_chars_def)

lemma chars_1: "n < 128 \<Longrightarrow> chars (char_of n # s) = n # chars s"
  by (simp add: Let_def)

lemma chars_2:
  "a < 32 \<Longrightarrow> b < 64 \<Longrightarrow>
    chars (char_of (192 + a) # char_of (128 + b) # s) = (a * 64 + b) # chars s"
  by (simp add: Let_def cont_def)

lemma chars_3:
  "a < 16 \<Longrightarrow> b < 64 \<Longrightarrow> c < 64 \<Longrightarrow>
    chars (char_of (224 + a) # char_of (128 + b) # char_of (128 + c) # s) =
      (a * 4096 + b * 64 + c) # chars s"
  by (simp add: Let_def cont_def numeral_2_eq_2)

lemma chars_4:
  "a < 8 \<Longrightarrow> b < 64 \<Longrightarrow> c < 64 \<Longrightarrow> d < 64 \<Longrightarrow>
    chars (char_of (240 + a) # char_of (128 + b) # char_of (128 + c) # char_of (128 + d) # s) =
      (a * 262144 + b * 4096 + c * 64 + d) # chars s"
  by (simp add: Let_def cont_def numeral_2_eq_2 numeral_3_eq_3)

lemma chars_enc_char:
  assumes "scalar n"
  shows "chars (enc_char n @ s) = n # chars s"
proof -
  have b: "n < 0x110000" using assms by (auto simp: scalar_def)
  consider "n < 0x80" | "0x80 \<le> n" "n < 0x800" | "0x800 \<le> n" "n < 0x10000" | "0x10000 \<le> n"
    by linarith
  then show ?thesis
  proof cases
    case 1
    then show ?thesis by (simp only: enc_char_def if_True append_Cons append_Nil chars_1)
  next
    case 2
    then have "n div 64 < 32" by simp
    moreover have "n div 64 * 64 + n mod 64 = n" by simp
    ultimately show ?thesis using 2 chars_2 [of "n div 64" "n mod 64" s]
      by (simp add: enc_char_def del: chars.simps)
  next
    case 3
    then have "n div 4096 < 16" by simp
    moreover have "n div 4096 * 4096 + n div 64 mod 64 * 64 + n mod 64 = n"
    proof -
      have e: "n div 4096 = n div 64 div 64" by (simp add: div_mult2_eq [symmetric])
      have "n = n div 64 * 64 + n mod 64" "n div 64 = n div 64 div 64 * 64 + n div 64 mod 64"
        by simp_all
      then show ?thesis unfolding e by linarith
    qed
    ultimately show ?thesis using 3 chars_3 [of "n div 4096" "n div 64 mod 64" "n mod 64" s]
      by (simp add: enc_char_def del: chars.simps)
  next
    case 4
    with b have "n div 262144 < 8" by simp
    moreover have
      "n div 262144 * 262144 + n div 4096 mod 64 * 4096 + n div 64 mod 64 * 64 + n mod 64 = n"
    proof -
      have e: "n div 4096 = n div 64 div 64" "n div 262144 = n div 64 div 64 div 64"
        by (simp_all add: div_mult2_eq [symmetric])
      have "n = n div 64 * 64 + n mod 64"
        "n div 64 = n div 64 div 64 * 64 + n div 64 mod 64"
        "n div 64 div 64 = n div 64 div 64 div 64 * 64 + n div 64 div 64 mod 64"
        by simp_all
      then show ?thesis unfolding e by linarith
    qed
    ultimately show ?thesis
      using 4 chars_4 [of "n div 262144" "n div 4096 mod 64" "n div 64 mod 64" "n mod 64" s]
      by (simp add: enc_char_def del: chars.simps)
  qed
qed

lemma chars_of_chars: "\<forall>c\<in>set cs. scalar c \<Longrightarrow> chars (of_chars cs) = cs"
  by (induction cs) (auto simp: chars_enc_char)

lemma of_chars_chars: "utf8 s \<Longrightarrow> of_chars (chars s) = s"
  by (auto simp: utf8_def chars_of_chars)

lemma utf8_of_chars: "\<forall>c\<in>set cs. scalar c \<Longrightarrow> utf8 (of_chars cs)"
  by (auto simp: utf8_def)

text \<open>On ASCII strings the two views agree.\<close>

definition ascii :: "rstr \<Rightarrow> bool" where
  "ascii s \<longleftrightarrow> (\<forall>b\<in>set s. of_char b < (0x80::nat))"

lemma chars_ascii: "ascii s \<Longrightarrow> chars s = map of_char s"
  by (induction s rule: chars.induct) (auto simp: ascii_def Let_def)

lemma of_chars_ascii: "\<forall>c\<in>set cs. c < 0x80 \<Longrightarrow> of_chars cs = map char_of cs"
  by (induction cs) (auto simp: enc_char_def)

lemma utf8_ascii: "ascii s \<Longrightarrow> utf8 s"
  unfolding utf8_def
proof (intro exI conjI)
  assume a: "ascii s"
  show "\<forall>c\<in>set (map of_char s). scalar c" using a by (auto simp: ascii_def scalar_def)
  show "s = of_chars (map of_char s)"
    using a by (subst of_chars_ascii) (auto simp: ascii_def comp_def)
qed

subsection \<open>Character boundaries\<close>

definition cont_byte :: "char \<Rightarrow> bool" where
  "cont_byte b \<longleftrightarrow> 0x80 \<le> (of_char b::nat) \<and> of_char b < (0xC0::nat)"

definition is_char_boundary :: "rstr \<Rightarrow> nat \<Rightarrow> bool" where
  "is_char_boundary s i \<longleftrightarrow>
     i = 0 \<or> (if length s \<le> i then i = length s else \<not> cont_byte (s ! i))"

text \<open>The loop \<open>while cut > 0 && !is_char_boundary(cut) { cut -= 1 }\<close>.\<close>

fun floor_boundary :: "rstr \<Rightarrow> nat \<Rightarrow> nat" where
  "floor_boundary s 0 = 0"
| "floor_boundary s (Suc n) =
     (if is_char_boundary s (Suc n) then Suc n else floor_boundary s n)"

lemma floor_boundary_le: "floor_boundary s n \<le> n"
  by (induction s n rule: floor_boundary.induct) auto

lemma floor_boundary_boundary: "is_char_boundary s (floor_boundary s n)"
  by (induction s n rule: floor_boundary.induct) (auto simp: is_char_boundary_def)

lemma floor_boundary_greatest: "i \<le> n \<Longrightarrow> is_char_boundary s i \<Longrightarrow> i \<le> floor_boundary s n"
  by (induction s n rule: floor_boundary.induct) (auto simp: le_Suc_eq)

lemma floor_boundary_id: "is_char_boundary s n \<Longrightarrow> floor_boundary s n = n"
  by (cases n) auto

lemma cont_byte_char_of:
  "b < 64 \<Longrightarrow> cont_byte (char_of (128 + b :: nat))"
  "n < 128 \<Longrightarrow> \<not> cont_byte (char_of (n :: nat))"
  "n < 64 \<Longrightarrow> \<not> cont_byte (char_of (192 + n :: nat))"
  "n < 32 \<Longrightarrow> \<not> cont_byte (char_of (224 + n :: nat))"
  "n < 16 \<Longrightarrow> \<not> cont_byte (char_of (240 + n :: nat))"
  by (simp_all add: cont_byte_def)

lemma enc_char_shape:
  assumes "scalar c"
  shows "\<exists>b bs. enc_char c = b # bs \<and> \<not> cont_byte b \<and> (\<forall>x\<in>set bs. cont_byte x)"
proof -
  have b: "c < 0x110000" using assms by (auto simp: scalar_def)
  have d: "c < 0x10000 \<Longrightarrow> c div 4096 < 16" "c div 262144 < 16" "c < 0x800 \<Longrightarrow> c div 64 < 64"
    using b by simp_all
  consider "c < 0x80" | "0x80 \<le> c" "c < 0x800" | "0x800 \<le> c" "c < 0x10000" | "0x10000 \<le> c"
    by linarith
  then show ?thesis
    by cases (simp_all add: enc_char_def cont_byte_char_of d)
qed

lemma boundary_take_of_chars:
  assumes "\<forall>c\<in>set cs. scalar c" "is_char_boundary (of_chars cs) i" "i \<le> length (of_chars cs)"
  shows "\<exists>k\<le>length cs. take i (of_chars cs) = of_chars (take k cs)"
  using assms
proof (induction cs arbitrary: i)
  case Nil
  then show ?case by simp
next
  case (Cons c cs)
  from Cons.prems(1) obtain b bs where
    e: "enc_char c = b # bs" "\<not> cont_byte b" "\<forall>x\<in>set bs. cont_byte x"
    using enc_char_shape [of c] by auto
  show ?case
  proof (cases "i = 0")
    case True
    then show ?thesis by (intro exI [of _ 0]) simp
  next
    case False
    have len: "length (enc_char c) \<le> i"
    proof (rule ccontr)
      assume "\<not> length (enc_char c) \<le> i"
      with False e(1) have "(of_chars (c # cs)) ! i = bs ! (i - 1)" "i - 1 < length bs"
        by (auto simp: nth_append nth_Cons')
      with e(3) have "cont_byte ((of_chars (c # cs)) ! i)" by simp
      moreover have "i < length (of_chars (c # cs))"
        using \<open>\<not> length (enc_char c) \<le> i\<close> by simp
      ultimately show False using Cons.prems(2) False by (simp add: is_char_boundary_def)
    qed
    let ?j = "i - length (enc_char c)"
    have "is_char_boundary (of_chars cs) ?j"
    proof -
      have i: "i = length (enc_char c) + ?j" using len by simp
      have "of_chars (c # cs) ! i = of_chars cs ! ?j" by (subst i) (simp only: of_chars_Cons nth_append_length_plus)
      moreover have "length (of_chars (c # cs)) \<le> i \<longleftrightarrow> length (of_chars cs) \<le> ?j"
        "i = length (of_chars (c # cs)) \<longleftrightarrow> ?j = length (of_chars cs)"
        using len by (simp_all only: of_chars_Cons length_append) linarith+
      ultimately show ?thesis
        using Cons.prems(2) False by (simp only: is_char_boundary_def) presburger
    qed
    moreover have "?j \<le> length (of_chars cs)" using Cons.prems(3) by simp
    ultimately obtain k where "k \<le> length cs" "take ?j (of_chars cs) = of_chars (take k cs)"
      using Cons.IH Cons.prems(1) by auto
    with len show ?thesis by (intro exI [of _ "Suc k"]) simp
  qed
qed

lemma utf8_take_boundary:
  assumes "utf8 s" "is_char_boundary s i"
  shows "utf8 (take i s)"
proof -
  obtain cs where cs: "\<forall>c\<in>set cs. scalar c" "s = of_chars cs" using assms(1) by (auto simp: utf8_def)
  show ?thesis
  proof (cases "i \<le> length s")
    case True
    then obtain k where "take i s = of_chars (take k cs)"
      using boundary_take_of_chars [OF cs(1)] assms(2) cs(2) by blast
    then show ?thesis using cs(1) by (auto intro!: utf8_of_chars dest: in_set_takeD)
  qed (use assms(1) in simp)
qed

section \<open>Character classes\<close>

definition is_ascii_digit :: "uchar \<Rightarrow> bool" where
  "is_ascii_digit c \<longleftrightarrow> 48 \<le> c \<and> c \<le> 57"

definition is_ascii_upper :: "uchar \<Rightarrow> bool" where
  "is_ascii_upper c \<longleftrightarrow> 65 \<le> c \<and> c \<le> 90"

definition is_ascii_lower :: "uchar \<Rightarrow> bool" where
  "is_ascii_lower c \<longleftrightarrow> 97 \<le> c \<and> c \<le> 122"

definition is_ascii_alphabetic :: "uchar \<Rightarrow> bool" where
  "is_ascii_alphabetic c \<longleftrightarrow> is_ascii_upper c \<or> is_ascii_lower c"

definition is_ascii_alphanumeric :: "uchar \<Rightarrow> bool" where
  "is_ascii_alphanumeric c \<longleftrightarrow> is_ascii_digit c \<or> is_ascii_alphabetic c"

definition is_ascii_hexdigit :: "uchar \<Rightarrow> bool" where
  "is_ascii_hexdigit c \<longleftrightarrow> is_ascii_digit c \<or> (65 \<le> c \<and> c \<le> 70) \<or> (97 \<le> c \<and> c \<le> 102)"

text \<open>Unicode category \<open>Cc\<close>, the characters \<open>char::is_control\<close> accepts.\<close>

definition is_control :: "uchar \<Rightarrow> bool" where
  "is_control c \<longleftrightarrow> c < 32 \<or> (127 \<le> c \<and> c < 160)"

text \<open>The Unicode property \<open>White_Space\<close>, which \<open>trim\<close> and \<open>split_whitespace\<close> use.\<close>

definition is_whitespace :: "uchar \<Rightarrow> bool" where
  "is_whitespace c \<longleftrightarrow>
     (9 \<le> c \<and> c \<le> 13) \<or> c = 32 \<or> c = 0x85 \<or> c = 0xA0 \<or> c = 0x1680 \<or>
     (0x2000 \<le> c \<and> c \<le> 0x200A) \<or> c = 0x2028 \<or> c = 0x2029 \<or> c = 0x202F \<or>
     c = 0x205F \<or> c = 0x3000"

lemmas ascii_class_defs [str_simps] =
  is_ascii_digit_def is_ascii_upper_def is_ascii_lower_def is_ascii_alphabetic_def
  is_ascii_alphanumeric_def is_ascii_hexdigit_def

definition to_ascii_lower :: "char \<Rightarrow> char" where
  "to_ascii_lower b = (if is_ascii_upper (of_char b) then char_of (of_char b + 32 :: nat) else b)"

definition to_ascii_lowercase :: "rstr \<Rightarrow> rstr" where
  "to_ascii_lowercase s = map to_ascii_lower s"

definition eq_ignore_ascii_case :: "rstr \<Rightarrow> rstr \<Rightarrow> bool" where
  "eq_ignore_ascii_case s t \<longleftrightarrow> to_ascii_lowercase s = to_ascii_lowercase t"

definition to_ascii_upper :: "char \<Rightarrow> char" where
  "to_ascii_upper b = (if is_ascii_lower (of_char b) then char_of (of_char b - 32 :: nat) else b)"

section \<open>Searching, stripping, splitting\<close>

fun strip_prefix :: "rstr \<Rightarrow> rstr \<Rightarrow> rstr option" where
  "strip_prefix [] s = Some s"
| "strip_prefix (p # ps) [] = None"
| "strip_prefix (p # ps) (c # s) = (if p = c then strip_prefix ps s else None)"

lemma strip_prefix_Some: "strip_prefix p s = Some t \<longleftrightarrow> s = p @ t"
  by (induction p s rule: strip_prefix.induct) auto

definition starts_with :: "rstr \<Rightarrow> rstr \<Rightarrow> bool" where
  "starts_with s p \<longleftrightarrow> strip_prefix p s \<noteq> None"

lemma starts_with_prefix: "starts_with s p \<longleftrightarrow> prefix p s"
  by (auto simp: starts_with_def strip_prefix_Some prefix_def)

definition strip_suffix :: "rstr \<Rightarrow> rstr \<Rightarrow> rstr option" where
  "strip_suffix p s = map_option rev (strip_prefix (rev p) (rev s))"

lemma strip_suffix_Some: "strip_suffix p s = Some t \<longleftrightarrow> s = t @ p"
  by (auto simp: strip_suffix_def strip_prefix_Some)
    (metis rev_append rev_rev_ident)

definition ends_with :: "rstr \<Rightarrow> rstr \<Rightarrow> bool" where
  "ends_with s p \<longleftrightarrow> strip_suffix p s \<noteq> None"

text \<open>Byte offset of the first occurrence: \<open>str::find\<close>.\<close>

fun find_sub :: "rstr \<Rightarrow> rstr \<Rightarrow> nat option" where
  "find_sub p [] = (if p = [] then Some 0 else None)"
| "find_sub p (c # s) =
     (if starts_with (c # s) p then Some 0 else map_option Suc (find_sub p s))"

definition contains :: "rstr \<Rightarrow> rstr \<Rightarrow> bool" where
  "contains s p \<longleftrightarrow> find_sub p s \<noteq> None"

lemma find_sub_Some:
  "find_sub p s = Some i \<Longrightarrow> i + length p \<le> length s \<and> take (length p) (drop i s) = p"
proof (induction p s arbitrary: i rule: find_sub.induct)
  case (1 p)
  then show ?case by (auto split: if_splits)
next
  case (2 p c s)
  show ?case
  proof (cases "starts_with (c # s) p")
    case True
    then have "prefix p (c # s)" by (simp add: starts_with_prefix)
    with True 2 show ?thesis by (auto simp: prefix_def dest: arg_cong [of _ _ length])
  next
    case False
    with 2 show ?thesis by auto
  qed
qed

lemma contains_sublist: "contains s p \<longleftrightarrow> sublist p s"
proof (induction s)
  case Nil
  then show ?case by (simp add: contains_def)
next
  case (Cons c s)
  then show ?case
    by (auto simp: contains_def starts_with_prefix sublist_Cons_right)
qed

text \<open>\<open>split(c)\<close>: the pieces between occurrences of \<open>c\<close>, always at least one.\<close>

fun split_on :: "char \<Rightarrow> rstr \<Rightarrow> rstr list" where
  "split_on c [] = [[]]"
| "split_on c (x # s) =
     (if x = c then [] # split_on c s
      else (case split_on c s of [] \<Rightarrow> [[x]] | p # ps \<Rightarrow> (x # p) # ps))"

fun join_with :: "rstr \<Rightarrow> rstr list \<Rightarrow> rstr" where
  "join_with sep [] = []"
| "join_with sep [p] = p"
| "join_with sep (p # q # ps) = p @ sep @ join_with sep (q # ps)"

lemma split_on_ne [simp]: "split_on c s \<noteq> []"
  by (induction s) (auto split: list.splits)

lemma join_split_on: "join_with [c] (split_on c s) = s"
proof (induction s)
  case (Cons x s)
  obtain p ps where "split_on c s = p # ps" by (cases "split_on c s") auto
  with Cons show ?case by (cases ps) auto
qed simp

lemma split_on_no_sep: "p \<in> set (split_on c s) \<Longrightarrow> c \<notin> set p"
proof (induction s arbitrary: p)
  case (Cons x s)
  obtain q qs where "split_on c s = q # qs" by (cases "split_on c s") auto
  with Cons show ?case by (auto split: if_splits)
qed simp

lemma split_on_fresh: "c \<notin> set s \<Longrightarrow> split_on c s = [s]"
  by (induction s) auto

lemma split_on_append_sep: "c \<notin> set p \<Longrightarrow> split_on c (p @ c # s) = p # split_on c s"
  by (induction p) auto

end
