(* ===== verification/RustText.thy ===== *)
theory RustText
  imports RustStr
begin

text \<open>
  Text operations on top of \<open>RustStr\<close>: trimming, line and word splitting, replacement,
  decimal printing, and \<open>truncate_utf8\<close> of \<open>services/pipeline_plan.rs\<close>, the one
  byte-capping routine that the planner and the log path share.
\<close>

section \<open>Trimming and words\<close>

definition trim_start :: "rstr \<Rightarrow> rstr" where
  "trim_start s = of_chars (dropWhile is_whitespace (chars s))"

definition trim :: "rstr \<Rightarrow> rstr" where
  "trim s = of_chars (rev (dropWhile is_whitespace (rev (dropWhile is_whitespace (chars s)))))"

fun words_of :: "uchar list \<Rightarrow> uchar list \<Rightarrow> uchar list list" where
  "words_of w [] = (if w = [] then [] else [rev w])"
| "words_of w (c # cs) =
     (if is_whitespace c then (if w = [] then words_of [] cs else rev w # words_of [] cs)
      else words_of (c # w) cs)"

definition split_whitespace :: "rstr \<Rightarrow> rstr list" where
  "split_whitespace s = map of_chars (words_of [] (chars s))"

section \<open>Lines\<close>

text \<open>
  \<open>str::lines\<close>: the text up to each newline, less a carriage return right before it; a
  last line without a newline counts, an empty rest does not.
\<close>

definition strip_cr :: "rstr \<Rightarrow> rstr" where
  "strip_cr l = (if l \<noteq> [] \<and> last l = CHR 0x0D then butlast l else l)"

fun lines_acc :: "rstr \<Rightarrow> rstr \<Rightarrow> rstr list" where
  "lines_acc l [] = (if l = [] then [] else [rev l])"
| "lines_acc l (c # s) =
     (if c = CHR 0x0A then strip_cr (rev l) # lines_acc [] s else lines_acc (c # l) s)"

definition lines :: "rstr \<Rightarrow> rstr list" where
  "lines s = lines_acc [] s"

section \<open>Replacement\<close>

text \<open>
  \<open>str::replace\<close> for a non-empty pattern: every occurrence, found from left to right
  without overlap.  The sources only call it with registered mask values, which are at
  least six bytes long.
\<close>

function str_replace :: "rstr \<Rightarrow> rstr \<Rightarrow> rstr \<Rightarrow> rstr" where
  "str_replace p t [] = []"
| "str_replace p t (c # s) =
     (if p \<noteq> [] \<and> starts_with (c # s) p then t @ str_replace p t (drop (length p) (c # s))
      else c # str_replace p t s)"
  by pat_completeness auto
termination
proof (relation "measure (\<lambda>(p, t, s). length s)")
  fix p t c s
  assume "p \<noteq> [] \<and> starts_with (c # s) p"
  then show "((p, t, drop (length p) (c # s)), (p, t, c # s)) \<in> measure (\<lambda>(p, t, s). length s)"
    by (cases p) auto
qed auto

declare str_replace.simps(2) [simp del]

lemma str_replace_hit:
  "p \<noteq> [] \<and> starts_with (c # s) p \<Longrightarrow>
     str_replace p t (c # s) = t @ str_replace p t (drop (length p) (c # s))"
  by (subst str_replace.simps(2)) simp

lemma str_replace_miss:
  "\<not> (p \<noteq> [] \<and> starts_with (c # s) p) \<Longrightarrow> str_replace p t (c # s) = c # str_replace p t s"
  by (subst str_replace.simps(2)) auto

lemma str_replace_induct [case_names empty hit miss]:
  assumes "P []"
    and "\<And>c s. p \<noteq> [] \<and> starts_with (c # s) p \<Longrightarrow> P (drop (length p) (c # s)) \<Longrightarrow> P (c # s)"
    and "\<And>c s. \<not> (p \<noteq> [] \<and> starts_with (c # s) p) \<Longrightarrow> P s \<Longrightarrow> P (c # s)"
  shows "P s"
proof (induction s rule: length_induct)
  case (1 s)
  show ?case
  proof (cases s)
    case Nil
    with assms(1) show ?thesis by simp
  next
    case (Cons c s')
    show ?thesis
    proof (cases "p \<noteq> [] \<and> starts_with (c # s') p")
      case True
      then have "length (drop (length p) (c # s')) < length s" using Cons by (cases p) auto
      with 1 have "P (drop (length p) (c # s'))" by blast
      with True Cons assms(2) show ?thesis by blast
    next
      case False
      with 1 Cons assms(3) show ?thesis by auto
    qed
  qed
qed

lemma str_replace_absent: "\<not> contains s p \<Longrightarrow> str_replace p t s = s"
proof (induction s)
  case (Cons c s)
  then have "\<not> starts_with (c # s) p" "\<not> contains s p"
    by (auto simp: contains_sublist starts_with_prefix sublist_Cons_right)
  with Cons.IH show ?case by (simp add: str_replace.simps)
qed simp

section \<open>Truncation\<close>

definition truncate_utf8 :: "rstr \<Rightarrow> nat \<Rightarrow> rstr" where
  "truncate_utf8 s n = (if length s \<le> n then s else take (floor_boundary s n) s)"

lemma truncate_utf8_length: "length (truncate_utf8 s n) \<le> n"
  using floor_boundary_le [of s n] by (auto simp: truncate_utf8_def)

lemma truncate_utf8_prefix: "prefix (truncate_utf8 s n) s"
  by (auto simp: truncate_utf8_def take_is_prefix)

lemma truncate_utf8_valid: "utf8 s \<Longrightarrow> utf8 (truncate_utf8 s n)"
  by (auto simp: truncate_utf8_def intro: utf8_take_boundary floor_boundary_boundary)

lemma truncate_utf8_id: "length s \<le> n \<Longrightarrow> truncate_utf8 s n = s"
  by (simp add: truncate_utf8_def)

lemma truncate_utf8_longest:
  assumes "i \<le> n" "i \<le> length s" "is_char_boundary s i"
  shows "i \<le> length (truncate_utf8 s n)"
  using assms floor_boundary_greatest [OF assms(1,3)] floor_boundary_le [of s n]
  by (auto simp: truncate_utf8_def)

text \<open>\<open>chars().take(n).collect()\<close>, and the control-stripping variant of it.\<close>

definition take_chars :: "nat \<Rightarrow> rstr \<Rightarrow> rstr" where
  "take_chars n s = of_chars (take n (chars s))"

definition strip_control_take :: "nat \<Rightarrow> rstr \<Rightarrow> rstr" where
  "strip_control_take n s = of_chars (take n (filter (\<lambda>c. \<not> is_control c) (chars s)))"

lemma scalar_chars: "utf8 s \<Longrightarrow> \<forall>c\<in>set (chars s). scalar c"
  by (auto simp: utf8_def chars_of_chars)

lemma chars_strip_control_take:
  assumes "utf8 s"
  shows "chars (strip_control_take n s) = take n (filter (\<lambda>c. \<not> is_control c) (chars s))"
  unfolding strip_control_take_def
  by (rule chars_of_chars) (use scalar_chars [OF assms] in \<open>auto dest: in_set_takeD\<close>)

section \<open>Decimal printing\<close>

fun dec :: "nat \<Rightarrow> rstr" where
  "dec n = (if n < 10 then [char_of (48 + n)] else dec (n div 10) @ [char_of (48 + n mod 10)])"

declare dec.simps [simp del]

lemma dec_nonempty [simp]: "dec n \<noteq> []"
  by (subst dec.simps) auto

definition dec_int :: "int \<Rightarrow> rstr" where
  "dec_int i = (if i < 0 then CHR ''-'' # dec (nat (- i)) else dec (nat i))"

fun dec_value :: "nat \<Rightarrow> rstr \<Rightarrow> nat" where
  "dec_value acc [] = acc"
| "dec_value acc (c # cs) = dec_value (10 * acc + (of_char c - 48)) cs"

lemma dec_value_append: "dec_value acc (xs @ ys) = dec_value (dec_value acc xs) ys"
  by (induction acc xs rule: dec_value.induct) auto

lemma dec_value_dec: "dec_value 0 (dec n) = n"
proof (induction n rule: less_induct)
  case (less n)
  show ?case
  proof (cases "n < 10")
    case True
    then show ?thesis by (simp add: dec.simps [of n])
  next
    case False
    then have "dec_value 0 (dec (n div 10)) = n div 10" using less [of "n div 10"] by simp
    moreover have "dec n = dec (n div 10) @ [char_of (48 + n mod 10)]"
      using False by (subst dec.simps) simp
    moreover have "n mod 10 < 10" by simp
    ultimately show ?thesis by (simp add: dec_value_append)
  qed
qed

lemma dec_inject: "dec m = dec n \<longleftrightarrow> m = n"
  by (metis dec_value_dec)

end
