(* ===== verification/Json.thy ===== *)
theory Json
  imports RustText
begin

text \<open>
  The JSON values of \<open>serde_json\<close>, as far as the sources look into them.  An object is
  its entries in key order (the crate's map is a \<open>BTreeMap\<close>); a number is carried as the
  text the crate prints for it, which is the only thing the sources do with one besides
  testing that it is a number.
\<close>

datatype json =
    JNull
  | JBool bool
  | JNum rstr
  | JStr rstr
  | JArr "json list"
  | JObj "(rstr \<times> json) list"

text \<open>\<open>value.get(key)\<close>, and \<open>value[key]\<close> which reads \<open>Null\<close> where there is nothing.\<close>

fun jget :: "json \<Rightarrow> rstr \<Rightarrow> json option" where
  "jget (JObj m) k = map_of m k"
| "jget _ k = None"

definition jidx :: "json \<Rightarrow> rstr \<Rightarrow> json" where
  "jidx v k = (case jget v k of None \<Rightarrow> JNull | Some x \<Rightarrow> x)"

fun j_str :: "json \<Rightarrow> rstr option" where
  "j_str (JStr s) = Some s"
| "j_str _ = None"

fun j_array :: "json \<Rightarrow> json list option" where
  "j_array (JArr xs) = Some xs"
| "j_array _ = None"

fun j_object :: "json \<Rightarrow> (rstr \<times> json) list option" where
  "j_object (JObj m) = Some m"
| "j_object _ = None"

fun filter_map :: "('a \<Rightarrow> 'b option) \<Rightarrow> 'a list \<Rightarrow> 'b list" where
  "filter_map f [] = []"
| "filter_map f (x # xs) = (case f x of None \<Rightarrow> filter_map f xs | Some y \<Rightarrow> y # filter_map f xs)"

lemma set_filter_map: "set (filter_map f xs) = {y. \<exists>x\<in>set xs. f x = Some y}"
  by (induction xs) (auto split: option.splits)

lemma filter_map_map_JStr [simp]: "filter_map j_str (map JStr xs) = xs"
  by (induction xs) auto

text \<open>Building an object from entries, as the \<open>json!\<close> macro does.\<close>

definition jobj :: "(rstr \<times> json) list \<Rightarrow> json" where
  "jobj kvs = JObj (bt_extend [] kvs)"

text \<open>\<open>v[key] = x\<close> on an object.\<close>

fun jset :: "rstr \<Rightarrow> json \<Rightarrow> json \<Rightarrow> json" where
  "jset k x (JObj m) = JObj (bt_insert k x m)"
| "jset k x v = v"

definition jopt :: "('a \<Rightarrow> json) \<Rightarrow> 'a option \<Rightarrow> json" where
  "jopt f x = (case x of None \<Rightarrow> JNull | Some y \<Rightarrow> f y)"

end
