(* ===== verification/TriggerEval.thy ===== *)
theory TriggerEval
  imports Json
begin

text \<open>
  Dispatch-time trigger evaluation, \<open>backend/src/services/trigger_eval.rs\<close>: the glob
  tokenizer and matcher, ordered filter lists with negation, and the decision whether a
  repository event runs a workflow.  The matcher is proved equal to the declarative reading of
  its patterns as languages.
\<close>

section \<open>Caps and event types\<close>

definition MAX_PATTERNS :: nat where "MAX_PATTERNS = 50"
definition MAX_PATTERN_LEN :: nat where "MAX_PATTERN_LEN = 256"
definition MAX_VALUE_LEN :: nat where "MAX_VALUE_LEN = 1024"

definition DEFAULT_PR_TYPES :: "rstr list" where
  "DEFAULT_PR_TYPES = [''opened'', ''synchronize'', ''reopened'']"

datatype Decision = Run | Skip rstr

definition SKIP_EVENT_NOT_DECLARED :: rstr where "SKIP_EVENT_NOT_DECLARED = ''event_not_declared''"
definition SKIP_BRANCH_FILTERED :: rstr where "SKIP_BRANCH_FILTERED = ''branch_filtered''"
definition SKIP_TAG_FILTERED :: rstr where "SKIP_TAG_FILTERED = ''tag_filtered''"
definition SKIP_PATH_FILTERED :: rstr where "SKIP_PATH_FILTERED = ''path_filtered''"
definition SKIP_TYPE_FILTERED :: rstr where "SKIP_TYPE_FILTERED = ''type_filtered''"

text \<open>\<open>Push\<close> carries the branch, \<open>TagPush\<close> the tag, \<open>PullRequest\<close> action and base branch.\<close>

datatype EventKind = Push rstr | TagPush rstr | PullRequest rstr rstr

record EventContext =
  kind :: EventKind
  changed_paths :: "rstr list option"

section \<open>Tokens\<close>

datatype Tok = Lit uchar | Class "(uchar \<times> uchar) list" | AnyNoSlash | AnyAll

datatype Quant = One | ZeroOrOne | OneOrMore

type_synonym token = "Tok \<times> Quant"

text \<open>
  \<open>parse_class\<close>: \<open>rs\<close> are the ranges pushed so far and \<open>i\<close> the position; the last
  argument is \<open>rest[i..]\<close>.
\<close>

function parse_class_at ::
  "(uchar \<times> uchar) list \<Rightarrow> nat \<Rightarrow> uchar list \<Rightarrow> ((uchar \<times> uchar) list \<times> nat) option" where
  "parse_class_at rs i [] = None"
| "parse_class_at rs i (c # cs) =
     (if c = ch CHR '']'' then (if rs = [] then None else Some (rs, i + 1))
      else case cs of
        d # e # cs' \<Rightarrow>
          if d = ch CHR ''-'' \<and> e \<noteq> ch CHR '']''
          then parse_class_at (if c \<le> e then rs @ [(c, e)] else rs) (i + 3) cs'
          else parse_class_at (rs @ [(c, c)]) (i + 1) cs
      | _ \<Rightarrow> parse_class_at (rs @ [(c, c)]) (i + 1) cs)"
  by pat_completeness auto
termination
  by (relation "measure (\<lambda>(rs, i, cs). length cs)") auto

definition parse_class :: "uchar list \<Rightarrow> ((uchar \<times> uchar) list \<times> nat) option" where
  "parse_class rest = parse_class_at [] 0 rest"

text \<open>
  A quantifier character changes the last token when that token has none yet, and is a literal
  otherwise.  The tokens are accumulated in reverse, so the last one is the head.
\<close>

fun quantify :: "Quant \<Rightarrow> uchar \<Rightarrow> token list \<Rightarrow> token list" where
  "quantify q c ((t, One) # acc) = (t, q) # acc"
| "quantify q c acc = (Lit c, One) # acc"

function tokenize_onto :: "token list \<Rightarrow> uchar list \<Rightarrow> token list" where
  "tokenize_onto acc [] = rev acc"
| "tokenize_onto acc (c # cs) =
     (if c = 0x5C then
        (case cs of
           d # cs' \<Rightarrow> tokenize_onto ((Lit d, One) # acc) cs'
         | [] \<Rightarrow> tokenize_onto ((Lit 0x5C, One) # acc) cs)
      else if c = ch CHR ''*'' then
        (case cs of
           d # cs' \<Rightarrow> if d = ch CHR ''*'' then tokenize_onto ((AnyAll, One) # acc) cs'
                      else tokenize_onto ((AnyNoSlash, One) # acc) cs
         | [] \<Rightarrow> tokenize_onto ((AnyNoSlash, One) # acc) cs)
      else if c = ch CHR ''['' then
        (case parse_class cs of
           Some (ranges, consumed) \<Rightarrow> tokenize_onto ((Class ranges, One) # acc) (drop consumed cs)
         | None \<Rightarrow> tokenize_onto ((Lit (ch CHR ''[''), One) # acc) cs)
      else if c = ch CHR ''?'' then tokenize_onto (quantify ZeroOrOne (ch CHR ''?'') acc) cs
      else if c = ch CHR ''+'' then tokenize_onto (quantify OneOrMore (ch CHR ''+'') acc) cs
      else tokenize_onto ((Lit c, One) # acc) cs)"
  by pat_completeness auto
termination
  by (relation "measure (\<lambda>(acc, cs). length cs)") auto

definition tokenize :: "rstr \<Rightarrow> token list" where
  "tokenize pattern = tokenize_onto [] (chars pattern)"

section \<open>The position-set matcher\<close>

fun tok_matches :: "Tok \<Rightarrow> uchar \<Rightarrow> bool" where
  "tok_matches (Lit l) c = (c = l)"
| "tok_matches (Class ranges) c = list_ex (\<lambda>(lo, hi). lo \<le> c \<and> c \<le> hi) ranges"
| "tok_matches _ c = False"

text \<open>The inner loop of a star from one start: mark every position the run can end at.\<close>

fun star_run :: "bool \<Rightarrow> nat \<Rightarrow> uchar list \<Rightarrow> bool list \<Rightarrow> bool list" where
  "star_run cross_slash p [] nxt = nxt"
| "star_run cross_slash p (c # cs) nxt =
     (if \<not> cross_slash \<and> c = ch CHR ''/'' then nxt
      else star_run cross_slash (Suc p) cs (nxt[Suc p := True]))"

text \<open>The \<open>while matches_at(pos)\<close> loop of a \<open>+\<close>.\<close>

fun plus_run :: "Tok \<Rightarrow> nat \<Rightarrow> uchar list \<Rightarrow> bool list \<Rightarrow> bool list" where
  "plus_run t p [] nxt = nxt"
| "plus_run t p (c # cs) nxt =
     (if tok_matches t c then plus_run t (Suc p) cs (nxt[Suc p := True]) else nxt)"

definition matches_at :: "Tok \<Rightarrow> uchar list \<Rightarrow> nat \<Rightarrow> bool" where
  "matches_at t v p \<longleftrightarrow> p < length v \<and> tok_matches t (v ! p)"

fun step_from :: "token \<Rightarrow> uchar list \<Rightarrow> nat \<Rightarrow> bool list \<Rightarrow> bool list" where
  "step_from (AnyNoSlash, q) v p nxt = star_run False p (drop p v) (nxt[p := True])"
| "step_from (AnyAll, q) v p nxt = star_run True p (drop p v) (nxt[p := True])"
| "step_from (t, One) v p nxt = (if matches_at t v p then nxt[Suc p := True] else nxt)"
| "step_from (t, ZeroOrOne) v p nxt =
     (let nxt = nxt[p := True] in if matches_at t v p then nxt[Suc p := True] else nxt)"
| "step_from (t, OneOrMore) v p nxt = plus_run t p (drop p v) nxt"

definition step_all :: "token \<Rightarrow> uchar list \<Rightarrow> bool list \<Rightarrow> bool list" where
  "step_all tq v positions =
     foldl (\<lambda>nxt start. if positions ! start then step_from tq v start nxt else nxt)
       (replicate (length v + 1) False) [0..<length positions]"

fun glob_loop :: "token list \<Rightarrow> uchar list \<Rightarrow> bool list \<Rightarrow> bool" where
  "glob_loop [] v positions = positions ! length v"
| "glob_loop (tq # tqs) v positions =
     (let positions = step_all tq v positions in
      if \<not> list_ex id positions then False else glob_loop tqs v positions)"

definition glob_match :: "rstr \<Rightarrow> rstr \<Rightarrow> bool" where
  "glob_match pattern value =
     (if length pattern > MAX_PATTERN_LEN \<or> length value > MAX_VALUE_LEN then False
      else let v = chars value in
        glob_loop (tokenize pattern) v ((replicate (length v + 1) False)[0 := True]))"

section \<open>The language of a pattern\<close>

fun char_lang :: "Tok \<Rightarrow> Quant \<Rightarrow> uchar list set" where
  "char_lang t One = {[c] | c. tok_matches t c}"
| "char_lang t ZeroOrOne = insert [] {[c] | c. tok_matches t c}"
| "char_lang t OneOrMore = {w. w \<noteq> [] \<and> (\<forall>c\<in>set w. tok_matches t c)}"

fun tok_lang :: "token \<Rightarrow> uchar list set" where
  "tok_lang (AnyNoSlash, q) = {w. ch CHR ''/'' \<notin> set w}"
| "tok_lang (AnyAll, q) = UNIV"
| "tok_lang (Lit l, q) = char_lang (Lit l) q"
| "tok_lang (Class r, q) = char_lang (Class r) q"

fun seq_lang :: "token list \<Rightarrow> uchar list set" where
  "seq_lang [] = {[]}"
| "seq_lang (tq # tqs) = {u @ w | u w. u \<in> tok_lang tq \<and> w \<in> seq_lang tqs}"

section \<open>The matcher decides the language\<close>

definition marked :: "bool list \<Rightarrow> nat set" where
  "marked nxt = {i. i < length nxt \<and> nxt ! i}"

lemma marked_update [simp]: "i < length nxt \<Longrightarrow> marked (nxt[i := True]) = insert i (marked nxt)"
  by (auto simp: marked_def nth_list_update split: if_splits)

lemma marked_replicate [simp]: "marked (replicate n False) = {}"
  by (auto simp: marked_def)

lemma marked_start [simp]:
  "marked (False # replicate n False) = {}" "marked (True # replicate n False) = {0}"
  by (auto simp: marked_def nth_Cons' less_Suc_eq_0_disj split: if_splits)

lemma length_star_run [simp]: "length (star_run x p cs nxt) = length nxt"
  by (induction x p cs nxt rule: star_run.induct) auto

lemma length_plus_run [simp]: "length (plus_run t p cs nxt) = length nxt"
  by (induction t p cs nxt rule: plus_run.induct) auto

lemma ends_Cons:
  "{p + k | k. 0 < k \<and> k \<le> length (c # cs) \<and> P (take k (c # cs))} =
    (if P [c] then {Suc p} else {}) \<union>
    {Suc p + k | k. 0 < k \<and> k \<le> length cs \<and> P (c # take k cs)}" (is "?L = ?R")
proof
  show "?L \<subseteq> ?R"
  proof
    fix i assume "i \<in> ?L"
    then obtain k where "i = p + k" "0 < k" "k \<le> length (c # cs)" "P (take k (c # cs))" by blast
    then show "i \<in> ?R" by (cases k; cases "k - 1") auto
  qed
  show "?R \<subseteq> ?L"
  proof
    fix i assume "i \<in> ?R"
    then consider "P [c]" "i = Suc p" |
      k where "i = Suc p + k" "0 < k" "k \<le> length cs" "P (c # take k cs)"
      by (auto split: if_splits)
    then show "i \<in> ?L"
    proof cases
      case 1
      then show ?thesis by (intro CollectI exI [of _ 1]) auto
    next
      case 2
      then show ?thesis by (intro CollectI exI [of _ "Suc k"]) auto
    qed
  qed
qed

lemma marked_star_run:
  "p + length cs < length nxt \<Longrightarrow>
    marked (star_run x p cs nxt) = marked nxt \<union>
      {p + k | k. 0 < k \<and> k \<le> length cs \<and> (x \<or> ch CHR ''/'' \<notin> set (take k cs))}"
proof (induction x p cs nxt rule: star_run.induct)
  case (1 x p nxt)
  then show ?case by auto
next
  case (2 x p c cs nxt)
  show ?case
    using 2 unfolding ends_Cons [where P = "\<lambda>w. x \<or> ch CHR ''/'' \<notin> set w"]
    by auto
qed

lemma marked_plus_run:
  "p + length cs < length nxt \<Longrightarrow>
    marked (plus_run t p cs nxt) = marked nxt \<union>
      {p + k | k. 0 < k \<and> k \<le> length cs \<and> (\<forall>c\<in>set (take k cs). tok_matches t c)}"
proof (induction t p cs nxt rule: plus_run.induct)
  case (1 t p nxt)
  then show ?case by auto
next
  case (2 t p c cs nxt)
  show ?case
    using 2 unfolding ends_Cons [where P = "\<lambda>w. \<forall>c\<in>set w. tok_matches t c"]
    by auto
qed

text \<open>The positions one token can reach from one start.\<close>

definition ends_from :: "token \<Rightarrow> uchar list \<Rightarrow> nat \<Rightarrow> nat set" where
  "ends_from tq v p = {p + k | k. p + k \<le> length v \<and> take k (drop p v) \<in> tok_lang tq}"

lemma length_step_from [simp]: "length (step_from tq v p nxt) = length nxt"
  by (cases tq; cases "fst tq"; cases "snd tq") (auto simp: Let_def)

lemma ends_split0:
  "p \<le> length v \<Longrightarrow>
    {p + k | k. p + k \<le> length v \<and> P (take k (drop p v))} =
      (if P [] then {p} else {}) \<union>
      {p + k | k. 0 < k \<and> k \<le> length (drop p v) \<and> P (take k (drop p v))}" (is "_ \<Longrightarrow> ?L = ?R")
proof -
  assume p: "p \<le> length v"
  have "i \<in> ?L \<longleftrightarrow> i \<in> ?R" for i
  proof
    assume "i \<in> ?L"
    then obtain k where "i = p + k" "p + k \<le> length v" "P (take k (drop p v))" by blast
    then show "i \<in> ?R" by (cases "k = 0") auto
  next
    assume "i \<in> ?R"
    then consider "P []" "i = p" |
      k where "i = p + k" "0 < k" "k \<le> length (drop p v)" "P (take k (drop p v))"
      by (auto split: if_splits)
    then show "i \<in> ?L" using p by cases (auto intro!: exI [of _ 0])
  qed
  then show ?thesis by blast
qed

lemma take1_ends:
  assumes "p \<le> length v"
  shows "{p + k | k. 0 < k \<and> k \<le> length (drop p v) \<and> (\<exists>c. take k (drop p v) = [c] \<and> tok_matches t c)} =
    (if matches_at t v p then {Suc p} else {})" (is "?L = ?R")
proof -
  have "i \<in> ?L \<longleftrightarrow> i \<in> ?R" for i
  proof
    assume "i \<in> ?L"
    then obtain k c where k: "i = p + k" "k \<le> length (drop p v)" "0 < k"
      "take k (drop p v) = [c]" "tok_matches t c" by blast
    have "length (take k (drop p v)) = k" using k(2) by simp
    then have "k = 1" unfolding k(4) by simp
    with k have "p < length v" "v ! p = c"
      by (auto simp: take_Suc hd_drop_conv_nth split: if_splits)
    with k \<open>k = 1\<close> show "i \<in> ?R" by (simp add: matches_at_def)
  next
    assume "i \<in> ?R"
    then have m: "matches_at t v p" "i = Suc p" by (auto split: if_splits)
    then have "take 1 (drop p v) = [v ! p]" by (simp add: matches_at_def take_Suc hd_drop_conv_nth)
    with m show "i \<in> ?L" by (intro CollectI exI [of _ 1]) (auto simp: matches_at_def)
  qed
  then show ?thesis by blast
qed

lemma marked_step_char:
  assumes "p \<le> length v" "length nxt = Suc (length v)"
  shows "marked nxt \<union> {p + k | k. p + k \<le> length v \<and> take k (drop p v) \<in> char_lang t One} =
      marked (if matches_at t v p then nxt[Suc p := True] else nxt)"
    and "marked nxt \<union> {p + k | k. p + k \<le> length v \<and> take k (drop p v) \<in> char_lang t ZeroOrOne} =
      marked (let nxt = nxt[p := True] in if matches_at t v p then nxt[Suc p := True] else nxt)"
    and "marked nxt \<union> {p + k | k. p + k \<le> length v \<and> take k (drop p v) \<in> char_lang t OneOrMore} =
      marked (plus_run t p (drop p v) nxt)"
proof -
  have u: "matches_at t v p \<Longrightarrow> Suc p < length nxt" using assms by (auto simp: matches_at_def)
  note e = ends_split0 [OF assms(1), where P = "\<lambda>w. w \<in> char_lang t q" for q]
  show "marked nxt \<union> {p + k | k. p + k \<le> length v \<and> take k (drop p v) \<in> char_lang t One} =
      marked (if matches_at t v p then nxt[Suc p := True] else nxt)"
    unfolding e using take1_ends [OF assms(1), of t] u by auto
  show "marked nxt \<union> {p + k | k. p + k \<le> length v \<and> take k (drop p v) \<in> char_lang t ZeroOrOne} =
      marked (let nxt = nxt[p := True] in if matches_at t v p then nxt[Suc p := True] else nxt)"
  proof -
    have "{p + k | k. 0 < k \<and> k \<le> length (drop p v) \<and> take k (drop p v) \<in> char_lang t ZeroOrOne} =
      {p + k | k. 0 < k \<and> k \<le> length (drop p v) \<and> (\<exists>c. take k (drop p v) = [c] \<and> tok_matches t c)}"
      by auto
    then show ?thesis
      unfolding e using take1_ends [OF assms(1), of t] u assms by (simp add: Let_def insert_commute)
  qed
  show "marked nxt \<union> {p + k | k. p + k \<le> length v \<and> take k (drop p v) \<in> char_lang t OneOrMore} =
      marked (plus_run t p (drop p v) nxt)"
    unfolding e using assms by (subst marked_plus_run) auto
qed

lemma marked_step_from:
  assumes "p \<le> length v" "length nxt = Suc (length v)"
  shows "marked (step_from tq v p nxt) = marked nxt \<union> ends_from tq v p"
proof -
  obtain t q where tq: "tq = (t, q)" by (cases tq)
  have star: "marked (star_run x p (drop p v) (nxt[p := True])) =
      marked nxt \<union> {p + k | k. p + k \<le> length v \<and> (x \<or> ch CHR ''/'' \<notin> set (take k (drop p v)))}" for x
    using ends_split0 [OF assms(1), of "\<lambda>w. x \<or> ch CHR ''/'' \<notin> set w"] assms
    by (subst marked_star_run) auto
  show ?thesis
  proof (cases t)
    case (Lit l)
    then show ?thesis using marked_step_char [OF assms, of t] unfolding tq ends_from_def
      by (cases q) (simp_all only: step_from.simps tok_lang.simps)
  next
    case (Class r)
    then show ?thesis using marked_step_char [OF assms, of t] unfolding tq ends_from_def
      by (cases q) (simp_all only: step_from.simps tok_lang.simps)
  next
    case AnyNoSlash
    then show ?thesis using star [of False] unfolding tq ends_from_def by simp
  next
    case AnyAll
    then show ?thesis using star [of True] unfolding tq ends_from_def by simp
  qed
qed

lemma step_all_marked:
  assumes "length positions = Suc (length v)"
  shows "marked (step_all tq v positions) = (\<Union>p\<in>marked positions. ends_from tq v p)"
    "length (step_all tq v positions) = Suc (length v)"
proof -
  let ?f = "\<lambda>nxt start. if positions ! start then step_from tq v start nxt else nxt"
  have "marked (foldl ?f nxt is) = marked nxt \<union> (\<Union>p\<in>{p\<in>set is. positions ! p}. ends_from tq v p)
      \<and> length (foldl ?f nxt is) = Suc (length v)"
    if "\<forall>p\<in>set is. p \<le> length v" "length nxt = Suc (length v)" for nxt "is"
    using that by (induction "is" arbitrary: nxt) (auto simp: marked_step_from)
  from this [of "[0..<length positions]" "replicate (length v + 1) False"] assms
  have m: "marked (step_all tq v positions) =
      (\<Union>p\<in>{p\<in>set [0..<length positions]. positions ! p}. ends_from tq v p)"
    and l: "length (step_all tq v positions) = Suc (length v)"
    by (simp_all add: step_all_def)
  have "{p\<in>set [0..<length positions]. positions ! p} = marked positions" by (auto simp: marked_def)
  with m l show "marked (step_all tq v positions) = (\<Union>p\<in>marked positions. ends_from tq v p)"
    "length (step_all tq v positions) = Suc (length v)" by simp_all
qed

lemma drop_in_seq_lang_Cons:
  assumes "p \<le> length v"
  shows "drop p v \<in> seq_lang (tq # tqs) \<longleftrightarrow> (\<exists>j\<in>ends_from tq v p. drop j v \<in> seq_lang tqs)"
proof
  assume "drop p v \<in> seq_lang (tq # tqs)"
  then obtain u w where uw: "drop p v = u @ w" "u \<in> tok_lang tq" "w \<in> seq_lang tqs" by auto
  then have "take (length u) (drop p v) = u" "drop (p + length u) v = w"
    by (simp, metis append_eq_conv_conj drop_drop add.commute)
  moreover have "length u \<le> length (drop p v)" using uw(1) by simp
  then have "p + length u \<le> length v" using assms by simp
  ultimately show "\<exists>j\<in>ends_from tq v p. drop j v \<in> seq_lang tqs"
    using uw by (intro bexI [of _ "p + length u"]) (auto simp: ends_from_def)
next
  assume "\<exists>j\<in>ends_from tq v p. drop j v \<in> seq_lang tqs"
  then obtain k where "take k (drop p v) \<in> tok_lang tq" "drop (p + k) v \<in> seq_lang tqs"
    by (auto simp: ends_from_def)
  moreover have "drop p v = take k (drop p v) @ drop (p + k) v"
    by (metis append_take_drop_id drop_drop add.commute)
  ultimately show "drop p v \<in> seq_lang (tq # tqs)" by auto
qed

lemma ends_from_le: "j \<in> ends_from tq v p \<Longrightarrow> j \<le> length v"
  by (auto simp: ends_from_def)

lemma list_ex_marked: "list_ex id positions \<longleftrightarrow> marked positions \<noteq> {}"
  by (auto simp: list_ex_length marked_def)

lemma glob_loop_lang:
  "length positions = Suc (length v) \<Longrightarrow>
    glob_loop tqs v positions \<longleftrightarrow> (\<exists>p\<in>marked positions. drop p v \<in> seq_lang tqs)"
proof (induction tqs arbitrary: positions)
  case Nil
  then show ?case by (auto simp: marked_def less_Suc_eq)
next
  case (Cons tq tqs)
  let ?next = "step_all tq v positions"
  have le: "p \<in> marked positions \<Longrightarrow> p \<le> length v" for p using Cons.prems by (auto simp: marked_def)
  have "glob_loop (tq # tqs) v positions \<longleftrightarrow> (\<exists>j\<in>marked ?next. drop j v \<in> seq_lang tqs)"
    using Cons.IH [OF step_all_marked(2) [OF Cons.prems]] by (auto simp: Let_def list_ex_marked)
  also have "\<dots> \<longleftrightarrow> (\<exists>p\<in>marked positions. \<exists>j\<in>ends_from tq v p. drop j v \<in> seq_lang tqs)"
    using step_all_marked(1) [OF Cons.prems] by auto
  also have "\<dots> \<longleftrightarrow> (\<exists>p\<in>marked positions. drop p v \<in> seq_lang (tq # tqs))"
    using drop_in_seq_lang_Cons le by (intro bex_cong) auto
  finally show ?case .
qed

text \<open>
  C14: the iterative position-set matcher decides exactly the language its pattern denotes.
  For every pattern and value, \<open>glob_match\<close> answers true if and only if both are within their
  byte caps and the characters of the value are in the concatenation of the languages of the
  pattern's tokens (\<open>*\<close>: no slash, \<open>**\<close>: anything, \<open>?\<close> and \<open>+\<close> on literals and classes).
\<close>

theorem glob_match_language:
  "glob_match pattern value \<longleftrightarrow>
     length pattern \<le> MAX_PATTERN_LEN \<and> length value \<le> MAX_VALUE_LEN \<and>
     chars value \<in> seq_lang (tokenize pattern)"
proof -
  let ?v = "chars value"
  have "marked ((replicate (length ?v + 1) False)[0 := True]) = {0}" by simp
  then have "glob_loop (tokenize pattern) ?v ((replicate (length ?v + 1) False)[0 := True]) \<longleftrightarrow>
      ?v \<in> seq_lang (tokenize pattern)"
    using glob_loop_lang [of "(replicate (length ?v + 1) False)[0 := True]" ?v "tokenize pattern"]
    by simp
  then show ?thesis by (auto simp: glob_match_def Let_def)
qed

section \<open>Plain patterns\<close>

definition special :: "uchar \<Rightarrow> bool" where
  "special c \<longleftrightarrow> c = 0x5C \<or> c = ch CHR ''*'' \<or> c = ch CHR ''['' \<or> c = ch CHR ''?'' \<or> c = ch CHR ''+''"

definition plain :: "rstr \<Rightarrow> bool" where
  "plain p \<longleftrightarrow> utf8 p \<and> length p \<le> MAX_PATTERN_LEN \<and> list_all (\<lambda>c. \<not> special c) (chars p)"

lemma tokenize_onto_plain:
  "list_all (\<lambda>c. \<not> special c) cs \<Longrightarrow>
    tokenize_onto acc cs = rev acc @ map (\<lambda>c. (Lit c, One)) cs"
  by (induction cs arbitrary: acc) (auto simp: special_def)

lemma seq_lang_plain: "seq_lang (map (\<lambda>c. (Lit c, One)) cs) = {cs}"
  by (induction cs) auto

lemma chars_inject: "utf8 s \<Longrightarrow> utf8 t \<Longrightarrow> chars s = chars t \<longleftrightarrow> s = t"
  by (metis of_chars_chars)

lemma glob_match_plain:
  assumes "plain p" "utf8 v"
  shows "glob_match p v \<longleftrightarrow> v = p"
proof -
  have "glob_match p v \<longleftrightarrow> length v \<le> MAX_VALUE_LEN \<and> chars v = chars p"
    using assms by (simp add: glob_match_language plain_def tokenize_def tokenize_onto_plain seq_lang_plain)
  then show ?thesis
    using assms chars_inject by (auto simp: plain_def MAX_PATTERN_LEN_def MAX_VALUE_LEN_def)
qed

section \<open>Ordered filter lists\<close>

text \<open>
  \<open>match_ordered\<close> applies the patterns in order; the matcher it calls is a parameter of
  \<open>match_from\<close>, so that what holds of any matcher is proved once.
\<close>

fun match_from :: "(rstr \<Rightarrow> rstr \<Rightarrow> bool) \<Rightarrow> bool \<Rightarrow> rstr list \<Rightarrow> rstr \<Rightarrow> bool" where
  "match_from m matched [] value = matched"
| "match_from m matched (pattern # ps) value =
     (case strip_prefix ''!'' pattern of
        Some negated \<Rightarrow> match_from m (if matched \<and> m negated value then False else matched) ps value
      | None \<Rightarrow> match_from m (if m pattern value then True else matched) ps value)"

definition match_ordered :: "rstr list \<Rightarrow> rstr \<Rightarrow> bool" where
  "match_ordered patterns value = match_from glob_match False patterns value"

definition positive :: "rstr \<Rightarrow> bool" where
  "positive pattern \<longleftrightarrow> strip_prefix ''!'' pattern = None"

definition body_of :: "rstr \<Rightarrow> rstr" where
  "body_of pattern = (case strip_prefix ''!'' pattern of Some b \<Rightarrow> b | None \<Rightarrow> pattern)"

text \<open>
  The interface the filter lists ask of a matcher: patterns over the cap match nothing, and a
  plain pattern matches itself and nothing else.
\<close>

locale glob_engine =
  fixes m :: "rstr \<Rightarrow> rstr \<Rightarrow> bool"
  assumes oversize: "MAX_PATTERN_LEN < length p \<Longrightarrow> \<not> m p v"
    and plain_exact: "plain p \<Longrightarrow> utf8 v \<Longrightarrow> m p v \<longleftrightarrow> v = p"
begin

lemma last_hit:
  "match_from m b ps v =
    (case first_with (\<lambda>p. m (body_of p) v) (rev ps) of
       Some p \<Rightarrow> positive p
     | None \<Rightarrow> b)"
proof (induction ps arbitrary: b)
  case (Cons p ps)
  have snoc: "first_with P (xs @ [x]) =
      (case first_with P xs of Some y \<Rightarrow> Some y | None \<Rightarrow> if P x then Some x else None)"
    for P and x :: rstr and xs by (induction xs) auto
  show ?case
    by (auto simp: Cons snoc positive_def body_of_def split: option.splits)
qed simp

lemma names_last_hit:
  assumes "\<forall>p\<in>set ps. plain (body_of p)" "utf8 v"
  shows "match_from m b ps v =
    (case first_with (\<lambda>p. body_of p = v) (rev ps) of Some p \<Rightarrow> positive p | None \<Rightarrow> b)"
proof -
  have "first_with (\<lambda>p. m (body_of p) v) qs = first_with (\<lambda>p. body_of p = v) qs"
    if "\<forall>p\<in>set qs. plain (body_of p)" for qs
    using that plain_exact assms(2) by (induction qs) auto
  with assms(1) show ?thesis by (simp add: last_hit)
qed

end

lemma glob_match_oversize: "MAX_PATTERN_LEN < length p \<Longrightarrow> \<not> glob_match p v"
  by (simp add: glob_match_def)

interpretation glob: glob_engine glob_match
  by unfold_locales (simp_all only: glob_match_oversize glob_match_plain not_False_eq_True)

text \<open>
  in a filter list the last pattern that matches decides.  A value is accepted if and only
  if some pattern of the list matches it (a \<open>!\<close> taken off) and the last such pattern is not
  negated; in particular a list without a positive match accepts nothing.
\<close>

theorem match_ordered_last_wins:
  "match_ordered ps v \<longleftrightarrow>
     (\<exists>p. first_with (\<lambda>p. glob_match (body_of p) v) (rev ps) = Some p \<and> positive p)"
  by (auto simp: match_ordered_def glob.last_hit split: option.splits)

text \<open>
  a list of plain names is a list of names.  When no pattern uses a glob character, the
  list accepts exactly the values whose own last entry in it is positive: no escape, class or
  quantifier sneaks in, for any valid value.
\<close>

theorem match_ordered_names:
  assumes "\<forall>p\<in>set ps. plain (body_of p)" "utf8 v"
  shows "match_ordered ps v \<longleftrightarrow>
    (\<exists>p. first_with (\<lambda>p. body_of p = v) (rev ps) = Some p \<and> positive p)"
  using glob.names_last_hit [OF assms]
  by (auto simp: match_ordered_def split: option.splits)

theorem match_ordered_names_witness:
  "match_ordered [''main'', ''dev'', ''!dev''] ''main'' \<and> \<not> match_ordered [''main'', ''dev'', ''!dev''] ''dev''"
proof -
  have pl: "plain ''main''" "plain ''dev''"
    by (simp_all add: plain_def utf8_ascii ascii_def MAX_PATTERN_LEN_def Let_def special_def)
  have h: "\<forall>p\<in>set [''main'', ''dev'', ''!dev'']. plain (body_of p)"
    using pl by (simp add: body_of_def)
  have u: "utf8 ''main''" "utf8 ''dev''" by (simp_all add: utf8_ascii ascii_def)
  show ?thesis
    using match_ordered_names [OF h u(1)] match_ordered_names [OF h u(2)]
    by (simp add: body_of_def positive_def)
qed

section \<open>Evaluating an event\<close>

definition patterns :: "json \<Rightarrow> rstr \<Rightarrow> rstr list" where
  "patterns filters key =
     (case j_array (jidx filters key) of
        None \<Rightarrow> []
      | Some list \<Rightarrow>
          take MAX_PATTERNS
            (filter (\<lambda>p. p \<noteq> [] \<and> length p \<le> MAX_PATTERN_LEN) (filter_map j_str list)))"

definition evaluate_paths :: "json \<Rightarrow> rstr list option \<Rightarrow> Decision" where
  "evaluate_paths filters changed_files =
     (let paths = patterns filters ''paths'';
          paths_ignore = patterns filters ''pathsIgnore'' in
      if paths = [] \<and> paths_ignore = [] then Run
      else case changed_files of
        None \<Rightarrow> Run
      | Some changed \<Rightarrow>
          if (if paths \<noteq> [] then list_ex (\<lambda>p. match_ordered paths p) changed
              else list_ex (\<lambda>p. \<not> match_ordered paths_ignore p) changed)
          then Run else Skip SKIP_PATH_FILTERED)"

definition evaluate :: "rstr list \<Rightarrow> json \<Rightarrow> EventContext \<Rightarrow> Decision" where
  "evaluate triggers metadata ctx =
     (let declared_event = (case kind ctx of
            Push _ \<Rightarrow> ''push'' | TagPush _ \<Rightarrow> ''push'' | PullRequest _ _ \<Rightarrow> ''pull_request'') in
      if declared_event \<notin> set triggers then Skip SKIP_EVENT_NOT_DECLARED
      else let filters = jidx metadata ''triggerFilters'' in
      case kind ctx of
        Push branch \<Rightarrow>
          (let push = jidx filters ''push'';
               branches = patterns push ''branches'';
               branches_ignore = patterns push ''branchesIgnore'';
               tags = patterns push ''tags'';
               tags_ignore = patterns push ''tagsIgnore'' in
           if (if branches \<noteq> [] then \<not> match_ordered branches branch
               else if branches_ignore \<noteq> [] then match_ordered branches_ignore branch
               else tags \<noteq> [] \<or> tags_ignore \<noteq> [])
           then Skip SKIP_BRANCH_FILTERED
           else evaluate_paths push (changed_paths ctx))
      | TagPush tag \<Rightarrow>
          (let push = jidx filters ''push'';
               branches = patterns push ''branches'';
               branches_ignore = patterns push ''branchesIgnore'';
               tags = patterns push ''tags'';
               tags_ignore = patterns push ''tagsIgnore'' in
           if (if tags \<noteq> [] then \<not> match_ordered tags tag
               else if tags_ignore \<noteq> [] then match_ordered tags_ignore tag
               else branches \<noteq> [] \<or> branches_ignore \<noteq> [])
           then Skip SKIP_TAG_FILTERED
           else Run)
      | PullRequest action base_branch \<Rightarrow>
          (let pr = jidx filters ''pullRequest'';
               types = patterns pr ''types'' in
           if \<not> (if types = [] then action \<in> set DEFAULT_PR_TYPES else action \<in> set types)
           then Skip SKIP_TYPE_FILTERED
           else let branches = patterns pr ''branches'';
                    branches_ignore = patterns pr ''branchesIgnore'' in
           if (if branches \<noteq> [] then \<not> match_ordered branches base_branch
               else branches_ignore \<noteq> [] \<and> match_ordered branches_ignore base_branch)
           then Skip SKIP_BRANCH_FILTERED
           else evaluate_paths pr (changed_paths ctx)))"

lemma patterns_bounds:
  "length (patterns f k) \<le> MAX_PATTERNS"
  "p \<in> set (patterns f k) \<Longrightarrow> p \<noteq> [] \<and> length p \<le> MAX_PATTERN_LEN"
  by (auto simp: patterns_def split: option.splits dest: in_set_takeD)

text \<open>One filtered dimension: an include list wins over an ignore list; \<open>other\<close> when neither is given.\<close>

definition admits :: "rstr list \<Rightarrow> rstr list \<Rightarrow> bool \<Rightarrow> rstr \<Rightarrow> bool" where
  "admits incl ign other v \<longleftrightarrow>
     (if incl \<noteq> [] then match_ordered incl v
      else if ign \<noteq> [] then \<not> match_ordered ign v else other)"

definition paths_admit :: "json \<Rightarrow> rstr list option \<Rightarrow> bool" where
  "paths_admit f changed \<longleftrightarrow>
     changed = None \<or> (patterns f ''paths'' = [] \<and> patterns f ''pathsIgnore'' = []) \<or>
     (\<exists>cs. changed = Some cs \<and>
        (\<exists>p\<in>set cs. admits (patterns f ''paths'') (patterns f ''pathsIgnore'') False p))"

lemma evaluate_paths_cases:
  "evaluate_paths f changed = (if paths_admit f changed then Run else Skip SKIP_PATH_FILTERED)"
  by (auto simp: evaluate_paths_def paths_admit_def admits_def Let_def list_ex_iff split: option.splits)

abbreviation push_filters :: "json \<Rightarrow> json" where
  "push_filters metadata \<equiv> jidx (jidx metadata ''triggerFilters'') ''push''"

abbreviation pr_filters :: "json \<Rightarrow> json" where
  "pr_filters metadata \<equiv> jidx (jidx metadata ''triggerFilters'') ''pullRequest''"

text \<open>
  when an event runs a workflow.  A branch push runs it exactly when \<open>push\<close> is declared
  and both the branch dimension and the path dimension admit it; a tag push when \<open>push\<close> is
  declared and the tag dimension admits it, whatever the paths; a pull request when it is
  declared, its action is listed (or is one of the three defaults when no types are listed),
  and base branch and paths both admit it.
\<close>

theorem evaluate_runs_iff:
  "evaluate triggers metadata ctx = Run \<longleftrightarrow>
    (case kind ctx of
       Push branch \<Rightarrow>
         ''push'' \<in> set triggers \<and>
         admits (patterns (push_filters metadata) ''branches'')
           (patterns (push_filters metadata) ''branchesIgnore'')
           (patterns (push_filters metadata) ''tags'' = [] \<and>
            patterns (push_filters metadata) ''tagsIgnore'' = []) branch \<and>
         paths_admit (push_filters metadata) (changed_paths ctx)
     | TagPush tag \<Rightarrow>
         ''push'' \<in> set triggers \<and>
         admits (patterns (push_filters metadata) ''tags'')
           (patterns (push_filters metadata) ''tagsIgnore'')
           (patterns (push_filters metadata) ''branches'' = [] \<and>
            patterns (push_filters metadata) ''branchesIgnore'' = []) tag
     | PullRequest action base \<Rightarrow>
         ''pull_request'' \<in> set triggers \<and>
         action \<in> set (if patterns (pr_filters metadata) ''types'' = [] then DEFAULT_PR_TYPES
                       else patterns (pr_filters metadata) ''types'') \<and>
         admits (patterns (pr_filters metadata) ''branches'')
           (patterns (pr_filters metadata) ''branchesIgnore'') True base \<and>
         paths_admit (pr_filters metadata) (changed_paths ctx))"
  by (cases "kind ctx")
    (auto simp: evaluate_def Let_def admits_def evaluate_paths_cases split: if_splits)

text \<open>
  knowing more changed files never stops a run, and not knowing them fails open.  If an
  event runs a workflow with some set of changed files, it runs it with any larger set, and it
  runs it when the set is unknown.
\<close>

theorem evaluate_changed_mono:
  assumes "evaluate triggers metadata (ctx\<lparr>changed_paths := Some cs\<rparr>) = Run"
    and "set cs \<subseteq> set cs'"
  shows "evaluate triggers metadata (ctx\<lparr>changed_paths := Some cs'\<rparr>) = Run \<and>
    evaluate triggers metadata (ctx\<lparr>changed_paths := None\<rparr>) = Run"
proof -
  have paths: "evaluate_paths f (Some cs) = Run \<Longrightarrow>
      evaluate_paths f (Some cs') = Run \<and> evaluate_paths f None = Run" for f
    using assms(2) by (auto simp: evaluate_paths_cases paths_admit_def split: if_splits)
  show ?thesis
    using assms(1) paths
    by (cases "kind ctx") (auto simp: evaluate_def Let_def split: if_splits)
qed

definition demo_metadata :: json where
  "demo_metadata = JObj [(''triggerFilters'',
     JObj [(''push'', JObj [(''paths'', JArr [JStr ''src/**''])])])]"

theorem evaluate_changed_mono_witness:
  "evaluate [''push''] demo_metadata \<lparr>kind = Push ''main'', changed_paths = Some [''src/lib.rs'', ''x'']\<rparr> = Run
   \<and> evaluate [''push''] demo_metadata \<lparr>kind = Push ''main'', changed_paths = None\<rparr> = Run"
proof -
  let ?ctx = "\<lparr>kind = Push ''main'', changed_paths = None\<rparr>"
  have r: "evaluate [''push''] demo_metadata (?ctx\<lparr>changed_paths := Some [''src/lib.rs'']\<rparr>) = Run"
    by code_simp
  show ?thesis using evaluate_changed_mono [OF r, of "[''src/lib.rs'', ''x'']"] by simp
qed

end
