(* ===== verification/Protocol.thy ===== *)
theory Protocol
  imports RustText
begin

text \<open>
  The wire protocol crate, \<open>protocol/src/lib.rs\<close>: the message types, the one
  workspace-path normaliser that the control plane and the runner share, and the signed
  job descriptor.  HMAC-SHA256, the hex crate and the JSON printer and parser are library
  code: they are the parameters of a record \<open>crypto\<close>.
\<close>

type_synonym uuid = nat
type_synonym time = int \<comment> \<open>an instant, in nanoseconds\<close>

definition secs :: "int \<Rightarrow> time" where
  "secs n = n * 1000000000"

section \<open>Constants and messages\<close>

definition PROTOCOL_VERSION :: nat where "PROTOCOL_VERSION = 1"

definition STAGES :: "rstr list" where
  "STAGES = [''queued'', ''preparing'', ''waiting_for_runner'', ''assigned'', ''pulling_image'',
     ''starting_container'', ''running'', ''uploading_artifacts'', ''cleaning_workspace'', ''done'']"

definition LOG_PHASES :: "rstr list" where
  "LOG_PHASES = [''checkout'', ''image_pull'', ''container'', ''steps'', ''artifacts'', ''cleanup'']"

datatype LogStream = Stdout | Stderr | System

fun LogStream_as_str :: "LogStream \<Rightarrow> rstr" where
  "LogStream_as_str Stdout = ''stdout''"
| "LogStream_as_str Stderr = ''stderr''"
| "LogStream_as_str System = ''system''"

datatype JobConclusion = Success | Failure | Cancelled | TimedOut

fun JobConclusion_as_str :: "JobConclusion \<Rightarrow> rstr" where
  "JobConclusion_as_str Success = ''success''"
| "JobConclusion_as_str Failure = ''failure''"
| "JobConclusion_as_str Cancelled = ''cancelled''"
| "JobConclusion_as_str TimedOut = ''timed_out''"

record ArtifactEntry =
  ae_path :: rstr
  ae_size_bytes :: nat

record RunnerHealth =
  cpu_permille :: "nat option"
  mem_used_bytes :: "nat option"
  mem_total_bytes :: "nat option"
  disk_used_bytes :: "nat option"
  disk_total_bytes :: "nat option"
  docker_version :: "rstr option"
  health_os :: "rstr option"
  uptime_secs :: "nat option"

record StepProgress =
  sp_index :: nat
  sp_total :: nat
  sp_status :: rstr
  sp_exit_code :: "int option"

record JobMetrics =
  image_pull_ms :: "nat option"
  exec_ms :: "nat option"
  cpu_peak_permille :: "nat option"
  cpu_avg_permille :: "nat option"
  mem_peak_bytes :: "nat option"
  net_rx_bytes :: "nat option"
  net_tx_bytes :: "nat option"
  blkio_read_bytes :: "nat option"
  blkio_write_bytes :: "nat option"
  sample_count :: "nat option"

text \<open>Runner to server.  Fields in the order the source declares them.\<close>

datatype RunnerMsg =
    Hello rstr rstr "rstr list" bool
  | Heartbeat "uuid option" "RunnerHealth option"
  | JobAck uuid
  | JobStage uuid rstr "rstr option" "StepProgress option"
  | Log uuid nat LogStream rstr "nat option" "rstr option"
  | ArtifactRequest uuid rstr nat rstr
  | ArtifactDone uuid rstr nat rstr "nat option" "nat option" "ArtifactEntry list option"
  | JobResult uuid JobConclusion "int option" "rstr option" JobMetrics

datatype CancelReason = User | Timeout | PipelineCancelled

datatype RunnerLifecycle = Disabled | Draining | Resumed

record JobStep =
  js_name :: rstr
  js_run :: rstr
  js_shell :: rstr
  js_working_dir :: "rstr option"

record Checkout =
  tarball_url :: rstr
  co_token :: rstr

record JobCaps =
  max_log_bytes :: nat
  max_artifact_bytes :: nat
  max_artifacts :: nat

record JobPayload =
  jp_job_id :: uuid
  jp_pipeline_id :: uuid
  jp_runner_id :: uuid
  issued_at :: time
  expires_at :: time
  jp_image :: rstr
  jp_env :: "(rstr \<times> rstr) list"
  jp_steps :: "JobStep list"
  jp_checkout :: "Checkout option"
  timeout_seconds :: nat
  jp_caps :: JobCaps

text \<open>Server to runner.\<close>

datatype ServerMsg =
    HelloAck uuid nat nat "rstr option" "rstr option"
  | Ping
  | JobAssign rstr rstr
  | JobCancel uuid CancelReason
  | ArtifactGrant uuid rstr rstr rstr time
  | ArtifactDeny uuid rstr rstr
  | ServerError rstr
  | LifecycleChanged RunnerLifecycle

section \<open>Workspace-relative paths\<close>

definition MAX_RELATIVE_PATH_BYTES :: nat where "MAX_RELATIVE_PATH_BYTES = 255"
definition MAX_RELATIVE_PATH_SEGMENTS :: nat where "MAX_RELATIVE_PATH_SEGMENTS = 32"

lemmas path_caps [simp] = MAX_RELATIVE_PATH_BYTES_def MAX_RELATIVE_PATH_SEGMENTS_def

text \<open>The loop \<open>while let Some(stripped) = path.strip_suffix('/')\<close>.\<close>

definition strip_slashes :: "rstr \<Rightarrow> rstr" where
  "strip_slashes p = rev (dropWhile (\<lambda>c. c = CHR ''/'') (rev p))"

definition segment_byte_ok :: "char \<Rightarrow> bool" where
  "segment_byte_ok b \<longleftrightarrow>
     is_ascii_alphanumeric (of_char b) \<or> b = CHR ''.'' \<or> b = CHR ''_'' \<or> b = CHR ''-''"

definition segment_ok :: "rstr \<Rightarrow> bool" where
  "segment_ok seg \<longleftrightarrow>
     \<not> (seg = [] \<or> seg = ''.'' \<or> seg = ''..'') \<and> list_all segment_byte_ok seg"

definition normalize_relative_path :: "rstr \<Rightarrow> rstr option" where
  "normalize_relative_path value =
     (let path = strip_slashes (case strip_prefix ''./'' value of Some p \<Rightarrow> p | None \<Rightarrow> value) in
      if path = [] \<or> MAX_RELATIVE_PATH_BYTES < length path then None
      else
        let segments = split_on (CHR ''/'') path in
        if MAX_RELATIVE_PATH_SEGMENTS < length segments then None
        else if list_all segment_ok segments then Some path
        else None)"

subsection \<open>What normalisation guarantees\<close>

text \<open>
  The reading of a path that a plain join onto the workspace root makes of it: start at
  depth 0, \<open>..\<close> goes up, \<open>.\<close> and an empty segment stay, anything else goes down.
  \<open>walk_depths\<close> lists the depth after each segment; a path stays inside the workspace
  when no depth is negative, and \<open>CHR 0x2F\<close> at the front would leave it altogether.
\<close>

fun walk_depths :: "int \<Rightarrow> rstr list \<Rightarrow> int list" where
  "walk_depths d [] = []"
| "walk_depths d (s # ss) =
     (let d' = (if s = ''..'' then d - 1 else if s = ''.'' \<or> s = [] then d else d + 1)
      in d' # walk_depths d' ss)"

definition stays_inside :: "rstr \<Rightarrow> bool" where
  "stays_inside p \<longleftrightarrow>
     \<not> starts_with p ''/'' \<and> list_all (\<lambda>d. 0 \<le> d) (walk_depths 0 (split_on (CHR ''/'') p))"

lemma walk_depths_ok:
  "list_all segment_ok ss \<Longrightarrow> 0 \<le> d \<Longrightarrow> list_all (\<lambda>d. 0 < d) (walk_depths d ss)"
  by (induction d ss rule: walk_depths.induct) (auto simp: segment_ok_def Let_def)

lemma normalize_Some:
  assumes "normalize_relative_path v = Some p"
  shows "p \<noteq> []" "length p \<le> 255" "length (split_on (CHR ''/'') p) \<le> 32"
    "list_all segment_ok (split_on (CHR ''/'') p)"
  using assms by (auto simp: normalize_relative_path_def Let_def split: if_splits)

lemma split_on_snoc_sep: "split_on c (q @ [c]) = split_on c q @ [[]]"
proof (induction q)
  case (Cons x q)
  obtain r rs where "split_on c q = r # rs" by (cases "split_on c q") auto
  with Cons show ?case by auto
qed simp

lemma segment_ok_no_slash_end:
  assumes "list_all segment_ok (split_on (CHR ''/'') p)" "p \<noteq> []"
  shows "last p \<noteq> CHR ''/''"
proof
  assume "last p = CHR ''/''"
  with assms(2) obtain q where p: "p = q @ ''/''" by (metis append_butlast_last_id)
  have "[] \<in> set (split_on (CHR ''/'') (q @ ''/''))" by (simp add: split_on_snoc_sep)
  with assms(1) p show False by (auto simp: list_all_set segment_ok_def)
qed

lemma strip_slashes_id: "p \<noteq> [] \<Longrightarrow> last p \<noteq> CHR ''/'' \<Longrightarrow> strip_slashes p = p"
  by (cases p rule: rev_cases) (auto simp: strip_slashes_def)

lemma segment_ok_no_dot_slash:
  assumes "list_all segment_ok (split_on (CHR ''/'') p)"
  shows "strip_prefix ''./'' p = None"
proof (rule ccontr)
  assume "strip_prefix ''./'' p \<noteq> None"
  then obtain q where "p = ''./'' @ q" by (auto simp: strip_prefix_Some)
  then have "split_on (CHR ''/'') p = ''.'' # split_on (CHR ''/'') q" by simp
  with assms show False by (simp add: segment_ok_def)
qed

lemma segment_ok_not_absolute:
  assumes "list_all segment_ok (split_on (CHR ''/'') p)"
  shows "\<not> starts_with p ''/''"
proof
  assume "starts_with p ''/''"
  then obtain q where "p = CHR ''/'' # q" by (auto simp: starts_with_def strip_prefix_Some)
  with assms show False by (simp add: segment_ok_def)
qed

lemma normalize_valid:
  assumes "p \<noteq> []" "length p \<le> 255" "length (split_on (CHR ''/'') p) \<le> 32"
    "list_all segment_ok (split_on (CHR ''/'') p)"
  shows "normalize_relative_path p = Some p"
  using assms segment_ok_no_dot_slash [OF assms(4)] segment_ok_no_slash_end [OF assms(4,1)]
  by (simp add: normalize_relative_path_def Let_def strip_slashes_id)

lemma normalize_stays_inside:
  assumes "normalize_relative_path v = Some p"
  shows "stays_inside p" "normalize_relative_path p = Some p"
proof -
  note n = normalize_Some [OF assms]
  have "list_all (\<lambda>d. 0 < d) (walk_depths 0 (split_on (CHR ''/'') p))"
    using walk_depths_ok [OF n(4), of 0] by simp
  then show "stays_inside p"
    using segment_ok_not_absolute [OF n(4)] by (auto simp: stays_inside_def list_all_set)
  show "normalize_relative_path p = Some p" using n by (rule normalize_valid)
qed

text \<open>
  C13: a normalised path stays inside the workspace.  Whatever the input, the path that
  \<open>normalize_relative_path\<close> returns is relative, never climbs above the directory it is
  joined to at any of its segments, respects the two caps, and is a fixed point, so the
  runner's independent re-check of the value the control plane sent accepts exactly it.
\<close>

theorem normalize_confines:
  assumes "normalize_relative_path v = Some p"
  shows "stays_inside p \<and> p \<noteq> [] \<and> length p \<le> 255 \<and> length (split_on (CHR ''/'') p) \<le> 32
    \<and> normalize_relative_path p = Some p"
  using normalize_stays_inside [OF assms] normalize_Some [OF assms] by blast

theorem normalize_confines_witness:
  "normalize_relative_path ''./a/b/'' = Some ''a/b'' \<and> stays_inside ''a/b''"
proof -
  have h: "normalize_relative_path ''./a/b/'' = Some ''a/b''"
    by code_simp
  with normalize_confines [OF h] show ?thesis by blast
qed

text \<open>
  exactly which strings are accepted unchanged.  Nothing the documentation of the
  function promises to accept is lost: a string is its own normal form if and only if it is
  non-empty, within both caps, and every \<open>/\<close>-separated segment is a non-dot name over
  \<open>[A-Za-z0-9._-]\<close>.
\<close>

theorem normalize_accepts_iff:
  "normalize_relative_path p = Some p \<longleftrightarrow>
     p \<noteq> [] \<and> length p \<le> 255 \<and> length (split_on (CHR ''/'') p) \<le> 32 \<and>
     list_all segment_ok (split_on (CHR ''/'') p)"
  using normalize_Some normalize_valid by blast

section \<open>Signed job descriptors\<close>

text \<open>
  What the signing code takes from its libraries: HMAC-SHA256 over the exact bytes, the hex
  encoder and decoder, the JSON printer and parser of a descriptor.
\<close>

record crypto =
  hmac :: "rstr \<Rightarrow> rstr \<Rightarrow> rstr"
  hex_encode :: "rstr \<Rightarrow> rstr"
  hex_decode :: "rstr \<Rightarrow> rstr option"
  payload_to_json :: "JobPayload \<Rightarrow> rstr option"
  payload_of_json :: "rstr \<Rightarrow> JobPayload option"

definition sign :: "crypto \<Rightarrow> rstr \<Rightarrow> rstr \<Rightarrow> rstr" where
  "sign lib key payload = hex_encode lib (hmac lib key payload)"

definition verify :: "crypto \<Rightarrow> rstr \<Rightarrow> rstr \<Rightarrow> rstr \<Rightarrow> bool" where
  "verify lib key payload signature_hex =
     (case hex_decode lib signature_hex of
        None \<Rightarrow> False
      | Some expected \<Rightarrow> hmac lib key payload = expected)"

definition sign_job_payload :: "crypto \<Rightarrow> rstr \<Rightarrow> JobPayload \<Rightarrow> ServerMsg option" where
  "sign_job_payload lib key payload =
     (case payload_to_json lib payload of
        None \<Rightarrow> None
      | Some payload_json \<Rightarrow> Some (JobAssign payload_json (sign lib key payload_json)))"

definition verify_job_payload ::
  "crypto \<Rightarrow> rstr \<Rightarrow> rstr \<Rightarrow> rstr \<Rightarrow> time \<Rightarrow> JobPayload option" where
  "verify_job_payload lib key payload_json signature_hex now =
     (if \<not> verify lib key payload_json signature_hex then None
      else case payload_of_json lib payload_json of
        None \<Rightarrow> None
      | Some payload \<Rightarrow>
          if now < issued_at payload - secs 60 \<or> now > expires_at payload then None
          else Some payload)"

text \<open>
  C31: a signed assignment is accepted inside its validity window and only there.  For any
  library whose hex decoder inverts its encoder and whose JSON parser inverts its printer, the
  runner that holds the key recovers the very descriptor that was signed when its clock is
  between a minute before the issue time and the expiry, and rejects it at any other time.
\<close>

theorem sign_verify_window:
  assumes hex: "\<And>b. hex_decode lib (hex_encode lib b) = Some b"
    and json: "\<And>p j. payload_to_json lib p = Some j \<Longrightarrow> payload_of_json lib j = Some p"
    and signed: "sign_job_payload lib key p = Some (JobAssign j sg)"
  shows "verify_job_payload lib key j sg now =
    (if issued_at p - secs 60 \<le> now \<and> now \<le> expires_at p then Some p else None)"
proof -
  from signed have j: "payload_to_json lib p = Some j" and sg: "sg = sign lib key j"
    by (auto simp: sign_job_payload_def split: option.splits)
  then have "verify lib key j sg" by (simp add: verify_def sign_def hex)
  with json [OF j] show ?thesis by (simp add: verify_job_payload_def)
qed

definition demo_payload :: JobPayload where
  "demo_payload = \<lparr> jp_job_id = 1, jp_pipeline_id = 2, jp_runner_id = 3, issued_at = secs 100,
     expires_at = secs 400, jp_image = ''ubuntu:24.04'', jp_env = [], jp_steps = [],
     jp_checkout = None, timeout_seconds = 3600,
     jp_caps = \<lparr> max_log_bytes = 10, max_artifact_bytes = 10, max_artifacts = 1 \<rparr> \<rparr>"

definition demo_crypto :: crypto where
  "demo_crypto = \<lparr> hmac = (\<lambda>k p. k @ p), hex_encode = id, hex_decode = Some,
     payload_to_json = (\<lambda>p. if p = demo_payload then Some ''{}'' else None),
     payload_of_json = (\<lambda>j. if j = ''{}'' then Some demo_payload else None) \<rparr>"

theorem sign_verify_window_witness:
  "sign_job_payload demo_crypto ''k'' demo_payload = Some (JobAssign ''{}'' ''k{}'')
   \<and> verify_job_payload demo_crypto ''k'' ''{}'' ''k{}'' (secs 50) = Some demo_payload
   \<and> verify_job_payload demo_crypto ''k'' ''{}'' ''k{}'' (secs 401) = None"
proof -
  have s: "sign_job_payload demo_crypto ''k'' demo_payload = Some (JobAssign ''{}'' ''k{}'')"
    by (simp add: sign_job_payload_def demo_crypto_def sign_def)
  have h: "\<And>b. hex_decode demo_crypto (hex_encode demo_crypto b) = Some b"
    "\<And>p j. payload_to_json demo_crypto p = Some j \<Longrightarrow> payload_of_json demo_crypto j = Some p"
    by (auto simp: demo_crypto_def split: if_splits)
  show ?thesis
    using s sign_verify_window [OF h s, of "secs 50"] sign_verify_window [OF h s, of "secs 401"]
    by (simp add: demo_payload_def secs_def)
qed

text \<open>
  nothing unsigned is executed.  Whatever bytes arrive, a descriptor comes out of
  verification exactly when the hex signature decodes to the HMAC of those very bytes under
  the key, the bytes parse to that descriptor, and the clock is inside its window.
\<close>

theorem verify_job_payload_iff:
  "verify_job_payload lib key j sg now = Some p \<longleftrightarrow>
     hex_decode lib sg = Some (hmac lib key j) \<and> payload_of_json lib j = Some p \<and>
     issued_at p - secs 60 \<le> now \<and> now \<le> expires_at p"
  by (cases "hex_decode lib sg"; cases "payload_of_json lib j")
    (auto simp: verify_job_payload_def verify_def)

end
