(* ===== verification/Models.thy ===== *)
theory Models
  imports Protocol Json
begin

text \<open>
  The table rows and the responses built from them: \<open>models/pipeline.rs\<close>,
  \<open>models/runner.rs\<close> and the artifact row of \<open>models/artifact.rs\<close>.  A row is a
  record with the struct's fields; a status, conclusion or stage is the string the column
  holds.  The one function with a duty of its own is \<open>sanitize_plan\<close>, which masks the
  confidential-looking environment values of a plan before it leaves the server.
\<close>

section \<open>Rows\<close>

record Pipeline =
  pl_id :: uuid
  pl_workspace_id :: uuid
  pl_repository_id :: uuid
  pl_workflow_id :: "uuid option"
  pl_workflow_name :: rstr
  pl_workflow_path :: rstr
  pl_number :: int
  pl_trigger :: rstr
  pl_triggered_by :: "uuid option"
  pl_commit_sha :: rstr
  pl_commit_message :: "rstr option"
  pl_commit_author :: "rstr option"
  pl_actor_login :: "rstr option"
  pl_actor_avatar_url :: "rstr option"
  pl_git_ref :: rstr
  pl_trigger_inputs :: "json option"
  pl_pr_number :: "int option"
  pl_check_run_id :: "int option"
  pl_status :: rstr
  pl_conclusion :: "rstr option"
  pl_timeout_seconds :: int
  pl_created_at :: time
  pl_started_at :: "time option"
  pl_finished_at :: "time option"

record PipelineJob =
  pj_id :: uuid
  pj_pipeline_id :: uuid
  pj_job_key :: rstr
  pj_name :: "rstr option"
  pj_runs_on :: "rstr list"
  pj_needs :: "rstr list"
  pj_plan :: json
  pj_status :: rstr
  pj_conclusion :: "rstr option"
  pj_stage :: rstr
  pj_runner_id :: "uuid option"
  pj_attempt :: int
  pj_exit_code :: "int option"
  pj_error_category :: "rstr option"
  pj_timeout_seconds :: int
  pj_log_bytes :: int
  pj_position :: int
  pj_metrics :: "json option"
  pj_logs_archived_at :: "time option"
  pj_logs_archive_backend :: "rstr option"
  pj_queued_at :: time
  pj_assigned_at :: "time option"
  pj_started_at :: "time option"
  pj_finished_at :: "time option"

record PipelineEvent =
  pe_id :: int
  pe_pipeline_id :: uuid
  pe_job_id :: "uuid option"
  pe_event_type :: rstr
  pe_from_state :: "rstr option"
  pe_to_state :: "rstr option"
  pe_runner_id :: "uuid option"
  pe_actor_user_id :: "uuid option"
  pe_payload :: json
  pe_created_at :: time

record LogChunk =
  lc_seq :: int
  lc_stream :: rstr
  lc_content :: rstr
  lc_created_at :: time
  lc_step_index :: "int option"
  lc_phase :: "rstr option"

record Runner =
  rn_id :: uuid
  rn_workspace_id :: uuid
  rn_name :: rstr
  rn_labels :: "rstr list"
  rn_status :: rstr
  rn_version :: "rstr option"
  rn_last_seen_at :: "time option"
  rn_created_by :: "uuid option"
  rn_created_at :: time
  rn_revoked_at :: "time option"
  rn_last_health :: "json option"
  rn_last_health_at :: "time option"
  rn_draining_at :: "time option"
  rn_managed :: bool
  rn_container_id :: "rstr option"
  rn_provision_error :: "rstr option"
  rn_resource_profile :: "rstr option"

record Artifact =
  ar_id :: uuid
  ar_workspace_id :: uuid
  ar_pipeline_id :: uuid
  ar_job_id :: uuid
  ar_name :: rstr
  ar_r2_key :: rstr
  ar_storage_backend :: rstr
  ar_size_bytes :: "int option"
  ar_content_type :: "rstr option"
  ar_checksum_sha256 :: "rstr option"
  ar_status :: rstr
  ar_kind :: rstr
  ar_uncompressed_bytes :: "int option"
  ar_file_count :: "int option"
  ar_entries :: "json option"
  ar_created_at :: time
  ar_expires_at :: "time option"

section \<open>Responses\<close>

record PipelineResponse =
  plr_id :: uuid
  plr_repository_id :: uuid
  plr_repo_full_name :: rstr
  plr_workflow_id :: "uuid option"
  plr_workflow_name :: rstr
  plr_workflow_path :: rstr
  plr_number :: int
  plr_trigger :: rstr
  plr_commit_sha :: rstr
  plr_commit_message :: "rstr option"
  plr_commit_author :: "rstr option"
  plr_actor_login :: "rstr option"
  plr_actor_avatar_url :: "rstr option"
  plr_git_ref :: rstr
  plr_trigger_inputs :: "json option"
  plr_pr_number :: "int option"
  plr_status :: rstr
  plr_conclusion :: "rstr option"
  plr_created_at :: time
  plr_started_at :: "time option"
  plr_finished_at :: "time option"

record PipelineJobResponse =
  pjr_id :: uuid
  pjr_key :: rstr
  pjr_name :: "rstr option"
  pjr_runs_on :: "rstr list"
  pjr_needs :: "rstr list"
  pjr_plan :: json
  pjr_status :: rstr
  pjr_conclusion :: "rstr option"
  pjr_stage :: rstr
  pjr_runner_id :: "uuid option"
  pjr_attempt :: int
  pjr_exit_code :: "int option"
  pjr_error_category :: "rstr option"
  pjr_log_bytes :: int
  pjr_position :: int
  pjr_metrics :: "json option"
  pjr_queued_at :: time
  pjr_assigned_at :: "time option"
  pjr_started_at :: "time option"
  pjr_finished_at :: "time option"

record PipelineEventResponse =
  per_id :: int
  per_job_id :: "uuid option"
  per_event_type :: rstr
  per_from_state :: "rstr option"
  per_to_state :: "rstr option"
  per_runner_id :: "uuid option"
  per_actor_user_id :: "uuid option"
  per_payload :: json
  per_created_at :: time

record LogChunkResponse =
  lcr_seq :: int
  lcr_stream :: rstr
  lcr_content :: rstr
  lcr_created_at :: time
  lcr_step_index :: "int option"
  lcr_phase :: "rstr option"

record RunnerResponse =
  rnr_id :: uuid
  rnr_name :: rstr
  rnr_labels :: "rstr list"
  rnr_status :: rstr
  rnr_version :: "rstr option"
  rnr_last_seen_at :: "time option"
  rnr_created_at :: time
  rnr_revoked :: bool
  rnr_last_health :: "json option"
  rnr_draining :: bool
  rnr_managed :: bool
  rnr_provision_error :: "rstr option"
  rnr_resource_profile :: "rstr option"

record ArtifactResponse =
  arr_id :: uuid
  arr_pipeline_id :: uuid
  arr_job_id :: uuid
  arr_name :: rstr
  arr_size_bytes :: "int option"
  arr_content_type :: "rstr option"
  arr_checksum_sha256 :: "rstr option"
  arr_status :: rstr
  arr_kind :: rstr
  arr_uncompressed_bytes :: "int option"
  arr_file_count :: "int option"
  arr_created_at :: time
  arr_expires_at :: "time option"

definition PipelineResponse_from_row :: "Pipeline \<Rightarrow> rstr \<Rightarrow> PipelineResponse" where
  "PipelineResponse_from_row p repo_full_name =
    \<lparr>plr_id = pl_id p,
     plr_repository_id = pl_repository_id p,
     plr_repo_full_name = repo_full_name,
     plr_workflow_id = pl_workflow_id p,
     plr_workflow_name = pl_workflow_name p,
     plr_workflow_path = pl_workflow_path p,
     plr_number = pl_number p,
     plr_trigger = pl_trigger p,
     plr_commit_sha = pl_commit_sha p,
     plr_commit_message = pl_commit_message p,
     plr_commit_author = pl_commit_author p,
     plr_actor_login = pl_actor_login p,
     plr_actor_avatar_url = pl_actor_avatar_url p,
     plr_git_ref = pl_git_ref p,
     plr_trigger_inputs = pl_trigger_inputs p,
     plr_pr_number = pl_pr_number p,
     plr_status = pl_status p,
     plr_conclusion = pl_conclusion p,
     plr_created_at = pl_created_at p,
     plr_started_at = pl_started_at p,
     plr_finished_at = pl_finished_at p\<rparr>"

definition looks_confidential :: "rstr \<Rightarrow> bool" where
  "looks_confidential key =
     (let lower = to_ascii_lowercase key in
      list_ex (\<lambda>marker. contains lower marker)
        [''token'', ''secret'', ''password'', ''key'', ''credential''])"

definition mask_entry :: "rstr \<times> json \<Rightarrow> rstr \<times> json" where
  "mask_entry kv = (if looks_confidential (fst kv) then (fst kv, JStr ''***'') else kv)"

definition sanitize_plan :: "json \<Rightarrow> json" where
  "sanitize_plan plan =
     (case jget plan ''env'' of
        Some (JObj env) \<Rightarrow> jset ''env'' (JObj (map mask_entry env)) plan
      | _ \<Rightarrow> plan)"

definition PipelineJobResponse_from :: "PipelineJob \<Rightarrow> PipelineJobResponse" where
  "PipelineJobResponse_from r =
    \<lparr>pjr_id = pj_id r,
     pjr_key = pj_job_key r,
     pjr_name = pj_name r,
     pjr_runs_on = pj_runs_on r,
     pjr_needs = pj_needs r,
     pjr_plan = sanitize_plan (pj_plan r),
     pjr_status = pj_status r,
     pjr_conclusion = pj_conclusion r,
     pjr_stage = pj_stage r,
     pjr_runner_id = pj_runner_id r,
     pjr_attempt = pj_attempt r,
     pjr_exit_code = pj_exit_code r,
     pjr_error_category = pj_error_category r,
     pjr_log_bytes = pj_log_bytes r,
     pjr_position = pj_position r,
     pjr_metrics = pj_metrics r,
     pjr_queued_at = pj_queued_at r,
     pjr_assigned_at = pj_assigned_at r,
     pjr_started_at = pj_started_at r,
     pjr_finished_at = pj_finished_at r\<rparr>"

definition PipelineEventResponse_from :: "PipelineEvent \<Rightarrow> PipelineEventResponse" where
  "PipelineEventResponse_from r =
    \<lparr>per_id = pe_id r,
     per_job_id = pe_job_id r,
     per_event_type = pe_event_type r,
     per_from_state = pe_from_state r,
     per_to_state = pe_to_state r,
     per_runner_id = pe_runner_id r,
     per_actor_user_id = pe_actor_user_id r,
     per_payload = pe_payload r,
     per_created_at = pe_created_at r\<rparr>"

definition LogChunkResponse_from :: "LogChunk \<Rightarrow> LogChunkResponse" where
  "LogChunkResponse_from r =
    \<lparr>lcr_seq = lc_seq r,
     lcr_stream = lc_stream r,
     lcr_content = lc_content r,
     lcr_created_at = lc_created_at r,
     lcr_step_index = lc_step_index r,
     lcr_phase = lc_phase r\<rparr>"

definition RunnerResponse_from :: "Runner \<Rightarrow> RunnerResponse" where
  "RunnerResponse_from r =
    \<lparr>rnr_id = rn_id r,
     rnr_name = rn_name r,
     rnr_labels = rn_labels r,
     rnr_status = rn_status r,
     rnr_version = rn_version r,
     rnr_last_seen_at = rn_last_seen_at r,
     rnr_created_at = rn_created_at r,
     rnr_revoked = rn_revoked_at r \<noteq> None,
     rnr_last_health = rn_last_health r,
     rnr_draining = rn_draining_at r \<noteq> None,
     rnr_managed = rn_managed r,
     rnr_provision_error = rn_provision_error r,
     rnr_resource_profile = rn_resource_profile r\<rparr>"

definition ArtifactResponse_from :: "Artifact \<Rightarrow> ArtifactResponse" where
  "ArtifactResponse_from r =
    \<lparr>arr_id = ar_id r,
     arr_pipeline_id = ar_pipeline_id r,
     arr_job_id = ar_job_id r,
     arr_name = ar_name r,
     arr_size_bytes = ar_size_bytes r,
     arr_content_type = ar_content_type r,
     arr_checksum_sha256 = ar_checksum_sha256 r,
     arr_status = ar_status r,
     arr_kind = ar_kind r,
     arr_uncompressed_bytes = ar_uncompressed_bytes r,
     arr_file_count = ar_file_count r,
     arr_created_at = ar_created_at r,
     arr_expires_at = ar_expires_at r\<rparr>"

section \<open>What sanitising shows\<close>

lemma map_of_mask_entry:
  "map_of (map mask_entry env) k =
     (case map_of env k of None \<Rightarrow> None
      | Some v \<Rightarrow> Some (if looks_confidential k then JStr ''***'' else v))"
  by (induction env) (auto simp: mask_entry_def)

lemma sanitize_plan_parts:
  "jget (jidx (sanitize_plan plan) ''env'') k =
     (case jget (jidx plan ''env'') k of None \<Rightarrow> None
      | Some v \<Rightarrow> Some (if looks_confidential k then JStr ''***'' else v))"
  "jget (sanitize_plan plan) k' = jget plan k' \<or> k' = ''env''"
  "sanitize_plan (sanitize_plan plan) = sanitize_plan plan"
proof -
  have idem: "mask_entry \<circ> mask_entry = mask_entry" by (auto simp: mask_entry_def fun_eq_iff)
  have ins: "bt_insert j v (bt_insert j w m) = bt_insert j v m" for j :: rstr and v w m
    by (induction j w m rule: bt_insert.induct) auto
  show "sanitize_plan (sanitize_plan plan) = sanitize_plan plan"
    by (cases plan) (auto simp: sanitize_plan_def ins idem split: option.splits json.splits)
  show "jget (jidx (sanitize_plan plan) ''env'') k =
     (case jget (jidx plan ''env'') k of None \<Rightarrow> None
      | Some v \<Rightarrow> Some (if looks_confidential k then JStr ''***'' else v))"
    by (cases plan)
      (auto simp: sanitize_plan_def jidx_def map_of_mask_entry split: option.splits json.splits)
  show "jget (sanitize_plan plan) k' = jget plan k' \<or> k' = ''env''"
    by (cases plan) (auto simp: sanitize_plan_def split: option.splits json.splits)
qed

text \<open>The plan a response carries has, for every environment key that looks confidential,
  the value \<open>***\<close> and nothing else; every other environment entry and every other part of
  the plan is the one that was stored, and masking twice is masking once.\<close>

theorem sanitize_plan_masks:
  "jget (jidx (sanitize_plan plan) ''env'') k =
     (case jget (jidx plan ''env'') k of None \<Rightarrow> None
      | Some v \<Rightarrow> Some (if looks_confidential k then JStr ''***'' else v)) \<and>
   (jget (sanitize_plan plan) k' = jget plan k' \<or> k' = ''env'') \<and>
   sanitize_plan (sanitize_plan plan) = sanitize_plan plan"
  using sanitize_plan_parts by blast

end
