(* ===== verification/Tables.thy ===== *)
theory Tables
  imports Models
begin

text \<open>
  The tables the control plane keeps in PostgreSQL, as far as the modelled code reads and
  writes them.  A table is the list of its rows in storage order.  \<open>update_where\<close> and
  \<open>returning\<close> are the two halves of \<open>UPDATE ... WHERE ... RETURNING *\<close>: the table
  after the statement and the rows it reports.  The primary keys are an invariant,
  \<open>keys_ok\<close>, not an assumption of the operations.
\<close>

text \<open>
  \<open>AppError\<close> of \<open>error.rs\<close>; a database error is split into the two kinds the code can
  run into by its own logic, a missing row and a violated unique constraint.
\<close>

datatype AppError =
    Unauthorized
  | Forbidden
  | NotFound
  | Validation rstr
  | Conflict rstr
  | RowNotFound
  | UniqueViolation rstr
  | Internal rstr
  | OAuth rstr

text \<open>The HTTP status and the code a client sees, and the message of the body.\<close>

definition status_and_code :: "AppError \<Rightarrow> nat \<times> rstr" where
  "status_and_code e =
     (case e of
        Unauthorized \<Rightarrow> (401, ''unauthorized'')
      | Forbidden \<Rightarrow> (403, ''forbidden'')
      | NotFound \<Rightarrow> (404, ''not_found'')
      | Validation _ \<Rightarrow> (422, ''validation_failed'')
      | Conflict _ \<Rightarrow> (409, ''conflict'')
      | OAuth _ \<Rightarrow> (502, ''oauth_failed'')
      | _ \<Rightarrow> (500, ''internal_error''))"

definition error_message :: "AppError \<Rightarrow> rstr" where
  "error_message e =
     (case e of
        Validation msg \<Rightarrow> msg
      | Conflict msg \<Rightarrow> msg
      | _ \<Rightarrow> map (\<lambda>c. if c = CHR ''_'' then CHR '' '' else c) (snd (status_and_code e)))"

text \<open>What an error of the database, of a dependency or of the program itself says is constant.\<close>

lemma error_message_opaque:
  "error_message (Internal a) = error_message (Internal b)" "error_message RowNotFound = error_message (UniqueViolation c)"
  "error_message (OAuth a) = error_message (OAuth b)"
  by (simp_all add: error_message_def status_and_code_def)

record LogRow =
  lr_job_id :: uuid
  lr_byte_len :: int
  lr_chunk :: LogChunk

record AuditRow =
  au_workspace_id :: uuid
  au_actor :: "uuid option"
  au_action :: rstr
  au_subject_type :: rstr
  au_subject_id :: uuid
  au_metadata :: json
  au_request_id :: "rstr option"

text \<open>
  A row of \<open>runners\<close>: the columns the code selects, \<open>RUNNER_COLUMNS\<close>, and the credential
  columns, which never leave the database layer.  \<open>selected\<close> is what a query returns.
\<close>

record RunnerRow = Runner +
  rn_token_hash :: "rstr option"
  rn_bootstrap_token_hash :: "rstr option"
  rn_bootstrap_expires_at :: "time option"

definition selected :: "RunnerRow \<Rightarrow> Runner" where
  "selected r = Runner.truncate r"

text \<open>
  Likewise a row of \<open>pipelines\<close> and its column \<open>webhook_delivery_id\<close>; \<open>db_counters\<close> is
  \<open>pipeline_counters\<close> and \<open>db_retention\<close> is \<open>artifact_retention_policies\<close>.
\<close>

record PipelineRow = Pipeline +
  pl_webhook_delivery_id :: "rstr option"

definition pl_selected :: "PipelineRow \<Rightarrow> Pipeline" where
  "pl_selected p = Pipeline.truncate p"

record Db =
  db_pipelines :: "PipelineRow list"
  db_counters :: "(uuid \<times> int) list"
  db_jobs :: "PipelineJob list"
  db_runners :: "RunnerRow list"
  db_events :: "PipelineEvent list"
  db_chunks :: "LogRow list"
  db_audit :: "AuditRow list"
  db_artifacts :: "Artifact list"
  db_retention :: "(uuid \<times> rstr \<times> int) list"

section \<open>Statements on one table\<close>

definition update_where :: "('r \<Rightarrow> bool) \<Rightarrow> ('r \<Rightarrow> 'r) \<Rightarrow> 'r list \<Rightarrow> 'r list" where
  "update_where P f rows = map (\<lambda>r. if P r then f r else r) rows"

definition returning :: "('r \<Rightarrow> bool) \<Rightarrow> ('r \<Rightarrow> 'r) \<Rightarrow> 'r list \<Rightarrow> 'r list" where
  "returning P f rows = map f (filter P rows)"

text \<open>\<open>fetch_optional\<close>: the first row, if there is one.\<close>

fun fetch_optional :: "'r list \<Rightarrow> 'r option" where
  "fetch_optional [] = None"
| "fetch_optional (r # _) = Some r"

lemma fetch_optional_Some: "fetch_optional rs = Some r \<Longrightarrow> r \<in> set rs"
  by (cases rs) auto

lemma fetch_optional_None [simp]: "fetch_optional rs = None \<longleftrightarrow> rs = []"
  by (cases rs) auto

text \<open>\<open>COALESCE(started_at, now())\<close>.\<close>

definition coalesce :: "'a option \<Rightarrow> 'a \<Rightarrow> 'a option" where
  "coalesce x d = (case x of None \<Rightarrow> Some d | Some y \<Rightarrow> Some y)"

lemma coalesce_ne [simp]: "coalesce x d \<noteq> None" "coalesce x d = Some y \<longleftrightarrow> (case x of None \<Rightarrow> d | Some z \<Rightarrow> z) = y"
  by (auto simp: coalesce_def split: option.splits)

lemma set_update_where: "set (update_where P f rows) = {r'. \<exists>r\<in>set rows. r' = (if P r then f r else r)}"
  by (auto simp: update_where_def)

lemma length_update_where [simp]: "length (update_where P f rows) = length rows"
  by (simp add: update_where_def)

lemma nth_update_where [simp]:
  "i < length rows \<Longrightarrow> update_where P f rows ! i = (if P (rows ! i) then f (rows ! i) else rows ! i)"
  by (simp add: update_where_def)

lemma update_where_none: "(\<And>r. r \<in> set rows \<Longrightarrow> \<not> P r) \<Longrightarrow> update_where P f rows = rows"
  by (auto simp: update_where_def intro: map_idI)

text \<open>A statement whose update falsifies its own condition finds nothing the second time.\<close>

lemma update_where_once:
  assumes "\<And>r. P r \<Longrightarrow> \<not> Q (f r)" "\<And>r. Q r \<Longrightarrow> P r" "r \<in> set (update_where P f rows)"
  shows "\<not> Q r"
proof -
  from assms(3) obtain r0 where "r = (if P r0 then f r0 else r0)"
    unfolding update_where_def set_map by (elim imageE)
  with assms(1) [of r0] assms(2) [of r0] show ?thesis by (cases "P r0") auto
qed

lemma returning_Nil: "returning P f rows = [] \<longleftrightarrow> (\<forall>r\<in>set rows. \<not> P r)"
  by (auto simp: returning_def filter_empty_conv)

lemma set_returning: "set (returning P f rows) = f ` {r \<in> set rows. P r}"
  by (auto simp: returning_def)

lemma returning_in_table: "set (returning P f rows) \<subseteq> set (update_where P f rows)"
  by (auto simp: returning_def update_where_def image_iff)

text \<open>A statement that keeps a column keeps the list of its values.\<close>

lemma map_update_where: "(\<And>r. g (f r) = g r) \<Longrightarrow> map g (update_where P f rows) = map g rows"
  by (simp add: update_where_def)

text \<open>
  \<open>INSERT\<close> takes the next number of the events table's sequence.
\<close>

definition next_event_id :: "Db \<Rightarrow> int" where
  "next_event_id db = 1 + int (length (db_events db))"


text \<open>
  The row \<open>INSERT INTO pipeline_jobs\<close> leaves in \<open>db/pipelines.rs\<close>: the bound values, and
  for every other column the default of the migrations.
\<close>

definition job_row :: "time \<Rightarrow> uuid \<Rightarrow> uuid \<Rightarrow> rstr \<Rightarrow> rstr option \<Rightarrow> rstr list \<Rightarrow> rstr list \<Rightarrow>
    json \<Rightarrow> int \<Rightarrow> int \<Rightarrow> PipelineJob"
where
  "job_row now new_id pid key name runs_on needs plan timeout position =
    \<lparr>pj_id = new_id, pj_pipeline_id = pid, pj_job_key = key, pj_name = name, pj_runs_on = runs_on,
     pj_needs = needs, pj_plan = plan, pj_status = ''queued'', pj_conclusion = None,
     pj_stage = ''queued'', pj_runner_id = None, pj_attempt = 1, pj_exit_code = None,
     pj_error_category = None, pj_timeout_seconds = timeout, pj_log_bytes = 0,
     pj_position = position, pj_metrics = None, pj_logs_archived_at = None,
     pj_logs_archive_backend = None, pj_queued_at = now, pj_assigned_at = None,
     pj_started_at = None, pj_finished_at = None\<rparr>"

end
