(* ===== verification/JobsDb.thy ===== *)
theory JobsDb
  imports Tables
begin

text \<open>
  The statements of \<open>db/pipeline_jobs.rs\<close> that move a job through its life, each with the
  guard of its \<open>WHERE\<close> clause, and the state machine they implement.
\<close>

section \<open>Guarded updates\<close>

definition upd_jobs :: "(PipelineJob \<Rightarrow> bool) \<Rightarrow> (PipelineJob \<Rightarrow> PipelineJob) \<Rightarrow> Db \<Rightarrow> PipelineJob list \<times> Db" where
  "upd_jobs P f db = (returning P f (db_jobs db), db\<lparr>db_jobs := update_where P f (db_jobs db)\<rparr>)"

definition upd_job :: "(PipelineJob \<Rightarrow> bool) \<Rightarrow> (PipelineJob \<Rightarrow> PipelineJob) \<Rightarrow> Db \<Rightarrow> PipelineJob option \<times> Db" where
  "upd_job P f db = (fetch_optional (fst (upd_jobs P f db)), snd (upd_jobs P f db))"

lemmas upd_defs [db_defs] = upd_jobs_def upd_job_def

definition list_for_pipeline :: "Db \<Rightarrow> uuid \<Rightarrow> PipelineJob list" where
  "list_for_pipeline db pid = sort_key pj_position (filter (\<lambda>j. pj_pipeline_id j = pid) (db_jobs db))"

definition find_for_pipeline :: "Db \<Rightarrow> uuid \<Rightarrow> uuid \<Rightarrow> PipelineJob option" where
  "find_for_pipeline db pid jid =
     fetch_optional (filter (\<lambda>j. pj_pipeline_id j = pid \<and> pj_id j = jid) (db_jobs db))"

definition find_assigned :: "Db \<Rightarrow> uuid \<Rightarrow> uuid \<Rightarrow> PipelineJob option" where
  "find_assigned db jid rid = fetch_optional (filter
     (\<lambda>j. pj_id j = jid \<and> pj_runner_id j = Some rid \<and> pj_status j = ''in_progress'') (db_jobs db))"

text \<open>
  \<open>NOT EXISTS\<close> over the needed jobs whose conclusion is distinct from success: a need that
  names no job of the pipeline does not block.
\<close>

definition blocked_by_needs :: "Db \<Rightarrow> PipelineJob \<Rightarrow> bool" where
  "blocked_by_needs db j = list_ex (\<lambda>d. pj_pipeline_id d = pj_pipeline_id j \<and>
     pj_job_key d \<in> set (pj_needs j) \<and> pj_conclusion d \<noteq> Some ''success'') (db_jobs db)"

definition live_pipeline :: "Db \<Rightarrow> uuid \<Rightarrow> bool" where
  "live_pipeline db pid = list_ex (\<lambda>p. pl_id p = pid \<and> pl_status p \<noteq> ''completed'') (db_pipelines db)"

definition eligible :: "Db \<Rightarrow> PipelineJob \<Rightarrow> bool" where
  "eligible db j \<longleftrightarrow> pj_status j = ''queued'' \<and> live_pipeline db (pj_pipeline_id j) \<and> \<not> blocked_by_needs db j"

definition find_eligible :: "Db \<Rightarrow> nat \<Rightarrow> PipelineJob list" where
  "find_eligible db limit = take limit (sort_key pj_queued_at (filter (eligible db) (db_jobs db)))"

text \<open>The two guarded updates of the claim's transaction, and the transaction.\<close>

definition claimable :: "uuid \<Rightarrow> PipelineJob \<Rightarrow> bool" where
  "claimable jid j \<longleftrightarrow> pj_id j = jid \<and> pj_status j = ''queued'' \<and> pj_runner_id j = None"

definition assign_to :: "time \<Rightarrow> uuid \<Rightarrow> PipelineJob \<Rightarrow> PipelineJob" where
  "assign_to now rid j = j\<lparr>pj_status := ''in_progress'', pj_stage := ''assigned'',
     pj_runner_id := Some rid, pj_assigned_at := Some now\<rparr>"

definition idle_runner :: "uuid \<Rightarrow> RunnerRow \<Rightarrow> bool" where
  "idle_runner rid r \<longleftrightarrow> rn_id r = rid \<and> rn_status r = ''idle'' \<and> rn_revoked_at r = None"

definition make_busy :: "RunnerRow \<Rightarrow> RunnerRow" where
  "make_busy r = r\<lparr>rn_status := ''busy''\<rparr>"

definition claim_for_runner :: "time \<Rightarrow> uuid \<Rightarrow> uuid \<Rightarrow> Db \<Rightarrow> PipelineJob option \<times> Db" where
  "claim_for_runner now jid rid db =
     (case upd_job (claimable jid) (assign_to now rid) db of
        (None, _) \<Rightarrow> (None, db)
      | (Some job, db1) \<Rightarrow>
          if returning (idle_runner rid) make_busy (db_runners db1) = [] then (None, db)
          else (Some job, db1\<lparr>db_runners := update_where (idle_runner rid) make_busy (db_runners db1)\<rparr>))"

definition to_queue :: "PipelineJob \<Rightarrow> PipelineJob" where
  "to_queue j = j\<lparr>pj_status := ''queued'', pj_stage := ''queued'', pj_runner_id := None, pj_assigned_at := None\<rparr>"

definition unclaim :: "uuid \<Rightarrow> Db \<Rightarrow> PipelineJob option \<times> Db" where
  "unclaim jid = upd_job
     (\<lambda>j. pj_id j = jid \<and> pj_status j = ''in_progress'' \<and> pj_stage j = ''assigned'') to_queue"

definition ack :: "time \<Rightarrow> uuid \<Rightarrow> uuid \<Rightarrow> Db \<Rightarrow> PipelineJob option \<times> Db" where
  "ack now jid rid = upd_job
     (\<lambda>j. pj_id j = jid \<and> pj_runner_id j = Some rid \<and> pj_status j = ''in_progress'' \<and> pj_stage j = ''assigned'')
     (\<lambda>j. j\<lparr>pj_stage := ''preparing'', pj_started_at := coalesce (pj_started_at j) now\<rparr>)"

definition before :: "time option \<Rightarrow> time \<Rightarrow> bool" where
  "before t limit = (case t of None \<Rightarrow> False | Some x \<Rightarrow> x < limit)"

definition unacked :: "time \<Rightarrow> int \<Rightarrow> PipelineJob \<Rightarrow> bool" where
  "unacked now cutoff_secs j \<longleftrightarrow> pj_status j = ''in_progress'' \<and> pj_stage j = ''assigned'' \<and>
     before (pj_assigned_at j) (now - secs cutoff_secs)"

definition revert_unacked :: "time \<Rightarrow> int \<Rightarrow> Db \<Rightarrow> (uuid \<times> uuid \<times> uuid option) list \<times> Db" where
  "revert_unacked now cutoff_secs db =
     (map (\<lambda>j. (pj_id j, pj_pipeline_id j, pj_runner_id j)) (filter (unacked now cutoff_secs) (db_jobs db)),
      snd (upd_jobs (unacked now cutoff_secs) to_queue db))"

definition set_stage :: "uuid \<Rightarrow> uuid \<Rightarrow> rstr \<Rightarrow> Db \<Rightarrow> PipelineJob option \<times> Db" where
  "set_stage jid rid stage = upd_job
     (\<lambda>j. pj_id j = jid \<and> pj_runner_id j = Some rid \<and> pj_status j = ''in_progress'')
     (\<lambda>j. j\<lparr>pj_stage := stage\<rparr>)"

definition finish_from_runner ::
  "time \<Rightarrow> uuid \<Rightarrow> uuid \<Rightarrow> rstr \<Rightarrow> int option \<Rightarrow> rstr option \<Rightarrow> json option \<Rightarrow> Db \<Rightarrow> PipelineJob option \<times> Db"
where
  "finish_from_runner now jid rid conclusion exit_code error_category metrics = upd_job
     (\<lambda>j. pj_id j = jid \<and> pj_runner_id j = Some rid \<and> pj_status j = ''in_progress'')
     (\<lambda>j. j\<lparr>pj_status := ''completed'', pj_conclusion := Some conclusion, pj_stage := ''done'',
        pj_exit_code := exit_code, pj_error_category := error_category,
        pj_metrics := (case metrics of None \<Rightarrow> pj_metrics j | Some m \<Rightarrow> Some m),
        pj_started_at := coalesce (pj_started_at j) now, pj_finished_at := Some now\<rparr>)"

definition force_finish :: "time \<Rightarrow> uuid \<Rightarrow> rstr \<Rightarrow> rstr option \<Rightarrow> Db \<Rightarrow> PipelineJob option \<times> Db" where
  "force_finish now jid conclusion error_category = upd_job
     (\<lambda>j. pj_id j = jid \<and> pj_status j \<noteq> ''completed'')
     (\<lambda>j. j\<lparr>pj_status := ''completed'', pj_conclusion := Some conclusion, pj_stage := ''done'',
        pj_error_category := error_category, pj_started_at := coalesce (pj_started_at j) now,
        pj_finished_at := Some now\<rparr>)"

definition conclude_queued :: "time \<Rightarrow> rstr \<Rightarrow> PipelineJob \<Rightarrow> PipelineJob" where
  "conclude_queued now c j = j\<lparr>pj_status := ''completed'', pj_conclusion := Some c,
     pj_stage := ''done'', pj_finished_at := Some now\<rparr>"

definition mark_skipped :: "time \<Rightarrow> uuid list \<Rightarrow> Db \<Rightarrow> PipelineJob list \<times> Db" where
  "mark_skipped now ids = upd_jobs (\<lambda>j. pj_id j \<in> set ids \<and> pj_status j = ''queued'')
     (conclude_queued now ''skipped'')"

definition cancel_one_queued :: "time \<Rightarrow> uuid \<Rightarrow> Db \<Rightarrow> PipelineJob option \<times> Db" where
  "cancel_one_queued now jid = upd_job (\<lambda>j. pj_id j = jid \<and> pj_status j = ''queued'')
     (conclude_queued now ''cancelled'')"

definition cancel_queued :: "time \<Rightarrow> uuid \<Rightarrow> Db \<Rightarrow> PipelineJob list \<times> Db" where
  "cancel_queued now pid = upd_jobs (\<lambda>j. pj_pipeline_id j = pid \<and> pj_status j = ''queued'')
     (conclude_queued now ''cancelled'')"

definition running_for_pipeline :: "Db \<Rightarrow> uuid \<Rightarrow> PipelineJob list" where
  "running_for_pipeline db pid =
     filter (\<lambda>j. pj_pipeline_id j = pid \<and> pj_status j = ''in_progress'') (db_jobs db)"

definition requeue :: "PipelineJob \<Rightarrow> PipelineJob" where
  "requeue j = j\<lparr>pj_status := ''queued'', pj_stage := ''queued'', pj_runner_id := None,
     pj_assigned_at := None, pj_started_at := None, pj_attempt := pj_attempt j + 1\<rparr>"

definition lose_runner :: "time \<Rightarrow> PipelineJob \<Rightarrow> PipelineJob" where
  "lose_runner now j = j\<lparr>pj_status := ''completed'', pj_conclusion := Some ''failure'',
     pj_stage := ''done'', pj_error_category := Some ''runner_lost'',
     pj_started_at := coalesce (pj_started_at j) now, pj_finished_at := Some now\<rparr>"

text \<open>The two statements of the orphan recovery, for the jobs a condition picks out.\<close>

definition recover_orphans ::
  "time \<Rightarrow> (PipelineJob \<Rightarrow> bool) \<Rightarrow> Db \<Rightarrow> (PipelineJob list \<times> PipelineJob list) \<times> Db"
where
  "recover_orphans now mine db =
     (let (requeued, db) = upd_jobs (\<lambda>j. mine j \<and> pj_status j = ''in_progress'' \<and> pj_attempt j < 2) requeue db;
          (failed, db) = upd_jobs (\<lambda>j. mine j \<and> pj_status j = ''in_progress'') (lose_runner now) db
      in ((requeued, failed), db))"

definition requeue_orphans :: "time \<Rightarrow> uuid \<Rightarrow> Db \<Rightarrow> (PipelineJob list \<times> PipelineJob list) \<times> Db" where
  "requeue_orphans now rid = recover_orphans now (\<lambda>j. pj_runner_id j = Some rid)"

definition requeue_all_orphans :: "time \<Rightarrow> Db \<Rightarrow> (PipelineJob list \<times> PipelineJob list) \<times> Db" where
  "requeue_all_orphans now = recover_orphans now (\<lambda>j. True)"

definition job_timed_out :: "time \<Rightarrow> PipelineJob \<Rightarrow> bool" where
  "job_timed_out now j \<longleftrightarrow> pj_status j = ''in_progress'' \<and>
     (case pj_started_at j of None \<Rightarrow> False | Some t \<Rightarrow> t + secs (pj_timeout_seconds j) < now)"

definition find_timed_out_jobs :: "time \<Rightarrow> Db \<Rightarrow> PipelineJob list" where
  "find_timed_out_jobs now db = filter (job_timed_out now) (db_jobs db)"

definition mark_logs_archived :: "time \<Rightarrow> uuid \<Rightarrow> rstr \<Rightarrow> Db \<Rightarrow> bool \<times> Db" where
  "mark_logs_archived now jid backend db =
     (let (rs, db) = upd_jobs (\<lambda>j. pj_id j = jid \<and> pj_logs_archived_at j = None)
           (\<lambda>j. j\<lparr>pj_logs_archived_at := Some now, pj_logs_archive_backend := Some backend\<rparr>) db
      in (length rs = 1, db))"

definition statuses_for_pipeline :: "Db \<Rightarrow> uuid \<Rightarrow> (rstr \<times> rstr option) list" where
  "statuses_for_pipeline db pid =
     map (\<lambda>j. (pj_status j, pj_conclusion j)) (filter (\<lambda>j. pj_pipeline_id j = pid) (db_jobs db))"

end
