(* ===== verification/RunnersDb.thy ===== *)
theory RunnersDb
  imports JobsDb
begin

text \<open>
  The statements of \<open>db/runners.rs\<close>: registration and its credentials, the connection and
  lifecycle updates, and the hosted-runner quota.  Each is the guard of its \<open>WHERE\<close> clause
  and the assignments of its \<open>SET\<close> clause; an audited one appends its audit row in the same
  transaction.
\<close>

definition upd_runners :: "(RunnerRow \<Rightarrow> bool) \<Rightarrow> (RunnerRow \<Rightarrow> RunnerRow) \<Rightarrow> Db \<Rightarrow> Db" where
  "upd_runners P f db = db\<lparr>db_runners := update_where P f (db_runners db)\<rparr>"

definition hit_runner :: "(RunnerRow \<Rightarrow> bool) \<Rightarrow> Db \<Rightarrow> RunnerRow option" where
  "hit_runner P db = fetch_optional (filter P (db_runners db))"

definition add_audit :: "AuditRow \<Rightarrow> Db \<Rightarrow> Db" where
  "add_audit a db = db\<lparr>db_audit := db_audit db @ [a]\<rparr>"

definition runner_audit :: "uuid \<Rightarrow> uuid option \<Rightarrow> rstr \<Rightarrow> uuid \<Rightarrow> json \<Rightarrow> rstr option \<Rightarrow> AuditRow" where
  "runner_audit ws actor action i metadata request_id =
     \<lparr>au_workspace_id = ws, au_actor = actor, au_action = action, au_subject_type = ''runner'',
      au_subject_id = i, au_metadata = metadata, au_request_id = request_id\<rparr>"

section \<open>Registration\<close>

text \<open>A fresh row: the inserted columns and the defaults of the migrations.\<close>

definition runner_row :: "time \<Rightarrow> uuid \<Rightarrow> uuid \<Rightarrow> rstr \<Rightarrow> rstr list \<Rightarrow> rstr option \<Rightarrow> rstr option \<Rightarrow>
    time option \<Rightarrow> uuid \<Rightarrow> bool \<Rightarrow> rstr option \<Rightarrow> RunnerRow"
where
  "runner_row now new_id ws name labels token bootstrap expires creator managed profile =
    \<lparr>rn_id = new_id, rn_workspace_id = ws, rn_name = name, rn_labels = labels,
     rn_status = ''offline'', rn_version = None, rn_last_seen_at = None, rn_created_by = Some creator,
     rn_created_at = now, rn_revoked_at = None, rn_last_health = None, rn_last_health_at = None,
     rn_draining_at = None, rn_managed = managed, rn_container_id = None, rn_provision_error = None,
     rn_resource_profile = profile, rn_token_hash = token, rn_bootstrap_token_hash = bootstrap,
     rn_bootstrap_expires_at = expires\<rparr>"

text \<open>The constraint \<open>runners_ws_name_key\<close>: one name per workspace, revoked rows included.\<close>

definition name_taken :: "Db \<Rightarrow> uuid \<Rightarrow> rstr \<Rightarrow> bool" where
  "name_taken db ws name = list_ex (\<lambda>r. rn_workspace_id r = ws \<and> rn_name r = name) (db_runners db)"

datatype CreateOutcome = Created Runner | CreateNameTaken
datatype UpdateOutcome = Updated Runner | UpdateNameTaken | UpdateNotFound

definition create ::
  "time \<Rightarrow> uuid \<Rightarrow> uuid \<Rightarrow> rstr \<Rightarrow> rstr list \<Rightarrow> rstr \<Rightarrow> uuid \<Rightarrow> rstr option \<Rightarrow> Db \<Rightarrow> CreateOutcome \<times> Db"
where
  "create now new_id ws name labels token creator request_id db =
     (if name_taken db ws name then (CreateNameTaken, db)
      else
        let r = runner_row now new_id ws name labels (Some token) None None creator False None in
        (Created (selected r),
         add_audit (runner_audit ws (Some creator) ''runner.created'' new_id
             (jobj [(''name'', JStr name), (''labels'', JArr (map JStr labels))]) request_id)
           (db\<lparr>db_runners := db_runners db @ [r]\<rparr>)))"

definition create_bootstrap ::
  "time \<Rightarrow> uuid \<Rightarrow> uuid \<Rightarrow> rstr \<Rightarrow> rstr list \<Rightarrow> rstr \<Rightarrow> time \<Rightarrow> uuid \<Rightarrow> rstr option \<Rightarrow> bool \<Rightarrow> Db \<Rightarrow>
     CreateOutcome \<times> Db"
where
  "create_bootstrap now new_id ws name labels token expires creator request_id managed db =
     (if name_taken db ws name then (CreateNameTaken, db)
      else
        let r = runner_row now new_id ws name labels None (Some token) (Some expires) creator managed None in
        (Created (selected r),
         add_audit (runner_audit ws (Some creator) ''runner.created'' new_id
             (jobj [(''name'', JStr name), (''labels'', JArr (map JStr labels)), (''bootstrap'', JBool True)])
             request_id)
           (db\<lparr>db_runners := db_runners db @ [r]\<rparr>)))"

datatype HostedCreateOutcome = HostedCreated "Runner list" | HostedNameTaken | QuotaExceeded

definition managed_live :: "RunnerRow \<Rightarrow> bool" where
  "managed_live r \<longleftrightarrow> rn_managed r \<and> rn_revoked_at r = None"

definition count_hosted :: "Db \<Rightarrow> uuid \<Rightarrow> int \<times> int" where
  "count_hosted db ws =
     (int (length (filter (\<lambda>r. managed_live r \<and> rn_workspace_id r = ws) (db_runners db))),
      int (length (filter managed_live (db_runners db))))"

definition hosted_name :: "rstr \<Rightarrow> nat \<Rightarrow> nat \<Rightarrow> rstr" where
  "hosted_name base instances i = (if instances = 1 then base else base @ ''-'' @ dec i)"

text \<open>
  The loop over the instances, inside the transaction: a taken name abandons the whole of it.
  \<open>ids\<close> are the ids the database draws, one per instance.
\<close>

fun hosted_rows ::
  "time \<Rightarrow> uuid \<Rightarrow> rstr \<Rightarrow> rstr list \<Rightarrow> rstr \<Rightarrow> nat \<Rightarrow> uuid \<Rightarrow> rstr option \<Rightarrow> (nat \<times> uuid) list \<Rightarrow> Db \<Rightarrow>
     (Runner list \<times> Db) option"
where
  "hosted_rows now ws base labels profile instances creator request_id [] db = Some ([], db)"
| "hosted_rows now ws base labels profile instances creator request_id ((i, new_id) # is) db =
     (let name = hosted_name base instances i in
      if name_taken db ws name then None
      else
        let r = runner_row now new_id ws name labels None None None creator True (Some profile);
            db1 = add_audit (runner_audit ws (Some creator) ''runner.created'' new_id
                (jobj [(''name'', JStr name), (''labels'', JArr (map JStr labels)), (''managed'', JBool True),
                  (''resourceProfile'', JStr profile)]) request_id)
              (db\<lparr>db_runners := db_runners db @ [r]\<rparr>)
        in case hosted_rows now ws base labels profile instances creator request_id is db1 of
             None \<Rightarrow> None
           | Some (rs, db2) \<Rightarrow> Some (selected r # rs, db2))"

definition create_hosted_pending ::
  "time \<Rightarrow> uuid list \<Rightarrow> uuid \<Rightarrow> rstr \<Rightarrow> rstr list \<Rightarrow> rstr \<Rightarrow> nat \<Rightarrow> uuid \<Rightarrow> rstr option \<Rightarrow> int \<Rightarrow> int \<Rightarrow> Db \<Rightarrow>
     HostedCreateOutcome \<times> Db"
where
  "create_hosted_pending now ids ws base labels profile n creator request_id max_per_workspace max_global db =
     (let instances = max n 1; (ws_count, global_count) = count_hosted db ws in
      if max_per_workspace < ws_count + int instances \<or> max_global < global_count + int instances
      then (QuotaExceeded, db)
      else case hosted_rows now ws base labels profile instances creator request_id
                  (map (\<lambda>i. (i, ids ! (i - 1))) [1..<Suc instances]) db of
             None \<Rightarrow> (HostedNameTaken, db)
           | Some (rs, db') \<Rightarrow> (HostedCreated rs, db'))"

section \<open>Credentials\<close>

definition arm_bootstrap :: "uuid \<Rightarrow> uuid \<Rightarrow> rstr \<Rightarrow> time \<Rightarrow> Db \<Rightarrow> bool \<times> Db" where
  "arm_bootstrap ws i hash expires db =
     (let P = (\<lambda>r. rn_workspace_id r = ws \<and> rn_id r = i \<and> managed_live r \<and> rn_token_hash r = None \<and>
                rn_bootstrap_token_hash r = None \<and> rn_provision_error r = None)
      in (hit_runner P db \<noteq> None,
          upd_runners P (\<lambda>r. r\<lparr>rn_bootstrap_token_hash := Some hash, rn_bootstrap_expires_at := Some expires\<rparr>) db))"

definition find_by_bootstrap_token_hash :: "time \<Rightarrow> Db \<Rightarrow> rstr \<Rightarrow> Runner option" where
  "find_by_bootstrap_token_hash now db hash = map_option selected (hit_runner
     (\<lambda>r. rn_bootstrap_token_hash r = Some hash \<and> rn_revoked_at r = None \<and>
        (case rn_bootstrap_expires_at r of None \<Rightarrow> False | Some t \<Rightarrow> now < t)) db)"

definition bootstrap_token_hash_expired :: "time \<Rightarrow> Db \<Rightarrow> rstr \<Rightarrow> bool" where
  "bootstrap_token_hash_expired now db hash = (hit_runner
     (\<lambda>r. rn_bootstrap_token_hash r = Some hash \<and>
        (case rn_bootstrap_expires_at r of None \<Rightarrow> False | Some t \<Rightarrow> t \<le> now)) db \<noteq> None)"

definition exchange_bootstrap_token :: "uuid \<Rightarrow> rstr \<Rightarrow> Db \<Rightarrow> bool \<times> Db" where
  "exchange_bootstrap_token i hash db =
     (let P = (\<lambda>r. rn_id r = i \<and> rn_bootstrap_token_hash r \<noteq> None) in
      (hit_runner P db \<noteq> None,
       upd_runners P (\<lambda>r. r\<lparr>rn_token_hash := Some hash, rn_bootstrap_token_hash := None,
         rn_bootstrap_expires_at := None\<rparr>) db))"

definition find_by_token_hash :: "Db \<Rightarrow> rstr \<Rightarrow> Runner option" where
  "find_by_token_hash db hash = map_option selected (hit_runner
     (\<lambda>r. rn_token_hash r = Some hash \<and> rn_revoked_at r = None) db)"

definition find_runner :: "Db \<Rightarrow> uuid \<Rightarrow> uuid \<Rightarrow> Runner option" where
  "find_runner db ws i = map_option selected (hit_runner (\<lambda>r. rn_workspace_id r = ws \<and> rn_id r = i) db)"

definition audited ::
  "(RunnerRow \<Rightarrow> bool) \<Rightarrow> (RunnerRow \<Rightarrow> RunnerRow) \<Rightarrow> uuid \<Rightarrow> uuid \<Rightarrow> rstr \<Rightarrow> uuid \<Rightarrow> rstr option \<Rightarrow> Db \<Rightarrow> bool \<times> Db"
where
  "audited P f ws i action actor request_id db =
     (case hit_runner P db of
        None \<Rightarrow> (False, db)
      | Some r \<Rightarrow> (True, add_audit (runner_audit ws (Some actor) action i
            (jobj [(''name'', JStr (rn_name r))]) request_id) (upd_runners P f db)))"

definition regenerate_token :: "uuid \<Rightarrow> uuid \<Rightarrow> rstr \<Rightarrow> uuid \<Rightarrow> rstr option \<Rightarrow> Db \<Rightarrow> bool \<times> Db" where
  "regenerate_token ws i hash = audited
     (\<lambda>r. rn_workspace_id r = ws \<and> rn_id r = i \<and> rn_revoked_at r = None)
     (\<lambda>r. r\<lparr>rn_token_hash := Some hash\<rparr>) ws i ''runner.token_regenerated''"

definition revoke_for_workspace :: "time \<Rightarrow> uuid \<Rightarrow> uuid \<Rightarrow> uuid \<Rightarrow> rstr option \<Rightarrow> Db \<Rightarrow> bool \<times> Db" where
  "revoke_for_workspace now ws i = audited
     (\<lambda>r. rn_workspace_id r = ws \<and> rn_id r = i \<and> rn_revoked_at r = None)
     (\<lambda>r. r\<lparr>rn_revoked_at := Some now, rn_status := ''offline''\<rparr>) ws i ''runner.revoked''"

definition update ::
  "uuid \<Rightarrow> uuid \<Rightarrow> rstr option \<Rightarrow> rstr list option \<Rightarrow> uuid \<Rightarrow> rstr option \<Rightarrow> Db \<Rightarrow> UpdateOutcome \<times> Db"
where
  "update ws i name labels actor request_id db =
     (let P = (\<lambda>r. rn_workspace_id r = ws \<and> rn_id r = i \<and> rn_revoked_at r = None);
          f = (\<lambda>r. r\<lparr>rn_name := (case name of None \<Rightarrow> rn_name r | Some x \<Rightarrow> x),
                 rn_labels := (case labels of None \<Rightarrow> rn_labels r | Some x \<Rightarrow> x)\<rparr>)
      in case hit_runner P db of
           None \<Rightarrow> (UpdateNotFound, db)
         | Some r \<Rightarrow>
             if list_ex (\<lambda>q. rn_workspace_id q = ws \<and> rn_id q \<noteq> i \<and> rn_name q = rn_name (f r)) (db_runners db)
             then (UpdateNameTaken, db)
             else (Updated (selected (f r)),
               add_audit (runner_audit ws (Some actor) ''runner.updated'' i
                   (jobj [(''name'', JStr (rn_name (f r))), (''labels'', JArr (map JStr (rn_labels (f r))))]) request_id)
                 (upd_runners P f db)))"

section \<open>Connection and lifecycle\<close>

definition mark_connected :: "time \<Rightarrow> uuid \<Rightarrow> rstr \<Rightarrow> Db \<Rightarrow> Db" where
  "mark_connected now i version = upd_runners (\<lambda>r. rn_id r = i \<and> rn_revoked_at r = None)
     (\<lambda>r. r\<lparr>rn_status := ''idle'', rn_version := Some version, rn_last_seen_at := Some now\<rparr>)"

definition update_labels :: "uuid \<Rightarrow> rstr list \<Rightarrow> Db \<Rightarrow> Db" where
  "update_labels i labels = upd_runners (\<lambda>r. rn_id r = i \<and> rn_revoked_at r = None) (\<lambda>r. r\<lparr>rn_labels := labels\<rparr>)"

definition touch_last_seen :: "time \<Rightarrow> uuid \<Rightarrow> Db \<Rightarrow> Db" where
  "touch_last_seen now i = upd_runners (\<lambda>r. rn_id r = i) (\<lambda>r. r\<lparr>rn_last_seen_at := Some now\<rparr>)"

definition touch_last_seen_with_health :: "time \<Rightarrow> uuid \<Rightarrow> json \<Rightarrow> Db \<Rightarrow> Db" where
  "touch_last_seen_with_health now i health = upd_runners (\<lambda>r. rn_id r = i)
     (\<lambda>r. r\<lparr>rn_last_seen_at := Some now, rn_last_health := Some health, rn_last_health_at := Some now\<rparr>)"

definition mark_offline :: "uuid \<Rightarrow> Db \<Rightarrow> Db" where
  "mark_offline i = upd_runners (\<lambda>r. rn_id r = i) (\<lambda>r. r\<lparr>rn_status := ''offline''\<rparr>)"

definition mark_all_offline :: "Db \<Rightarrow> Db" where
  "mark_all_offline = upd_runners (\<lambda>r. rn_status r \<noteq> ''offline'') (\<lambda>r. r\<lparr>rn_status := ''offline''\<rparr>)"

definition release :: "uuid \<Rightarrow> Db \<Rightarrow> Db" where
  "release i = upd_runners (\<lambda>r. rn_id r = i \<and> rn_status r = ''busy'')
     (\<lambda>r. r\<lparr>rn_status := (if rn_draining_at r \<noteq> None then ''offline'' else ''idle''), rn_draining_at := None\<rparr>)"

definition schedulable :: "RunnerRow \<Rightarrow> bool" where
  "schedulable r \<longleftrightarrow> rn_status r = ''idle'' \<and> rn_draining_at r = None \<and> rn_revoked_at r = None"

definition find_idle_by_ids :: "Db \<Rightarrow> uuid list \<Rightarrow> Runner list" where
  "find_idle_by_ids db ids = map selected (filter (\<lambda>r. rn_id r \<in> set ids \<and> schedulable r) (db_runners db))"

definition drain_start :: "time \<Rightarrow> uuid \<Rightarrow> uuid \<Rightarrow> uuid \<Rightarrow> rstr option \<Rightarrow> Db \<Rightarrow> bool \<times> Db" where
  "drain_start now ws i = audited
     (\<lambda>r. rn_workspace_id r = ws \<and> rn_id r = i \<and> rn_revoked_at r = None \<and> rn_draining_at r = None \<and>
        rn_status r \<in> {''idle'', ''busy''})
     (\<lambda>r. r\<lparr>rn_draining_at := Some now,
        rn_status := (if rn_status r = ''idle'' then ''offline'' else rn_status r)\<rparr>) ws i ''runner.drained''"

definition disable :: "uuid \<Rightarrow> uuid \<Rightarrow> uuid \<Rightarrow> rstr option \<Rightarrow> Db \<Rightarrow> bool \<times> Db" where
  "disable ws i = audited
     (\<lambda>r. rn_workspace_id r = ws \<and> rn_id r = i \<and> rn_revoked_at r = None \<and> rn_status r \<noteq> ''disabled'')
     (\<lambda>r. r\<lparr>rn_status := ''disabled''\<rparr>) ws i ''runner.disabled''"

definition resume :: "uuid \<Rightarrow> uuid \<Rightarrow> bool \<Rightarrow> uuid \<Rightarrow> rstr option \<Rightarrow> Db \<Rightarrow> bool \<times> Db" where
  "resume ws i connected = audited
     (\<lambda>r. rn_workspace_id r = ws \<and> rn_id r = i \<and> rn_revoked_at r = None \<and> rn_status r = ''disabled'')
     (\<lambda>r. r\<lparr>rn_status := (if connected then ''idle'' else ''offline'')\<rparr>) ws i ''runner.resumed''"

definition stale :: "time \<Rightarrow> int \<Rightarrow> RunnerRow \<Rightarrow> bool" where
  "stale now cutoff_secs r \<longleftrightarrow> rn_status r \<noteq> ''offline'' \<and>
     (case rn_last_seen_at r of None \<Rightarrow> True | Some t \<Rightarrow> t < now - secs cutoff_secs)"

definition find_stale :: "time \<Rightarrow> int \<Rightarrow> Db \<Rightarrow> Runner list" where
  "find_stale now cutoff_secs db = map selected (filter (stale now cutoff_secs) (db_runners db))"

section \<open>Hosted runners\<close>

definition set_container_id :: "uuid \<Rightarrow> uuid \<Rightarrow> rstr \<Rightarrow> Db \<Rightarrow> bool \<times> Db" where
  "set_container_id ws i cid db =
     (let P = (\<lambda>r. rn_workspace_id r = ws \<and> rn_id r = i \<and> managed_live r) in
      (hit_runner P db \<noteq> None, upd_runners P (\<lambda>r. r\<lparr>rn_container_id := Some cid\<rparr>) db))"

definition set_provision_error :: "uuid \<Rightarrow> uuid \<Rightarrow> rstr \<Rightarrow> Db \<Rightarrow> bool \<times> Db" where
  "set_provision_error ws i category db =
     (let P = (\<lambda>r. rn_workspace_id r = ws \<and> rn_id r = i \<and> rn_managed r \<and> rn_token_hash r = None) in
      (hit_runner P db \<noteq> None, upd_runners P (\<lambda>r. r\<lparr>rn_provision_error := Some category\<rparr>) db))"

definition flag_container_missing :: "uuid \<Rightarrow> Db \<Rightarrow> bool \<times> Db" where
  "flag_container_missing i db =
     (let P = (\<lambda>r. rn_id r = i \<and> managed_live r \<and> rn_status r = ''offline'' \<and> rn_container_id r \<noteq> None) in
      (hit_runner P db \<noteq> None,
       upd_runners P (\<lambda>r. r\<lparr>rn_provision_error := Some ''container_missing'', rn_container_id := None\<rparr>) db))"

definition list_managed_live :: "Db \<Rightarrow> (uuid \<times> rstr option \<times> rstr) list" where
  "list_managed_live db = map (\<lambda>r. (rn_id r, rn_container_id r, rn_status r)) (filter managed_live (db_runners db))"

text \<open>The predicate of the sweeps over rows that never got, or never used, a credential.\<close>

definition stale_pending :: "time \<Rightarrow> int \<Rightarrow> RunnerRow \<Rightarrow> bool" where
  "stale_pending now min_age_hours r \<longleftrightarrow> rn_managed r \<and> rn_token_hash r = None \<and>
     rn_bootstrap_token_hash r = None \<and> rn_created_at r < now - secs (3600 * min_age_hours)"

definition find_stale_pending_managed :: "time \<Rightarrow> int \<Rightarrow> Db \<Rightarrow> (uuid \<times> rstr option) list" where
  "find_stale_pending_managed now h db =
     map (\<lambda>r. (rn_id r, rn_container_id r)) (filter (stale_pending now h) (db_runners db))"

definition purge_stale_pending_managed :: "time \<Rightarrow> int \<Rightarrow> Db \<Rightarrow> nat \<times> Db" where
  "purge_stale_pending_managed now h db =
     (length (filter (stale_pending now h) (db_runners db)),
      db\<lparr>db_runners := filter (\<lambda>r. \<not> stale_pending now h r) (db_runners db)\<rparr>)"

definition bootstrap_expired :: "time \<Rightarrow> RunnerRow \<Rightarrow> bool" where
  "bootstrap_expired now r \<longleftrightarrow> rn_token_hash r = None \<and> before (rn_bootstrap_expires_at r) now"

definition find_expired_bootstrap_managed :: "time \<Rightarrow> Db \<Rightarrow> (uuid \<times> rstr option) list" where
  "find_expired_bootstrap_managed now db = map (\<lambda>r. (rn_id r, rn_container_id r))
     (filter (\<lambda>r. rn_managed r \<and> bootstrap_expired now r) (db_runners db))"

definition purge_expired_bootstrap :: "time \<Rightarrow> Db \<Rightarrow> (uuid \<times> rstr) list \<times> Db" where
  "purge_expired_bootstrap now db =
     (map (\<lambda>r. (rn_workspace_id r, rn_name r)) (filter (bootstrap_expired now) (db_runners db)),
      db\<lparr>db_runners := filter (\<lambda>r. \<not> bootstrap_expired now r) (db_runners db)\<rparr>)"

definition insert_system_runner_audit :: "uuid \<Rightarrow> uuid \<Rightarrow> rstr \<Rightarrow> json \<Rightarrow> Db \<Rightarrow> Db" where
  "insert_system_runner_audit ws i action metadata = add_audit (runner_audit ws None action i metadata None)"

definition list_runners_for_workspace :: "Db \<Rightarrow> uuid \<Rightarrow> Runner list" where
  "list_runners_for_workspace db ws =
     map selected (sort_key rn_created_at (filter (\<lambda>r. rn_workspace_id r = ws) (db_runners db)))"

end
