(* ===== verification/RunnerReg.thy ===== *)
theory RunnerReg
  imports RunnersDb
begin

text \<open>
  Registration: the hosted-runner quota is never exceeded and a batch is all or nothing; a
  bootstrap credential can be exchanged once.
\<close>

section \<open>The quota\<close>

lemma hosted_rows_Some:
  "hosted_rows now ws base labels profile n creator q is db = Some (rs, db') \<Longrightarrow>
     \<exists>rows. db_runners db' = db_runners db @ rows \<and> length rows = length is \<and> rs = map selected rows \<and>
       (\<forall>r\<in>set rows. managed_live r \<and> rn_workspace_id r = ws \<and> rn_token_hash r = None \<and>
          rn_bootstrap_token_hash r = None) \<and>
       map rn_name rows = map (hosted_name base n \<circ> fst) is \<and>
       distinct (map rn_name rows) \<and> (\<forall>r\<in>set rows. \<not> name_taken db ws (rn_name r))"
proof (induction "is" arbitrary: db rs)
  case Nil
  then show ?case by simp
next
  case (Cons p "is")
  obtain i new_id where p: "p = (i, new_id)" by (cases p)
  define r where "r = runner_row now new_id ws (hosted_name base n i) labels None None None creator True (Some profile)"
  define db1 where "db1 = add_audit (runner_audit ws (Some creator) ''runner.created'' new_id
      (jobj [(''name'', JStr (hosted_name base n i)), (''labels'', JArr (map JStr labels)),
        (''managed'', JBool True), (''resourceProfile'', JStr profile)]) q)
    (db\<lparr>db_runners := db_runners db @ [r]\<rparr>)"
  have runners1: "db_runners db1 = db_runners db @ [r]" by (simp add: db1_def add_audit_def)
  obtain rs1 where free: "\<not> name_taken db ws (hosted_name base n i)"
    and rest: "hosted_rows now ws base labels profile n creator q is db1 = Some (rs1, db')"
    and rs: "rs = selected r # rs1"
    using Cons.prems unfolding p hosted_rows.simps Let_def r_def [symmetric] db1_def [symmetric]
    by (auto split: if_splits option.splits)
  from Cons.IH [OF rest] obtain rows where rows: "db_runners db' = db_runners db1 @ rows" "length rows = length is"
    "rs1 = map selected rows" "\<forall>x\<in>set rows. managed_live x \<and> rn_workspace_id x = ws \<and> rn_token_hash x = None \<and>
       rn_bootstrap_token_hash x = None" "map rn_name rows = map (hosted_name base n \<circ> fst) is"
    "distinct (map rn_name rows)" "\<forall>x\<in>set rows. \<not> name_taken db1 ws (rn_name x)" by blast
  have row: "managed_live r" "rn_workspace_id r = ws" "rn_token_hash r = None" "rn_bootstrap_token_hash r = None"
    "rn_name r = hosted_name base n i" by (simp_all add: r_def runner_row_def managed_live_def)
  have fresh: "\<not> name_taken db ws (rn_name x) \<and> rn_name x \<noteq> rn_name r" if "x \<in> set rows" for x
    using rows(7) that row(2) by (auto simp: name_taken_def runners1)
  have "rn_name r \<notin> set (map rn_name rows)"
  proof
    assume "rn_name r \<in> set (map rn_name rows)"
    then obtain x where "x \<in> set rows" "rn_name r = rn_name x" by (auto simp only: set_map)
    with fresh show False by metis
  qed
  then have "distinct (map rn_name (r # rows))" using rows(6) by (simp only: list.map distinct.simps simp_thms)
  moreover have "\<forall>x\<in>set (r # rows). \<not> name_taken db ws (rn_name x)"
    using fresh free row(5) by simp
  moreover have "map rn_name (r # rows) = map (hosted_name base n \<circ> fst) ((i, new_id) # is)"
    using rows(5) row(5) by simp
  moreover have "\<forall>x\<in>set (r # rows). managed_live x \<and> rn_workspace_id x = ws \<and> rn_token_hash x = None \<and>
      rn_bootstrap_token_hash x = None"
    using rows(4) row by simp
  moreover have "db_runners db' = db_runners db @ (r # rows)" using rows(1) runners1 by simp
  moreover have "length (r # rows) = length (p # is)" "rs = map selected (r # rows)"
    using rows(2,3) rs by simp_all
  ultimately show ?case unfolding p by (intro exI [of _ "r # rows"] conjI)
qed

text \<open>C33: Hosted runners stay within their quotas, and a batch is created whole or not at all.
  When the creation succeeds there are exactly the requested instances more, under distinct
  names that were free, and both the workspace's and the global count of live hosted runners
  are within their limits; any other outcome leaves every table as it was.\<close>

theorem hosted_quota:
  "case create_hosted_pending now ids ws base labels profile n creator q mx_ws mx_all db of
     (HostedCreated rs, db') \<Rightarrow>
       length rs = max n 1 \<and> distinct (map rn_name rs) \<and>
       count_hosted db' ws = (fst (count_hosted db ws) + int (max n 1), snd (count_hosted db ws) + int (max n 1)) \<and>
       fst (count_hosted db' ws) \<le> mx_ws \<and> snd (count_hosted db' ws) \<le> mx_all
   | (outcome, db') \<Rightarrow> db' = db"
proof (cases "create_hosted_pending now ids ws base labels profile n creator q mx_ws mx_all db")
  case (Pair outcome db')
  show ?thesis
  proof (cases outcome)
    case (HostedCreated rs)
    have run: "hosted_rows now ws base labels profile (max n 1) creator q
        (map (\<lambda>i. (i, ids ! (i - 1))) [1..<Suc (max n 1)]) db = Some (rs, db')"
      and limits: "fst (count_hosted db ws) + int (max n 1) \<le> mx_ws" "snd (count_hosted db ws) + int (max n 1) \<le> mx_all"
      using Pair HostedCreated
      by (auto simp: create_hosted_pending_def Let_def case_prod_unfold not_less split: if_splits option.splits)
    from hosted_rows_Some [OF run] obtain rows where rows: "db_runners db' = db_runners db @ rows"
      "length rows = max n 1" "rs = map selected rows" "\<forall>r\<in>set rows. managed_live r \<and> rn_workspace_id r = ws"
      "distinct (map rn_name rows)" by auto
    have "map rn_name rs = map rn_name rows" by (simp add: rows(3) selected_def Runner.truncate_def)
    then have "distinct (map rn_name rs)" using rows(5) by (simp only:)
    moreover have "length rs = max n 1" using rows(2,3) by simp
    moreover have "filter (\<lambda>r. managed_live r \<and> rn_workspace_id r = ws) rows = rows" "filter managed_live rows = rows"
      using rows(4) by (simp_all add: filter_id_conv)
    then have "count_hosted db' ws = (fst (count_hosted db ws) + int (max n 1), snd (count_hosted db ws) + int (max n 1))"
      by (simp add: count_hosted_def rows(1,2))
    ultimately show ?thesis using limits by (simp add: Pair HostedCreated)
  next
    case HostedNameTaken
    then show ?thesis using Pair
      by (auto simp: create_hosted_pending_def Let_def case_prod_unfold split: if_splits option.splits)
  next
    case QuotaExceeded
    then show ?thesis using Pair
      by (auto simp: create_hosted_pending_def Let_def case_prod_unfold split: if_splits option.splits)
  qed
qed

section \<open>The bootstrap credential\<close>

text \<open>A bootstrap credential works once.  After a successful exchange a second exchange for the
  same runner, with whatever new token, is refused and changes nothing, no bootstrap lookup
  finds that runner any more, and the permanent token is the one of the exchange.\<close>

theorem bootstrap_exchanged_once:
  assumes "exchange_bootstrap_token i h db = (True, db1)"
  shows "exchange_bootstrap_token i h' db1 = (False, db1) \<and>
    (case find_by_bootstrap_token_hash now db1 b of None \<Rightarrow> True | Some r \<Rightarrow> rn_id r \<noteq> i) \<and>
    list_ex (\<lambda>r. rn_id r = i \<and> rn_token_hash r = Some h) (db_runners db1)"
proof -
  let ?P = "\<lambda>r. rn_id r = i \<and> rn_bootstrap_token_hash r \<noteq> None"
  let ?f = "\<lambda>r. r\<lparr>rn_token_hash := Some h, rn_bootstrap_token_hash := None, rn_bootstrap_expires_at := None\<rparr>"
  have db1: "db_runners db1 = update_where ?P ?f (db_runners db)" and hit: "\<exists>r\<in>set (db_runners db). ?P r"
    using assms by (auto simp: exchange_bootstrap_token_def Let_def upd_runners_def hit_runner_def filter_empty_conv)
  have none: "\<forall>r\<in>set (db_runners db1). \<not> ?P r"
    unfolding db1 by (intro ballI, erule update_where_once [rotated 2]) simp_all
  then have "hit_runner ?P db1 = None" by (simp add: hit_runner_def filter_empty_conv)
  moreover have "upd_runners ?P f db1 = db1" for f
    using none by (simp add: upd_runners_def update_where_none)
  moreover have "(case find_by_bootstrap_token_hash now db1 b of None \<Rightarrow> True | Some r \<Rightarrow> rn_id r \<noteq> i)"
  proof (cases "find_by_bootstrap_token_hash now db1 b")
    case (Some r)
    then obtain r0 where "r = selected r0" "r0 \<in> set (db_runners db1)" "rn_bootstrap_token_hash r0 = Some b"
      by (auto simp: find_by_bootstrap_token_hash_def hit_runner_def dest: fetch_optional_Some)
    with none Some show ?thesis by (auto simp: selected_def Runner.truncate_def)
  qed simp
  moreover have "list_ex (\<lambda>r. rn_id r = i \<and> rn_token_hash r = Some h) (db_runners db1)"
  proof -
    from hit obtain r where "r \<in> set (db_runners db)" "?P r" by blast
    then have "?f r \<in> set (db_runners db1)" unfolding db1 update_where_def by force
    with \<open>?P r\<close> show ?thesis unfolding list_ex_iff by (intro bexI [of _ "?f r"]) simp_all
  qed
  ultimately show ?thesis by (simp add: exchange_bootstrap_token_def Let_def)
qed

definition demo_pending :: Db where
  "demo_pending = \<lparr>db_pipelines = [], db_counters = [], db_jobs = [],
     db_runners = [runner_row 0 3 1 ''r'' [] None (Some ''bh'') (Some 100) 1 False None],
     db_events = [], db_chunks = [], db_audit = [], db_artifacts = [], db_retention = []\<rparr>"

theorem bootstrap_exchanged_once_witness:
  "fst (exchange_bootstrap_token 3 ''h1'' demo_pending) \<and>
   \<not> fst (exchange_bootstrap_token 3 ''h2'' (snd (exchange_bootstrap_token 3 ''h1'' demo_pending)))"
proof -
  have "exchange_bootstrap_token 3 ''h1'' demo_pending = (True, snd (exchange_bootstrap_token 3 ''h1'' demo_pending))"
    by (simp add: exchange_bootstrap_token_def hit_runner_def demo_pending_def runner_row_def)
  from bootstrap_exchanged_once [OF this, of "''h2''" 0 "''bh''"] this show ?thesis
    by (metis fst_conv)
qed

end
