(* ===== verification/WorkflowNeeds.thy ===== *)
theory WorkflowNeeds
  imports Json "HOL-Library.AList"
begin

text \<open>
  The diagnostics and the parsed jobs of \<open>services/workflow_parse.rs\<close>, and its check of the
  \<open>needs\<close> graph: unresolved references and the iterative three-colour search for cycles.
\<close>

section \<open>Diagnostics and jobs\<close>

datatype Severity = Error | Warning

record Diagnostic =
  dg_severity :: Severity
  dg_message :: rstr
  dg_path :: "rstr option"
  dg_line :: "nat option"

definition dg_error :: "rstr \<Rightarrow> rstr option \<Rightarrow> Diagnostic" where
  "dg_error message path = \<lparr>dg_severity = Error, dg_message = message, dg_path = path, dg_line = None\<rparr>"

definition dg_warning :: "rstr \<Rightarrow> rstr option \<Rightarrow> Diagnostic" where
  "dg_warning message path = \<lparr>dg_severity = Warning, dg_message = message, dg_path = path, dg_line = None\<rparr>"

record ParsedJob =
  jb_key :: rstr
  jb_name :: "rstr option"
  jb_runs_on :: "rstr list"
  jb_needs :: "rstr list"
  jb_uses :: "rstr option"
  jb_strategy :: "json option"
  jb_environment :: "rstr option"
  jb_step_count :: int
  jb_position :: int

section \<open>Checking the needs\<close>

text \<open>\<open>edges.entry(key).or_default().push(need)\<close>.\<close>

definition add_edge :: "rstr \<Rightarrow> rstr \<Rightarrow> (rstr \<times> rstr list) list \<Rightarrow> (rstr \<times> rstr list) list" where
  "add_edge k n es = AList.map_default k [n] (\<lambda>ns. ns @ [n]) es"

type_synonym needs_acc = "(rstr \<times> rstr list) list \<times> Diagnostic list"

definition needs_path :: "rstr \<Rightarrow> rstr option" where
  "needs_path k = Some (''jobs.'' @ k @ ''.needs'')"

definition check_need :: "rstr list \<Rightarrow> rstr \<Rightarrow> rstr \<Rightarrow> needs_acc \<Rightarrow> needs_acc" where
  "check_need ids k need acc =
     (if k = need then
        (fst acc, snd acc @ [dg_error (''job `'' @ k @ ''` depends on itself'') (needs_path k)])
      else if need \<notin> set ids then
        (fst acc, snd acc @ [dg_error (''job `'' @ k @ ''` needs unknown job `'' @ need @ ''`'') (needs_path k)])
      else (add_edge k need (fst acc), snd acc))"

definition check_needs :: "ParsedJob list \<Rightarrow> needs_acc" where
  "check_needs jobs =
     fold (\<lambda>job. fold (check_need (map jb_key jobs) (jb_key job)) (jb_needs job)) jobs ([], [])"

text \<open>
  The search.  The top of the stack is the head of the list, so the successors that are
  pushed one by one end up in front in reverse order.  \<open>Inl\<close> is the early return.
\<close>

definition succs :: "(rstr \<times> rstr list) list \<Rightarrow> rstr \<Rightarrow> rstr list" where
  "succs edges n = (case map_of edges n of None \<Rightarrow> [] | Some ns \<Rightarrow> ns)"

type_synonym colours = "rstr \<Rightarrow> nat option"

definition enter :: "(rstr \<times> rstr list) list \<Rightarrow> colours \<Rightarrow> rstr \<Rightarrow> (rstr \<times> bool) list \<Rightarrow> (rstr \<times> bool) list" where
  "enter edges col node stack =
     rev (map (\<lambda>n. (n, False)) (filter (\<lambda>n. col n \<noteq> Some 2) (succs edges node))) @ (node, True) # stack"

function dfs :: "(rstr \<times> rstr list) list \<Rightarrow> colours \<Rightarrow> (rstr \<times> bool) list \<Rightarrow> rstr + colours" where
  "dfs edges col [] = Inr col"
| "dfs edges col ((node, True) # stack) = dfs edges (col(node \<mapsto> 2)) stack"
| "dfs edges col ((node, False) # stack) =
     (if col node = Some 2 then dfs edges col stack
      else if col node = Some 1 then Inl node
      else dfs edges (col(node \<mapsto> 1)) (enter edges (col(node \<mapsto> 1)) node stack))"
  by pat_completeness auto

text \<open>
  Entering a node with successors uses up one of the uncoloured nodes that have any; entering
  another node only replaces its entry by its leave marker.
\<close>

definition uncoloured :: "(rstr \<times> rstr list) list \<Rightarrow> colours \<Rightarrow> nat" where
  "uncoloured edges col = card {n \<in> fst ` set edges. col n \<noteq> Some 1 \<and> col n \<noteq> Some 2}"

definition stack_weight :: "(rstr \<times> bool) list \<Rightarrow> nat" where
  "stack_weight stack = sum_list (map (\<lambda>(n, leaving). if leaving then 1 else 2) stack)"

lemma uncoloured_le: "c = 1 \<or> c = 2 \<Longrightarrow> uncoloured edges (col(node \<mapsto> c)) \<le> uncoloured edges col"
  unfolding uncoloured_def by (rule card_mono) auto

lemma uncoloured_less:
  "node \<in> fst ` set edges \<Longrightarrow> col node \<noteq> Some 1 \<Longrightarrow> col node \<noteq> Some 2 \<Longrightarrow>
     uncoloured edges (col(node \<mapsto> 1)) < uncoloured edges col"
  unfolding uncoloured_def by (rule psubset_card_mono) auto

lemma enter_leaf: "node \<notin> fst ` set edges \<Longrightarrow> enter edges col node stack = (node, True) # stack"
proof -
  assume "node \<notin> fst ` set edges"
  then have "map_of edges node = None" by (simp add: map_of_eq_None_iff)
  then show ?thesis by (simp add: enter_def succs_def)
qed

termination dfs
proof (relation "measures [\<lambda>(edges, col, stack). uncoloured edges col, \<lambda>(edges, col, stack). stack_weight stack]")
  show "wf (measures [\<lambda>(edges, col, stack). uncoloured edges col, \<lambda>(edges, col, stack). stack_weight stack])" by simp
next
  fix edges col node stack
  have "uncoloured edges (col(node \<mapsto> 2)) \<le> uncoloured edges col" by (rule uncoloured_le) simp
  then show "((edges, col(node \<mapsto> 2), stack), (edges, col, (node, True) # stack)) \<in>
      measures [\<lambda>(edges, col, stack). uncoloured edges col, \<lambda>(edges, col, stack). stack_weight stack]"
    by (auto simp: stack_weight_def le_less)
next
  fix edges and col :: colours and node stack
  show "((edges, col, stack), (edges, col, (node, False) # stack)) \<in>
      measures [\<lambda>(edges, col, stack). uncoloured edges col, \<lambda>(edges, col, stack). stack_weight stack]"
    by (simp add: stack_weight_def)
next
  fix edges and col :: colours and node stack
  assume c: "col node \<noteq> Some 2" "col node \<noteq> Some 1"
  show "((edges, col(node \<mapsto> 1), enter edges (col(node \<mapsto> 1)) node stack), (edges, col, (node, False) # stack)) \<in>
      measures [\<lambda>(edges, col, stack). uncoloured edges col, \<lambda>(edges, col, stack). stack_weight stack]"
  proof (cases "node \<in> fst ` set edges")
    case True
    with c uncoloured_less show ?thesis by simp
  next
    case False
    have "uncoloured edges (col(node \<mapsto> 1)) \<le> uncoloured edges col" by (rule uncoloured_le) simp
    then show ?thesis unfolding enter_leaf [OF False] by (auto simp: stack_weight_def le_less)
  qed
qed

text \<open>The loop over the jobs.\<close>

fun dfs_jobs :: "(rstr \<times> rstr list) list \<Rightarrow> colours \<Rightarrow> rstr list \<Rightarrow> rstr option" where
  "dfs_jobs edges col [] = None"
| "dfs_jobs edges col (k # ks) =
     (if col k \<noteq> None then dfs_jobs edges col ks
      else case dfs edges col [(k, False)] of
        Inl node \<Rightarrow> Some node
      | Inr col' \<Rightarrow> dfs_jobs edges col' ks)"

definition validate_needs :: "ParsedJob list \<Rightarrow> Diagnostic list \<Rightarrow> Diagnostic list" where
  "validate_needs jobs diagnostics =
     (let (edges, ds) = check_needs jobs in
      diagnostics @ ds @
      (case dfs_jobs edges Map.empty (map jb_key jobs) of
         None \<Rightarrow> []
       | Some node \<Rightarrow> [dg_error (''circular `needs` dependency involving job `'' @ node @ ''`'') (needs_path node)]))"


section \<open>The search finds exactly the cycles\<close>

definition edge_rel :: "(rstr \<times> rstr list) list \<Rightarrow> (rstr \<times> rstr) set" where
  "edge_rel edges = {(a, b). b \<in> set (succs edges a)}"

text \<open>The node whose leave marker comes first on the stack.\<close>

fun innermost :: "(rstr \<times> bool) list \<Rightarrow> rstr option" where
  "innermost [] = None"
| "innermost ((n, leaving) # st) = (if leaving then Some n else innermost st)"

text \<open>
  Every entry was pushed as a successor of the node whose marker comes next below it, so the
  markers form a path; no marker occurs twice.
\<close>

fun path_ok :: "(rstr \<times> rstr) set \<Rightarrow> (rstr \<times> bool) list \<Rightarrow> bool" where
  "path_ok E [] = True"
| "path_ok E ((n, leaving) # st) =
     ((case innermost st of None \<Rightarrow> True | Some g \<Rightarrow> (g, n) \<in> E) \<and> (leaving \<longrightarrow> (n, True) \<notin> set st) \<and> path_ok E st)"

text \<open>A successor of a node that is still open is finished or waits above the node's marker.\<close>

fun succ_ok :: "(rstr \<times> rstr) set \<Rightarrow> colours \<Rightarrow> rstr set \<Rightarrow> (rstr \<times> bool) list \<Rightarrow> bool" where
  "succ_ok E col up [] = True"
| "succ_ok E col up ((n, leaving) # st) =
     ((leaving \<longrightarrow> (\<forall>m. (n, m) \<in> E \<longrightarrow> col m = Some 2 \<or> m \<in> up)) \<and> succ_ok E col (insert n up) st)"

definition finished_ok :: "(rstr \<times> rstr) set \<Rightarrow> colours \<Rightarrow> bool" where
  "finished_ok E col \<longleftrightarrow> (\<forall>n. col n = Some 2 \<longrightarrow> (n, n) \<notin> E\<^sup>+ \<and> (\<forall>m. (n, m) \<in> E \<longrightarrow> col m = Some 2))"

definition dfs_inv :: "(rstr \<times> rstr) set \<Rightarrow> colours \<Rightarrow> (rstr \<times> bool) list \<Rightarrow> bool" where
  "dfs_inv E col st \<longleftrightarrow> (\<forall>n. col n = Some 1 \<longleftrightarrow> (n, True) \<in> set st) \<and> (\<forall>n. col n \<in> {None, Some 1, Some 2}) \<and>
     path_ok E st \<and> succ_ok E col {} st \<and> finished_ok E col"

lemma finished_reach: "finished_ok E col \<Longrightarrow> col n = Some 2 \<Longrightarrow> (n, m) \<in> E\<^sup>+ \<Longrightarrow> col m = Some 2"
  by (rotate_tac 2, induction rule: trancl_induct) (auto simp: finished_ok_def)

text \<open>Every open node reaches the innermost one.\<close>

lemma open_reaches: "path_ok E st \<Longrightarrow> (n, True) \<in> set st \<Longrightarrow> \<exists>g. innermost st = Some g \<and> (n, g) \<in> E\<^sup>*"
proof (induction st)
  case (Cons e st)
  obtain k leaving where e: "e = (k, leaving)" by (cases e)
  show ?case
  proof (cases "leaving \<and> n = k")
    case True
    with e show ?thesis by simp
  next
    case False
    with Cons.prems e have "(n, True) \<in> set st" "path_ok E st" by auto
    with Cons.IH obtain g where g: "innermost st = Some g" "(n, g) \<in> E\<^sup>*" by auto
    with Cons.prems(1) e have "leaving \<Longrightarrow> (g, k) \<in> E" by simp
    with g e show ?thesis by (auto intro: rtrancl_into_rtrancl)
  qed
qed simp

lemma succ_ok_mono:
  "succ_ok E col up st \<Longrightarrow> (\<And>m. col m = Some 2 \<or> m \<in> up \<Longrightarrow> col' m = Some 2 \<or> m \<in> up') \<Longrightarrow>
     succ_ok E col' up' st"
proof (induction st arbitrary: up up')
  case (Cons e st)
  obtain k leaving where e: "e = (k, leaving)" by (cases e)
  from Cons.prems e have a: "succ_ok E col (insert k up) st" by simp
  have "succ_ok E col' (insert k up') st"
    by (rule Cons.IH [OF a]) (use Cons.prems(2) in auto)
  with Cons.prems e show ?case by auto
qed simp

lemma enter_rev:
  "path_ok E (map (\<lambda>n. (n, False)) ns @ (node, True) # st) \<longleftrightarrow>
     (\<forall>n\<in>set ns. (node, n) \<in> E) \<and> path_ok E ((node, True) # st)"
proof -
  have "innermost (map (\<lambda>n. (n, False)) ns @ (node, True) # st) = Some node" for ns
    by (induction ns) auto
  then show ?thesis by (induction ns) auto
qed

lemma enter_succ:
  "succ_ok E col up (map (\<lambda>n. (n, False)) ns @ st) \<longleftrightarrow> succ_ok E col (up \<union> set ns) st"
  by (induction ns arbitrary: up) auto

lemma dfs_invD:
  assumes "dfs_inv E col st"
  shows "col n = Some 1 \<longleftrightarrow> (n, True) \<in> set st" "col n \<in> {None, Some 1, Some 2}"
    "path_ok E st" "succ_ok E col {} st" "finished_ok E col"
  using assms unfolding dfs_inv_def by blast+

lemma dfs_inv_leave:
  assumes "dfs_inv E col ((node, True) # st)"
  shows "dfs_inv E (col(node \<mapsto> 2)) st"
proof -
  have open1: "\<And>n. col n = Some 1 \<longleftrightarrow> n = node \<or> (n, True) \<in> set st" and once: "(node, True) \<notin> set st"
    and path: "path_ok E st" and fin: "finished_ok E col" and node: "\<And>m. (node, m) \<in> E \<Longrightarrow> col m = Some 2"
    and succ: "succ_ok E col {node} st" and cols: "\<And>n. col n \<in> {None, Some 1, Some 2}"
    using dfs_invD [OF assms] by simp_all
  have "col node = Some 1" using open1 by simp
  have "(node, node) \<notin> E\<^sup>+"
  proof
    assume "(node, node) \<in> E\<^sup>+"
    then obtain m where m: "(node, m) \<in> E" "(m, node) \<in> E\<^sup>*" by (meson tranclD)
    from node [OF m(1)] have "col node = Some 2"
      using m(2) finished_reach [OF fin] by (cases "m = node") (auto simp: rtrancl_eq_or_trancl)
    with \<open>col node = Some 1\<close> show False by simp
  qed
  then have "finished_ok E (col(node \<mapsto> 2))" using fin node by (auto simp: finished_ok_def)
  moreover have "succ_ok E (col(node \<mapsto> 2)) {} st" by (rule succ_ok_mono [OF succ]) auto
  moreover have "\<And>n. (col(node \<mapsto> 2)) n \<in> {None, Some 1, Some 2}" using cols by auto
  moreover have "\<And>n. (col(node \<mapsto> 2)) n = Some 1 \<longleftrightarrow> (n, True) \<in> set st" using open1 once by auto
  ultimately show ?thesis using path unfolding dfs_inv_def by blast
qed


lemma dfs_inv_skip:
  assumes "dfs_inv E col ((node, False) # st)" "col node = Some 2"
  shows "dfs_inv E col st"
proof -
  have "succ_ok E col {node} st" using dfs_invD(4) [OF assms(1)] by simp
  then have "succ_ok E col {} st" by (rule succ_ok_mono) (use assms(2) in auto)
  moreover have "path_ok E st" "finished_ok E col" "\<And>n. col n = Some 1 \<longleftrightarrow> (n, True) \<in> set st"
    "\<And>n. col n \<in> {None, Some 1, Some 2}"
    using dfs_invD [OF assms(1)] by simp_all
  ultimately show ?thesis unfolding dfs_inv_def by blast
qed

lemma dfs_inv_enter:
  assumes "dfs_inv (edge_rel edges) col ((node, False) # st)" "col node \<noteq> Some 2" "col node \<noteq> Some 1"
  shows "dfs_inv (edge_rel edges) (col(node \<mapsto> 1)) (enter edges (col(node \<mapsto> 1)) node st)"
proof -
  let ?E = "edge_rel edges" and ?col = "col(node \<mapsto> 1)"
  let ?ns = "rev (filter (\<lambda>n. ?col n \<noteq> Some 2) (succs edges node))"
  have en: "enter edges ?col node st = map (\<lambda>n. (n, False)) ?ns @ (node, True) # st"
    by (simp add: enter_def rev_map)
  have open1: "\<And>n. col n = Some 1 \<longleftrightarrow> (n, True) \<in> set st" and cols: "\<And>n. col n \<in> {None, Some 1, Some 2}"
    and path: "path_ok ?E ((node, False) # st)" and succ: "succ_ok ?E col {node} st" and fin: "finished_ok ?E col"
    using dfs_invD [OF assms(1)] by simp_all
  have new: "(node, True) \<notin> set st" using open1 assms(3) by auto
  have "path_ok ?E (map (\<lambda>n. (n, False)) ?ns @ (node, True) # st)"
    unfolding enter_rev using path new by (auto simp: edge_rel_def)
  moreover have "succ_ok ?E ?col {} (map (\<lambda>n. (n, False)) ?ns @ (node, True) # st)"
  proof -
    have "succ_ok ?E ?col (insert node (set ?ns)) st"
      by (rule succ_ok_mono [OF succ]) (use assms(2) in auto)
    then show ?thesis unfolding enter_succ by (auto simp: edge_rel_def)
  qed
  moreover have "finished_ok ?E ?col" using fin assms(2) by (auto simp: finished_ok_def)
  moreover have "\<And>n. ?col n = Some 1 \<longleftrightarrow> (n, True) \<in> set (enter edges ?col node st)"
    unfolding en using open1 by (simp add: image_iff)
  moreover have "\<And>n. ?col n \<in> {None, Some 1, Some 2}" using cols by auto
  ultimately show ?thesis unfolding dfs_inv_def en by blast
qed

lemma dfs_correct:
  assumes "dfs_inv (edge_rel edges) col st"
  shows "case dfs edges col st of
      Inl node \<Rightarrow> (node, node) \<in> (edge_rel edges)\<^sup>+
    | Inr col' \<Rightarrow> dfs_inv (edge_rel edges) col' [] \<and> (\<forall>n. col n = Some 2 \<or> n \<in> fst ` set st \<longrightarrow> col' n = Some 2)"
  using assms
proof (induction edges col st rule: dfs.induct)
  case (1 edges col)
  then show ?case by simp
next
  case (2 edges col node st)
  from "2.IH" [OF dfs_inv_leave [OF "2.prems"]] show ?case by (auto split: sum.splits simp del: fun_upd_apply) auto
next
  case (3 edges col node st)
  consider "col node = Some 2" | "col node = Some 1" | "col node \<noteq> Some 2" "col node \<noteq> Some 1" by blast
  then show ?case
  proof cases
    case 1
    from "3.IH"(1) [OF 1 dfs_inv_skip [OF "3.prems" 1]] 1 show ?thesis by (auto split: sum.splits)
  next
    case 2
    with "3.prems" have "(node, True) \<in> set st" "path_ok (edge_rel edges) ((node, False) # st)" by (auto simp: dfs_inv_def)
    with open_reaches [of "edge_rel edges" st node] obtain g where "innermost st = Some g" "(node, g) \<in> (edge_rel edges)\<^sup>*"
      "(g, node) \<in> edge_rel edges" by auto
    then have "(node, node) \<in> (edge_rel edges)\<^sup>+" by (meson rtrancl_into_trancl1)
    with 2 show ?thesis by simp
  next
    case 3
    define col1 where "col1 = col(node \<mapsto> 1)"
    define st1 where "st1 = enter edges col1 node st"
    have step: "dfs edges col ((node, False) # st) = dfs edges col1 st1" using 3 by (simp add: col1_def st1_def)
    have mem: "node \<in> fst ` set st1" "fst ` set st \<subseteq> fst ` set st1" by (auto simp: st1_def enter_def image_Un)
    have black: "col n = Some 2 \<Longrightarrow> col1 n = Some 2" for n using 3 by (auto simp: col1_def)
    note ih = "3.IH"(2) [OF 3(1,2) dfs_inv_enter [OF "3.prems" 3], folded col1_def, folded st1_def]
    show ?thesis
    proof (cases "dfs edges col1 st1")
      case (Inl n)
      with ih show ?thesis unfolding step by simp
    next
      case (Inr col')
      with ih have "dfs_inv (edge_rel edges) col' []"
        "\<And>n. col1 n = Some 2 \<or> n \<in> fst ` set st1 \<Longrightarrow> col' n = Some 2" by auto
      with mem black show ?thesis unfolding step Inr by auto
    qed
  qed
qed

lemma dfs_jobs_correct:
  assumes "dfs_inv (edge_rel edges) col []"
  shows "case dfs_jobs edges col ks of
      Some node \<Rightarrow> (node, node) \<in> (edge_rel edges)\<^sup>+
    | None \<Rightarrow> \<exists>col'. dfs_inv (edge_rel edges) col' [] \<and> (\<forall>n. col n = Some 2 \<or> n \<in> set ks \<longrightarrow> col' n = Some 2)"
  using assms
proof (induction ks arbitrary: col)
  case Nil
  then show ?case by auto
next
  case (Cons k ks)
  have two: "col n = Some 2" if "col n \<noteq> None" for n
    using Cons.prems that unfolding dfs_inv_def by (metis empty_iff empty_set insert_iff)
  show ?case
  proof (cases "col k = None")
    case False
    from Cons.IH [OF Cons.prems] two [OF False] False show ?thesis by (auto split: option.splits)
  next
    case True
    with Cons.prems have "dfs_inv (edge_rel edges) col [(k, False)]" by (auto simp: dfs_inv_def)
    note d = dfs_correct [OF this]
    show ?thesis
    proof (cases "dfs edges col [(k, False)]")
      case (Inl node)
      with d True show ?thesis by simp
    next
      case (Inr col')
      with d have col': "dfs_inv (edge_rel edges) col' []" "col' k = Some 2" "\<And>n. col n = Some 2 \<Longrightarrow> col' n = Some 2"
        by auto
      from Cons.IH [OF col'(1)] col'(2,3) True Inr show ?thesis by (auto split: option.splits)
    qed
  qed
qed


section \<open>What a workflow's needs are checked for\<close>

text \<open>The specification: the needs that name another job of the workflow, and the errors.\<close>

definition needs_graph :: "ParsedJob list \<Rightarrow> (rstr \<times> rstr) set" where
  "needs_graph jobs = {(k, n). n \<noteq> k \<and> n \<in> jb_key ` set jobs \<and> (\<exists>j\<in>set jobs. jb_key j = k \<and> n \<in> set (jb_needs j))}"

definition need_error :: "rstr list \<Rightarrow> rstr \<Rightarrow> rstr \<Rightarrow> Diagnostic option" where
  "need_error ids k need =
     (if k = need then Some (dg_error (''job `'' @ k @ ''` depends on itself'') (needs_path k))
      else if need \<in> set ids then None
      else Some (dg_error (''job `'' @ k @ ''` needs unknown job `'' @ need @ ''`'') (needs_path k)))"

definition needs_errors :: "ParsedJob list \<Rightarrow> Diagnostic list" where
  "needs_errors jobs = concat (map (\<lambda>j. filter_map (need_error (map jb_key jobs) (jb_key j)) (jb_needs j)) jobs)"

definition cycle_error :: "rstr \<Rightarrow> Diagnostic" where
  "cycle_error node = dg_error (''circular `needs` dependency involving job `'' @ node @ ''`'') (needs_path node)"

lemma succs_add_edge: "succs (add_edge k n es) a = (if a = k then succs es a @ [n] else succs es a)"
  by (induction es) (auto simp: add_edge_def succs_def split: option.splits)

lemma check_need_step:
  "snd (check_need ids k n acc) = snd acc @ filter_map (need_error ids k) [n]"
  "edge_rel (fst (check_need ids k n acc)) = edge_rel (fst acc) \<union> (if n \<noteq> k \<and> n \<in> set ids then {(k, n)} else {})"
  by (auto simp: check_need_def need_error_def edge_rel_def succs_add_edge split: if_splits)

lemma filter_map_Cons: "filter_map f (x # xs) = filter_map f [x] @ filter_map f xs"
  by (simp split: option.splits)

lemma check_need_fold:
  "snd (fold (check_need ids k) needs acc) = snd acc @ filter_map (need_error ids k) needs"
  "edge_rel (fst (fold (check_need ids k) needs acc)) =
     edge_rel (fst acc) \<union> {(k, n) |n. n \<noteq> k \<and> n \<in> set ids \<and> n \<in> set needs}"
proof (induction needs arbitrary: acc)
  case (Cons need needs)
  { case 1
    show ?case by (simp only: fold_simps Cons.IH check_need_step filter_map_Cons [of _ need needs] append_assoc) }
  { case 2
    have "edge_rel (fst (fold (check_need ids k) (need # needs) acc)) =
        edge_rel (fst acc) \<union> (if need \<noteq> k \<and> need \<in> set ids then {(k, need)} else {}) \<union>
          {(k, n) |n. n \<noteq> k \<and> n \<in> set ids \<and> n \<in> set needs}"
      by (simp only: fold_simps Cons.IH check_need_step)
    then show ?case by auto }
qed auto

lemma check_needs_fold:
  "snd (fold (\<lambda>job. fold (check_need ids (jb_key job)) (jb_needs job)) js acc) =
     snd acc @ concat (map (\<lambda>j. filter_map (need_error ids (jb_key j)) (jb_needs j)) js)"
  "edge_rel (fst (fold (\<lambda>job. fold (check_need ids (jb_key job)) (jb_needs job)) js acc)) =
     edge_rel (fst acc) \<union> {(k, n). n \<noteq> k \<and> n \<in> set ids \<and> (\<exists>j\<in>set js. jb_key j = k \<and> n \<in> set (jb_needs j))}"
proof (induction js arbitrary: acc)
  case (Cons j js)
  { case 1 show ?case by (simp add: Cons check_need_fold) }
  { case 2 show ?case by (simp add: Cons check_need_fold) blast }
qed auto

lemma check_needs_facts:
  "snd (check_needs jobs) = needs_errors jobs" "edge_rel (fst (check_needs jobs)) = needs_graph jobs"
proof -
  have "edge_rel [] = {}" by (simp add: edge_rel_def succs_def)
  then show "edge_rel (fst (check_needs jobs)) = needs_graph jobs"
    unfolding check_needs_def check_needs_fold needs_graph_def by simp
qed (simp add: check_needs_def check_needs_fold needs_errors_def)

lemma needs_search_exact:
  "\<exists>cyc. validate_needs jobs ds = ds @ needs_errors jobs @ map cycle_error cyc \<and> length cyc \<le> 1 \<and>
     (cyc = [] \<longleftrightarrow> acyclic (needs_graph jobs)) \<and> set cyc \<subseteq> {k. (k, k) \<in> (needs_graph jobs)\<^sup>+}"
proof -
  obtain edges es where e: "check_needs jobs = (edges, es)" by fastforce
  with check_needs_facts [of jobs] have es: "es = needs_errors jobs" "edge_rel edges = needs_graph jobs" by simp_all
  have "dfs_inv (edge_rel edges) Map.empty []" by (simp add: dfs_inv_def finished_ok_def)
  note d = dfs_jobs_correct [OF this, of "map jb_key jobs", unfolded es(2)]
  show ?thesis
  proof (cases "dfs_jobs edges Map.empty (map jb_key jobs)")
    case None
    with d obtain col where col: "dfs_inv (needs_graph jobs) col []" "\<And>n. n \<in> jb_key ` set jobs \<Longrightarrow> col n = Some 2" by auto
    then have fin: "finished_ok (needs_graph jobs) col" by (simp add: dfs_inv_def)
    have "acyclic (needs_graph jobs)"
    proof (rule acyclicI, intro allI notI)
      fix x assume x: "(x, x) \<in> (needs_graph jobs)\<^sup>+"
      then obtain y where "(x, y) \<in> needs_graph jobs" by (meson tranclD)
      then have "col x = Some 2" using col(2) by (auto simp: needs_graph_def)
      with fin x show False by (simp add: finished_ok_def)
    qed
    with None show ?thesis by (intro exI [of _ "[]"]) (simp add: validate_needs_def e es(1))
  next
    case (Some node)
    with d have "(node, node) \<in> (needs_graph jobs)\<^sup>+" by simp
    with Some show ?thesis
      by (intro exI [of _ "[node]"]) (auto simp: validate_needs_def e es(1) cycle_error_def acyclic_def)
  qed
qed

lemma needs_errors_Nil:
  "needs_errors jobs = [] \<longleftrightarrow> list_all (\<lambda>j. set (jb_needs j) \<subseteq> jb_key ` set jobs - {jb_key j}) jobs"
proof -
  have nil: "filter_map f xs = [] \<longleftrightarrow> (\<forall>x\<in>set xs. f x = None)" for f :: "'a \<Rightarrow> 'b option" and xs
    by (induction xs) (auto split: option.splits)
  have ok: "need_error ids k n = None \<longleftrightarrow> n \<in> set ids - {k}" for ids k n by (auto simp: need_error_def)
  show ?thesis by (simp only: needs_errors_def concat_eq_Nil_conv set_map ball_simps nil ok subset_iff list_all_iff) auto
qed

text \<open>C36: The check of the needs finds exactly the cycles.  Every need that names the job itself or
  no job is reported, in order; after them comes at most one report of a cycle, and it comes
  if and only if the needs between the jobs have one, naming a job on it.  So a workflow
  passes if and only if every need names another job and the needs have no cycle.  The search
  ends for every workflow.\<close>

theorem needs_cycles_exact:
  "(\<exists>cyc. validate_needs jobs ds = ds @ needs_errors jobs @ map cycle_error cyc \<and> length cyc \<le> 1 \<and>
      (cyc = [] \<longleftrightarrow> acyclic (needs_graph jobs)) \<and> set cyc \<subseteq> {k. (k, k) \<in> (needs_graph jobs)\<^sup>+}) \<and>
   (validate_needs jobs [] = [] \<longleftrightarrow>
      list_all (\<lambda>j. set (jb_needs j) \<subseteq> jb_key ` set jobs - {jb_key j}) jobs \<and> acyclic (needs_graph jobs))"
proof -
  obtain cyc where "validate_needs jobs [] = needs_errors jobs @ map cycle_error cyc"
    "cyc = [] \<longleftrightarrow> acyclic (needs_graph jobs)"
    using needs_search_exact [of jobs "[]"] by auto
  with needs_search_exact [of jobs ds] show ?thesis by (simp add: needs_errors_Nil)
qed

end
