(* ===== verification/WorkflowRefs.thy ===== *)
theory WorkflowRefs
  imports Json Protocol
begin

text \<open>
  The text scanners of \<open>services/workflow_parse.rs\<close>: names of secrets and variables in
  expression blocks, their substitution at dispatch, identifiers, and script paths in
  \<open>run\<close> lines.
\<close>

section \<open>Identifiers\<close>

definition is_word :: "uchar \<Rightarrow> bool" where
  "is_word c \<longleftrightarrow> is_ascii_alphanumeric c \<or> c = ch (CHR ''_'')"

definition word_or_dash :: "uchar \<Rightarrow> bool" where
  "word_or_dash c \<longleftrightarrow> is_word c \<or> c = ch (CHR ''-'')"

text \<open>First character, byte cap, and the rest, in the order of the conjunction.\<close>

definition ident :: "(uchar \<Rightarrow> bool) \<Rightarrow> (uchar \<Rightarrow> bool) \<Rightarrow> nat \<Rightarrow> rstr \<Rightarrow> bool" where
  "ident first rest cap name \<longleftrightarrow>
     (case chars name of [] \<Rightarrow> False | c # cs \<Rightarrow> first c \<and> length name \<le> cap \<and> list_all rest cs)"

definition word_start :: "uchar \<Rightarrow> bool" where
  "word_start c \<longleftrightarrow> is_ascii_alphabetic c \<or> c = ch (CHR ''_'')"

definition MAX_INPUT_NAME_LEN :: nat where "MAX_INPUT_NAME_LEN = 64"

definition is_ref_ident :: "rstr \<Rightarrow> bool" where
  "is_ref_ident = ident word_start is_word 200"

definition is_valid_input_name :: "rstr \<Rightarrow> bool" where
  "is_valid_input_name = ident word_start word_or_dash MAX_INPUT_NAME_LEN"

definition is_valid_job_id :: "rstr \<Rightarrow> bool" where
  "is_valid_job_id = ident word_start word_or_dash 100"

definition valid_environment_name :: "rstr \<Rightarrow> bool" where
  "valid_environment_name = ident is_ascii_alphanumeric
     (\<lambda>c. is_ascii_alphanumeric c \<or> c \<in> {ch (CHR ''.''), ch (CHR ''_''), ch (CHR ''-'')}) 100"

definition is_valid_identifier :: "rstr \<Rightarrow> bool" where
  "is_valid_identifier value \<longleftrightarrow> value \<noteq> [] \<and> length value \<le> 100 \<and> list_all word_or_dash (chars value)"

definition sanitize_fragment :: "rstr \<Rightarrow> rstr" where
  "sanitize_fragment value = strip_control_take 100 value"

section \<open>Names after a context word\<close>

definition quote_char :: "uchar \<Rightarrow> bool" where
  "quote_char c \<longleftrightarrow> c = 0x27 \<or> c = 0x22"

text \<open>The quoted name of a bracket form and what follows the closing quote.\<close>

definition quoted :: "rstr \<Rightarrow> (rstr \<times> rstr) option" where
  "quoted s =
     (case chars s of
        [] \<Rightarrow> None
      | q # _ \<Rightarrow>
          if quote_char q then
            let inner = drop 1 s in
            (case find_sub [char_of q] inner of
               None \<Rightarrow> None
             | Some e \<Rightarrow> Some (take e inner, drop (e + 1) inner))
          else None)"

definition extract_ref_name :: "rstr \<Rightarrow> rstr option" where
  "extract_ref_name after =
     (let name =
        (case strip_prefix ''.'' after of
           Some rest \<Rightarrow> Some (of_chars (takeWhile is_word (chars rest)))
         | None \<Rightarrow>
             (case strip_prefix ''['' after of
                None \<Rightarrow> None
              | Some rest \<Rightarrow>
                  (case quoted (trim_start rest) of
                     None \<Rightarrow> None
                   | Some (inner, tail) \<Rightarrow> if starts_with (trim_start tail) '']'' then Some inner else None)))
      in Option.bind name (\<lambda>n. if is_ref_ident n then Some n else None))"

text \<open>
  The loop over the occurrences of the context word in one expression.  \<open>prev\<close> is the part
  of the expression already passed, \<open>rest\<close> what is left; \<open>Inr\<close> is \<open>break 'blocks\<close>.
  The context is one of the two words \<open>secrets\<close> and \<open>vars\<close>, so the guard on the empty
  word, which the recursion needs, is never taken.
\<close>

definition bounded :: "rstr \<Rightarrow> bool" where
  "bounded before = (before = [] \<or> (let p = of_char (last before) in
     \<not> (is_ascii_alphanumeric p \<or> p = ch (CHR ''_'') \<or> p = ch (CHR ''.''))))"

definition add_ref :: "rstr list \<Rightarrow> rstr \<Rightarrow> rstr list \<Rightarrow> rstr list" where
  "add_ref exclude after refs =
     (case extract_ref_name after of
        None \<Rightarrow> refs
      | Some name \<Rightarrow> if name \<in> set exclude \<or> name \<in> set refs then refs else refs @ [name])"

function scan_expr :: "rstr \<Rightarrow> rstr list \<Rightarrow> rstr \<Rightarrow> rstr \<Rightarrow> rstr list \<Rightarrow> rstr list + rstr list" where
  "scan_expr ctx exclude prev rest refs =
     (case find_sub ctx rest of
        None \<Rightarrow> Inl refs
      | Some pos \<Rightarrow>
          let at = prev @ take pos rest;
              after = drop (pos + length ctx) rest
          in if ctx = [] then Inl refs
             else if \<not> bounded at then scan_expr ctx exclude (at @ ctx) after refs
             else
               let refs' = add_ref exclude after refs in
               if refs' \<noteq> refs \<and> 100 \<le> length refs' then Inr refs'
               else scan_expr ctx exclude (at @ ctx) after refs')"
  by pat_completeness auto

lemma find_sub_shorter: "find_sub p s = Some i \<Longrightarrow> p \<noteq> [] \<Longrightarrow> length (drop (i + length p) s) < length s"
  using find_sub_Some [of p s i] by (cases p) auto

termination scan_expr
  by (relation "measure (\<lambda>(c, x, p, rest, r). length rest)") (auto dest: find_sub_shorter)

declare scan_expr.simps [simp del]


function scan_blocks :: "rstr \<Rightarrow> rstr list \<Rightarrow> rstr \<Rightarrow> rstr list \<Rightarrow> rstr list" where
  "scan_blocks ctx exclude rest refs =
     (case find_sub ''${{'' rest of
        None \<Rightarrow> refs
      | Some start \<Rightarrow>
          let rest = drop (start + 3) rest in
          case find_sub ''}}'' rest of
            None \<Rightarrow> refs
          | Some e \<Rightarrow>
              (case scan_expr ctx exclude [] (take e rest) refs of
                 Inr refs \<Rightarrow> refs
               | Inl refs \<Rightarrow> scan_blocks ctx exclude (drop (e + 2) rest) refs))"
  by pat_completeness auto
termination
  by (relation "measure (\<lambda>(c, x, rest, r). length rest)") (auto dest!: find_sub_Some)

declare scan_blocks.simps [simp del]

definition scan_context_refs :: "rstr \<Rightarrow> rstr \<Rightarrow> rstr list \<Rightarrow> rstr list" where
  "scan_context_refs content ctx exclude = sort (scan_blocks ctx exclude content [])"

definition scan_secret_refs :: "rstr \<Rightarrow> rstr list" where
  "scan_secret_refs content = scan_context_refs content ''secrets'' [''GITHUB_TOKEN'']"

definition scan_var_refs :: "rstr \<Rightarrow> rstr list" where
  "scan_var_refs content = scan_context_refs content ''vars'' []"

section \<open>Substitution\<close>

definition single_ref :: "rstr \<Rightarrow> rstr \<Rightarrow> (rstr \<times> rstr) option" where
  "single_ref ctx expr =
     (case strip_prefix ctx expr of
        None \<Rightarrow> None
      | Some rest \<Rightarrow>
          (case strip_prefix ''.'' rest of
             Some name \<Rightarrow> if is_ref_ident name then Some (ctx, name) else None
           | None \<Rightarrow>
               (case strip_prefix ''['' rest of
                  None \<Rightarrow> None
                | Some bracket \<Rightarrow>
                    (case quoted (trim_start bracket) of
                       None \<Rightarrow> None
                     | Some (name, tail) \<Rightarrow>
                         if trim tail = '']'' \<and> is_ref_ident name then Some (ctx, name) else None))))"

definition parse_single_ref :: "rstr \<Rightarrow> (rstr \<times> rstr) option" where
  "parse_single_ref expr =
     (case single_ref ''secrets'' expr of Some r \<Rightarrow> Some r | None \<Rightarrow> single_ref ''vars'' expr)"

function substitute_context_refs :: "(rstr \<Rightarrow> rstr \<Rightarrow> rstr option) \<Rightarrow> rstr \<Rightarrow> rstr" where
  "substitute_context_refs lookup rest =
     (case find_sub ''${{'' rest of
        None \<Rightarrow> rest
      | Some start \<Rightarrow>
          (case find_sub ''}}'' (drop (start + 3) rest) of
             None \<Rightarrow> rest
           | Some end_rel \<Rightarrow>
               let expr = take end_rel (drop (start + 3) rest);
                   block_end = start + 3 + end_rel + 2
               in (case Option.bind (parse_single_ref (trim expr)) (\<lambda>(ctx, name). lookup ctx name) of
                     Some value \<Rightarrow> take start rest @ value
                   | None \<Rightarrow> take block_end rest)
                  @ substitute_context_refs lookup (drop block_end rest)))"
  by pat_completeness auto
termination
  by (relation "measure (\<lambda>(l, rest). length rest)") (auto dest!: find_sub_Some)

declare substitute_context_refs.simps [simp del]

section \<open>Script paths\<close>

definition shell_meta :: "uchar \<Rightarrow> bool" where
  "shell_meta c \<longleftrightarrow> c \<in> set (map ch (''$*?{}()|;&<>`'' @ [CHR 0x27, CHR 0x22]))"

definition SCRIPT_EXTENSIONS :: "rstr list" where
  "SCRIPT_EXTENSIONS = [''.sh'', ''.bash'', ''.ps1'', ''.py'', ''.js'', ''.ts'', ''.mjs'', ''.cjs'', ''.rb'', ''.pl'']"

definition script_ref :: "rstr \<Rightarrow> rstr option \<Rightarrow> rstr option" where
  "script_ref token base =
     (if list_ex shell_meta (chars token) then None
      else if \<not> (starts_with token ''./'' \<or>
                list_ex (\<lambda>ext. length ext < length token \<and> ends_with token ext) SCRIPT_EXTENSIONS) then None
      else case normalize_relative_path token of
        None \<Rightarrow> None
      | Some normalized \<Rightarrow>
          let joined = (case base of Some b \<Rightarrow> b @ ''/'' @ normalized | None \<Rightarrow> normalized)
          in if length joined \<le> MAX_RELATIVE_PATH_BYTES then Some joined else None)"


section \<open>What the scan collects\<close>

definition refs_ok :: "rstr list \<Rightarrow> rstr list \<Rightarrow> bool" where
  "refs_ok exclude refs \<longleftrightarrow> distinct refs \<and> length refs \<le> 100 \<and> set refs \<subseteq> {n. is_ref_ident n \<and> n \<notin> set exclude}"

lemma extract_ref_name_ident: "extract_ref_name after = Some n \<Longrightarrow> is_ref_ident n"
  by (auto simp: extract_ref_name_def Let_def bind_eq_Some_conv split: if_splits)

lemma add_ref_ok:
  "refs_ok exclude refs \<Longrightarrow> length refs < 100 \<Longrightarrow>
     refs_ok exclude (add_ref exclude after refs) \<and> (add_ref exclude after refs \<noteq> refs \<or> length (add_ref exclude after refs) < 100)"
  using extract_ref_name_ident by (auto simp: add_ref_def refs_ok_def split: option.splits)

lemma scan_expr_ok:
  "refs_ok exclude refs \<Longrightarrow> length refs < 100 \<Longrightarrow>
     (case scan_expr ctx exclude prev rest refs of
        Inl r \<Rightarrow> refs_ok exclude r \<and> length r < 100
      | Inr r \<Rightarrow> refs_ok exclude r)"
proof (induction ctx exclude prev rest refs rule: scan_expr.induct)
  case (1 ctx exclude prev rest refs)
  show ?case
  proof (cases "find_sub ctx rest")
    case None
    then show ?thesis using "1.prems" by (simp add: scan_expr.simps [of ctx exclude prev rest])
  next
    case (Some pos)
    define at where "at = prev @ take pos rest"
    define after where "after = drop (pos + length ctx) rest"
    define refs' where "refs' = add_ref exclude after refs"
    note IH = "1.IH" [OF Some at_def after_def]
    note step = scan_expr.simps [of ctx exclude prev rest refs, unfolded Some option.case Let_def,
        folded at_def after_def, folded refs'_def]
    consider "ctx = []" | "ctx \<noteq> []" "\<not> bounded at" | "ctx \<noteq> []" "bounded at" by blast
    then show ?thesis
    proof cases
      case 1
      with "1.prems" show ?thesis unfolding step by simp
    next
      case 2
      with IH(1) "1.prems" show ?thesis by (simp add: step)
    next
      case 3
      from add_ref_ok [OF "1.prems", of after] have ok: "refs_ok exclude refs'" "refs' \<noteq> refs \<or> length refs' < 100"
        by (simp_all add: refs'_def)
      show ?thesis
      proof (cases "refs' \<noteq> refs \<and> 100 \<le> length refs'")
        case True
        with ok 3 show ?thesis by (simp add: step)
      next
        case False
        with ok "1.prems" have "length refs' < 100" by auto
        with IH(2) [OF 3(1) _ refs'_def False ok(1)] 3 False show ?thesis by (simp add: step)
      qed
    qed
  qed
qed

lemma scan_blocks_ok:
  "refs_ok exclude refs \<Longrightarrow> length refs < 100 \<Longrightarrow> refs_ok exclude (scan_blocks ctx exclude rest refs)"
proof (induction ctx exclude rest refs rule: scan_blocks.induct)
  case (1 ctx exclude rest refs)
  note step = scan_blocks.simps [of ctx exclude rest refs]
  show ?case
  proof (cases "find_sub ''${{'' rest")
    case None
    with "1.prems" show ?thesis by (simp add: step)
  next
    case (Some start)
    note s1 = Some
    show ?thesis
    proof (cases "find_sub ''}}'' (drop (start + 3) rest)")
      case None
      with "1.prems" s1 show ?thesis by (simp add: step)
    next
      case (Some e)
      from scan_expr_ok [OF "1.prems", of ctx "[]" "take e (drop (start + 3) rest)"]
        "1.IH" [OF s1 refl Some] s1 Some
      show ?thesis by (auto simp: step Let_def split: sum.splits)
    qed
  qed
qed

text \<open>C37: The names collected from a workflow are well formed.  Whatever the document, the
  secret names the scan reports are in ascending order without duplicates, at most 100,
  each an identifier of at most 200 bytes, and never the token GitHub provides itself.\<close>

theorem secret_refs_well_formed:
  "sorted (scan_secret_refs content) \<and> distinct (scan_secret_refs content) \<and>
   length (scan_secret_refs content) \<le> 100 \<and>
   set (scan_secret_refs content) \<subseteq> {n. is_ref_ident n \<and> length n \<le> 200} - {''GITHUB_TOKEN''}"
proof -
  have "refs_ok [''GITHUB_TOKEN''] (scan_blocks ''secrets'' [''GITHUB_TOKEN''] content [])"
    by (rule scan_blocks_ok) (simp_all add: refs_ok_def)
  moreover have "is_ref_ident n \<Longrightarrow> length n \<le> 200" for n
    by (auto simp: is_ref_ident_def ident_def split: list.splits)
  ultimately show ?thesis by (auto simp: scan_secret_refs_def scan_context_refs_def refs_ok_def)
qed


section \<open>What substitution does to a template\<close>

text \<open>
  A template as its author means it: text and references alternate.  \<open>template\<close> is how it
  is written, \<open>filled\<close> what it stands for under a lookup.
\<close>

type_synonym hole = "rstr \<times> rstr \<times> rstr"

definition block :: "rstr \<Rightarrow> rstr \<Rightarrow> rstr" where
  "block c n = ''${{ '' @ c @ ''.'' @ n @ '' }}''"

fun template :: "hole list \<Rightarrow> rstr \<Rightarrow> rstr" where
  "template [] rest = rest"
| "template ((l, c, n) # hs) rest = l @ block c n @ template hs rest"

fun filled :: "(rstr \<Rightarrow> rstr \<Rightarrow> rstr option) \<Rightarrow> hole list \<Rightarrow> rstr \<Rightarrow> rstr" where
  "filled lookup [] rest = rest"
| "filled lookup ((l, c, n) # hs) rest =
     l @ (case lookup c n of Some v \<Rightarrow> v | None \<Rightarrow> block c n) @ filled lookup hs rest"

definition hole_ok :: "hole \<Rightarrow> bool" where
  "hole_ok h = (case h of (l, c, n) \<Rightarrow> \<not> contains l ''${{'' \<and> c \<in> {''secrets'', ''vars''} \<and> ascii n \<and> is_ref_ident n)"

lemma find_open:
  "\<not> contains l ''${{'' \<Longrightarrow> find_sub ''${{'' (l @ ''${{'' @ r) = Some (length l)"
proof (induction l)
  case Nil
  show ?case by (simp add: starts_with_prefix)
next
  case (Cons c l)
  have no: "\<not> starts_with ((c # l) @ ''${{'' @ r) ''${{''"
  proof
    assume "starts_with ((c # l) @ ''${{'' @ r) ''${{''"
    then have p: "prefix ''${{'' (c # l @ ''${{'' @ r)" by (simp only: starts_with_prefix append_Cons)
    show False
    proof (cases l)
      case Nil
      with p show False by (auto simp: prefix_def)
    next
      case (Cons d l')
      show False
      proof (cases l')
        case Nil
        with Cons p show False by (auto simp: prefix_def)
      next
        case (Cons e l'')
        with \<open>l = d # l'\<close> p have "prefix ''${{'' (c # l)" by (auto simp: prefix_def)
        with \<open>\<not> contains (c # l) ''${{''\<close> show False
          by (simp add: contains_sublist prefix_imp_sublist)
      qed
    qed
  qed
  have "\<not> contains l ''${{''" using Cons.prems by (simp add: contains_sublist sublist_Cons_right)
  moreover have "find_sub ''${{'' ((c # l) @ ''${{'' @ r) = map_option Suc (find_sub ''${{'' (l @ ''${{'' @ r))"
    using no by (simp only: append_Cons find_sub.simps if_False)
  ultimately show ?case using Cons.IH by simp
qed

lemma find_close: "CHR ''}'' \<notin> set s \<Longrightarrow> find_sub ''}}'' (s @ ''}}'' @ r) = Some (length s)"
proof (induction s)
  case Nil
  show ?case by (simp add: starts_with_prefix)
next
  case (Cons c s)
  then have "\<not> starts_with ((c # s) @ ''}}'' @ r) ''}}''" by (simp add: starts_with_prefix)
  then have "find_sub ''}}'' ((c # s) @ ''}}'' @ r) = map_option Suc (find_sub ''}}'' (s @ ''}}'' @ r))"
    by (simp only: append_Cons find_sub.simps if_False)
  with Cons show ?case by simp
qed


lemma trim_padded:
  assumes "ascii s" "s \<noteq> []" "\<not> is_whitespace (of_char (hd s))" "\<not> is_whitespace (of_char (last s))"
  shows "trim ('' '' @ s @ '' '') = s"
proof -
  let ?cs = "map of_char s :: nat list"
  have "ascii ('' '' @ s @ '' '')" using assms(1) by (simp add: ascii_def)
  then have "chars ('' '' @ s @ '' '') = 32 # ?cs @ [32]" using chars_ascii by fastforce
  moreover have "is_whitespace 32" by (simp add: is_whitespace_def)
  moreover have "dropWhile is_whitespace (?cs @ [32]) = ?cs @ [32]"
    using assms(2,3) by (cases s) auto
  moreover have "rev (dropWhile is_whitespace (rev ?cs)) = ?cs"
    using assms(2,4) by (cases s rule: rev_cases) auto
  ultimately have "trim ('' '' @ s @ '' '') = of_chars ?cs" unfolding trim_def by (simp only: dropWhile.simps if_True rev.simps rev_append append_Cons append_Nil)
  also have "\<dots> = s"
    using assms(1) by (subst of_chars_ascii) (auto simp: ascii_def comp_def)
  finally show ?thesis .
qed

lemma word_not_space: "is_word c \<Longrightarrow> \<not> is_whitespace c"
  by (auto simp: is_word_def is_whitespace_def is_ascii_alphanumeric_def is_ascii_alphabetic_def is_ascii_digit_def
      is_ascii_upper_def is_ascii_lower_def)

lemma word_no_brace: "is_word (of_char c) \<Longrightarrow> c \<noteq> CHR ''}''"
  by (auto simp: is_word_def is_ascii_alphanumeric_def is_ascii_alphabetic_def is_ascii_digit_def
      is_ascii_upper_def is_ascii_lower_def)

lemma ref_ident_words:
  assumes "is_ref_ident n" "ascii n"
  shows "n \<noteq> []" "\<forall>c\<in>set n. is_word (of_char c)"
proof -
  have cs: "chars n = map of_char n" by (rule chars_ascii [OF assms(2)])
  with assms(1) show "n \<noteq> []" by (auto simp: is_ref_ident_def ident_def)
  have "word_start c \<Longrightarrow> is_word c" for c
    by (auto simp: word_start_def is_word_def is_ascii_alphanumeric_def)
  with assms(1) cs show "\<forall>c\<in>set n. is_word (of_char c)"
    by (cases n) (auto simp: is_ref_ident_def ident_def list_all_iff)
qed

lemma parse_block:
  assumes "hole_ok (l, c, n)"
  shows "parse_single_ref (trim ('' '' @ c @ ''.'' @ n @ '' '')) = Some (c, n)"
    and "CHR ''}'' \<notin> set ('' '' @ c @ ''.'' @ n @ '' '')"
proof -
  have c: "c = ''secrets'' \<or> c = ''vars''" and n: "is_ref_ident n" "ascii n" using assms by (auto simp: hole_ok_def)
  note w = ref_ident_words [OF n]
  show "CHR ''}'' \<notin> set ('' '' @ c @ ''.'' @ n @ '' '')"
    using c w(2) word_no_brace by fastforce
  have "trim ('' '' @ (c @ ''.'' @ n) @ '' '') = c @ ''.'' @ n"
  proof (rule trim_padded)
    show "ascii (c @ ''.'' @ n)" using c n(2) by (auto simp: ascii_def)
    show "\<not> is_whitespace (of_char (hd (c @ ''.'' @ n)))" using c by (auto simp: is_whitespace_def)
    show "\<not> is_whitespace (of_char (last (c @ ''.'' @ n)))" using w word_not_space by simp
  qed simp
  moreover have "parse_single_ref (c @ ''.'' @ n) = Some (c, n)"
    using c n(1) by (auto simp: parse_single_ref_def single_ref_def)
  ultimately show "parse_single_ref (trim ('' '' @ c @ ''.'' @ n @ '' '')) = Some (c, n)" by simp
qed

text \<open>Substitution fills exactly the references.  In a template of text and references to
  secrets or variables every reference is replaced by what the lookup gives, or left as it is
  where the lookup gives nothing, the text between them is kept, and a value is put in as it
  is: an expression inside a secret's value is not looked at again.\<close>

theorem substitution_fills_template:
  assumes "list_all hole_ok hs" "\<not> contains rest ''${{''"
  shows "substitute_context_refs lookup (template hs rest) = filled lookup hs rest"
  using assms(1)
proof (induction hs)
  case Nil
  from assms(2) show ?case by (simp add: substitute_context_refs.simps [of lookup rest] contains_def)
next
  case (Cons h hs)
  obtain l c n where h: "h = (l, c, n)" by (cases h)
  with Cons.prems have ok: "hole_ok (l, c, n)" and hs: "list_all hole_ok hs" by simp_all
  let ?e = "'' '' @ c @ ''.'' @ n @ '' ''" and ?more = "template hs rest"
  have t: "template (h # hs) rest = l @ ''${{'' @ ?e @ ''}}'' @ ?more" by (simp add: h block_def)
  have start: "find_sub ''${{'' (template (h # hs) rest) = Some (length l)"
    unfolding t by (rule find_open) (use ok in \<open>simp add: hole_ok_def\<close>)
  have d: "drop (length l + 3) (template (h # hs) rest) = ?e @ ''}}'' @ ?more" by (simp add: t)
  have e: "find_sub ''}}'' (?e @ ''}}'' @ ?more) = Some (length ?e)" by (rule find_close [OF parse_block(2) [OF ok]])
  have be: "drop (length l + 3 + length ?e + 2) (template (h # hs) rest) = ?more"
    "take (length l + 3 + length ?e + 2) (template (h # hs) rest) = l @ block c n"
  proof -
    let ?a = "l @ ''${{'' @ ?e @ ''}}''"
    have "template (h # hs) rest = ?a @ ?more" "length ?a = length l + 3 + length ?e + 2" "?a = l @ block c n"
      by (simp_all add: t block_def)
    then show "drop (length l + 3 + length ?e + 2) (template (h # hs) rest) = ?more"
      "take (length l + 3 + length ?e + 2) (template (h # hs) rest) = l @ block c n"
      by (metis append_eq_conv_conj)+
  qed
  have tk: "take (length ?e) (?e @ ''}}'' @ ?more) = ?e" "take (length l) (template (h # hs) rest) = l"
    by (simp_all add: t)
  have "substitute_context_refs lookup (template (h # hs) rest) =
      (case lookup c n of Some v \<Rightarrow> l @ v | None \<Rightarrow> l @ block c n) @ substitute_context_refs lookup ?more"
    by (subst substitute_context_refs.simps)
      (simp only: start d e be tk option.case Let_def parse_block(1) [OF ok] Option.bind.simps prod.case)
  with Cons.IH [OF hs] show ?case by (simp add: h split: option.splits)
qed

theorem substitution_fills_template_witness:
  "substitute_context_refs (\<lambda>c n. if n = ''TOKEN'' then Some ''${{ secrets.OTHER }}'' else None)
     ''curl -H ${{ secrets.TOKEN }} ${{ vars.HOST }}/x'' = ''curl -H ${{ secrets.OTHER }} ${{ vars.HOST }}/x''"
proof -
  let ?hs = "[(''curl -H '', ''secrets'', ''TOKEN''), ('' '', ''vars'', ''HOST'')]"
  let ?f = "\<lambda>c n. if n = ''TOKEN'' then Some ''${{ secrets.OTHER }}'' else None"
  have "list_all hole_ok ?hs" "\<not> contains ''/x'' ''${{''" by code_simp+
  from substitution_fills_template [OF this, of ?f] show ?thesis by (simp add: block_def)
qed

end
