(* ===== verification/WorkflowParse.thy ===== *)
theory WorkflowParse
  imports WorkflowNeeds WorkflowRefs "HOL-Library.Product_Lexorder"
begin

text \<open>
  The reduction of a workflow document to its metadata, \<open>services/workflow_parse.rs\<close>: the
  resource budget, triggers and their filters, dispatch inputs, jobs, file references.  The
  YAML parser itself is a parameter; its values are the constructors of \<open>serde_yaml_ng\<close>.
\<close>

section \<open>YAML values\<close>

text \<open>
  A number carries the text the crate prints for it and the JSON value the crate turns it
  into.  A mapping is its entries in document order.
\<close>

datatype yaml =
    YNull
  | YBool bool
  | YNum rstr json
  | YStr rstr
  | YSeq "yaml list"
  | YMap "(yaml \<times> yaml) list"
  | YTagged rstr yaml

text \<open>The accessors of the crate look through tags, a \<open>match\<close> on the value does not.\<close>

fun untag :: "yaml \<Rightarrow> yaml" where
  "untag (YTagged t v) = untag v"
| "untag v = v"

definition y_str :: "yaml \<Rightarrow> rstr option" where
  "y_str v = (case untag v of YStr s \<Rightarrow> Some s | _ \<Rightarrow> None)"

definition y_bool :: "yaml \<Rightarrow> bool option" where
  "y_bool v = (case untag v of YBool b \<Rightarrow> Some b | _ \<Rightarrow> None)"

definition y_seq :: "yaml \<Rightarrow> yaml list option" where
  "y_seq v = (case untag v of YSeq xs \<Rightarrow> Some xs | _ \<Rightarrow> None)"

type_synonym mapping = "(yaml \<times> yaml) list"

definition y_map :: "yaml \<Rightarrow> mapping option" where
  "y_map v = (case untag v of YMap m \<Rightarrow> Some m | _ \<Rightarrow> None)"

definition yget :: "mapping \<Rightarrow> rstr \<Rightarrow> yaml option" where
  "yget m k = map_of m (YStr k)"

definition show_bool :: "bool \<Rightarrow> rstr" where
  "show_bool b = (if b then ''true'' else ''false'')"

fun key_name :: "yaml \<Rightarrow> rstr option" where
  "key_name (YStr s) = Some s"
| "key_name (YBool b) = Some (show_bool b)"
| "key_name _ = None"

definition string_or_list :: "yaml option \<Rightarrow> rstr list" where
  "string_or_list value = take 50 (filter (\<lambda>s. s \<noteq> [] \<and> length s \<le> 200)
     (case value of Some (YStr s) \<Rightarrow> [s] | Some (YSeq xs) \<Rightarrow> filter_map y_str xs | _ \<Rightarrow> []))"

text \<open>\<open>value_to_json\<close>, on values, sequences and entries.\<close>

fun value_to_json :: "yaml \<Rightarrow> json" and values_to_json :: "yaml list \<Rightarrow> json list" and
  entries_to_json :: "mapping \<Rightarrow> (rstr \<times> json) list"
where
  "value_to_json YNull = JNull"
| "value_to_json (YBool b) = JBool b"
| "value_to_json (YNum n j) = j"
| "value_to_json (YStr s) = JStr s"
| "value_to_json (YSeq xs) = JArr (values_to_json xs)"
| "value_to_json (YMap m) = jobj (entries_to_json m)"
| "value_to_json (YTagged t v) = value_to_json v"
| "values_to_json [] = []"
| "values_to_json (v # vs) = value_to_json v # values_to_json vs"
| "entries_to_json [] = []"
| "entries_to_json ((k, v) # m) =
     (case key_name k of None \<Rightarrow> entries_to_json m | Some n \<Rightarrow> (n, value_to_json v) # entries_to_json m)"

section \<open>The resource budget\<close>

definition PARSER_VERSION :: nat where "PARSER_VERSION = 4"
definition MAX_NODES :: nat where "MAX_NODES = 20000"
definition MAX_DEPTH :: nat where "MAX_DEPTH = 32"
definition MAX_JOBS :: nat where "MAX_JOBS = 100"
definition MAX_STEPS_PER_JOB :: nat where "MAX_STEPS_PER_JOB = 100"
definition MAX_WORKFLOW_FILE_BYTES :: nat where "MAX_WORKFLOW_FILE_BYTES = 512 * 1024"

text \<open>What the walk pushes for a value, top of the stack first.\<close>

fun children :: "yaml \<Rightarrow> yaml list" where
  "children (YSeq xs) = rev xs"
| "children (YMap m) = rev (concat (map (\<lambda>(k, v). [k, v]) m))"
| "children _ = []"

text \<open>
  The walk: \<open>nodes\<close> counts up to the budget, which is also why the loop ends.
\<close>

function walk :: "(yaml \<times> nat) list \<Rightarrow> nat \<Rightarrow> Diagnostic option" where
  "walk [] nodes = None"
| "walk ((v, depth) # stack) nodes =
     (if MAX_NODES < nodes + 1 then
        Some (dg_error (''workflow document exceeds the '' @ dec MAX_NODES @ '' node budget'') None)
      else if MAX_DEPTH < depth then
        Some (dg_error (''workflow document exceeds the nesting depth limit of '' @ dec MAX_DEPTH) None)
      else walk (map (\<lambda>c. (c, depth + 1)) (children v) @ stack) (nodes + 1))"
  by pat_completeness auto
termination
  by (relation "measure (\<lambda>(stack, nodes). Suc MAX_NODES - nodes)") auto

declare walk.simps(2) [simp del]

definition check_budget :: "yaml \<Rightarrow> Diagnostic option" where
  "check_budget v = walk [(v, 0)] 0"

section \<open>Triggers\<close>

definition on_value :: "mapping \<Rightarrow> yaml option" where
  "on_value root = (case yget root ''on'' of Some v \<Rightarrow> Some v | None \<Rightarrow> map_of root (YBool True))"

definition extract_triggers :: "mapping \<Rightarrow> rstr list \<times> Diagnostic list" where
  "extract_triggers root =
     (case on_value root of
        None \<Rightarrow> ([], [dg_error ''workflow has no `on` trigger definition'' (Some ''on'')])
      | Some on \<Rightarrow>
          let triggers = take 50 (filter is_valid_identifier
                (case on of
                   YStr event \<Rightarrow> [event]
                 | YSeq events \<Rightarrow> filter_map y_str events
                 | YMap events \<Rightarrow> filter_map key_name (map fst events)
                 | _ \<Rightarrow> []))
          in (triggers,
              if triggers = [] then [dg_error ''`on` defines no valid trigger events'' (Some ''on'')] else []))"

definition MAX_FILTER_PATTERNS :: nat where "MAX_FILTER_PATTERNS = 50"
definition MAX_FILTER_PATTERN_LEN :: nat where "MAX_FILTER_PATTERN_LEN = 256"

definition PR_ACTIVITY_TYPES :: "rstr list" where
  "PR_ACTIVITY_TYPES = [''opened'', ''synchronize'', ''reopened'', ''closed'', ''edited'', ''assigned'', ''unassigned'',
     ''labeled'', ''unlabeled'', ''ready_for_review'', ''converted_to_draft'', ''review_requested'',
     ''review_request_removed'', ''locked'', ''unlocked'']"

definition take_pattern :: "rstr \<Rightarrow> rstr \<Rightarrow> rstr list \<times> Diagnostic list \<Rightarrow> rstr list \<times> Diagnostic list" where
  "take_pattern path pattern acc =
     (if pattern = [] then acc
      else if MAX_FILTER_PATTERN_LEN < length pattern then
        (fst acc, snd acc @ [dg_warning (''`'' @ path @ ''` contains a pattern longer than '' @
           dec MAX_FILTER_PATTERN_LEN @ '' bytes; it was ignored'') (Some path)])
      else (fst acc @ [pattern], snd acc))"

definition filter_patterns :: "yaml option \<Rightarrow> rstr \<Rightarrow> rstr list \<times> Diagnostic list" where
  "filter_patterns value path =
     (let listed = (\<lambda>raw. fold (take_pattern path) (take MAX_FILTER_PATTERNS raw)
            ([], if MAX_FILTER_PATTERNS < length raw then
                   [dg_warning (''`'' @ path @ ''` lists more than '' @ dec MAX_FILTER_PATTERNS @
                      '' patterns; extras are ignored'') (Some path)]
                 else []))
      in case value of
           None \<Rightarrow> ([], [])
         | Some (YStr s) \<Rightarrow> listed [s]
         | Some (YSeq xs) \<Rightarrow> listed (filter_map y_str xs)
         | Some _ \<Rightarrow> ([], [dg_warning (''`'' @ path @ ''` must be a string or a list of patterns'') (Some path)]))"

definition no_filters :: json where
  "no_filters = jobj
     [(''push'', jobj [(''branches'', JArr []), (''branchesIgnore'', JArr []), (''tags'', JArr []),
         (''tagsIgnore'', JArr []), (''paths'', JArr []), (''pathsIgnore'', JArr [])]),
      (''pullRequest'', jobj [(''types'', JArr []), (''branches'', JArr []), (''branchesIgnore'', JArr []),
         (''paths'', JArr []), (''pathsIgnore'', JArr [])])]"

text \<open>\<open>v[k1][k2] = x\<close>.\<close>

definition jset2 :: "rstr \<Rightarrow> rstr \<Rightarrow> json \<Rightarrow> json \<Rightarrow> json" where
  "jset2 k1 k2 x v = jset k1 (jset k2 x (jidx v k1)) v"

definition push_keys :: "(rstr \<times> rstr) list" where
  "push_keys = [(''branches'', ''branches''), (''branches-ignore'', ''branchesIgnore''), (''tags'', ''tags''),
     (''tags-ignore'', ''tagsIgnore''), (''paths'', ''paths''), (''paths-ignore'', ''pathsIgnore'')]"

definition pull_request_keys :: "(rstr \<times> rstr) list" where
  "pull_request_keys = [(''branches'', ''branches''), (''branches-ignore'', ''branchesIgnore''),
     (''paths'', ''paths''), (''paths-ignore'', ''pathsIgnore'')]"

definition cannot_combine :: "mapping \<Rightarrow> rstr \<Rightarrow> rstr \<times> rstr \<Rightarrow> Diagnostic list" where
  "cannot_combine body key pair = (case pair of (inc, ign) \<Rightarrow>
     if yget body inc \<noteq> None \<and> yget body ign \<noteq> None
     then [dg_error (''`on.'' @ key @ ''` cannot combine `'' @ inc @ ''` with `'' @ ign @ ''`'')
             (Some (''on.'' @ key @ ''.'' @ ign))]
     else [])"

definition event_filters ::
  "mapping \<Rightarrow> rstr \<times> rstr \<times> (rstr \<times> rstr) list \<Rightarrow> json \<times> Diagnostic list \<Rightarrow> json \<times> Diagnostic list"
where
  "event_filters events spec acc = (case spec of (event, key, keys) \<Rightarrow>
     (case Option.bind (yget events key) y_map of
        None \<Rightarrow> acc
      | Some body \<Rightarrow>
          let (filters, ds) = fold (\<lambda>(yaml_name, json_name) (filters, ds).
                let (ps, d) = filter_patterns (yget body yaml_name) (''on.'' @ key @ ''.'' @ yaml_name)
                in (jset2 event json_name (JArr (map JStr ps)) filters, ds @ d)) keys acc
          in (filters, ds @ cannot_combine body key (''branches'', ''branches-ignore'')
                @ cannot_combine body key (''tags'', ''tags-ignore'')
                @ cannot_combine body key (''paths'', ''paths-ignore''))))"

definition activity_type :: "rstr \<Rightarrow> rstr list \<times> Diagnostic list \<Rightarrow> rstr list \<times> Diagnostic list" where
  "activity_type value acc =
     (if value \<notin> set PR_ACTIVITY_TYPES then
        (fst acc, snd acc @ [dg_warning (''unknown pull_request activity type `'' @ take_chars 50 value @ ''`'')
           (Some ''on.pull_request.types'')])
      else (if value \<in> set (fst acc) then fst acc else fst acc @ [value], snd acc))"

definition extract_trigger_filters :: "mapping \<Rightarrow> json \<times> Diagnostic list" where
  "extract_trigger_filters root =
     (case Option.bind (on_value root) y_map of
        None \<Rightarrow> (no_filters, [])
      | Some events \<Rightarrow>
          let (filters, ds) = event_filters events (''pullRequest'', ''pull_request'', pull_request_keys)
                (event_filters events (''push'', ''push'', push_keys) (no_filters, []))
          in (case Option.bind (yget events ''pull_request'') y_map of
                None \<Rightarrow> (filters, ds)
              | Some body \<Rightarrow>
                  let (types, ds) = fold activity_type (string_or_list (yget body ''types'')) ([], ds)
                  in (jset2 ''pullRequest'' ''types'' (JArr (map JStr types)) filters, ds)))"


section \<open>Dispatch inputs\<close>

definition MAX_DISPATCH_INPUTS :: nat where "MAX_DISPATCH_INPUTS = 25"
definition MAX_INPUT_DESCRIPTION_LEN :: nat where "MAX_INPUT_DESCRIPTION_LEN = 500"
definition MAX_INPUT_DEFAULT_LEN :: nat where "MAX_INPUT_DEFAULT_LEN = 1024"
definition MAX_INPUT_OPTIONS :: nat where "MAX_INPUT_OPTIONS = 50"
definition MAX_INPUT_OPTION_LEN :: nat where "MAX_INPUT_OPTION_LEN = 200"

definition DISPATCH_INPUT_TYPES :: "rstr list" where
  "DISPATCH_INPUT_TYPES = [''string'', ''number'', ''boolean'', ''choice'', ''environment'']"

fun input_default :: "yaml \<Rightarrow> rstr option" where
  "input_default (YStr s) = Some (take_chars MAX_INPUT_DEFAULT_LEN s)"
| "input_default (YBool b) = Some (show_bool b)"
| "input_default (YNum n j) = Some n"
| "input_default _ = None"

definition inputs_path :: rstr where "inputs_path = ''on.workflow_dispatch.inputs''"

text \<open>The entry of one input and the warnings on the way.\<close>

definition input_entry :: "rstr \<Rightarrow> mapping \<Rightarrow> json \<times> Diagnostic list" where
  "input_entry name body =
     (let declared = (case Option.bind (yget body ''type'') y_str of None \<Rightarrow> ''string'' | Some t \<Rightarrow> t);
          known = declared \<in> set DISPATCH_INPUT_TYPES;
          input_type = (if known then declared else ''string'');
          type_warning = (if known then [] else
            [dg_warning (''workflow_dispatch input `'' @ name @ ''` has unknown type `'' @ take_chars 50 declared @
               ''`; treated as string'') (Some (inputs_path @ ''.'' @ name @ ''.type''))]);
          required = (case Option.bind (yget body ''required'') y_bool of None \<Rightarrow> False | Some b \<Rightarrow> b);
          description = map_option (take_chars MAX_INPUT_DESCRIPTION_LEN) (Option.bind (yget body ''description'') y_str);
          dflt = Option.bind (yget body ''default'') input_default;
          options = (case Option.bind (yget body ''options'') y_seq of
             None \<Rightarrow> []
           | Some xs \<Rightarrow> take MAX_INPUT_OPTIONS
               (filter (\<lambda>s. s \<noteq> [] \<and> length s \<le> MAX_INPUT_OPTION_LEN) (filter_map y_str xs)));
          options_warning = (if input_type = ''choice'' \<and> options = [] then
            [dg_warning (''workflow_dispatch choice input `'' @ name @ ''` defines no options'')
               (Some (inputs_path @ ''.'' @ name @ ''.options''))] else []);
          entry = jobj [(''name'', JStr name), (''type'', JStr input_type), (''required'', JBool required)];
          entry = (case description of None \<Rightarrow> entry | Some d \<Rightarrow> jset ''description'' (JStr d) entry);
          entry = (case dflt of None \<Rightarrow> entry | Some d \<Rightarrow> jset ''default'' (JStr d) entry);
          entry = (if options = [] then entry else jset ''options'' (JArr (map JStr options)) entry)
      in (entry, type_warning @ options_warning))"

definition dispatch_input :: "yaml \<times> yaml \<Rightarrow> json list \<times> Diagnostic list \<Rightarrow> json list \<times> Diagnostic list" where
  "dispatch_input kv acc =
     (case key_name (fst kv) of
        None \<Rightarrow> (fst acc, snd acc @ [dg_warning ''workflow_dispatch input with an invalid name was ignored'' (Some inputs_path)])
      | Some name \<Rightarrow>
          if \<not> is_valid_input_name name then
            (fst acc, snd acc @ [dg_warning ''workflow_dispatch input with an invalid name was ignored'' (Some inputs_path)])
          else
            (case (if snd kv = YNull then Some [] else y_map (snd kv)) of
               None \<Rightarrow> (fst acc, snd acc @ [dg_warning (''workflow_dispatch input `'' @ name @ ''` must be a mapping'')
                   (Some (inputs_path @ ''.'' @ name))])
             | Some body \<Rightarrow>
                 let (entry, ds) = input_entry name body in (fst acc @ [entry], snd acc @ ds)))"

definition extract_dispatch_inputs :: "mapping \<Rightarrow> json \<times> Diagnostic list" where
  "extract_dispatch_inputs root =
     (case Option.bind (Option.bind (Option.bind (Option.bind (Option.bind (on_value root) y_map)
             (\<lambda>events. yget events ''workflow_dispatch'')) y_map) (\<lambda>d. yget d ''inputs'')) y_map of
        None \<Rightarrow> (JArr [], [])
      | Some inputs \<Rightarrow>
          let (out, ds) = fold dispatch_input (take MAX_DISPATCH_INPUTS inputs)
                ([], if MAX_DISPATCH_INPUTS < length inputs then
                       [dg_warning (''workflow_dispatch defines more than '' @ dec MAX_DISPATCH_INPUTS @
                          '' inputs; extras are ignored'') (Some inputs_path)]
                     else [])
          in (JArr out, ds))"

section \<open>Jobs\<close>

definition KNOWN_TOP_LEVEL_KEYS :: "rstr list" where
  "KNOWN_TOP_LEVEL_KEYS = [''name'', ''run-name'', ''on'', ''permissions'', ''env'', ''defaults'', ''concurrency'', ''jobs'']"

definition KNOWN_JOB_KEYS :: "rstr list" where
  "KNOWN_JOB_KEYS = [''name'', ''permissions'', ''needs'', ''if'', ''runs-on'', ''environment'', ''concurrency'',
     ''outputs'', ''env'', ''defaults'', ''steps'', ''timeout-minutes'', ''strategy'', ''continue-on-error'',
     ''container'', ''services'', ''uses'', ''with'', ''secrets'']"

definition unknown_keys :: "rstr list \<Rightarrow> (rstr \<Rightarrow> Diagnostic) \<Rightarrow> mapping \<Rightarrow> Diagnostic list" where
  "unknown_keys known report m = map report (filter (\<lambda>k. k \<notin> set known) (filter_map key_name (map fst m)))"

definition job_environment :: "rstr \<Rightarrow> mapping \<Rightarrow> rstr option \<times> Diagnostic list" where
  "job_environment job_key job =
     (case yget job ''environment'' of
        None \<Rightarrow> (None, [])
      | Some value \<Rightarrow>
          let name = map_option trim (case y_str value of Some s \<Rightarrow> Some s
                | None \<Rightarrow> Option.bind (Option.bind (y_map value) (\<lambda>m. yget m ''name'')) y_str)
          in if name \<noteq> None \<and> name \<noteq> Some [] then (map_option (take_chars 100) name, [])
             else (None, [dg_warning (''job `'' @ job_key @ ''` has a malformed `environment` (expected a string or a map with `name`)'')
                (Some (''jobs.'' @ job_key @ ''.environment''))]))"

definition matrix_errors :: "rstr \<Rightarrow> mapping \<Rightarrow> Diagnostic list" where
  "matrix_errors job_key job =
     (case Option.bind (Option.bind (yget job ''strategy'') y_map) (\<lambda>s. yget s ''matrix'') of
        None \<Rightarrow> []
      | Some matrix \<Rightarrow>
          if y_map matrix = None \<and> y_str matrix = None then
            [dg_error (''job `'' @ job_key @ ''` has a malformed `strategy.matrix`'')
               (Some (''jobs.'' @ job_key @ ''.strategy.matrix''))]
          else [])"

definition parse_job :: "nat \<Rightarrow> rstr \<Rightarrow> mapping \<Rightarrow> ParsedJob \<times> Diagnostic list" where
  "parse_job position job_key job =
     (let path = ''jobs.'' @ job_key;
          uses = Option.bind (yget job ''uses'') y_str;
          steps = Option.bind (yget job ''steps'') y_seq;
          step_count = (case steps of None \<Rightarrow> 0 | Some xs \<Rightarrow> length xs);
          (environment, env_ds) = job_environment job_key job;
          ds = unknown_keys KNOWN_JOB_KEYS
                 (\<lambda>k. dg_warning (''unknown key `'' @ k @ ''` in job `'' @ job_key @ ''`'') (Some (path @ ''.'' @ k))) job
            @ (if uses = None \<and> steps = None
               then [dg_error (''job `'' @ job_key @ ''` has neither `steps` nor `uses`'') (Some path)] else [])
            @ (if uses \<noteq> None \<and> steps \<noteq> None
               then [dg_error (''job `'' @ job_key @ ''` cannot combine `uses` with `steps`'') (Some path)] else [])
            @ (if MAX_STEPS_PER_JOB < step_count
               then [dg_error (''job `'' @ job_key @ ''` exceeds '' @ dec MAX_STEPS_PER_JOB @ '' steps'') (Some (path @ ''.steps''))] else [])
            @ (if uses = None \<and> yget job ''runs-on'' = None
               then [dg_warning (''job `'' @ job_key @ ''` does not declare `runs-on`'') (Some (path @ ''.runs-on''))] else [])
            @ env_ds @ matrix_errors job_key job
      in (\<lparr>jb_key = job_key, jb_name = map_option (take_chars 200) (Option.bind (yget job ''name'') y_str),
            jb_runs_on = string_or_list (yget job ''runs-on''), jb_needs = string_or_list (yget job ''needs''),
            jb_uses = uses, jb_strategy = map_option value_to_json (yget job ''strategy''),
            jb_environment = environment, jb_step_count = int step_count, jb_position = int position\<rparr>, ds))"

definition add_job :: "nat \<times> yaml \<times> yaml \<Rightarrow> ParsedJob list \<times> Diagnostic list \<Rightarrow> ParsedJob list \<times> Diagnostic list" where
  "add_job entry acc =
     (let (position, key, body) = entry; reject = (\<lambda>d. (fst acc, snd acc @ [d])) in
      case key_name key of
        None \<Rightarrow> reject (dg_error ''job id must be a string'' (Some ''jobs''))
      | Some job_key \<Rightarrow>
          if \<not> is_valid_job_id job_key then
            reject (dg_error (''invalid job id `'' @ job_key @ ''`'') (Some (''jobs.'' @ job_key)))
          else case y_map body of
            None \<Rightarrow> reject (dg_error (''job `'' @ job_key @ ''` must be a mapping'') (Some (''jobs.'' @ job_key)))
          | Some job \<Rightarrow> let (j, ds) = parse_job position job_key job in (fst acc @ [j], snd acc @ ds))"

definition extract_jobs :: "mapping \<Rightarrow> ParsedJob list \<times> Diagnostic list" where
  "extract_jobs root =
     (case yget root ''jobs'' of
        None \<Rightarrow> ([], [dg_error ''workflow has no `jobs` section'' (Some ''jobs'')])
      | Some jobs_value \<Rightarrow>
          (case y_map jobs_value of
             None \<Rightarrow> ([], [dg_error ''`jobs` must be a mapping of job ids'' (Some ''jobs'')])
           | Some jobs_map \<Rightarrow>
               if jobs_map = [] then ([], [dg_error ''`jobs` defines no jobs'' (Some ''jobs'')])
               else if MAX_JOBS < length jobs_map then
                 ([], [dg_error (''workflow defines more than '' @ dec MAX_JOBS @ '' jobs'') (Some ''jobs'')])
               else fold add_job (List.enumerate 0 jobs_map) ([], [])))"

section \<open>File references\<close>

definition MAX_FILE_REFS :: nat where "MAX_FILE_REFS = 100"

datatype WorkdirValue = WdNone | WdDynamic | WdStatic rstr | WdInvalid

fun static_path :: "WorkdirValue \<Rightarrow> rstr option" where
  "static_path (WdStatic path) = Some path"
| "static_path _ = None"

definition defaults_run_working_directory :: "mapping \<Rightarrow> yaml option" where
  "defaults_run_working_directory node =
     Option.bind (Option.bind (Option.bind (Option.bind (yget node ''defaults'') y_map) (\<lambda>d. yget d ''run'')) y_map)
       (\<lambda>r. yget r ''working-directory'')"

definition read_working_directory :: "yaml option \<Rightarrow> rstr \<Rightarrow> WorkdirValue \<times> Diagnostic list" where
  "read_working_directory value path =
     (case value of
        None \<Rightarrow> (WdNone, [])
      | Some v \<Rightarrow>
          (case y_str v of
             None \<Rightarrow> (WdInvalid, [dg_warning ''`working-directory` must be a string; the affected steps run at the workspace root'' (Some path)])
           | Some raw \<Rightarrow>
               if contains raw ''${{'' then (WdDynamic, [])
               else case normalize_relative_path raw of
                 Some normalized \<Rightarrow> (WdStatic normalized, [])
               | None \<Rightarrow> (WdInvalid, [dg_warning (''working-directory `'' @ sanitize_fragment raw @
                   ''` is not a supported workspace-relative path; the affected steps run at the workspace root'') (Some path)])))"

text \<open>The set of references is kept in order, as a map from entries to nothing.\<close>

type_synonym file_refs = "((rstr \<times> rstr) \<times> unit) list"

definition add_workdir :: "WorkdirValue \<Rightarrow> file_refs \<Rightarrow> file_refs" where
  "add_workdir wd refs = (case static_path wd of None \<Rightarrow> refs | Some path \<Rightarrow> bt_insert (path, ''workdir'') () refs)"

definition add_script :: "rstr option \<Rightarrow> rstr \<Rightarrow> file_refs \<Rightarrow> file_refs" where
  "add_script base token refs =
     (if MAX_FILE_REFS * 2 \<le> length refs then refs
      else case script_ref token base of None \<Rightarrow> refs | Some path \<Rightarrow> bt_insert (path, ''script'') () refs)"

definition or_else :: "WorkdirValue \<Rightarrow> WorkdirValue \<Rightarrow> WorkdirValue" where
  "or_else wd dflt = (if wd = WdNone then dflt else wd)"

definition step_refs :: "rstr \<Rightarrow> WorkdirValue \<Rightarrow> nat \<times> yaml \<Rightarrow> file_refs \<times> Diagnostic list \<Rightarrow> file_refs \<times> Diagnostic list" where
  "step_refs job_key job_default entry acc =
     (case y_map (snd entry) of
        None \<Rightarrow> acc
      | Some step \<Rightarrow>
          let (step_wd, ds) = read_working_directory (yget step ''working-directory'')
                (''jobs.'' @ job_key @ ''.steps['' @ dec (fst entry) @ ''].working-directory'');
              refs = add_workdir step_wd (fst acc);
              effective = or_else step_wd job_default
          in (if effective = WdDynamic then refs
              else case Option.bind (yget step ''run'') y_str of
                None \<Rightarrow> refs
              | Some run \<Rightarrow> fold (add_script (static_path effective)) (split_whitespace run) refs,
              snd acc @ ds))"

definition job_refs :: "WorkdirValue \<Rightarrow> yaml \<times> yaml \<Rightarrow> file_refs \<times> Diagnostic list \<Rightarrow> file_refs \<times> Diagnostic list" where
  "job_refs workflow_wd entry acc =
     (case (key_name (fst entry), y_map (snd entry)) of
        (Some job_key, Some job) \<Rightarrow>
          let (job_wd, ds) = read_working_directory (defaults_run_working_directory job)
                (''jobs.'' @ job_key @ ''.defaults.run.working-directory'');
              steps = (case Option.bind (yget job ''steps'') y_seq of None \<Rightarrow> [] | Some xs \<Rightarrow> xs)
          in fold (step_refs job_key (or_else job_wd workflow_wd)) (take MAX_STEPS_PER_JOB (List.enumerate 0 steps))
               (add_workdir job_wd (fst acc), snd acc @ ds)
      | _ \<Rightarrow> acc)"

definition detect_file_refs :: "mapping \<Rightarrow> json list \<times> Diagnostic list" where
  "detect_file_refs root =
     (let (workflow_wd, ds) = read_working_directory (defaults_run_working_directory root) ''defaults.run.working-directory'';
          jobs = (case Option.bind (yget root ''jobs'') y_map of None \<Rightarrow> [] | Some m \<Rightarrow> m);
          (refs, ds) = fold (job_refs workflow_wd) (take MAX_JOBS jobs) (add_workdir workflow_wd [], ds)
      in (map (\<lambda>((path, kind), _). jobj [(''path'', JStr path), (''kind'', JStr kind)]) (take MAX_FILE_REFS refs), ds))"

section \<open>The whole document\<close>

definition add_environment :: "rstr \<Rightarrow> rstr list \<Rightarrow> rstr list" where
  "add_environment name names =
     (if \<not> valid_environment_name name \<or> list_ex (\<lambda>n. eq_ignore_ascii_case n name) names then names
      else names @ [name])"

definition distinct_environments :: "ParsedJob list \<Rightarrow> rstr list" where
  "distinct_environments jobs =
     sort_key to_ascii_lowercase (fold add_environment (filter_map jb_environment jobs) [])"

record ParsedWorkflow =
  wf_name :: "rstr option"
  wf_triggers :: "rstr list"
  wf_jobs :: "ParsedJob list"
  wf_metadata :: json
  wf_diagnostics :: "Diagnostic list"

definition status :: "ParsedWorkflow \<Rightarrow> rstr" where
  "status w =
     (if list_ex (\<lambda>d. dg_severity d = Error) (wf_diagnostics w) then ''errors''
      else if wf_diagnostics w \<noteq> [] then ''warnings'' else ''valid'')"

definition failed :: "Diagnostic list \<Rightarrow> ParsedWorkflow" where
  "failed ds = \<lparr>wf_name = None, wf_triggers = [], wf_jobs = [],
     wf_metadata = jobj [(''parserVersion'', JNum (dec PARSER_VERSION))], wf_diagnostics = ds\<rparr>"

definition reduce_root :: "rstr \<Rightarrow> mapping \<Rightarrow> ParsedWorkflow" where
  "reduce_root content root =
     (let ds = unknown_keys KNOWN_TOP_LEVEL_KEYS (\<lambda>k. dg_warning (''unknown top-level key `'' @ k @ ''`'') (Some k)) root;
          (triggers, d1) = extract_triggers root;
          (jobs, d2) = extract_jobs root;
          ds = validate_needs jobs (ds @ d1 @ d2);
          (inputs, d3) = extract_dispatch_inputs root;
          (filters, d4) = extract_trigger_filters root;
          (files, d5) = detect_file_refs root
      in \<lparr>wf_name = map_option (take_chars 200) (Option.bind (yget root ''name'') y_str),
          wf_triggers = triggers, wf_jobs = jobs,
          wf_metadata = jobj
            [(''parserVersion'', JNum (dec PARSER_VERSION)),
             (''permissions'', jopt value_to_json (yget root ''permissions'')),
             (''concurrency'', jopt value_to_json (yget root ''concurrency'')),
             (''envKeys'', JArr (map JStr (case Option.bind (yget root ''env'') y_map of
                None \<Rightarrow> [] | Some m \<Rightarrow> filter_map key_name (map fst m)))),
             (''secretRefs'', JArr (map JStr (scan_secret_refs content))),
             (''varRefs'', JArr (map JStr (scan_var_refs content))),
             (''environments'', JArr (map JStr (distinct_environments jobs))),
             (''dispatchInputs'', inputs), (''triggerFilters'', filters), (''fileRefs'', JArr files)],
          wf_diagnostics = ds @ d3 @ d4 @ d5\<rparr>)"

text \<open>\<open>parse_yaml\<close> is \<open>serde_yaml_ng::from_str\<close>: a value, or its message and the line.\<close>

definition parse_and_validate :: "(rstr \<Rightarrow> (rstr \<times> nat option) + yaml) \<Rightarrow> rstr \<Rightarrow> ParsedWorkflow" where
  "parse_and_validate parse_yaml content =
     (if MAX_WORKFLOW_FILE_BYTES < length content then
        failed [dg_error (''workflow file exceeds the '' @ dec MAX_WORKFLOW_FILE_BYTES @ '' byte limit'') None]
      else case parse_yaml content of
        Inl (err, line) \<Rightarrow> failed [\<lparr>dg_severity = Error, dg_message = ''YAML parse error: '' @ err, dg_path = None, dg_line = line\<rparr>]
      | Inr value \<Rightarrow>
          (case check_budget value of
             Some diagnostic \<Rightarrow> failed [diagnostic]
           | None \<Rightarrow>
               (case y_map value of
                  None \<Rightarrow> failed [dg_error ''workflow root must be a mapping'' None]
                | Some root \<Rightarrow> reduce_root content root)))"


section \<open>The budget is exact\<close>

lemma children_size [termination_simp]: "c \<in> set (children v) \<Longrightarrow> size c < size v"
proof (cases v)
  case (YSeq xs)
  assume "c \<in> set (children v)"
  with YSeq have "c \<in> set xs" by simp
  then have "size c \<le> size_list size xs" by (simp add: size_list_estimation')
  with YSeq show ?thesis by simp
next
  case (YMap m)
  assume "c \<in> set (children v)"
  with YMap obtain k w where kw: "(k, w) \<in> set m" "c = k \<or> c = w" by auto
  then have "size k < size (YMap m) \<and> size w < size (YMap m)" by (induction m) auto
  with kw(2) YMap show ?thesis by auto
qed simp_all

text \<open>What the walk sees of a value: its nodes and its nesting.\<close>

fun node_count :: "yaml \<Rightarrow> nat" where
  "node_count v = Suc (sum_list (map node_count (children v)))"

fun nesting :: "yaml \<Rightarrow> nat" where
  "nesting v = foldr max (map (\<lambda>c. Suc (nesting c)) (children v)) 0"

declare node_count.simps [simp del] nesting.simps [simp del]

lemma foldr_max_le: "foldr max xs 0 \<le> n \<longleftrightarrow> (\<forall>x\<in>set xs. x \<le> n)" for n :: nat
  by (induction xs) auto

text \<open>The nodes and the nesting of what is on the stack.\<close>

definition stack_nodes :: "(yaml \<times> nat) list \<Rightarrow> nat" where
  "stack_nodes st = sum_list (map (node_count \<circ> fst) st)"

definition stack_shallow :: "(yaml \<times> nat) list \<Rightarrow> bool" where
  "stack_shallow st \<longleftrightarrow> list_all (\<lambda>(v, d). d + nesting v \<le> MAX_DEPTH) st"

lemma stack_simps:
  "stack_nodes [] = 0" "stack_nodes ((v, d) # st) = node_count v + stack_nodes st"
  "stack_nodes (xs @ ys) = stack_nodes xs + stack_nodes ys"
  "stack_shallow []" "stack_shallow ((v, d) # st) \<longleftrightarrow> d + nesting v \<le> MAX_DEPTH \<and> stack_shallow st"
  "stack_shallow (xs @ ys) \<longleftrightarrow> stack_shallow xs \<and> stack_shallow ys"
  by (auto simp: stack_nodes_def stack_shallow_def)

lemma walk_exact:
  "nodes \<le> MAX_NODES \<Longrightarrow> walk stack nodes = None \<longleftrightarrow> nodes + stack_nodes stack \<le> MAX_NODES \<and> stack_shallow stack"
proof (induction stack nodes rule: walk.induct)
  case (1 nodes)
  then show ?case by (simp add: stack_simps)
next
  case (2 v d stack nodes)
  let ?cs = "map (\<lambda>c. (c, d + 1)) (children v)"
  have nc: "node_count v = Suc (stack_nodes ?cs)"
    by (simp add: node_count.simps [of v] comp_def stack_nodes_def)
  have nest: "d + nesting v \<le> MAX_DEPTH \<longleftrightarrow> d \<le> MAX_DEPTH \<and> stack_shallow ?cs"
  proof -
    have "d + nesting v \<le> MAX_DEPTH \<longleftrightarrow> d \<le> MAX_DEPTH \<and> nesting v \<le> MAX_DEPTH - d" by auto
    also have "\<dots> \<longleftrightarrow> d \<le> MAX_DEPTH \<and> (\<forall>c\<in>set (children v). Suc (nesting c) \<le> MAX_DEPTH - d)"
      by (simp add: nesting.simps [of v] foldr_max_le)
    finally show ?thesis
      by (cases "d \<le> MAX_DEPTH") (auto simp: stack_shallow_def list_all_iff le_diff_conv2 ac_simps)
  qed
  show ?case
  proof (cases "MAX_NODES < nodes + 1 \<or> MAX_DEPTH < d")
    case True
    then have "walk ((v, d) # stack) nodes \<noteq> None" by (auto simp: walk.simps(2))
    with True show ?thesis using nc by (auto simp: stack_simps)
  next
    case False
    then have "walk ((v, d) # stack) nodes = walk (?cs @ stack) (nodes + 1)" by (simp add: walk.simps(2))
    also have "\<dots> = None \<longleftrightarrow> nodes + 1 + stack_nodes (?cs @ stack) \<le> MAX_NODES \<and> stack_shallow (?cs @ stack)"
      by (rule "2.IH") (use False in auto)
    finally show ?thesis using nc nest False by (simp add: stack_simps)
  qed
qed


text \<open>A tag hides a document from the budget.  The walk does not look below a tag, but the
  accessors do: a document whose root carries a tag is reduced whatever it holds and however
  large it is, where the same document without the tag is refused.\<close>

theorem tag_escapes_budget:
  assumes "length content \<le> MAX_WORKFLOW_FILE_BYTES" "parse_yaml content = Inr (YTagged t (YMap m))"
  shows "parse_and_validate parse_yaml content = reduce_root content m"
proof -
  have "check_budget (YTagged t (YMap m)) = None"
    by (simp add: check_budget_def walk.simps MAX_NODES_def MAX_DEPTH_def)
  then show ?thesis using assms by (simp add: parse_and_validate_def y_map_def)
qed

definition demo_yaml :: mapping where
  "demo_yaml = [(YStr ''on'', YStr ''push''), (YStr ''jobs'', YMap
     [(YStr ''build'', YMap [(YStr ''runs-on'', YStr ''linux''), (YStr ''steps'', YSeq [])]),
      (YStr ''test'', YMap [(YStr ''needs'', YStr ''build''), (YStr ''steps'', YSeq [])])])]"

text \<open>Thirty-three sequences inside one another, under a tag.\<close>

definition demo_deep :: yaml where
  "demo_deep = ((\<lambda>v. YSeq [v]) ^^ 33) YNull"

theorem tag_escapes_budget_witness:
  "parse_and_validate (\<lambda>_. Inr (YTagged ''t'' (YMap [(YStr ''env'', demo_deep)]))) ''x'' =
     reduce_root ''x'' [(YStr ''env'', demo_deep)] \<and>
   check_budget (YMap [(YStr ''env'', demo_deep)]) \<noteq> None"
proof
  show "parse_and_validate (\<lambda>_. Inr (YTagged ''t'' (YMap [(YStr ''env'', demo_deep)]))) ''x'' =
     reduce_root ''x'' [(YStr ''env'', demo_deep)]"
    by (rule tag_escapes_budget) (simp_all add: MAX_WORKFLOW_FILE_BYTES_def)
  have "nesting (YSeq [v]) = Suc (nesting v)" for v by (simp add: nesting.simps [of "YSeq [v]"])
  then have "nesting (((\<lambda>v. YSeq [v]) ^^ n) v) = n + nesting v" for n v by (induction n) simp_all
  then have "\<not> stack_shallow [(YMap [(YStr ''env'', demo_deep)], 0)]"
    by (simp add: stack_shallow_def demo_deep_def nesting.simps [of "YMap m" for m] MAX_DEPTH_def)
  then show "check_budget (YMap [(YStr ''env'', demo_deep)]) \<noteq> None"
    by (simp add: check_budget_def walk_exact)
qed

section \<open>What a workflow without errors is\<close>

definition has_error :: "Diagnostic list \<Rightarrow> bool" where
  "has_error ds \<longleftrightarrow> list_ex (\<lambda>d. dg_severity d = Error) ds"

lemma has_error_simps [simp]:
  "has_error [] = False" "has_error (xs @ ys) = (has_error xs \<or> has_error ys)"
  "has_error (dg_error m p # ds) = True" "has_error (dg_warning m p # ds) = has_error ds"
  "has_error (if b then xs else ys) = (if b then has_error xs else has_error ys)"
  by (simp_all add: has_error_def dg_error_def dg_warning_def)

lemma status_errors: "status w \<noteq> ''errors'' \<longleftrightarrow> \<not> has_error (wf_diagnostics w)"
  by (simp add: status_def has_error_def)

definition job_fine :: "ParsedJob \<Rightarrow> bool" where
  "job_fine j \<longleftrightarrow> is_valid_job_id (jb_key j) \<and> jb_step_count j \<le> int MAX_STEPS_PER_JOB \<and>
     length (jb_needs j) \<le> 50 \<and> length (jb_runs_on j) \<le> 50"

lemma parse_job_fine:
  assumes "is_valid_job_id k" "parse_job n k job = (j, ds)" "\<not> has_error ds"
  shows "job_fine j \<and> jb_key j = k \<and> jb_position j = int n"
proof -
  define c where "c = (case Option.bind (yget job ''steps'') y_seq of None \<Rightarrow> 0 | Some xs \<Rightarrow> length xs)"
  have j: "jb_key j = k" "jb_position j = int n" "jb_step_count j = int c"
    "jb_needs j = string_or_list (yget job ''needs'')" "jb_runs_on j = string_or_list (yget job ''runs-on'')"
    unfolding arg_cong [OF assms(2), of fst, unfolded fst_conv, symmetric] c_def
    by (simp_all add: parse_job_def Let_def case_prod_unfold)
  have "MAX_STEPS_PER_JOB < c \<longrightarrow> has_error ds"
    unfolding arg_cong [OF assms(2), of snd, unfolded snd_conv, symmetric] c_def
    by (simp add: parse_job_def Let_def case_prod_unfold)
  with assms(1,3) j show ?thesis by (auto simp: job_fine_def string_or_list_def)
qed

lemma add_job_fine:
  assumes "\<not> has_error (snd (add_job e acc))"
  shows "\<not> has_error (snd acc) \<and> (\<exists>j. fst (add_job e acc) = fst acc @ [j] \<and> job_fine j \<and> jb_position j = int (fst e))"
proof -
  obtain n k body where e: "e = (n, k, body)" by (cases e)
  show ?thesis
  proof (cases "\<exists>key job. key_name k = Some key \<and> is_valid_job_id key \<and> y_map body = Some job")
    case True
    then obtain key job where kj: "key_name k = Some key" "is_valid_job_id key" "y_map body = Some job" by blast
    obtain j ds where j: "parse_job n key job = (j, ds)" by fastforce
    have a: "add_job e acc = (fst acc @ [j], snd acc @ ds)" by (simp add: add_job_def e kj j)
    with assms parse_job_fine [OF kj(2) j] show ?thesis by (simp add: e)
  next
    case False
    then have "has_error (snd (add_job e acc))"
      by (auto simp: add_job_def e Let_def split: option.splits)
    with assms show ?thesis by simp
  qed
qed

lemma add_jobs_fine:
  "\<not> has_error (snd (fold add_job es acc)) \<Longrightarrow>
     \<not> has_error (snd acc) \<and> (\<exists>js. fst (fold add_job es acc) = fst acc @ js \<and> list_all job_fine js \<and>
        map jb_position js = map (int \<circ> fst) es)"
proof (induction es arbitrary: acc)
  case (Cons e es)
  from Cons.IH [of "add_job e acc"] Cons.prems obtain js where
    "\<not> has_error (snd (add_job e acc))" "fst (fold add_job (e # es) acc) = fst (add_job e acc) @ js"
    "list_all job_fine js" "map jb_position js = map (int \<circ> fst) es" by auto
  with add_job_fine [of e acc] show ?case by force
qed simp

lemma extract_jobs_fine:
  assumes "extract_jobs root = (js, ds)" "\<not> has_error ds"
  shows "js \<noteq> [] \<and> length js \<le> MAX_JOBS \<and> list_all job_fine js \<and> map jb_position js = map int [0..<length js]"
proof -
  obtain m where m: "m \<noteq> []" "length m \<le> MAX_JOBS" "fold add_job (List.enumerate 0 m) ([], []) = (js, ds)"
    using assms by (auto simp: extract_jobs_def split: option.splits if_splits)
  from add_jobs_fine [of "List.enumerate 0 m" "([], [])"] assms(2) m(3)
  have f: "list_all job_fine js" "map jb_position js = map (int \<circ> fst) (List.enumerate 0 m)" by auto
  have "map (int \<circ> fst) (List.enumerate 0 m) = map int [0..<length m]"
    by (simp add: map_map [symmetric] del: map_map)
  moreover from this f(2) have "length js = length m" by (metis diff_zero length_map length_upt)
  ultimately show ?thesis using f m(1,2) by auto
qed

lemma extract_triggers_fine:
  assumes "extract_triggers root = (ts, ds)" "\<not> has_error ds"
  shows "ts \<noteq> [] \<and> length ts \<le> 50 \<and> set ts \<subseteq> {t. is_valid_identifier t}"
  using assms by (auto simp: extract_triggers_def Let_def split: option.splits if_splits dest: in_set_takeD)

text \<open>C39: A workflow without errors can be planned.  When the check reports no error, the workflow
  has between one and 50 well-formed triggers and between one and 100 jobs; their ids are
  well formed, their positions are their places in the document, their steps, labels and
  needs are within the caps, every need names another job, and the needs have no cycle.\<close>

theorem accepted_workflow_sound:
  assumes "parse_and_validate parse_yaml content = w" "status w \<noteq> ''errors''"
  shows "wf_triggers w \<noteq> [] \<and> length (wf_triggers w) \<le> 50 \<and> set (wf_triggers w) \<subseteq> {t. is_valid_identifier t} \<and>
    wf_jobs w \<noteq> [] \<and> length (wf_jobs w) \<le> MAX_JOBS \<and> list_all job_fine (wf_jobs w) \<and>
    map jb_position (wf_jobs w) = map int [0..<length (wf_jobs w)] \<and>
    list_all (\<lambda>j. set (jb_needs j) \<subseteq> jb_key ` set (wf_jobs w) - {jb_key j}) (wf_jobs w) \<and>
    acyclic (needs_graph (wf_jobs w))"
proof -
  have ne: "\<not> has_error (wf_diagnostics w)" using assms(2) by (simp add: status_errors)
  have "has_error (wf_diagnostics (failed [d]))" if "dg_severity d = Error" for d
    using that by (simp add: failed_def has_error_def)
  moreover have "dg_severity d = Error" if "check_budget v = Some d" for v d
  proof -
    have "walk st n = Some d \<Longrightarrow> dg_severity d = Error" for st n
      by (induction st n rule: walk.induct) (auto simp: walk.simps(2) dg_error_def split: if_splits)
    with that show ?thesis by (simp add: check_budget_def)
  qed
  ultimately obtain root where w: "w = reduce_root content root"
    using assms(1) ne by (auto simp: parse_and_validate_def dg_error_def split: if_splits sum.splits option.splits)
  obtain ts d1 where t: "extract_triggers root = (ts, d1)" by fastforce
  obtain js d2 where j: "extract_jobs root = (js, d2)" by fastforce
  obtain ds where ds: "wf_diagnostics w = validate_needs js (ds @ d1 @ d2) @ snd (extract_dispatch_inputs root) @
      snd (extract_trigger_filters root) @ snd (detect_file_refs root)"
    by (auto simp: w reduce_root_def t j Let_def case_prod_unfold)
  obtain cyc where v: "validate_needs js (ds @ d1 @ d2) = (ds @ d1 @ d2) @ needs_errors js @ map cycle_error cyc"
    "cyc = [] \<longleftrightarrow> acyclic (needs_graph js)"
    using needs_search_exact [of js "ds @ d1 @ d2"] by blast
  have "\<not> has_error d1" "\<not> has_error d2" "\<not> has_error (needs_errors js)" "\<not> has_error (map cycle_error cyc)"
    using ne by (simp_all add: ds v(1))
  moreover have "needs_errors js = []" if "\<not> has_error (needs_errors js)"
  proof -
    have "d \<in> set (needs_errors js) \<Longrightarrow> dg_severity d = Error" for d
      by (auto simp: needs_errors_def set_filter_map need_error_def dg_error_def split: if_splits)
    with that show ?thesis by (cases "needs_errors js") (auto simp: has_error_def)
  qed
  moreover have "cyc = []" if "\<not> has_error (map cycle_error cyc)"
    using that by (cases cyc) (simp_all add: cycle_error_def)
  moreover have "wf_triggers w = ts" "wf_jobs w = js" by (simp_all add: w reduce_root_def t j Let_def case_prod_unfold)
  ultimately show ?thesis
    using extract_triggers_fine [OF t] extract_jobs_fine [OF j] v(2) needs_errors_Nil [of js] by simp
qed


theorem accepted_workflow_sound_witness:
  "status (parse_and_validate (\<lambda>_. Inr (YMap demo_yaml)) ''x'') = ''warnings'' \<and>
   map jb_key (wf_jobs (parse_and_validate (\<lambda>_. Inr (YMap demo_yaml)) ''x'')) = [''build'', ''test''] \<and>
   acyclic (needs_graph (wf_jobs (parse_and_validate (\<lambda>_. Inr (YMap demo_yaml)) ''x'')))"
proof -
  let ?w = "parse_and_validate (\<lambda>_. Inr (YMap demo_yaml)) ''x''"
  have "check_budget (YMap demo_yaml) = None"
    by (simp add: check_budget_def walk.simps demo_yaml_def MAX_NODES_def MAX_DEPTH_def)
  then have w: "?w = reduce_root ''x'' demo_yaml"
    by (simp add: parse_and_validate_def MAX_WORKFLOW_FILE_BYTES_def y_map_def)
  have "status (reduce_root ''x'' demo_yaml) = ''warnings''" by code_simp
  moreover have "map jb_key (wf_jobs (reduce_root ''x'' demo_yaml)) = [''build'', ''test'']" by code_simp
  ultimately show ?thesis
    using accepted_workflow_sound [OF refl, of "\<lambda>_. Inr (YMap demo_yaml)" "''x''"] by (simp add: w)
qed

end
