(* ===== verification/LogHub.thy ===== *)
theory LogHub
  imports Tables
begin

text \<open>
  The log path, \<open>services/log_hub.rs\<close>, with the two table operations it drives
  (\<open>insert_chunks\<close> of \<open>db/pipeline_logs.rs\<close>, \<open>add_log_bytes\<close> of
  \<open>db/pipeline_jobs.rs\<close>).  The hub is a record of its two maps; the tables are the chunk
  map and the per-job byte counter.  What a broadcast delivers and the delayed clears a
  \<open>tokio::spawn\<close> leaves behind are recorded in order, so that both can be spoken of.
\<close>

definition CHANNEL_CAPACITY :: nat where "CHANNEL_CAPACITY = 512"
definition MAX_LINE_BYTES :: nat where "MAX_LINE_BYTES = 8 * 1024"
definition MAX_CHUNK_BYTES :: nat where "MAX_CHUNK_BYTES = 64 * 1024"
definition OVERFLOW_MARKER_SEQ :: int where "OVERFLOW_MARKER_SEQ = 9223372036854775807"
definition MIN_MASK_LEN :: nat where "MIN_MASK_LEN = 6"

section \<open>Replacing the values\<close>

text \<open>
  \<open>contains\<close> and \<open>replace\<close> for each registered value in turn; \<open>stars\<close> is what
  a value is replaced by.
\<close>

abbreviation stars :: rstr where "stars \<equiv> ''***''"

definition mask_one :: "rstr \<Rightarrow> rstr \<Rightarrow> rstr" where
  "mask_one masked value = (if contains masked value then str_replace value stars masked else masked)"

definition apply_masks :: "rstr \<Rightarrow> rstr list \<Rightarrow> rstr" where
  "apply_masks text values = foldl mask_one text values"

definition star_free :: "rstr \<Rightarrow> bool" where
  "star_free v \<longleftrightarrow> CHR ''*'' \<notin> set v"

lemma star_free_Cons [simp]: "star_free (c # v) \<longleftrightarrow> c \<noteq> CHR ''*'' \<and> star_free v"
  by (auto simp: star_free_def)

lemma star_free_prefix: "prefix u v \<Longrightarrow> star_free v \<Longrightarrow> star_free u"
  by (auto simp: star_free_def prefix_def)

lemma star_free_suffix: "suffix u v \<Longrightarrow> star_free v \<Longrightarrow> star_free u"
  by (auto simp: star_free_def suffix_def)

text \<open>A star-free start of a replaced text is a start of the text itself.\<close>

lemma prefix_stars: "star_free v \<Longrightarrow> prefix v (stars @ r) \<Longrightarrow> v = []"
  by (cases v) auto

lemma prefix_str_replace:
  "star_free v \<Longrightarrow> prefix v (str_replace p stars s) \<Longrightarrow> prefix v s"
proof (induction s arbitrary: v rule: str_replace_induct [where p = p])
  case (hit c s)
  from hit.prems(2) have "v = []"
    unfolding str_replace_hit [OF hit.hyps] by (rule prefix_stars [OF hit.prems(1)])
  then show ?case by simp
next
  case (miss c s)
  from miss.prems(2) have "prefix v (c # str_replace p stars s)"
    unfolding str_replace_miss [OF miss.hyps] .
  with miss.prems(1) miss.IH show ?case by (cases v) auto
qed simp

lemma sublist_stars:
  assumes "star_free v" "v \<noteq> []" "sublist v (stars @ r)"
  shows "sublist v r"
  using assms by (auto simp: sublist_Cons_right prefix_Cons)

lemma sublist_str_replace:
  "star_free v \<Longrightarrow> v \<noteq> [] \<Longrightarrow> sublist v (str_replace p stars s) \<Longrightarrow> sublist v s"
proof (induction s rule: str_replace_induct [where p = p])
  case (hit c s)
  from hit.prems(3) have "sublist v (str_replace p stars (drop (length p) (c # s)))"
    unfolding str_replace_hit [OF hit.hyps] by (rule sublist_stars [OF hit.prems(1,2)])
  then have "sublist v (drop (length p) (c # s))" by (rule hit.IH [OF hit.prems(1,2)])
  then show ?case by (meson sublist_drop sublist_order.order.trans)
next
  case (miss c s)
  note eq = str_replace_miss [OF miss.hyps, of stars]
  from miss.prems(3) consider "prefix v (str_replace p stars (c # s))" | "sublist v (str_replace p stars s)"
    unfolding eq sublist_Cons_right by blast
  then show ?case
  proof cases
    case 1
    then have "prefix v (c # s)" by (rule prefix_str_replace [OF miss.prems(1)])
    then show ?thesis by blast
  next
    case 2
    then have "sublist v s" by (rule miss.IH [OF miss.prems(1,2)])
    then show ?thesis unfolding sublist_Cons_right by blast
  qed
qed simp

lemma str_replace_removes:
  "star_free p \<Longrightarrow> p \<noteq> [] \<Longrightarrow> \<not> sublist p (str_replace p stars s)"
proof (induction s rule: str_replace_induct [where p = p])
  case (hit c s)
  then show ?case
    unfolding str_replace_hit [OF hit.hyps] using sublist_stars by blast
next
  case (miss c s)
  note eq = str_replace_miss [OF miss.hyps, of stars]
  have "\<not> prefix p (str_replace p stars (c # s))"
    using miss.hyps miss.prems prefix_str_replace [of p p "c # s"] by (auto simp: starts_with_prefix)
  then show ?case using miss.IH [OF miss.prems] unfolding eq sublist_Cons_right by blast
qed simp

lemma str_replace_same:
  "CHR ''*'' \<notin> set (str_replace p stars s) \<Longrightarrow> str_replace p stars s = s"
proof (induction s rule: str_replace_induct [where p = p])
  case (hit c s)
  then show ?case unfolding str_replace_hit [OF hit.hyps] by simp
next
  case (miss c s)
  then show ?case unfolding str_replace_miss [OF miss.hyps] by simp
qed simp


section \<open>What a masker must do for a stream\<close>

text \<open>
  A value that masking can remove: not empty and without the replacement's own character;
  \<open>one_line\<close> is the further condition the streaming code states in a comment.
\<close>

definition maskable :: "rstr \<Rightarrow> bool" where
  "maskable v \<longleftrightarrow> v \<noteq> [] \<and> star_free v"

definition one_line :: "rstr \<Rightarrow> bool" where
  "one_line v \<longleftrightarrow> CHR 0x0A \<notin> set v"

definition clean :: "rstr list \<Rightarrow> rstr \<Rightarrow> bool" where
  "clean vs t \<longleftrightarrow> list_all (\<lambda>v. \<not> sublist v t) vs"

lemma clean_iff: "clean vs t \<longleftrightarrow> (\<forall>v\<in>set vs. \<not> sublist v t)"
  by (simp add: clean_def list_all_set)

lemma clean_sublist: "clean vs t \<Longrightarrow> sublist u t \<Longrightarrow> clean vs u"
  by (auto simp: clean_iff intro: sublist_order.order.trans)

text \<open>
  The invariant between what has been emitted, \<open>E\<close>, and what is held back, \<open>C\<close>: no
  value lies in \<open>E @ C\<close>, and either nothing was emitted, or the emission stopped at a
  newline, or enough is held back, or the held text was itself replaced into.
\<close>

definition stream_ok :: "rstr list \<Rightarrow> nat \<Rightarrow> rstr \<Rightarrow> rstr \<Rightarrow> bool" where
  "stream_ok vs m E C \<longleftrightarrow> clean vs (E @ C) \<and>
     (E = [] \<or> last E = CHR 0x0A \<or> m - 1 \<le> length C \<or> CHR ''*'' \<in> set C)"

text \<open>Where a masked text may be cut: right after a newline, or with enough left over.\<close>

definition cut_ok :: "nat \<Rightarrow> rstr \<Rightarrow> nat \<Rightarrow> bool" where
  "cut_ok m t n \<longleftrightarrow> n \<le> length t \<and>
     (n = 0 \<or> t ! (n - 1) = CHR 0x0A \<or> m - 1 \<le> length t - n)"

locale masker =
  fixes mask :: "rstr \<Rightarrow> rstr list \<Rightarrow> rstr"
  assumes mask_clean: "\<forall>v\<in>set vs. maskable v \<Longrightarrow> clean vs (mask t vs)"
    and mask_start: "star_free u \<Longrightarrow> prefix u (mask t vs) \<Longrightarrow> prefix u t"
    and mask_same: "CHR ''*'' \<notin> set (mask t vs) \<Longrightarrow> mask t vs = t"
begin

lemma no_straddle:
  assumes vs: "\<forall>v\<in>set vs. maskable v \<and> one_line v \<and> length v \<le> m"
    and ok: "stream_ok vs m E C" and v: "v \<in> set vs"
    and split: "v = v1 @ v2" "v1 \<noteq> []" "suffix v1 E" "prefix v2 (mask (C @ t) vs)"
  shows False
proof -
  have sf: "star_free v2" using vs v split(1) by (auto simp: maskable_def star_free_def)
  have pre: "prefix v2 (C @ t)" by (rule mask_start [OF sf split(4)])
  show False
  proof (cases "prefix v2 C")
    case True
    with split(1,3) have "sublist v (E @ C)" by (auto simp: sublist_append)
    with ok v show False by (auto simp: stream_ok_def clean_iff)
  next
    case False
    with pre have C: "prefix C v2" "length C < length v2"
      by (auto simp: prefix_append dest: prefix_length_le)
    have "E \<noteq> []" using split(2,3) by (auto simp: suffix_def)
    moreover have "last E \<noteq> CHR 0x0A"
    proof -
      have "last E = last v1" using split(2,3) by (auto simp: suffix_def)
      then have "last E \<in> set v" using split(1,2) by auto
      then show ?thesis using vs v by (auto simp: one_line_def)
    qed
    moreover have "CHR ''*'' \<notin> set C"
      using star_free_prefix [OF C(1) sf] by (simp add: star_free_def)
    moreover have "length C < m - 1"
    proof -
      have "length v1 \<ge> 1" using split(2) by (cases v1) auto
      moreover have "length v1 + length v2 \<le> m" using vs v split(1) by auto
      ultimately show ?thesis using C(2) by linarith
    qed
    ultimately show False using ok by (auto simp: stream_ok_def)
  qed
qed

lemma stream_step:
  assumes vs: "\<forall>v\<in>set vs. maskable v \<and> one_line v \<and> length v \<le> m"
    and ok: "stream_ok vs m E C" and M: "M = mask (C @ t) vs" and cut: "cut_ok m M n"
  shows "stream_ok vs m (E @ take n M) (drop n M)"
proof -
  have cM: "clean vs M" unfolding M by (rule mask_clean) (use vs in blast)
  have cE: "clean vs E" using ok clean_sublist by (auto simp: stream_ok_def)
  have "clean vs (E @ M)"
    unfolding clean_iff
  proof
    fix v assume v: "v \<in> set vs"
    show "\<not> sublist v (E @ M)"
    proof
      assume "sublist v (E @ M)"
      then consider "sublist v E" | "sublist v M"
        | v1 v2 where "v = v1 @ v2" "suffix v1 E" "prefix v2 M"
        unfolding sublist_append by blast
      then show False
      proof cases
        case 1 with cE v show False by (auto simp: clean_iff)
      next
        case 2 with cM v show False by (auto simp: clean_iff)
      next
        case 3
        show False
        proof (cases "v1 = []")
          case True
          with 3 cM v show False by (auto simp: clean_iff)
        next
          case False
          with no_straddle [OF vs ok v 3(1) False 3(2)] 3(3) M show False by simp
        qed
      qed
    qed
  qed
  moreover have "E @ take n M = [] \<or> last (E @ take n M) = CHR 0x0A \<or> m - 1 \<le> length (drop n M)
      \<or> CHR ''*'' \<in> set (drop n M)"
  proof (cases "n = 0")
    case False
    then have ne: "take n M \<noteq> []" and n: "0 < n" "n \<le> length M" using cut by (auto simp: cut_ok_def)
    then have "last (take n M) = M ! (n - 1)" by (subst last_conv_nth) auto
    note ne this
    with n cut show ?thesis by (auto simp: cut_ok_def)
  next
    case True
    show ?thesis
    proof (cases "CHR ''*'' \<in> set M")
      case False
      then have "M = C @ t" unfolding M by (rule mask_same)
      with ok True False show ?thesis by (auto simp: stream_ok_def)
    qed (use True in simp)
  qed
  ultimately show ?thesis by (simp add: stream_ok_def)
qed

end

subsection \<open>\<open>apply_masks\<close> does it\<close>

lemma mask_one_clean: "maskable v \<Longrightarrow> \<not> sublist v (mask_one t v)"
  by (auto simp: mask_one_def maskable_def contains_sublist str_replace_removes)

lemma mask_one_keeps: "maskable u \<Longrightarrow> sublist u (mask_one t v) \<Longrightarrow> sublist u t"
  by (auto simp: mask_one_def maskable_def dest: sublist_str_replace split: if_splits)

lemma mask_one_start: "star_free u \<Longrightarrow> prefix u (mask_one t v) \<Longrightarrow> prefix u t"
  by (auto simp: mask_one_def dest: prefix_str_replace split: if_splits)

lemma mask_one_same: "CHR ''*'' \<notin> set (mask_one t v) \<Longrightarrow> mask_one t v = t"
  by (auto simp: mask_one_def dest: str_replace_same split: if_splits)

lemma apply_masks_Nil [simp]: "apply_masks t [] = t"
  and apply_masks_Cons [simp]: "apply_masks t (v # vs) = apply_masks (mask_one t v) vs"
  by (simp_all add: apply_masks_def)

lemma apply_masks_keeps: "maskable u \<Longrightarrow> sublist u (apply_masks t vs) \<Longrightarrow> sublist u t"
  by (induction vs arbitrary: t) (auto dest: mask_one_keeps)

lemma apply_masks_clean: "\<forall>v\<in>set vs. maskable v \<Longrightarrow> clean vs (apply_masks t vs)"
proof (induction vs arbitrary: t)
  case (Cons v vs)
  then have "\<not> sublist v (apply_masks (mask_one t v) vs)"
    using apply_masks_keeps [of v "mask_one t v" vs] mask_one_clean [of v t] by auto
  with Cons show ?case by (simp add: clean_def)
qed (simp add: clean_def)

lemma apply_masks_start: "star_free u \<Longrightarrow> prefix u (apply_masks t vs) \<Longrightarrow> prefix u t"
  by (induction vs arbitrary: t) (auto dest: mask_one_start)

lemma apply_masks_same: "CHR ''*'' \<notin> set (apply_masks t vs) \<Longrightarrow> apply_masks t vs = t"
proof (induction vs arbitrary: t)
  case (Cons v vs)
  then have "apply_masks (mask_one t v) vs = mask_one t v" by simp
  with Cons.prems mask_one_same [of t v] show ?case by simp
qed simp

interpretation hub_mask: masker apply_masks
  by unfold_locales (use apply_masks_clean apply_masks_start apply_masks_same in auto)


section \<open>The hub\<close>

text \<open>Events a browser subscribed to one pipeline receives.\<close>

datatype BrowserEvent =
    Be_PipelineUpdate uuid rstr "rstr option" "time option" "time option"
  | Be_JobUpdate PipelineJobResponse
  | Be_Event PipelineEventResponse
  | Be_Log uuid int rstr rstr time "int option" "rstr option"
  | Be_LogGap "uuid option"
  | Be_Artifact ArtifactResponse

record MaskState =
  ms_values :: "rstr list"
  ms_max_len :: nat
  ms_carry :: rstr
  ms_carry_stream :: rstr
  ms_carry_step :: "int option"
  ms_carry_phase :: "rstr option"
  ms_last_seq :: int
  ms_generation :: nat

definition MaskState_default :: MaskState where
  "MaskState_default = \<lparr>ms_values = [], ms_max_len = 0, ms_carry = [], ms_carry_stream = ''stdout'',
     ms_carry_step = None, ms_carry_phase = None, ms_last_seq = -1, ms_generation = 0\<rparr>"

text \<open>
  \<open>hub_channels\<close> counts the receivers of each pipeline's broadcast channel.
  \<open>hub_sent\<close> and \<open>hub_clears\<close> are observations: the events a channel accepted, and
  the sleeping tasks that will clear a job's masks if its generation is still the given one.
\<close>

record LogHub =
  hub_channels :: "uuid \<Rightarrow> nat option"
  hub_masks :: "uuid \<Rightarrow> MaskState option"
  hub_sent :: "(uuid \<times> BrowserEvent) list"
  hub_clears :: "(uuid \<times> nat) list"

definition LogHub_default :: LogHub where
  "LogHub_default =
     \<lparr>hub_channels = Map.empty, hub_masks = Map.empty, hub_sent = [], hub_clears = []\<rparr>"

definition subscribe :: "LogHub \<Rightarrow> uuid \<Rightarrow> LogHub" where
  "subscribe h pid = h\<lparr>hub_channels := (hub_channels h)
     (pid \<mapsto> Suc (case hub_channels h pid of None \<Rightarrow> 0 | Some n \<Rightarrow> n))\<rparr>"

definition publish :: "LogHub \<Rightarrow> uuid \<Rightarrow> BrowserEvent \<Rightarrow> LogHub" where
  "publish h pid ev =
     (case hub_channels h pid of
        None \<Rightarrow> h
      | Some n \<Rightarrow>
          if n = 0 then h\<lparr>hub_channels := (hub_channels h)(pid := None)\<rparr>
          else h\<lparr>hub_sent := hub_sent h @ [(pid, ev)]\<rparr>)"

definition max_len_of :: "rstr list \<Rightarrow> nat" where
  "max_len_of values = fold (\<lambda>v m. max (length v) m) values 0"

definition set_mask :: "LogHub \<Rightarrow> uuid \<Rightarrow> MaskState \<Rightarrow> LogHub" where
  "set_mask h jid st = h\<lparr>hub_masks := (hub_masks h)(jid \<mapsto> st)\<rparr>"

definition register_masks :: "LogHub \<Rightarrow> uuid \<Rightarrow> rstr list \<Rightarrow> LogHub" where
  "register_masks h jid vs =
     (let values = filter (\<lambda>v. MIN_MASK_LEN \<le> length v) vs in
      if values = [] then h
      else
        let st = (case hub_masks h jid of None \<Rightarrow> MaskState_default | Some st \<Rightarrow> st) in
        set_mask h jid (st\<lparr>ms_max_len := max (ms_max_len st) (max_len_of values),
          ms_values := ms_values st @ values, ms_generation := ms_generation st + 1\<rparr>))"

definition clear_masks :: "LogHub \<Rightarrow> uuid \<Rightarrow> LogHub" where
  "clear_masks h jid = h\<lparr>hub_masks := (hub_masks h)(jid := None)\<rparr>"

text \<open>\<open>floor_char_boundary\<close>, and the position after the last newline at or behind a cut.\<close>

definition floor_char_boundary :: "rstr \<Rightarrow> nat \<Rightarrow> nat" where
  "floor_char_boundary text at = (if length text \<le> at then length text else floor_boundary text at)"

fun rfind :: "char \<Rightarrow> rstr \<Rightarrow> nat option" where
  "rfind c [] = None"
| "rfind c (x # xs) =
     (case rfind c xs of Some i \<Rightarrow> Some (Suc i) | None \<Rightarrow> if x = c then Some 0 else None)"

definition cut_of :: "nat \<Rightarrow> rstr \<Rightarrow> nat" where
  "cut_of max_len masked =
     (let holdback = max_len - 1;
          cut = floor_char_boundary masked (length masked - holdback)
      in case rfind (CHR 0x0A) (drop cut masked) of None \<Rightarrow> cut | Some nl \<Rightarrow> cut + nl + 1)"

type_synonym attribution = "rstr \<times> int option \<times> rstr option"

definition mask_chunk ::
  "LogHub \<Rightarrow> uuid \<Rightarrow> int \<Rightarrow> rstr \<Rightarrow> rstr \<Rightarrow> int option \<Rightarrow> rstr option \<Rightarrow>
     (rstr \<times> attribution) option \<times> LogHub"
where
  "mask_chunk h jid seq stream text step phase =
     (case hub_masks h jid of
        None \<Rightarrow> (Some (text, stream, step, phase), h)
      | Some st \<Rightarrow>
          if seq \<le> ms_last_seq st then (None, h)
          else
            let out = (if ms_carry st = [] then (stream, step, phase)
                       else (ms_carry_stream st, ms_carry_step st, ms_carry_phase st));
                masked = apply_masks (ms_carry st @ text) (ms_values st);
                cut = cut_of (ms_max_len st) masked
            in (Some (take cut masked, out),
                set_mask h jid (st\<lparr>ms_last_seq := seq, ms_carry := drop cut masked,
                  ms_carry_stream := stream, ms_carry_step := step, ms_carry_phase := phase\<rparr>)))"

definition cap_line :: "rstr \<Rightarrow> rstr" where
  "cap_line l = truncate_utf8 l MAX_LINE_BYTES"

definition cap_chunk :: "rstr \<Rightarrow> rstr" where
  "cap_chunk text =
     (let t = truncate_utf8 text MAX_CHUNK_BYTES in
      if list_all (\<lambda>l. length l \<le> MAX_LINE_BYTES) (lines t) then t
      else join_with [CHR 0x0A] (map cap_line (lines t)))"

section \<open>Persisting\<close>

definition add_log_bytes :: "Db \<Rightarrow> uuid \<Rightarrow> int \<Rightarrow> (AppError + int) \<times> Db" where
  "add_log_bytes db jid delta =
     (let P = (\<lambda>j. pj_id j = jid); f = (\<lambda>j. j\<lparr>pj_log_bytes := pj_log_bytes j + delta\<rparr>) in
      case fetch_optional (returning P f (db_jobs db)) of
        None \<Rightarrow> (Inl RowNotFound, db)
      | Some j \<Rightarrow> (Inr (pj_log_bytes j), db\<lparr>db_jobs := update_where P f (db_jobs db)\<rparr>))"

record NewChunk =
  nc_seq :: int
  nc_stream :: rstr
  nc_content :: rstr
  nc_byte_len :: int
  nc_step_index :: "int option"
  nc_phase :: "rstr option"

definition has_chunk :: "Db \<Rightarrow> uuid \<Rightarrow> int \<Rightarrow> bool" where
  "has_chunk db jid seq \<longleftrightarrow> list_ex (\<lambda>r. lr_job_id r = jid \<and> lc_seq (lr_chunk r) = seq) (db_chunks db)"

definition chunk_row :: "time \<Rightarrow> uuid \<Rightarrow> NewChunk \<Rightarrow> LogRow" where
  "chunk_row now jid c =
     \<lparr>lr_job_id = jid, lr_byte_len = nc_byte_len c,
      lr_chunk = \<lparr>lc_seq = nc_seq c, lc_stream = nc_stream c, lc_content = nc_content c,
        lc_created_at = now, lc_step_index = nc_step_index c, lc_phase = nc_phase c\<rparr>\<rparr>"

definition insert_chunk :: "time \<Rightarrow> uuid \<Rightarrow> NewChunk \<Rightarrow> Db \<Rightarrow> Db" where
  "insert_chunk now jid c db =
     (if has_chunk db jid (nc_seq c) then db
      else db\<lparr>db_chunks := db_chunks db @ [chunk_row now jid c]\<rparr>)"

definition insert_chunks :: "time \<Rightarrow> Db \<Rightarrow> uuid \<Rightarrow> NewChunk list \<Rightarrow> Db" where
  "insert_chunks now db jid cs = (if cs = [] then db else fold (insert_chunk now jid) cs db)"

definition overflow_marker :: rstr where
  "overflow_marker = ''[log output truncated: per-job log limit reached]''"

text \<open>Persist one chunk, then broadcast it.\<close>

definition put_chunk :: "time \<Rightarrow> uuid \<Rightarrow> uuid \<Rightarrow> NewChunk \<Rightarrow> LogHub \<times> Db \<Rightarrow> LogHub \<times> Db" where
  "put_chunk now pid jid c s =
     (publish (fst s) pid
        (Be_Log jid (nc_seq c) (nc_stream c) (nc_content c) now (nc_step_index c) (nc_phase c)),
      insert_chunks now (snd s) jid [c])"

definition marker_chunk :: NewChunk where
  "marker_chunk = \<lparr>nc_seq = OVERFLOW_MARKER_SEQ, nc_stream = ''system'', nc_content = overflow_marker,
     nc_byte_len = int (length overflow_marker), nc_step_index = None, nc_phase = None\<rparr>"

definition new_chunk :: "int \<Rightarrow> rstr \<Rightarrow> attribution \<Rightarrow> NewChunk" where
  "new_chunk seq masked at =
     \<lparr>nc_seq = seq, nc_stream = fst at, nc_content = masked,
      nc_byte_len = int (min (length masked) 2147483647),
      nc_step_index = fst (snd at), nc_phase = snd (snd at)\<rparr>"

definition write_chunk ::
  "time \<Rightarrow> int \<Rightarrow> uuid \<Rightarrow> uuid \<Rightarrow> int \<Rightarrow> rstr \<Rightarrow> attribution \<Rightarrow>
     LogHub \<times> Db \<Rightarrow> (AppError + unit) \<times> LogHub \<times> Db"
where
  "write_chunk now max_bytes pid jid seq masked at s =
     (let byte_len = int (min (length masked) 2147483647) in
      case add_log_bytes (snd s) jid byte_len of
        (Inl e, db) \<Rightarrow> (Inl e, fst s, db)
      | (Inr total_after, db) \<Rightarrow>
          let total_before = total_after - byte_len in
          if max_bytes \<le> total_before then (Inr (), fst s, db)
          else
            let s = put_chunk now pid jid (new_chunk seq masked at) (fst s, db) in
            if max_bytes \<le> total_after then (Inr (), put_chunk now pid jid marker_chunk s)
            else (Inr (), s))"

definition ingest_log ::
  "time \<Rightarrow> int \<Rightarrow> uuid \<Rightarrow> uuid \<Rightarrow> int \<Rightarrow> LogStream \<Rightarrow> rstr \<Rightarrow> int option \<Rightarrow> rstr option \<Rightarrow>
     LogHub \<times> Db \<Rightarrow> (AppError + unit) \<times> LogHub \<times> Db"
where
  "ingest_log now max_bytes pid jid seq stream text step phase s =
     (let (h, db) = s in
      if seq < 0 \<or> seq = OVERFLOW_MARKER_SEQ then (Inr (), h, db)
      else case mask_chunk h jid seq (LogStream_as_str stream) text step phase of
        (None, h) \<Rightarrow> (Inr (), h, db)
      | (Some (masked, out), h) \<Rightarrow>
          let masked = cap_chunk masked in
          if masked = [] then (Inr (), h, db)
          else write_chunk now max_bytes pid jid seq masked out (h, db))"

text \<open>
  \<open>finish_job\<close> flushes the carry and leaves a delayed clear behind; a failed write skips
  the clear, as the \<open>?\<close> in the source does.
\<close>

definition finish_job ::
  "time \<Rightarrow> int \<Rightarrow> uuid \<Rightarrow> uuid \<Rightarrow> LogHub \<times> Db \<Rightarrow> (AppError + unit) \<times> LogHub \<times> Db"
where
  "finish_job now max_bytes pid jid s =
     (let (h, db) = s in
      case hub_masks h jid of
        None \<Rightarrow> (Inr (), h, db)
      | Some st \<Rightarrow>
          let (r, h, db) =
            (if ms_carry st = [] then (Inr (), h, db)
             else
               let seq = ms_last_seq st + 1;
                   h = set_mask h jid (st\<lparr>ms_carry := [], ms_last_seq := seq\<rparr>);
                   text = cap_chunk (ms_carry st)
               in if text = [] then (Inr (), h, db)
                  else write_chunk now max_bytes pid jid seq text
                         (ms_carry_stream st, ms_carry_step st, ms_carry_phase st) (h, db))
          in case r of
               Inl e \<Rightarrow> (Inl e, h, db)
             | Inr _ \<Rightarrow> (Inr (), h\<lparr>hub_clears := hub_clears h @ [(jid, ms_generation st)]\<rparr>, db))"

text \<open>The body of the spawned task, once \<open>MASK_CLEAR_GRACE\<close> has passed.\<close>

definition MASK_CLEAR_GRACE :: time where "MASK_CLEAR_GRACE = secs 120"

definition run_clear :: "LogHub \<Rightarrow> uuid \<times> nat \<Rightarrow> LogHub" where
  "run_clear h c =
     (case hub_masks h (fst c) of
        None \<Rightarrow> h
      | Some st \<Rightarrow> if ms_generation st = snd c then clear_masks h (fst c) else h)"


section \<open>Masking a stream\<close>

lemma rfind_Some: "rfind c s = Some i \<Longrightarrow> i < length s \<and> s ! i = c"
  by (induction s arbitrary: i) (auto split: option.splits if_splits)

lemma cut_of_ok: "cut_ok m t (cut_of m t)"
proof -
  define cut where "cut = floor_char_boundary t (length t - (m - 1))"
  have le: "cut \<le> length t" and base: "cut = 0 \<or> m - 1 \<le> length t - cut"
    using floor_boundary_le [of t "length t - (m - 1)"]
    by (cases t; auto simp: cut_def floor_char_boundary_def)+
  have eq: "cut_of m t = (case rfind (CHR 0x0A) (drop cut t) of None \<Rightarrow> cut | Some nl \<Rightarrow> cut + nl + 1)"
    by (simp only: cut_of_def Let_def cut_def)
  show ?thesis
  proof (cases "rfind (CHR 0x0A) (drop cut t)")
    case None
    with eq le base show ?thesis by (auto simp: cut_ok_def)
  next
    case (Some nl)
    from rfind_Some [OF Some] le show ?thesis using Some eq by (auto simp: cut_ok_def)
  qed
qed

lemma length_le_max_len_aux: "v \<in> set vs \<Longrightarrow> length v \<le> fold (\<lambda>v m. max (length v) m) vs k"
proof (induction vs arbitrary: k)
  case (Cons w vs)
  have mono: "j \<le> fold (\<lambda>v m. max (length v) m) vs j" for j and vs :: "'b list list"
  proof (induction vs arbitrary: j)
    case (Cons w vs)
    from Cons [of "max (length w) j"] show ?case by simp
  qed simp
  from Cons show ?case using mono [of "max (length w) k" vs] by auto
qed simp

lemma length_le_max_len_of: "v \<in> set vs \<Longrightarrow> length v \<le> max_len_of vs"
  by (simp add: max_len_of_def length_le_max_len_aux)

text \<open>A job's chunks in the order they arrive, and what is emitted for them altogether.\<close>

type_synonym in_chunk = "int \<times> rstr \<times> rstr \<times> int option \<times> rstr option"

fun mask_run :: "LogHub \<Rightarrow> uuid \<Rightarrow> in_chunk list \<Rightarrow> rstr \<times> LogHub" where
  "mask_run h jid [] = ([], h)"
| "mask_run h jid ((seq, stream, text, step, phase) # cs) =
     (let (r, h1) = mask_chunk h jid seq stream text step phase;
          (e, h2) = mask_run h1 jid cs
      in ((case r of None \<Rightarrow> [] | Some (t, _) \<Rightarrow> t) @ e, h2))"

definition held :: "LogHub \<Rightarrow> uuid \<Rightarrow> rstr" where
  "held h jid = (case hub_masks h jid of None \<Rightarrow> [] | Some st \<Rightarrow> ms_carry st)"

lemma set_mask_masks [simp]: "hub_masks (set_mask h jid st) = (hub_masks h)(jid \<mapsto> st)"
  by (simp add: set_mask_def)

lemma mask_run_stream_ok:
  assumes "\<forall>v\<in>set vs. maskable v \<and> one_line v \<and> length v \<le> m"
    and "hub_masks h jid = Some st" "ms_values st = vs" "ms_max_len st = m"
    and "stream_ok vs m E (ms_carry st)"
  shows "\<exists>st'. hub_masks (snd (mask_run h jid cs)) jid = Some st' \<and>
    stream_ok vs m (E @ fst (mask_run h jid cs)) (ms_carry st')"
  using assms(2-)
proof (induction cs arbitrary: h st E)
  case Nil
  then show ?case by simp
next
  case (Cons c cs)
  obtain seq stream tx step phase where c: "c = (seq, stream, tx, step, phase)" by (cases c)
  show ?case
  proof (cases "seq \<le> ms_last_seq st")
    case True
    then have "mask_chunk h jid seq stream tx step phase = (None, h)"
      using Cons.prems(1) by (simp add: mask_chunk_def)
    with Cons.IH [OF Cons.prems] c show ?thesis by (simp add: case_prod_unfold Let_def)
  next
    case False
    define M where "M = apply_masks (ms_carry st @ tx) vs"
    define n where "n = cut_of m M"
    define st1 where "st1 = st\<lparr>ms_last_seq := seq, ms_carry := drop n M, ms_carry_stream := stream,
      ms_carry_step := step, ms_carry_phase := phase\<rparr>"
    have chunk: "\<exists>out. mask_chunk h jid seq stream tx step phase =
        (Some (take n M, out), set_mask h jid st1)"
      using Cons.prems(1-3) False
      by (simp add: mask_chunk_def Let_def M_def n_def st1_def)
    have "stream_ok vs m (E @ take n M) (drop n M)"
      by (rule hub_mask.stream_step [OF assms(1) Cons.prems(4) M_def]) (simp add: n_def cut_of_ok)
    then have "\<exists>st'. hub_masks (snd (mask_run (set_mask h jid st1) jid cs)) jid = Some st' \<and>
      stream_ok vs m ((E @ take n M) @ fst (mask_run (set_mask h jid st1) jid cs)) (ms_carry st')"
      using Cons.prems(2,3) by (intro Cons.IH [of _ st1]) (simp_all add: st1_def)
    with chunk c show ?thesis by (auto simp: case_prod_unfold Let_def)
  qed
qed

lemma register_fresh:
  assumes "hub_masks h jid = None" "\<forall>v\<in>set vs. MIN_MASK_LEN \<le> length v" "vs \<noteq> []"
  shows "hub_masks (register_masks h jid vs) jid = Some
    (MaskState_default\<lparr>ms_max_len := max_len_of vs, ms_values := vs, ms_generation := 1\<rparr>)"
proof -
  have "filter (\<lambda>v. MIN_MASK_LEN \<le> length v) vs = vs" using assms(2) by simp
  with assms(1,3) show ?thesis
    by (simp add: register_masks_def Let_def MaskState_default_def)
qed

lemma fresh_fits:
  assumes "\<forall>v\<in>set vs. MIN_MASK_LEN \<le> length v \<and> star_free v \<and> one_line v"
  shows "\<forall>v\<in>set vs. maskable v \<and> one_line v \<and> length v \<le> max_len_of vs"
  using assms length_le_max_len_of by (auto simp: maskable_def MIN_MASK_LEN_def)


definition split_secret :: "in_chunk list" where
  "split_secret = [(1, ''stdout'', ''a ghs_12'', None, None), (2, ''stdout'', ''34 b'', None, None)]"


end
