(* ===== verification/LogStore.thy ===== *)
theory LogStore
  imports LogHub
begin

text \<open>
  What the log path leaves in the tables and sends to the browsers, over any sequence of
  \<open>ingest_log\<close> and \<open>finish_job\<close> calls for one job: no secret is stored or broadcast,
  the byte budget holds, replays change nothing, and without secrets in it the output
  arrives as it was.
\<close>

section \<open>Capping keeps a text clean\<close>

lemma lines_acc_sublist: "l \<in> set (lines_acc acc s) \<Longrightarrow> sublist l (rev acc @ s)"
proof (induction acc s rule: lines_acc.induct)
  case (1 acc)
  then show ?case by (auto split: if_splits)
next
  case (2 acc c s)
  show ?case
  proof (cases "c = CHR 0x0A")
    case True
    with 2 consider "l = strip_cr (rev acc)" | "sublist l s" by auto
    then show ?thesis
    proof cases
      case 1
      then have "prefix l (rev acc)"
        using prefixeq_butlast [of "rev acc"] by (simp add: strip_cr_def split: if_splits)
      then show ?thesis by (auto simp: sublist_append)
    next
      case 2
      then show ?thesis by (simp add: sublist_append sublist_Cons_right)
    qed
  next
    case False
    with 2 show ?thesis by simp
  qed
qed

lemma lines_sublist: "l \<in> set (lines s) \<Longrightarrow> sublist l s"
  using lines_acc_sublist [of l "[]" s] by (simp add: lines_def)

lemma sublist_over_sep:
  assumes "sublist v (x @ c # r)" "c \<notin> set v"
  shows "sublist v x \<or> sublist v r"
  using assms by (auto simp: sublist_append sublist_Cons_right prefix_Cons)

lemma sublist_join:
  "sublist v (join_with [c] ls) \<Longrightarrow> c \<notin> set v \<Longrightarrow> v \<noteq> [] \<Longrightarrow> \<exists>l\<in>set ls. sublist v l"
proof (induction "[c]" ls rule: join_with.induct)
  case (3 x y xs)
  then show ?case using sublist_over_sep [of v x c] by auto
qed auto

lemma cap_line_prefix: "prefix (cap_line l) l"
  by (simp add: cap_line_def truncate_utf8_prefix)

lemma cap_chunk_sublist:
  assumes "sublist v (cap_chunk s)" "one_line v" "v \<noteq> []"
  shows "sublist v s"
proof -
  define t where "t = truncate_utf8 s MAX_CHUNK_BYTES"
  have t: "prefix t s" by (simp add: t_def truncate_utf8_prefix)
  consider "cap_chunk s = t" | "cap_chunk s = join_with [CHR 0x0A] (map cap_line (lines t))"
    unfolding cap_chunk_def Let_def t_def by (meson)
  then have "sublist v t"
  proof cases
    case 1
    with assms show ?thesis by simp
  next
    case 2
    with assms obtain l where "l \<in> set (lines t)" "sublist v (cap_line l)"
      using sublist_join [of v "CHR 0x0A" "map cap_line (lines t)"] by (auto simp: one_line_def)
    then have "sublist v l"
      using prefix_imp_sublist [OF cap_line_prefix [of l]] by (meson sublist_order.order.trans)
    with lines_sublist [OF \<open>l \<in> set (lines t)\<close>] show ?thesis by (meson sublist_order.order.trans)
  qed
  with prefix_imp_sublist [OF t] show ?thesis by (meson sublist_order.order.trans)
qed

lemma lines_acc_length:
  "sum_list (map length (lines_acc acc s)) + length (lines_acc acc s) \<le> length acc + length s + 1"
  by (induction acc s rule: lines_acc.induct) (auto simp: strip_cr_def)

lemma length_join: "length (join_with [c] ls) + 1 \<le> sum_list (map length ls) + length ls \<or> ls = []"
  by (induction "[c]" ls rule: join_with.induct) auto

lemma cap_chunk_length: "length (cap_chunk s) \<le> MAX_CHUNK_BYTES"
proof -
  define t where "t = truncate_utf8 s MAX_CHUNK_BYTES"
  have t: "length t \<le> MAX_CHUNK_BYTES" by (simp add: t_def truncate_utf8_length)
  have "length (join_with [CHR 0x0A] (map cap_line (lines t))) \<le> length t"
  proof (cases "lines t = []")
    case False
    have "sum_list (map (length \<circ> cap_line) (lines t)) \<le> sum_list (map length (lines t))"
      by (rule sum_list_mono) (use cap_line_prefix prefix_length_le in fastforce)
    moreover have "length (join_with [CHR 0x0A] (map cap_line (lines t))) + 1
        \<le> sum_list (map (length \<circ> cap_line) (lines t)) + length (lines t)"
      using length_join [of "CHR 0x0A" "map cap_line (lines t)"] False by simp
    ultimately show ?thesis using lines_acc_length [of "[]" t] by (simp add: lines_def)
  qed simp
  with t show ?thesis by (auto simp: cap_chunk_def Let_def t_def [symmetric])
qed


section \<open>What one write does\<close>

definition log_total :: "Db \<Rightarrow> uuid \<Rightarrow> int option" where
  "log_total db jid = map_option pj_log_bytes (fetch_optional (filter (\<lambda>j. pj_id j = jid) (db_jobs db)))"

definition rows_of :: "Db \<Rightarrow> uuid \<Rightarrow> LogRow list" where
  "rows_of db jid = filter (\<lambda>r. lr_job_id r = jid) (db_chunks db)"

definition sent_texts :: "LogHub \<Rightarrow> uuid \<Rightarrow> rstr list" where
  "sent_texts h jid = filter_map (\<lambda>e. case snd e of
     Be_Log j q st t at sp ph \<Rightarrow> if j = jid then Some t else None | _ \<Rightarrow> None) (hub_sent h)"

definition log_texts :: "uuid \<Rightarrow> LogHub \<times> Db \<Rightarrow> rstr set" where
  "log_texts jid s =
     set (map (\<lambda>r. lc_content (lr_chunk r)) (rows_of (snd s) jid)) \<union> set (sent_texts (fst s) jid)"

lemma fetch_map: "fetch_optional (map f xs) = map_option f (fetch_optional xs)"
  by (cases xs) auto

lemma filter_update_same:
  "(\<And>r. P (f r) = P r) \<Longrightarrow> filter P (update_where P f rows) = map f (filter P rows)"
  by (induction rows) (auto simp: update_where_def)

lemma add_log_bytes_cases:
  obtains (missing) "add_log_bytes db jid d = (Inl RowNotFound, db)" "log_total db jid = None"
  | (ok) db' n where "add_log_bytes db jid d = (Inr (n + d), db')" "log_total db jid = Some n"
      "log_total db' jid = Some (n + d)" "db_chunks db' = db_chunks db"
proof (cases "fetch_optional (filter (\<lambda>j. pj_id j = jid) (db_jobs db))")
  case None
  then show thesis by (intro missing) (simp_all add: add_log_bytes_def log_total_def returning_def)
next
  case (Some j)
  define f where "f = (\<lambda>j::PipelineJob. j\<lparr>pj_log_bytes := pj_log_bytes j + d\<rparr>)"
  have "filter (\<lambda>j. pj_id j = jid) (update_where (\<lambda>j. pj_id j = jid) f (db_jobs db)) =
    map f (filter (\<lambda>j. pj_id j = jid) (db_jobs db))"
    by (rule filter_update_same) (simp add: f_def)
  with Some show thesis
    by (intro ok [of "pj_log_bytes j" "db\<lparr>db_jobs := update_where (\<lambda>j. pj_id j = jid) f (db_jobs db)\<rparr>"])
      (simp_all add: add_log_bytes_def log_total_def returning_def fetch_map Let_def f_def)
qed

lemma publish_masks [simp]: "hub_masks (publish h pid ev) = hub_masks h"
  by (simp add: publish_def split: option.splits)

lemma publish_log_texts:
  "set (sent_texts (publish h pid (Be_Log jid q st t at sp ph)) jid) \<subseteq> insert t (set (sent_texts h jid))"
  by (auto simp: publish_def sent_texts_def set_filter_map split: option.splits)

lemma insert_chunks_one [simp]:
  "insert_chunks now db jid [c] = insert_chunk now jid c db"
  by (simp add: insert_chunks_def)

lemma chunk_row_simps [simp]:
  "lr_job_id (chunk_row now jid c) = jid" "lc_content (lr_chunk (chunk_row now jid c)) = nc_content c"
  "lc_seq (lr_chunk (chunk_row now jid c)) = nc_seq c"
  by (simp_all add: chunk_row_def)

lemma new_chunk_simps [simp]:
  "nc_content (new_chunk seq t at) = t" "nc_seq (new_chunk seq t at) = seq"
  by (simp_all add: new_chunk_def)

lemma marker_chunk_simps [simp]:
  "nc_content marker_chunk = overflow_marker" "nc_seq marker_chunk = OVERFLOW_MARKER_SEQ"
  by (simp_all add: marker_chunk_def)

lemma rows_of_insert_chunk:
  "rows_of (insert_chunk now jid c db) jid =
     (if has_chunk db jid (nc_seq c) then rows_of db jid else rows_of db jid @ [chunk_row now jid c])"
  by (simp add: insert_chunk_def rows_of_def)

lemma put_chunk_texts:
  "log_texts jid (put_chunk now pid jid c s) \<subseteq> insert (nc_content c) (log_texts jid s)"
  using publish_log_texts [of "fst s" pid jid "nc_seq c" "nc_stream c" "nc_content c" now
      "nc_step_index c" "nc_phase c"]
  by (auto simp: put_chunk_def log_texts_def rows_of_insert_chunk)

lemma put_chunk_masks [simp]: "hub_masks (fst (put_chunk now pid jid c s)) = hub_masks (fst s)"
  by (simp add: put_chunk_def)

text \<open>
  The four ways a write can go, for a chunk short enough that its length fits the column.
\<close>

lemma write_chunk_cases:
  assumes "length t \<le> MAX_CHUNK_BYTES"
  obtains (missing) "write_chunk now mx pid jid seq t at (h, db) = (Inl RowNotFound, h, db)"
      "log_total db jid = None"
  | (dropped) db' n where "write_chunk now mx pid jid seq t at (h, db) = (Inr (), h, db')"
      "log_total db jid = Some n" "log_total db' jid = Some (n + int (length t))"
      "db_chunks db' = db_chunks db" "mx \<le> n"
  | (stored) db' n where "write_chunk now mx pid jid seq t at (h, db) =
        (Inr (), put_chunk now pid jid (new_chunk seq t at) (h, db'))"
      "log_total db jid = Some n" "log_total db' jid = Some (n + int (length t))"
      "db_chunks db' = db_chunks db" "n < mx" "n + int (length t) < mx"
  | (overflow) db' n where "write_chunk now mx pid jid seq t at (h, db) =
        (Inr (), put_chunk now pid jid marker_chunk (put_chunk now pid jid (new_chunk seq t at) (h, db')))"
      "log_total db jid = Some n" "log_total db' jid = Some (n + int (length t))"
      "db_chunks db' = db_chunks db" "n < mx" "mx \<le> n + int (length t)"
proof -
  have len: "min (length t) 2147483647 = length t" using assms by (simp add: MAX_CHUNK_BYTES_def)
  show thesis
  proof (rule add_log_bytes_cases [of db jid "int (length t)"], goal_cases)
    case 1
    then show thesis by (intro missing) (simp_all add: write_chunk_def len)
  next
    case (2 db' n)
    note res = 2
    consider "mx \<le> n" | "n < mx" "n + int (length t) < mx" | "n < mx" "mx \<le> n + int (length t)" by linarith
    then show thesis
    proof cases
      case 1
      with res show thesis by (intro dropped [of db' n]) (simp_all add: write_chunk_def len)
    next
      case 2
      with res show thesis
        by (intro stored [of db' n]) (simp_all add: write_chunk_def len Let_def)
    next
      case 3
      with res show thesis by (intro overflow [of db' n]) (simp_all add: write_chunk_def len Let_def)
    qed
  qed
qed


lemma write_chunk_texts:
  assumes "length t \<le> MAX_CHUNK_BYTES"
  shows "log_texts jid (snd (write_chunk now mx pid jid seq t at s)) \<subseteq> log_texts jid s \<union> {t, overflow_marker}"
proof -
  obtain h db where s: "s = (h, db)" by (cases s)
  have same: "log_texts jid (h, db') = log_texts jid (h, db)" if "db_chunks db' = db_chunks db" for db'
    using that by (simp add: log_texts_def rows_of_def)
  show ?thesis
    unfolding s
  proof (rule write_chunk_cases [OF assms, of now mx pid jid seq at h db], goal_cases)
    case 1
    then show ?case by auto
  next
    case (2 db' n)
    then show ?case using same [of db'] by auto
  next
    case (3 db' n)
    then show ?case
      using same [of db'] put_chunk_texts [of jid now pid "new_chunk seq t at" "(h, db')"] by auto
  next
    case (4 db' n)
    define s1 where "s1 = put_chunk now pid jid (new_chunk seq t at) (h, db')"
    have "log_texts jid s1 \<subseteq> insert t (log_texts jid (h, db))"
      using same [OF 4(4)] put_chunk_texts [of jid now pid "new_chunk seq t at" "(h, db')"] by (simp add: s1_def)
    moreover have "log_texts jid (put_chunk now pid jid marker_chunk s1) \<subseteq> insert overflow_marker (log_texts jid s1)"
      using put_chunk_texts [of jid now pid marker_chunk s1] by simp
    ultimately show ?case using 4(1) by (auto simp: s1_def)
  qed
qed

lemma write_chunk_masks:
  assumes "length t \<le> MAX_CHUNK_BYTES"
  shows "hub_masks (fst (snd (write_chunk now mx pid jid seq t at (h, db)))) = hub_masks h"
  by (rule write_chunk_cases [OF assms, of now mx pid jid seq at h db]) simp_all

section \<open>Runs of the log path\<close>

datatype LogOp = Ingest int LogStream rstr "int option" "rstr option" | Finish

fun log_op :: "time \<Rightarrow> int \<Rightarrow> uuid \<Rightarrow> uuid \<Rightarrow> LogOp \<Rightarrow> LogHub \<times> Db \<Rightarrow> LogHub \<times> Db" where
  "log_op now mx pid jid (Ingest seq stream tx step phase) s =
     snd (ingest_log now mx pid jid seq stream tx step phase s)"
| "log_op now mx pid jid Finish s = snd (finish_job now mx pid jid s)"

definition log_run :: "time \<Rightarrow> int \<Rightarrow> uuid \<Rightarrow> uuid \<Rightarrow> LogOp list \<Rightarrow> LogHub \<times> Db \<Rightarrow> LogHub \<times> Db" where
  "log_run now mx pid jid ops s = fold (log_op now mx pid jid) ops s"

lemma log_run_invariant:
  assumes "\<And>op s. P s \<Longrightarrow> P (log_op now mx pid jid op s)" "P s"
  shows "P (log_run now mx pid jid ops s)"
  unfolding log_run_def using assms(2)
proof (induction ops arbitrary: s)
  case (Cons op ops)
  from Cons.IH [OF assms(1) [OF Cons.prems, of op]] show ?case by simp
qed simp

text \<open>Every write of either operation is of a capped text; this is all they do to the tables.\<close>

lemma ingest_log_cases:
  obtains (skip) h' where "ingest_log now mx pid jid seq stream tx step phase (h, db) = (Inr (), h', db)"
      "h' = h \<or> (\<exists>t out. mask_chunk h jid seq (LogStream_as_str stream) tx step phase = (Some (t, out), h'))"
  | (wrote) t out h' where
      "mask_chunk h jid seq (LogStream_as_str stream) tx step phase = (Some (t, out), h')"
      "ingest_log now mx pid jid seq stream tx step phase (h, db) =
         write_chunk now mx pid jid seq (cap_chunk t) out (h', db)"
      "0 \<le> seq" "seq \<noteq> OVERFLOW_MARKER_SEQ"
proof (cases "seq < 0 \<or> seq = OVERFLOW_MARKER_SEQ")
  case True
  then show thesis by (intro skip [of h]) (auto simp: ingest_log_def)
next
  case False
  obtain r h' where m: "mask_chunk h jid seq (LogStream_as_str stream) tx step phase = (r, h')" by fastforce
  show thesis
  proof (cases r)
    case None
    then have "h' = h" using m by (auto simp: mask_chunk_def Let_def split: option.splits if_splits)
    with None m False show thesis by (intro skip [of h]) (auto simp: ingest_log_def)
  next
    case (Some p)
    obtain t out where p: "p = (t, out)" by (cases p)
    show thesis
    proof (cases "cap_chunk t = []")
      case True
      with Some p m False show thesis
        by (intro skip [of h']) (auto simp: ingest_log_def simp del: split_paired_Ex)
    next
      case ne: False
      with Some p m False show thesis by (intro wrote [of t out h']) (auto simp: ingest_log_def)
    qed
  qed
qed


text \<open>\<open>finish_job\<close> likewise: it writes the capped carry, or nothing.\<close>

lemma finish_job_cases:
  obtains (unmasked) "finish_job now mx pid jid (h, db) = (Inr (), h, db)" "hub_masks h jid = None"
  | (idle) st h' where "hub_masks h jid = Some st" "hub_sent h' = hub_sent h"
      "snd (finish_job now mx pid jid (h, db)) = (h', db)"
      "hub_masks h' jid = Some st \<or> hub_masks h' jid = Some (st\<lparr>ms_carry := [], ms_last_seq := ms_last_seq st + 1\<rparr>)"
  | (flush) st c h1 h2 db2 where "hub_masks h jid = Some st"
      "h1 = set_mask h jid (st\<lparr>ms_carry := [], ms_last_seq := ms_last_seq st + 1\<rparr>)"
      "write_chunk now mx pid jid (ms_last_seq st + 1) (cap_chunk (ms_carry st))
         (ms_carry_stream st, ms_carry_step st, ms_carry_phase st) (h1, db) = (c, h2, db2)"
      "\<exists>cl. snd (finish_job now mx pid jid (h, db)) = (h2\<lparr>hub_clears := cl\<rparr>, db2)"
proof (cases "hub_masks h jid")
  case None
  then show thesis by (intro unmasked) (simp_all add: finish_job_def)
next
  case (Some st)
  define h1 where "h1 = set_mask h jid (st\<lparr>ms_carry := [], ms_last_seq := ms_last_seq st + 1\<rparr>)"
  consider "ms_carry st = []" | "ms_carry st \<noteq> []" "cap_chunk (ms_carry st) = []"
    | "ms_carry st \<noteq> []" "cap_chunk (ms_carry st) \<noteq> []" by blast
  then show thesis
  proof cases
    case 1
    with Some show thesis
      by (intro idle [of st "h\<lparr>hub_clears := hub_clears h @ [(jid, ms_generation st)]\<rparr>"])
        (simp_all add: finish_job_def)
  next
    case 2
    with Some show thesis
      by (intro idle [of st "h1\<lparr>hub_clears := hub_clears h1 @ [(jid, ms_generation st)]\<rparr>"])
        (simp_all add: finish_job_def h1_def set_mask_def Let_def)
  next
    case 3
    obtain c h2 db2 where w: "write_chunk now mx pid jid (ms_last_seq st + 1) (cap_chunk (ms_carry st))
         (ms_carry_stream st, ms_carry_step st, ms_carry_phase st) (h1, db) = (c, h2, db2)"
      by (metis prod.collapse)
    have "snd (finish_job now mx pid jid (h, db)) =
      (h2\<lparr>hub_clears := (case c of Inl _ \<Rightarrow> hub_clears h2 | Inr _ \<Rightarrow> hub_clears h2 @ [(jid, ms_generation st)])\<rparr>, db2)"
      using 3 Some w by (simp add: finish_job_def h1_def Let_def split: sum.split)
    with Some w show thesis by (intro flush [of st h1 c h2 db2]) (auto simp: h1_def)
  qed
qed

section \<open>Secrets stay out\<close>

lemma log_texts_hub: "hub_sent h' = hub_sent h \<Longrightarrow> log_texts jid (h', db) = log_texts jid (h, db)"
  by (simp add: log_texts_def sent_texts_def)

lemma set_mask_sent [simp]: "hub_sent (set_mask h jid st) = hub_sent h"
  by (simp add: set_mask_def)

definition secrets_out :: "rstr list \<Rightarrow> uuid \<Rightarrow> LogHub \<times> Db \<Rightarrow> bool" where
  "secrets_out vs jid s \<longleftrightarrow> (\<exists>st. hub_masks (fst s) jid = Some st \<and> ms_values st = vs \<and> clean vs (ms_carry st))
     \<and> (\<forall>t\<in>log_texts jid s. t = overflow_marker \<or> clean vs t)"

lemma clean_cap:
  assumes "\<forall>v\<in>set vs. maskable v \<and> one_line v" "clean vs t"
  shows "clean vs (cap_chunk t)"
  using assms cap_chunk_sublist by (auto simp: clean_iff maskable_def)

lemma mask_chunk_masked:
  assumes "hub_masks h jid = Some st" "mask_chunk h jid seq stream tx step phase = (Some (t, out), h')"
    and "\<forall>v\<in>set (ms_values st). maskable v"
  shows "clean (ms_values st) t" "hub_sent h' = hub_sent h"
    "\<exists>st'. hub_masks h' jid = Some st' \<and> ms_values st' = ms_values st \<and> clean (ms_values st) (ms_carry st')"
proof -
  define M where "M = apply_masks (ms_carry st @ tx) (ms_values st)"
  have "clean (ms_values st) M" unfolding M_def by (rule apply_masks_clean [OF assms(3)])
  then have "clean (ms_values st) (take n M)" "clean (ms_values st) (drop n M)" for n
    using clean_sublist sublist_take sublist_drop by blast+
  with assms(1,2) show "clean (ms_values st) t" "hub_sent h' = hub_sent h"
    "\<exists>st'. hub_masks h' jid = Some st' \<and> ms_values st' = ms_values st \<and> clean (ms_values st) (ms_carry st')"
    by (auto simp: mask_chunk_def Let_def M_def split: if_splits)
qed

lemma write_keeps_secrets_out:
  assumes vs: "\<forall>v\<in>set vs. maskable v \<and> one_line v" and ok: "secrets_out vs jid (h, db)" and t: "clean vs t"
  shows "secrets_out vs jid (snd (write_chunk now mx pid jid seq (cap_chunk t) at (h, db)))"
  using ok clean_cap [OF vs t]
    write_chunk_texts [OF cap_chunk_length, of jid now mx pid seq t at "(h, db)"]
  unfolding secrets_out_def write_chunk_masks [OF cap_chunk_length] by auto

lemma log_op_secrets_out:
  assumes vs: "\<forall>v\<in>set vs. maskable v \<and> one_line v" and ok: "secrets_out vs jid s"
  shows "secrets_out vs jid (log_op now mx pid jid op s)"
proof -
  obtain h db where s: "s = (h, db)" by (cases s)
  from ok s obtain st where st: "hub_masks h jid = Some st" "ms_values st = vs" "clean vs (ms_carry st)"
    and texts: "\<forall>t\<in>log_texts jid (h, db). t = overflow_marker \<or> clean vs t"
    unfolding secrets_out_def by auto
  have masked: "clean vs t \<and> secrets_out vs jid (h', db)"
    if "mask_chunk h jid seq str tx step phase = (Some (t, out), h')" for seq str tx step phase t out h'
  proof -
    have "\<forall>v\<in>set (ms_values st). maskable v" using vs st(2) by blast
    note m = mask_chunk_masked [OF st(1) that this]
    with st(2) texts log_texts_hub [OF m(2), of jid db] show ?thesis
      unfolding secrets_out_def by auto
  qed
  show ?thesis
  proof (cases op)
    case (Ingest seq str tx step phase)
    show ?thesis
      unfolding s Ingest log_op.simps
    proof (rule ingest_log_cases [of now mx pid jid seq str tx step phase h db], goal_cases)
      case (1 h')
      then show ?case using masked ok s by auto
    next
      case (2 t out h')
      then show ?case using masked write_keeps_secrets_out [OF vs] by metis
    qed
  next
    case Finish
    show ?thesis
      unfolding s Finish log_op.simps
    proof (rule finish_job_cases [of now mx pid jid h db], goal_cases)
      case 1
      then show ?case using ok s by simp
    next
      case (2 st' h')
      then show ?case
        using st texts log_texts_hub [of h' h jid db] by (auto simp: secrets_out_def clean_iff)
    next
      case (3 st' c h1 h2 db2)
      have st': "st' = st" using 3(1) st(1) by simp
      have "hub_sent h1 = hub_sent h" unfolding 3(2) by simp
      note t1 = log_texts_hub [OF this, of jid db]
      have "clean vs []" using vs by (auto simp: clean_iff maskable_def)
      moreover have "hub_masks h1 jid = Some (st\<lparr>ms_carry := [], ms_last_seq := ms_last_seq st + 1\<rparr>)"
        unfolding 3(2) st' by simp
      ultimately have "secrets_out vs jid (h1, db)"
        using texts st(2) unfolding secrets_out_def t1 fst_conv by simp
      from write_keeps_secrets_out [OF vs this st(3)]
      have "secrets_out vs jid (h2, db2)" using 3(3) st' by (metis snd_conv)
      moreover obtain cl where cl: "snd (finish_job now mx pid jid (h, db)) = (h2\<lparr>hub_clears := cl\<rparr>, db2)"
        using 3(4) by blast
      moreover have "log_texts jid (h2\<lparr>hub_clears := cl\<rparr>, db2) = log_texts jid (h2, db2)"
        by (rule log_texts_hub) simp
      ultimately show ?case unfolding secrets_out_def cl by simp
    qed
  qed
qed


definition empty_db :: Db where
  "empty_db = \<lparr>db_pipelines = [], db_counters = [], db_jobs = [], db_runners = [],
     db_events = [], db_chunks = [], db_audit = [], db_artifacts = [], db_retention = []\<rparr>"

text \<open>From the registration on, every run leaves the rows and events of the job without its values.\<close>

lemma log_run_secrets_out:
  assumes "hub_masks h jid = None" "vs \<noteq> []"
    and "\<forall>v\<in>set vs. MIN_MASK_LEN \<le> length v \<and> star_free v \<and> one_line v"
    and "log_texts jid (h, db) = {}"
  shows "secrets_out vs jid (log_run now mx pid jid ops (register_masks h jid vs, db))"
proof -
  have vs: "\<forall>v\<in>set vs. maskable v \<and> one_line v" using fresh_fits [OF assms(3)] by blast
  have ne: "vs \<noteq> []" "\<forall>v\<in>set vs. MIN_MASK_LEN \<le> length v" using assms(2,3) by auto
  have "hub_sent (register_masks h jid vs) = hub_sent h" by (simp add: register_masks_def Let_def)
  note t0 = log_texts_hub [OF this, of jid db]
  have "clean vs []" using vs by (auto simp: clean_iff maskable_def)
  then have "secrets_out vs jid (register_masks h jid vs, db)"
    unfolding secrets_out_def t0 fst_conv using register_fresh [OF assms(1) ne(2,1)] assms(4)
    by (simp add: MaskState_default_def)
  then show ?thesis
    by (rule log_run_invariant [rotated]) (rule log_op_secrets_out [OF vs])
qed



section \<open>The byte budget\<close>

definition row_key :: "LogRow \<Rightarrow> uuid \<times> int" where
  "row_key r = (lr_job_id r, lc_seq (lr_chunk r))"

definition stored_bytes :: "Db \<Rightarrow> uuid \<Rightarrow> int" where
  "stored_bytes db jid = sum_list (map (\<lambda>r. int (length (lc_content (lr_chunk r)))) (rows_of db jid))"

text \<open>
  At most the bytes counted so far, plus one marker once the count has reached the budget;
  and the last accepted chunk began below the budget.
\<close>

definition marker_bytes :: "int \<Rightarrow> int \<Rightarrow> int" where
  "marker_bytes mx n = (if mx \<le> n then int (length overflow_marker) else 0)"

definition budget_ok :: "int \<Rightarrow> uuid \<Rightarrow> Db \<Rightarrow> bool" where
  "budget_ok mx jid db \<longleftrightarrow> distinct (map row_key (db_chunks db)) \<and>
     (case log_total db jid of
        None \<Rightarrow> rows_of db jid = []
      | Some n \<Rightarrow>
          stored_bytes db jid \<le> n + marker_bytes mx n \<and>
          stored_bytes db jid < mx + int MAX_CHUNK_BYTES + marker_bytes mx n \<and>
          (if mx \<le> n then has_chunk db jid OVERFLOW_MARKER_SEQ else True))"

lemma has_chunk_key: "has_chunk db jid q \<longleftrightarrow> (jid, q) \<in> set (map row_key (db_chunks db))"
  by (auto simp: has_chunk_def row_key_def list_ex_iff image_iff)

lemma insert_chunk_facts:
  "log_total (insert_chunk now jid c db) jid = log_total db jid"
  "distinct (map row_key (db_chunks db)) \<Longrightarrow> distinct (map row_key (db_chunks (insert_chunk now jid c db)))"
  "has_chunk (insert_chunk now jid c db) jid (nc_seq c)"
  "has_chunk db jid q \<Longrightarrow> has_chunk (insert_chunk now jid c db) jid q"
  "stored_bytes (insert_chunk now jid c db) jid \<le> stored_bytes db jid + int (length (nc_content c))"
proof -
  have key: "row_key (chunk_row now jid c) = (jid, nc_seq c)" by (simp add: row_key_def)
  show "log_total (insert_chunk now jid c db) jid = log_total db jid"
    by (simp add: insert_chunk_def log_total_def)
  show "distinct (map row_key (db_chunks db)) \<Longrightarrow> distinct (map row_key (db_chunks (insert_chunk now jid c db)))"
    using key by (auto simp: insert_chunk_def has_chunk_key image_iff)
  show "has_chunk (insert_chunk now jid c db) jid (nc_seq c)"
    using key by (auto simp: insert_chunk_def has_chunk_key)
  show "has_chunk db jid q \<Longrightarrow> has_chunk (insert_chunk now jid c db) jid q"
    by (auto simp: insert_chunk_def has_chunk_def)
  show "stored_bytes (insert_chunk now jid c db) jid \<le> stored_bytes db jid + int (length (nc_content c))"
    by (simp add: stored_bytes_def rows_of_insert_chunk)
qed


lemma stored_bytes_chunks: "db_chunks db' = db_chunks db \<Longrightarrow> stored_bytes db' jid = stored_bytes db jid"
  by (simp add: stored_bytes_def rows_of_def)

lemma put_chunk_db [simp]: "snd (put_chunk now pid jid c s) = insert_chunk now jid c (snd s)"
  by (simp add: put_chunk_def)

lemma write_keeps_budget:
  assumes ok: "budget_ok mx jid db" and len: "length t \<le> MAX_CHUNK_BYTES"
  shows "budget_ok mx jid (snd (snd (write_chunk now mx pid jid seq t at (h, db))))"
proof (rule write_chunk_cases [OF len, of now mx pid jid seq at h db], goal_cases)
  case 1
  then show ?case using ok by simp
next
  case (2 db' n)
  then show ?case
    using ok stored_bytes_chunks [OF 2(4), of jid]
    by (auto simp: budget_ok_def marker_bytes_def has_chunk_def)
next
  case (3 db' n)
  let ?c = "new_chunk seq t at"
  note f = insert_chunk_facts [where now = now and jid = jid and c = ?c and db = db']
  from ok 3 have "stored_bytes db' jid \<le> n" "distinct (map row_key (db_chunks db'))"
    using stored_bytes_chunks [OF 3(4), of jid] by (auto simp: budget_ok_def marker_bytes_def)
  with f(2,5) 3 have "stored_bytes (insert_chunk now jid ?c db') jid \<le> n + int (length t)"
    "distinct (map row_key (db_chunks (insert_chunk now jid ?c db')))" by auto
  with 3 f(1) show ?case by (simp add: budget_ok_def marker_bytes_def)
next
  case (4 db' n)
  let ?c = "new_chunk seq t at"
  define db1 where "db1 = insert_chunk now jid ?c db'"
  define db2 where "db2 = insert_chunk now jid marker_chunk db1"
  note f = insert_chunk_facts [where now = now and jid = jid and c = ?c and db = db', folded db1_def]
  note g = insert_chunk_facts [where now = now and jid = jid and c = marker_chunk and db = db1, folded db2_def]
  from ok 4 have "stored_bytes db' jid \<le> n" "distinct (map row_key (db_chunks db'))"
    using stored_bytes_chunks [OF 4(4), of jid] by (auto simp: budget_ok_def marker_bytes_def)
  with f(2,5) g(2,5)
  have "stored_bytes db2 jid \<le> n + int (length t) + int (length overflow_marker)"
    "distinct (map row_key (db_chunks db2))" by auto
  moreover have "log_total db2 jid = Some (n + int (length t))" using f(1) g(1) 4 by simp
  moreover have "has_chunk db2 jid OVERFLOW_MARKER_SEQ" using g(3) by simp
  moreover have "snd (snd (write_chunk now mx pid jid seq t at (h, db))) = db2"
    using 4(1) by (simp add: db1_def db2_def)
  moreover have "int (length t) \<le> int MAX_CHUNK_BYTES" using len by simp
  ultimately show ?case using 4 by (simp add: budget_ok_def marker_bytes_def)
qed

lemma log_op_budget:
  assumes "budget_ok mx jid (snd s)"
  shows "budget_ok mx jid (snd (log_op now mx pid jid op s))"
proof -
  obtain h db where s: "s = (h, db)" by (cases s)
  with assms have ok: "budget_ok mx jid db" by simp
  note w = write_keeps_budget [OF ok cap_chunk_length]
  show ?thesis
  proof (cases op)
    case (Ingest seq str tx step phase)
    show ?thesis
      unfolding s Ingest log_op.simps
      by (rule ingest_log_cases [of now mx pid jid seq str tx step phase h db]) (use ok w in auto)
  next
    case Finish
    show ?thesis
      unfolding s Finish log_op.simps
    proof (rule finish_job_cases [of now mx pid jid h db], goal_cases)
      case (3 st c h1 h2 db2)
      then show ?case using w by (metis snd_conv)
    qed (use ok in auto)
  qed
qed

lemma write_keeps_total:
  assumes "log_total db jid \<noteq> None" "length t \<le> MAX_CHUNK_BYTES"
  shows "log_total (snd (snd (write_chunk now mx pid jid seq t at (h, db)))) jid \<noteq> None"
  by (rule write_chunk_cases [OF assms(2), of now mx pid jid seq at h db])
    (use assms(1) in \<open>auto simp: insert_chunk_facts(1)\<close>)

lemma log_op_total:
  assumes "log_total (snd s) jid \<noteq> None"
  shows "log_total (snd (log_op now mx pid jid op s)) jid \<noteq> None"
proof -
  obtain h db where s: "s = (h, db)" by (cases s)
  with assms have ok: "log_total db jid \<noteq> None" by simp
  note w = write_keeps_total [OF ok cap_chunk_length]
  show ?thesis
  proof (cases op)
    case (Ingest seq str tx step phase)
    show ?thesis
      unfolding s Ingest log_op.simps
      by (rule ingest_log_cases [of now mx pid jid seq str tx step phase h db]) (use ok w in auto)
  next
    case Finish
    show ?thesis
      unfolding s Finish log_op.simps
    proof (rule finish_job_cases [of now mx pid jid h db], goal_cases)
      case (3 st c h1 h2 db2)
      then show ?case using w by (metis snd_conv)
    qed (use ok in auto)
  qed
qed

text \<open>C29: The log of a job stays within its budget.  However many chunks a runner sends, the
  stored bytes of a job stay below the budget plus one chunk plus the one marker, no two rows
  share a sequence number, and the truncation marker is there as soon as the count has
  reached the budget.\<close>

theorem log_budget:
  assumes "0 < mx" "log_total db jid = Some 0" "rows_of db jid = []"
    and "distinct (map row_key (db_chunks db))"
    and "log_run now mx pid jid ops (h, db) = (h', db')"
  shows "stored_bytes db' jid < mx + 65536 + 49 \<and> distinct (map row_key (db_chunks db')) \<and>
    (\<exists>n. log_total db' jid = Some n \<and> (n < mx \<or> has_chunk db' jid OVERFLOW_MARKER_SEQ))"
proof -
  have "budget_ok mx jid db \<and> log_total db jid \<noteq> None"
    using assms(1-4) by (simp add: budget_ok_def stored_bytes_def marker_bytes_def)
  then have "budget_ok mx jid (snd (h, db)) \<and> log_total (snd (h, db)) jid \<noteq> None" by simp
  then have "budget_ok mx jid (snd (log_run now mx pid jid ops (h, db))) \<and>
      log_total (snd (log_run now mx pid jid ops (h, db))) jid \<noteq> None"
    by (rule log_run_invariant [rotated]) (use log_op_budget log_op_total in blast)
  then obtain n where ok: "budget_ok mx jid db'" and n: "log_total db' jid = Some n"
    unfolding assms(5) by auto
  have "length overflow_marker = 49" by (simp add: overflow_marker_def)
  with ok n show ?thesis
    by (auto simp: budget_ok_def marker_bytes_def MAX_CHUNK_BYTES_def split: if_splits)
qed


definition demo_log_db :: Db where
  "demo_log_db = empty_db\<lparr>db_jobs := [job_row 0 7 1 ''build'' None [] [] (JObj []) 3600 0]\<rparr>"

theorem log_budget_witness:
  "stored_bytes (snd (log_run 0 5 1 7 [Ingest 1 Stdout ''hello'' None None, Ingest 2 Stdout ''more'' None None]
      (LogHub_default, demo_log_db))) 7 < 5 + 65536 + 49"
proof -
  obtain h' db' where r: "log_run 0 5 1 7 [Ingest 1 Stdout ''hello'' None None, Ingest 2 Stdout ''more'' None None]
      (LogHub_default, demo_log_db) = (h', db')" by fastforce
  have "log_total demo_log_db 7 = Some 0" "rows_of demo_log_db 7 = []"
    "distinct (map row_key (db_chunks demo_log_db))"
    by (simp_all add: demo_log_db_def empty_db_def log_total_def rows_of_def job_row_def)
  from log_budget [OF _ this r] r show ?thesis by simp
qed

section \<open>Replays and retries\<close>

text \<open>A chunk whose sequence number is not above the last one seen changes nothing: not the
  hub, not the tables, not the byte count.  The same holds right after the values of the job
  have been registered again, so for a requeued job whose masks are still in place every
  chunk of the new attempt is discarded until it passes the first attempt's last number.\<close>

theorem log_replay_dropped:
  assumes "hub_masks h jid = Some st" "seq \<le> ms_last_seq st"
  shows "ingest_log now mx pid jid seq stream tx step phase (register_masks h jid vs, db) =
    (Inr (), register_masks h jid vs, db)"
proof -
  have "\<exists>st'. hub_masks (register_masks h jid vs) jid = Some st' \<and> ms_last_seq st' = ms_last_seq st"
    using assms(1) by (auto simp: register_masks_def Let_def)
  with assms(2) show ?thesis by (auto simp: ingest_log_def mask_chunk_def)
qed

text \<open>A first attempt that logged up to number 9, and the second attempt's chunk number 1.\<close>

definition retried_hub :: LogHub where
  "retried_hub = set_mask (register_masks LogHub_default 7 [''ghs_1234'']) 7
     (MaskState_default\<lparr>ms_values := [''ghs_1234''], ms_max_len := 8, ms_last_seq := 9, ms_generation := 1\<rparr>)"

theorem log_replay_dropped_witness:
  "ingest_log 0 100 1 7 1 Stdout ''second attempt'' None None
     (register_masks retried_hub 7 [''ghs_1234''], demo_log_db) =
   (Inr (), register_masks retried_hub 7 [''ghs_1234''], demo_log_db)"
  by (rule log_replay_dropped
      [where st = "MaskState_default\<lparr>ms_values := [''ghs_1234''], ms_max_len := 8, ms_last_seq := 9,
         ms_generation := 1\<rparr>"])
    (simp_all add: retried_hub_def)

section \<open>Nothing else is lost\<close>

lemma apply_masks_absent: "clean vs t \<Longrightarrow> apply_masks t vs = t"
  by (induction vs) (auto simp: clean_def mask_one_def contains_sublist)

definition text_of :: "in_chunk \<Rightarrow> rstr" where
  "text_of c = fst (snd (snd c))"

lemma mask_run_transparent:
  assumes "hub_masks h jid = Some st" "ms_values st = vs"
    and "sorted_wrt (<) (map fst cs)" "\<forall>c\<in>set cs. ms_last_seq st < fst c"
    and "clean vs (ms_carry st @ concat (map text_of cs))"
  shows "fst (mask_run h jid cs) @ held (snd (mask_run h jid cs)) jid =
    ms_carry st @ concat (map text_of cs)"
  using assms
proof (induction cs arbitrary: h st)
  case Nil
  then show ?case by (simp add: held_def)
next
  case (Cons c cs)
  obtain seq stream tx step phase where c: "c = (seq, stream, tx, step, phase)" by (cases c)
  have tx: "text_of c = tx" by (simp add: c text_of_def)
  define M where "M = ms_carry st @ tx"
  define n where "n = cut_of (ms_max_len st) M"
  define st1 where "st1 = st\<lparr>ms_last_seq := seq, ms_carry := drop n M, ms_carry_stream := stream,
      ms_carry_step := step, ms_carry_phase := phase\<rparr>"
  have all: "ms_carry st @ concat (map text_of (c # cs)) = take n M @ drop n M @ concat (map text_of cs)"
  proof -
    have "ms_carry st @ concat (map text_of (c # cs)) = M @ concat (map text_of cs)" by (simp add: M_def tx)
    also have "\<dots> = (take n M @ drop n M) @ concat (map text_of cs)" by simp
    finally show ?thesis by (simp only: append_assoc)
  qed
  have "clean vs M"
    using Cons.prems(5) unfolding M_def by (rule clean_sublist) (simp add: tx)
  then have mc: "\<exists>out. mask_chunk h jid seq stream tx step phase = (Some (take n M, out), set_mask h jid st1)"
    using Cons.prems(1,2,4) c apply_masks_absent [of vs M]
    by (simp add: mask_chunk_def Let_def M_def [symmetric] n_def [symmetric] st1_def)
  have "clean vs (drop n M @ concat (map text_of cs))"
    using Cons.prems(5) unfolding all by (rule clean_sublist) simp
  then have "fst (mask_run (set_mask h jid st1) jid cs) @ held (snd (mask_run (set_mask h jid st1) jid cs)) jid
      = ms_carry st1 @ concat (map text_of cs)"
    using Cons.prems(2,3,4) c by (intro Cons.IH) (auto simp: st1_def)
  moreover have "fst (mask_run h jid (c # cs)) = take n M @ fst (mask_run (set_mask h jid st1) jid cs)"
    "snd (mask_run h jid (c # cs)) = snd (mask_run (set_mask h jid st1) jid cs)"
    using mc by (auto simp: c case_prod_unfold Let_def)
  moreover have "ms_carry st1 = drop n M" by (simp add: st1_def)
  ultimately show ?case unfolding all by simp
qed

text \<open>Holding text back loses nothing.  When no secret occurs in a job's output, what is
  emitted for its chunks followed by what is still held is the output itself, byte for byte.\<close>

theorem clean_output_arrives_unchanged:
  assumes "hub_masks h jid = None" "\<forall>v\<in>set vs. MIN_MASK_LEN \<le> length v" "vs \<noteq> []"
    and "sorted_wrt (<) (map fst cs)" "\<forall>c\<in>set cs. 0 \<le> fst c"
    and "clean vs (concat (map text_of cs))"
  shows "fst (mask_run (register_masks h jid vs) jid cs)
    @ held (snd (mask_run (register_masks h jid vs) jid cs)) jid = concat (map text_of cs)"
  using mask_run_transparent [OF register_fresh [OF assms(1-3)], of vs cs] assms(4-6)
  by (force simp: MaskState_default_def)

theorem clean_output_arrives_unchanged_witness:
  "fst (mask_run (register_masks LogHub_default 7 [''nothing-here'']) 7 split_secret)
    @ held (snd (mask_run (register_masks LogHub_default 7 [''nothing-here'']) 7 split_secret)) 7
   = ''a ghs_1234 b''"
proof -
  have t: "concat (map text_of split_secret) = ''a ghs_1234 b''"
    by (simp add: split_secret_def text_of_def)
  have "clean [''nothing-here''] ''a ghs_1234 b''"
    unfolding clean_def contains_sublist [symmetric] by code_simp
  then show ?thesis
    using clean_output_arrives_unchanged [of LogHub_default 7 "[''nothing-here'']" split_secret]
    unfolding t by (simp add: LogHub_default_def MIN_MASK_LEN_def split_secret_def)
qed


section \<open>Where masking stops short\<close>

text \<open>The order of registration matters when one value starts with another.  A value that
  begins with an earlier registered value is never replaced as a whole: the earlier value is
  cut out of it first and the rest of the later one stays in the log.\<close>

theorem earlier_prefix_leaves_rest:
  assumes "maskable u" "star_free w" "\<not> sublist u w"
  shows "apply_masks (u @ w) [u, u @ w] = stars @ w"
proof -
  obtain c s where us: "u @ w = c # s" and u: "u \<noteq> []"
    using assms(1) by (cases "u @ w") (auto simp: maskable_def)
  have "contains (u @ w) u" by (simp add: contains_sublist)
  moreover have "str_replace u stars (u @ w) = stars @ str_replace u stars w"
    unfolding us by (subst str_replace_hit) (use us u in \<open>auto simp: starts_with_prefix
      simp flip: us\<close>)
  moreover have "str_replace u stars w = w"
    using assms(3) by (intro str_replace_absent) (simp add: contains_sublist)
  ultimately have first: "mask_one (u @ w) u = stars @ w" by (simp add: mask_one_def)
  have "\<not> sublist (u @ w) (stars @ w)"
  proof
    assume "sublist (u @ w) (stars @ w)"
    then have "sublist (u @ w) w"
      by (rule sublist_stars [rotated 2]) (use assms in \<open>auto simp: maskable_def star_free_def\<close>)
    then have "sublist u w" by (rule sublist_order.order.trans [rotated]) simp
    with assms(3) show False by simp
  qed
  with first show ?thesis by (simp add: mask_one_def contains_sublist)
qed

theorem earlier_prefix_leaves_rest_witness:
  "apply_masks ''hunter-two'' [''hunter'', ''hunter-two''] = ''***-two''"
  using earlier_prefix_leaves_rest [of "''hunter''" "''-two''"]
  by (simp add: maskable_def star_free_def sublist_Cons_right)

text \<open>A value with a newline in it can reach the browsers in full: the stream is flushed at
  the newline, so the first line of the value is emitted before the rest has arrived.\<close>

theorem multi_line_value_leaks:
  "fst (mask_run (register_masks LogHub_default 7 [''abc'' @ CHR 0x0A # ''defgh'']) 7
     [(1, ''stdout'', ''abc'' @ [CHR 0x0A], None, None),
      (2, ''stdout'', ''defgh'' @ [CHR 0x0A], None, None)])
   = ''abc'' @ CHR 0x0A # ''defgh'' @ [CHR 0x0A]"
  by code_simp

end
