(* ===== verification/JobMachine.thy ===== *)
theory JobMachine
  imports RunnersDb LogStore
begin

text \<open>
  The life of a job row.  \<open>job_step\<close> lists the moves a row can make; every statement of
  \<open>JobsDb\<close> is shown to move the rows of the table only along it (the locale
  \<open>job_table\<close>, interpreted on each of them), and what holds along the moves holds for any
  sequence of statements in any order, hence for any interleaving of the tasks issuing them.
\<close>

section \<open>The moves of a row\<close>

inductive job_step :: "PipelineJob \<Rightarrow> PipelineJob \<Rightarrow> bool" where
  Claim: "pj_status j = ''queued'' \<Longrightarrow> pj_runner_id j = None \<Longrightarrow>
     job_step j (j\<lparr>pj_status := ''in_progress'', pj_stage := ''assigned'', pj_runner_id := Some r,
       pj_assigned_at := Some t\<rparr>)"
| Unassign: "pj_status j = ''in_progress'' \<Longrightarrow> pj_stage j = ''assigned'' \<Longrightarrow> job_step j (to_queue j)"
| Start: "pj_status j = ''in_progress'' \<Longrightarrow> pj_stage j = ''assigned'' \<Longrightarrow>
     job_step j (j\<lparr>pj_stage := ''preparing'', pj_started_at := coalesce (pj_started_at j) t\<rparr>)"
| Stage: "pj_status j = ''in_progress'' \<Longrightarrow> job_step j (j\<lparr>pj_stage := st\<rparr>)"
| Conclude: "pj_status j \<noteq> ''completed'' \<Longrightarrow>
     job_step j (j\<lparr>pj_status := ''completed'', pj_conclusion := Some c, pj_stage := ''done'',
       pj_exit_code := x, pj_error_category := e, pj_metrics := m, pj_started_at := s,
       pj_finished_at := Some t\<rparr>)"
| Requeue: "pj_status j = ''in_progress'' \<Longrightarrow> pj_attempt j < 2 \<Longrightarrow> job_step j (requeue j)"
| CountLog: "job_step j (j\<lparr>pj_log_bytes := n\<rparr>)"
| Archive: "pj_logs_archived_at j = None \<Longrightarrow>
     job_step j (j\<lparr>pj_logs_archived_at := Some t, pj_logs_archive_backend := Some b\<rparr>)"

inductive_simps job_step_iff: "job_step j j'"
inductive_cases job_stepE: "job_step j j'"

definition job_moves :: "Db \<Rightarrow> Db \<Rightarrow> bool" where
  "job_moves db db' \<longleftrightarrow> list_all2 (job_step\<^sup>*\<^sup>*) (db_jobs db) (db_jobs db')"

lemma job_moves_refl [simp]: "job_moves db db"
  by (simp add: job_moves_def list_all2_same)

lemma job_moves_trans: "job_moves a b \<Longrightarrow> job_moves b c \<Longrightarrow> job_moves a c"
  unfolding job_moves_def by (rule list_all2_trans [where ?P1.0 = "job_step\<^sup>*\<^sup>*"]) auto

lemma job_moves_jobs: "db_jobs db = db_jobs db' \<Longrightarrow> job_moves db db'"
  by (simp add: job_moves_def list_all2_same)

lemma upd_jobs_moves:
  assumes "\<And>j. P j \<Longrightarrow> job_step j (f j)"
  shows "job_moves db (snd (upd_jobs P f db))"
proof -
  have "job_step\<^sup>*\<^sup>* j (if P j then f j else j)" for j using assms by auto
  then show ?thesis by (simp add: job_moves_def upd_jobs_def update_where_def list_all2_conv_all_nth)
qed

lemma upd_job_moves:
  assumes "\<And>j. P j \<Longrightarrow> job_step j (f j)"
  shows "job_moves db (snd (upd_job P f db))"
  using upd_jobs_moves [OF assms] by (simp add: upd_job_def)

text \<open>Every way of ending a job is the one move \<open>Conclude\<close>.\<close>

lemma conclude_queued_step: "pj_status j = ''queued'' \<Longrightarrow> job_step j (conclude_queued now c j)"
  using Conclude [where j = j and c = c and x = "pj_exit_code j" and e = "pj_error_category j"
      and m = "pj_metrics j" and s = "pj_started_at j" and t = now]
  by (simp add: conclude_queued_def)

lemma lose_runner_step: "pj_status j = ''in_progress'' \<Longrightarrow> job_step j (lose_runner now j)"
  using Conclude [where j = j and c = "''failure''" and x = "pj_exit_code j" and e = "Some ''runner_lost''"
      and m = "pj_metrics j" and s = "coalesce (pj_started_at j) now" and t = now]
  by (simp add: lose_runner_def)

section \<open>The interface\<close>

locale job_table =
  fixes op :: "Db \<Rightarrow> Db"
  assumes moves: "job_moves db (op db)"
begin

lemma row_count: "length (db_jobs (op db)) = length (db_jobs db)"
  using moves [of db] by (simp add: job_moves_def list_all2_lengthD)

lemma row_moves: "i < length (db_jobs db) \<Longrightarrow> job_step\<^sup>*\<^sup>* (db_jobs db ! i) (db_jobs (op db) ! i)"
  using moves [of db] by (simp add: job_moves_def list_all2_nthD)

end

interpretation claim: job_table "\<lambda>db. snd (claim_for_runner now jid rid db)" for now jid rid
proof
  fix db
  have m: "job_moves db (snd (upd_job (claimable jid) (assign_to now rid) db))"
    by (rule upd_job_moves) (auto simp: claimable_def assign_to_def intro: Claim)
  then have "job_moves db ((snd (upd_job (claimable jid) (assign_to now rid) db))\<lparr>db_runners := rs\<rparr>)" for rs
    by (simp add: job_moves_def)
  then show "job_moves db (snd (claim_for_runner now jid rid db))"
    by (simp add: claim_for_runner_def case_prod_unfold split: option.splits)
qed

interpretation unclaim: job_table "\<lambda>db. snd (unclaim jid db)" for jid
  unfolding unclaim_def by unfold_locales (rule upd_job_moves, auto intro: Unassign)

interpretation ack: job_table "\<lambda>db. snd (ack now jid rid db)" for now jid rid
  unfolding ack_def by unfold_locales (rule upd_job_moves, auto intro: Start)

interpretation revert: job_table "\<lambda>db. snd (revert_unacked now cutoff db)" for now cutoff
  unfolding revert_unacked_def snd_conv
  by unfold_locales (rule upd_jobs_moves, auto simp: unacked_def intro: Unassign)

interpretation stage: job_table "\<lambda>db. snd (set_stage jid rid st db)" for jid rid st
  unfolding set_stage_def by unfold_locales (rule upd_job_moves, auto intro: Stage)

interpretation finish: job_table "\<lambda>db. snd (finish_from_runner now jid rid c x e m db)" for now jid rid c x e m
  unfolding finish_from_runner_def
  by unfold_locales (rule upd_job_moves, rule Conclude, simp)

interpretation force: job_table "\<lambda>db. snd (force_finish now jid c e db)" for now jid c e
proof
  fix db
  show "job_moves db (snd (force_finish now jid c e db))"
    unfolding force_finish_def
  proof (rule upd_job_moves)
    fix j :: PipelineJob assume "pj_id j = jid \<and> pj_status j \<noteq> ''completed''"
    then show "job_step j (j\<lparr>pj_status := ''completed'', pj_conclusion := Some c, pj_stage := ''done'',
        pj_error_category := e, pj_started_at := coalesce (pj_started_at j) now, pj_finished_at := Some now\<rparr>)"
      using Conclude [where j = j and c = c and x = "pj_exit_code j" and e = e and m = "pj_metrics j"
          and s = "coalesce (pj_started_at j) now" and t = now] by simp
  qed
qed

interpretation skip: job_table "\<lambda>db. snd (mark_skipped now ids db)" for now ids
  unfolding mark_skipped_def by unfold_locales (rule upd_jobs_moves, auto intro: conclude_queued_step)

interpretation cancel_one: job_table "\<lambda>db. snd (cancel_one_queued now jid db)" for now jid
  unfolding cancel_one_queued_def by unfold_locales (rule upd_job_moves, auto intro: conclude_queued_step)

interpretation cancel_all: job_table "\<lambda>db. snd (cancel_queued now pid db)" for now pid
  unfolding cancel_queued_def by unfold_locales (rule upd_jobs_moves, auto intro: conclude_queued_step)

lemma recover_orphans_moves: "job_moves db (snd (recover_orphans now mine db))"
proof -
  obtain a db1 where u: "upd_jobs (\<lambda>j. mine j \<and> pj_status j = ''in_progress'' \<and> pj_attempt j < 2) requeue db = (a, db1)"
    by fastforce
  have "job_moves db db1"
    using upd_jobs_moves [of "\<lambda>j. mine j \<and> pj_status j = ''in_progress'' \<and> pj_attempt j < 2" requeue db] u
    by (auto intro: Requeue)
  moreover have "job_moves db1 (snd (upd_jobs (\<lambda>j. mine j \<and> pj_status j = ''in_progress'') (lose_runner now) db1))"
    by (rule upd_jobs_moves) (simp add: lose_runner_step)
  ultimately show ?thesis
    using u by (auto simp: recover_orphans_def case_prod_unfold Let_def intro: job_moves_trans [of db db1])
qed

interpretation orphans: job_table "\<lambda>db. snd (requeue_orphans now rid db)" for now rid
  unfolding requeue_orphans_def by unfold_locales (rule recover_orphans_moves)

interpretation all_orphans: job_table "\<lambda>db. snd (requeue_all_orphans now db)" for now
  unfolding requeue_all_orphans_def by unfold_locales (rule recover_orphans_moves)

interpretation archived: job_table "\<lambda>db. snd (mark_logs_archived now jid b db)" for now jid b
  unfolding mark_logs_archived_def case_prod_unfold Let_def snd_conv
  by unfold_locales (rule upd_jobs_moves, auto intro: Archive)

interpretation count: job_table "\<lambda>db. snd (add_log_bytes db jid d)" for jid d
proof
  fix db
  have "job_moves db (snd (upd_jobs (\<lambda>j. pj_id j = jid) (\<lambda>j. j\<lparr>pj_log_bytes := pj_log_bytes j + d\<rparr>) db))"
    by (rule upd_jobs_moves) (rule CountLog)
  then show "job_moves db (snd (add_log_bytes db jid d))"
    by (simp add: add_log_bytes_def upd_jobs_def Let_def split: option.splits)
qed


section \<open>Any sequence of statements\<close>

datatype JobOp =
    ClaimOp uuid uuid
  | UnclaimOp uuid
  | AckOp uuid uuid
  | RevertOp int
  | SetStageOp uuid uuid rstr
  | FinishOp uuid uuid rstr "int option" "rstr option" "json option"
  | ForceOp uuid rstr "rstr option"
  | SkipOp "uuid list"
  | CancelOneOp uuid
  | CancelAllOp uuid
  | OrphansOp uuid
  | AllOrphansOp
  | ArchivedOp uuid rstr
  | LogBytesOp uuid int

fun job_op :: "time \<times> JobOp \<Rightarrow> Db \<Rightarrow> Db" where
  "job_op (now, ClaimOp jid rid) db = snd (claim_for_runner now jid rid db)"
| "job_op (now, UnclaimOp jid) db = snd (unclaim jid db)"
| "job_op (now, AckOp jid rid) db = snd (ack now jid rid db)"
| "job_op (now, RevertOp cutoff) db = snd (revert_unacked now cutoff db)"
| "job_op (now, SetStageOp jid rid st) db = snd (set_stage jid rid st db)"
| "job_op (now, FinishOp jid rid c x e m) db = snd (finish_from_runner now jid rid c x e m db)"
| "job_op (now, ForceOp jid c e) db = snd (force_finish now jid c e db)"
| "job_op (now, SkipOp ids) db = snd (mark_skipped now ids db)"
| "job_op (now, CancelOneOp jid) db = snd (cancel_one_queued now jid db)"
| "job_op (now, CancelAllOp pid) db = snd (cancel_queued now pid db)"
| "job_op (now, OrphansOp rid) db = snd (requeue_orphans now rid db)"
| "job_op (now, AllOrphansOp) db = snd (requeue_all_orphans now db)"
| "job_op (now, ArchivedOp jid b) db = snd (mark_logs_archived now jid b db)"
| "job_op (now, LogBytesOp jid d) db = snd (add_log_bytes db jid d)"

definition job_ops :: "(time \<times> JobOp) list \<Rightarrow> Db \<Rightarrow> Db" where
  "job_ops ops db = fold job_op ops db"

lemma job_op_moves: "job_moves db (job_op op db)"
  by (cases "(op, db)" rule: job_op.cases)
    (simp_all add: claim.moves unclaim.moves ack.moves revert.moves stage.moves finish.moves
      force.moves skip.moves cancel_one.moves cancel_all.moves orphans.moves all_orphans.moves
      archived.moves count.moves)

interpretation job_run: job_table "job_ops ops" for ops
proof
  fix db
  show "job_moves db (job_ops ops db)"
    unfolding job_ops_def
  proof (induction ops arbitrary: db)
    case (Cons op ops)
    show ?case using job_moves_trans [OF job_op_moves [of db op] Cons] by simp
  qed simp
qed

section \<open>What the moves keep\<close>

text \<open>The facts of a job that are final: everything but the log volume and the archive marker.\<close>

definition final_part :: "PipelineJob \<Rightarrow> PipelineJob" where
  "final_part j = j\<lparr>pj_log_bytes := 0, pj_logs_archived_at := None, pj_logs_archive_backend := None\<rparr>"

lemma step_terminal:
  "job_step j j' \<Longrightarrow> pj_status j = ''completed'' \<Longrightarrow> final_part j' = final_part j \<and> pj_status j' = ''completed''"
  by (erule job_stepE) (auto simp: final_part_def)

lemma steps_terminal:
  "job_step\<^sup>*\<^sup>* j j' \<Longrightarrow> pj_status j = ''completed'' \<Longrightarrow> final_part j' = final_part j \<and> pj_status j' = ''completed''"
proof (induction rule: rtranclp_induct)
  case (step y z)
  then show ?case using step_terminal by metis
qed simp

text \<open>What no move ever changes.\<close>

definition identity_part :: "PipelineJob \<Rightarrow> uuid \<times> uuid \<times> rstr \<times> rstr list \<times> rstr list \<times> json \<times> int" where
  "identity_part j = (pj_id j, pj_pipeline_id j, pj_job_key j, pj_runs_on j, pj_needs j, pj_plan j, pj_position j)"

lemma steps_identity: "job_step\<^sup>*\<^sup>* j j' \<Longrightarrow> identity_part j' = identity_part j"
  by (induction rule: rtranclp_induct)
    (auto elim!: job_stepE simp: identity_part_def to_queue_def requeue_def)

text \<open>
  A well-formed row: a conclusion exactly at the end (the table's own constraint), a runner
  exactly while in progress unless finished, one of two attempts, a finish time at the end.
\<close>

definition job_ok :: "PipelineJob \<Rightarrow> bool" where
  "job_ok j \<longleftrightarrow> pj_status j \<in> {''queued'', ''in_progress'', ''completed''} \<and>
     (pj_status j = ''completed'') = (pj_conclusion j \<noteq> None) \<and>
     (pj_status j = ''completed'') = (pj_finished_at j \<noteq> None) \<and>
     (pj_status j = ''queued'' \<longrightarrow> pj_runner_id j = None \<and> pj_stage j = ''queued'') \<and>
     (pj_status j = ''in_progress'' \<longrightarrow> pj_runner_id j \<noteq> None \<and> pj_assigned_at j \<noteq> None) \<and>
     (pj_status j = ''completed'' \<longrightarrow> pj_stage j = ''done'') \<and>
     1 \<le> pj_attempt j \<and> pj_attempt j \<le> 2"

lemma step_ok: "job_step j j' \<Longrightarrow> job_ok j \<Longrightarrow> job_ok j'"
  by (erule job_stepE) (auto simp: job_ok_def to_queue_def requeue_def)

lemma steps_ok: "job_step\<^sup>*\<^sup>* j j' \<Longrightarrow> job_ok j \<Longrightarrow> job_ok j'"
  by (induction rule: rtranclp_induct) (auto intro: step_ok)

lemma steps_attempt: "job_step\<^sup>*\<^sup>* j j' \<Longrightarrow> pj_attempt j \<le> pj_attempt j'"
  by (induction rule: rtranclp_induct) (auto elim!: job_stepE simp: to_queue_def requeue_def)

definition jobs_ok :: "Db \<Rightarrow> bool" where
  "jobs_ok db \<longleftrightarrow> list_all job_ok (db_jobs db)"

lemma jobs_ok_moves: "job_moves db db' \<Longrightarrow> jobs_ok db \<Longrightarrow> jobs_ok db'"
  unfolding job_moves_def jobs_ok_def list_all_length
  by (simp add: list_all2_conv_all_nth) (metis steps_ok)

lemma job_row_ok: "job_ok (job_row now i p k n ro nd pl t pos)"
  by (simp add: job_ok_def job_row_def)

text \<open>C2: A finished job is finished for good.  Whatever statements run afterwards, in whatever
  order and for whatever job ids they are issued, the row of a completed job keeps its
  status, conclusion, runner, exit code, error category, metrics and times; only the log
  volume and the archive marker can still change.\<close>

theorem completed_is_final:
  assumes "i < length (db_jobs db)" "pj_status (db_jobs db ! i) = ''completed''"
  shows "final_part (db_jobs (job_ops ops db) ! i) = final_part (db_jobs db ! i)"
  using steps_terminal [OF job_run.row_moves [OF assms(1)] assms(2)] by blast

definition done_job :: PipelineJob where
  "done_job = conclude_queued 5 ''cancelled'' (job_row 0 7 1 ''build'' None [] [] (JObj []) 3600 0)"

theorem completed_is_final_witness:
  "pj_conclusion (db_jobs (job_ops [(9, AllOrphansOp), (9, ForceOp 7 ''timed_out'' None), (9, ClaimOp 7 3)]
      (empty_db\<lparr>db_jobs := [done_job]\<rparr>)) ! 0) = Some ''cancelled''"
proof -
  let ?db = "empty_db\<lparr>db_jobs := [done_job]\<rparr>"
  let ?ops = "[(9, AllOrphansOp), (9, ForceOp 7 ''timed_out'' None), (9, ClaimOp 7 3)]"
  have "final_part (db_jobs (job_ops ?ops ?db) ! 0) = final_part (db_jobs ?db ! 0)"
    by (rule completed_is_final) (simp_all add: done_job_def conclude_queued_def)
  then have "pj_conclusion (final_part (db_jobs (job_ops ?ops ?db) ! 0)) =
      pj_conclusion (final_part (db_jobs ?db ! 0))" by (rule arg_cong)
  then show ?thesis by (simp add: final_part_def done_job_def conclude_queued_def)
qed




section \<open>The contract of a job\<close>

text \<open>
  What the pipeline model promises of a job, without rows: it waits, it runs on one runner,
  it has ended with a conclusion.
\<close>

datatype Phase = Waiting | Running uuid | Ended rstr

inductive phase_step :: "Phase \<Rightarrow> Phase \<Rightarrow> bool" where
  assign: "phase_step Waiting (Running r)"
| give_back: "phase_step (Running r) Waiting"
| end_waiting: "phase_step Waiting (Ended c)"
| end_running: "phase_step (Running r) (Ended c)"

definition phase_of :: "PipelineJob \<Rightarrow> Phase" where
  "phase_of j =
     (if pj_status j = ''completed'' then Ended (case pj_conclusion j of None \<Rightarrow> [] | Some c \<Rightarrow> c)
      else if pj_status j = ''in_progress'' then Running (case pj_runner_id j of None \<Rightarrow> 0 | Some r \<Rightarrow> r)
      else Waiting)"

lemma step_refines:
  "job_step j j' \<Longrightarrow> job_ok j \<Longrightarrow> phase_of j' = phase_of j \<or> phase_step (phase_of j) (phase_of j')"
  by (erule job_stepE)
    (auto simp: phase_of_def job_ok_def to_queue_def requeue_def intro: phase_step.intros)

lemma steps_refine: "job_step\<^sup>*\<^sup>* j j' \<Longrightarrow> job_ok j \<Longrightarrow> phase_step\<^sup>*\<^sup>* (phase_of j) (phase_of j')"
proof (induction rule: rtranclp_induct)
  case (step y z)
  then show ?case using step_refines [OF step.hyps(2)] steps_ok [OF step.hyps(1)] by (auto intro: rtranclp.rtrancl_into_rtrancl)
qed simp



section \<open>Claims\<close>

lemma upd_job_None: "fst (upd_job P f db) = None \<longleftrightarrow> (\<forall>j\<in>set (db_jobs db). \<not> P j)"
  by (simp add: upd_job_def upd_jobs_def returning_Nil)

lemma claim_Some:
  assumes "claim_for_runner now jid rid db = (Some job, db')"
  shows "db_jobs db' = update_where (claimable jid) (assign_to now rid) (db_jobs db)"
    "db_runners db' = update_where (idle_runner rid) make_busy (db_runners db)"
    "job \<in> set (returning (claimable jid) (assign_to now rid) (db_jobs db))"
    "\<exists>r\<in>set (db_runners db). idle_runner rid r"
proof -
  define u where "u = upd_job (claimable jid) (assign_to now rid) db"
  have parts: "fst u = fetch_optional (returning (claimable jid) (assign_to now rid) (db_jobs db))"
    "db_jobs (snd u) = update_where (claimable jid) (assign_to now rid) (db_jobs db)"
    "db_runners (snd u) = db_runners db"
    by (simp_all add: u_def upd_defs)
  have c: "fst u = Some job" "returning (idle_runner rid) make_busy (db_runners db) \<noteq> []"
    "db' = snd u\<lparr>db_runners := update_where (idle_runner rid) make_busy (db_runners db)\<rparr>"
  proof -
    obtain r db1 where u: "u = (r, db1)" by (cases u)
    have r: "r \<noteq> None" using assms u by (cases r) (simp_all add: claim_for_runner_def u_def [symmetric])
    then obtain j where "r = Some j" by blast
    with assms u parts(3) show "fst u = Some job"
      "returning (idle_runner rid) make_busy (db_runners db) \<noteq> []"
      "db' = snd u\<lparr>db_runners := update_where (idle_runner rid) make_busy (db_runners db)\<rparr>"
      unfolding claim_for_runner_def u_def [symmetric] by (simp_all split: if_splits)
  qed
  show "db_jobs db' = update_where (claimable jid) (assign_to now rid) (db_jobs db)"
    "db_runners db' = update_where (idle_runner rid) make_busy (db_runners db)"
    using parts c(3) by simp_all
  show "job \<in> set (returning (claimable jid) (assign_to now rid) (db_jobs db))"
    using parts(1) c(1) fetch_optional_Some by metis
  show "\<exists>r\<in>set (db_runners db). idle_runner rid r" using c(2) by (simp add: returning_Nil)
qed

lemma claim_fails:
  assumes "(\<forall>j\<in>set (db_jobs db). \<not> claimable jid j) \<or> (\<forall>r\<in>set (db_runners db). \<not> idle_runner rid r)"
  shows "claim_for_runner now jid rid db = (None, db)"
proof (cases "\<forall>j\<in>set (db_jobs db). \<not> claimable jid j")
  case True
  then have "fst (upd_job (claimable jid) (assign_to now rid) db) = None" by (simp add: upd_job_None)
  then show ?thesis by (simp add: claim_for_runner_def case_prod_unfold)
next
  case False
  with assms have "\<forall>r\<in>set (db_runners db). \<not> idle_runner rid r" by blast
  then have "returning (idle_runner rid) make_busy (db_runners (snd (upd_job (claimable jid) (assign_to now rid) db))) = []"
    by (simp add: upd_defs returning_Nil)
  then show ?thesis by (simp add: claim_for_runner_def case_prod_unfold split: option.splits)
qed

text \<open>C3: A claim is exclusive and all or nothing.  When a claim succeeds the job it returns is the
  stored one, in progress on that runner; right after it no claim of the same job by any
  runner and no claim of any job by the same runner can succeed, and such a failing claim
  leaves the tables as they are.\<close>

theorem claim_exclusive:
  assumes "claim_for_runner now jid rid db = (Some job, db')"
    and "jid' = jid \<or> rid' = rid"
  shows "claim_for_runner now' jid' rid' db' = (None, db') \<and>
    pj_id job = jid \<and> pj_runner_id job = Some rid \<and> pj_status job = ''in_progress'' \<and> job \<in> set (db_jobs db')"
proof (intro conjI)
  note c = claim_Some [OF assms(1)]
  have "\<forall>j\<in>set (db_jobs db'). \<not> claimable jid j" unfolding c(1)
    by (intro ballI, erule update_where_once [rotated 2]) (simp_all add: claimable_def assign_to_def)
  moreover have "\<forall>r\<in>set (db_runners db'). \<not> idle_runner rid r" unfolding c(2)
    by (intro ballI, erule update_where_once [rotated 2]) (simp_all add: idle_runner_def make_busy_def)
  ultimately show "claim_for_runner now' jid' rid' db' = (None, db')"
    using assms(2) by (intro claim_fails) blast
  show "job \<in> set (db_jobs db')" using c(1,3) returning_in_table by fastforce
  show "pj_id job = jid" "pj_runner_id job = Some rid" "pj_status job = ''in_progress''"
    using c(3) by (auto simp: set_returning claimable_def assign_to_def)
qed


definition demo_runner :: "uuid \<Rightarrow> RunnerRow" where
  "demo_runner i = (runner_row 0 i 1 ''r'' [''linux''] (Some ''h'') None None 1 False None)
     \<lparr>rn_status := ''idle'', rn_version := Some ''1'', rn_last_seen_at := Some 0\<rparr>"

definition demo_claim_db :: Db where
  "demo_claim_db = demo_log_db\<lparr>db_runners := [demo_runner 3, demo_runner 4]\<rparr>"

theorem claim_exclusive_witness:
  "\<exists>job db'. claim_for_runner 5 7 3 demo_claim_db = (Some job, db') \<and>
     claim_for_runner 6 7 4 db' = (None, db') \<and> pj_runner_id job = Some 3"
proof -
  obtain r db' where c: "claim_for_runner 5 7 3 demo_claim_db = (r, db')" by fastforce
  moreover have "fst (claim_for_runner 5 7 3 demo_claim_db) \<noteq> None"
    by (simp add: claim_for_runner_def demo_claim_db_def demo_log_db_def demo_runner_def runner_row_def upd_defs
        returning_def claimable_def job_row_def idle_runner_def)
  ultimately obtain job where "r = Some job" by auto
  with c claim_exclusive [of 5 7 3 demo_claim_db job db' 7 4 6] show ?thesis by auto
qed

end
