(* ===== verification/PipelinesDb.thy ===== *)
theory PipelinesDb
  imports JobMachine
begin

text \<open>
  The statements of \<open>db/pipelines.rs\<close> and \<open>db/pipeline_events.rs\<close>: creation with its
  idempotency guard and numbering, the two guarded transitions of a pipeline, the ledger.
\<close>

section \<open>The ledger\<close>

definition append ::
  "time \<Rightarrow> uuid \<Rightarrow> uuid option \<Rightarrow> rstr \<Rightarrow> rstr option \<Rightarrow> rstr option \<Rightarrow> uuid option \<Rightarrow> uuid option \<Rightarrow> json \<Rightarrow>
     Db \<Rightarrow> PipelineEvent \<times> Db"
where
  "append now pid jid event_type from_state to_state rid actor payload db =
     (let e = \<lparr>pe_id = next_event_id db, pe_pipeline_id = pid, pe_job_id = jid, pe_event_type = event_type,
                pe_from_state = from_state, pe_to_state = to_state, pe_runner_id = rid,
                pe_actor_user_id = actor, pe_payload = payload, pe_created_at = now\<rparr>
      in (e, db\<lparr>db_events := db_events db @ [e]\<rparr>))"

definition list_events_for_pipeline :: "Db \<Rightarrow> uuid \<Rightarrow> PipelineEvent list" where
  "list_events_for_pipeline db pid =
     take 1000 (sort_key pe_id (filter (\<lambda>e. pe_pipeline_id e = pid) (db_events db)))"

definition list_events_for_job :: "Db \<Rightarrow> uuid \<Rightarrow> uuid \<Rightarrow> PipelineEvent list" where
  "list_events_for_job db pid jid =
     take 500 (sort_key pe_id (filter (\<lambda>e. pe_pipeline_id e = pid \<and> pe_job_id e = Some jid) (db_events db)))"

section \<open>Creation\<close>

text \<open>A job of a plan, as \<open>pipeline_plan.rs\<close> hands it over.\<close>

record PlannedJob =
  pn_key :: rstr
  pn_name :: "rstr option"
  pn_runs_on :: "rstr list"
  pn_needs :: "rstr list"
  pn_plan :: json
  pn_position :: int

record NewPipeline =
  np_workspace_id :: uuid
  np_repository_id :: uuid
  np_workflow_id :: uuid
  np_workflow_name :: rstr
  np_workflow_path :: rstr
  np_trigger :: rstr
  np_triggered_by :: "uuid option"
  np_commit_sha :: rstr
  np_commit_message :: "rstr option"
  np_commit_author :: "rstr option"
  np_actor_login :: "rstr option"
  np_actor_avatar_url :: "rstr option"
  np_git_ref :: rstr
  np_trigger_inputs :: "json option"
  np_pr_number :: "int option"
  np_timeout_seconds :: int
  np_job_timeout_seconds :: int
  np_request_id :: "rstr option"
  np_webhook_delivery_id :: "rstr option"

text \<open>The per-repository counter: what the upsert stores and what it returns.\<close>

definition claim_number :: "uuid \<Rightarrow> Db \<Rightarrow> int \<times> Db" where
  "claim_number repo db =
     (case map_of (db_counters db) repo of
        None \<Rightarrow> (1, db\<lparr>db_counters := (repo, 2) # db_counters db\<rparr>)
      | Some n \<Rightarrow> (n, db\<lparr>db_counters := map (\<lambda>(r, k). (r, if r = repo then n + 1 else k)) (db_counters db)\<rparr>))"

definition same_delivery :: "rstr \<Rightarrow> uuid \<Rightarrow> PipelineRow \<Rightarrow> bool" where
  "same_delivery delivery workflow p \<longleftrightarrow>
     pl_webhook_delivery_id p = Some delivery \<and> pl_workflow_id p = Some workflow"

definition find_by_delivery :: "Db \<Rightarrow> rstr \<Rightarrow> uuid \<Rightarrow> Pipeline option" where
  "find_by_delivery db delivery workflow =
     map_option pl_selected (fetch_optional (filter (same_delivery delivery workflow) (db_pipelines db)))"

definition find_existing :: "Db \<Rightarrow> NewPipeline \<Rightarrow> Pipeline option" where
  "find_existing db new =
     (case np_webhook_delivery_id new of
        None \<Rightarrow> None
      | Some d \<Rightarrow> find_by_delivery db d (np_workflow_id new))"

definition pipeline_row :: "time \<Rightarrow> uuid \<Rightarrow> int \<Rightarrow> NewPipeline \<Rightarrow> PipelineRow" where
  "pipeline_row now new_id number new =
    \<lparr>pl_id = new_id, pl_workspace_id = np_workspace_id new, pl_repository_id = np_repository_id new,
     pl_workflow_id = Some (np_workflow_id new), pl_workflow_name = np_workflow_name new,
     pl_workflow_path = np_workflow_path new, pl_number = number, pl_trigger = np_trigger new,
     pl_triggered_by = np_triggered_by new, pl_commit_sha = np_commit_sha new,
     pl_commit_message = np_commit_message new, pl_commit_author = np_commit_author new,
     pl_actor_login = np_actor_login new, pl_actor_avatar_url = np_actor_avatar_url new,
     pl_git_ref = np_git_ref new, pl_trigger_inputs = np_trigger_inputs new, pl_pr_number = np_pr_number new,
     pl_check_run_id = None, pl_status = ''queued'', pl_conclusion = None,
     pl_timeout_seconds = np_timeout_seconds new, pl_created_at = now, pl_started_at = None,
     pl_finished_at = None, pl_webhook_delivery_id = np_webhook_delivery_id new\<rparr>"

definition planned_row :: "time \<Rightarrow> uuid \<Rightarrow> NewPipeline \<Rightarrow> uuid \<times> PlannedJob \<Rightarrow> PipelineJob" where
  "planned_row now pid new ij = (case ij of (new_id, j) \<Rightarrow>
     job_row now new_id pid (pn_key j) (pn_name j) (pn_runs_on j) (pn_needs j) (pn_plan j)
       (np_job_timeout_seconds new) (pn_position j))"

text \<open>
  The part of the transaction behind the guard.  \<open>new_id\<close> and \<open>ids\<close> are what
  \<open>gen_random_uuid\<close> draws for the pipeline and its jobs.  A delivery that another transaction
  has recorded meanwhile violates the unique index: everything is rolled back and the
  winner's row is returned.  Two jobs of one key violate \<open>pipeline_jobs_pipeline_key_key\<close>.
\<close>

definition create_insert ::
  "time \<Rightarrow> uuid \<Rightarrow> uuid list \<Rightarrow> NewPipeline \<Rightarrow> PlannedJob list \<Rightarrow> Db \<Rightarrow>
     (AppError + Pipeline \<times> PipelineJob list \<times> bool) \<times> Db"
where
  "create_insert now new_id ids new jobs db =
     (case find_existing db new of
        Some existing \<Rightarrow> (Inr (existing, [], False), db)
      | None \<Rightarrow>
          if \<not> distinct (map pn_key jobs) then (Inl (UniqueViolation ''pipeline_jobs_pipeline_key_key''), db)
          else
            let (number, db1) = claim_number (np_repository_id new) db;
                p = pipeline_row now new_id number new;
                rows = map (planned_row now new_id new) (zip ids jobs);
                db2 = db1\<lparr>db_pipelines := db_pipelines db1 @ [p], db_jobs := db_jobs db1 @ rows\<rparr>;
                (e, db3) = append now new_id None ''pipeline.created'' None (Some ''queued'') None
                   (np_triggered_by new)
                   (jobj [(''trigger'', JStr (np_trigger new)), (''commitSha'', JStr (np_commit_sha new)),
                      (''jobs'', JNum (dec (length jobs)))]) db2;
                db4 = add_audit \<lparr>au_workspace_id = np_workspace_id new, au_actor = np_triggered_by new,
                   au_action = ''pipeline.created'', au_subject_type = ''pipeline'', au_subject_id = new_id,
                   au_metadata = jobj [(''workflow'', JStr (np_workflow_path new)),
                      (''trigger'', JStr (np_trigger new)), (''number'', JNum (dec_int number))],
                   au_request_id = np_request_id new\<rparr> db3
            in (Inr (pl_selected p, rows, True), db4))"

definition create_pipeline_row ::
  "time \<Rightarrow> uuid \<Rightarrow> uuid list \<Rightarrow> NewPipeline \<Rightarrow> PlannedJob list \<Rightarrow> Db \<Rightarrow>
     (AppError + Pipeline \<times> PipelineJob list \<times> bool) \<times> Db"
where
  "create_pipeline_row now new_id ids new jobs db =
     (case find_existing db new of
        Some existing \<Rightarrow> (Inr (existing, [], False), db)
      | None \<Rightarrow> create_insert now new_id ids new jobs db)"

section \<open>Transitions\<close>

definition upd_pipeline :: "(PipelineRow \<Rightarrow> bool) \<Rightarrow> (PipelineRow \<Rightarrow> PipelineRow) \<Rightarrow> Db \<Rightarrow> Pipeline option \<times> Db" where
  "upd_pipeline P f db =
     (map_option pl_selected (fetch_optional (returning P f (db_pipelines db))),
      db\<lparr>db_pipelines := update_where P f (db_pipelines db)\<rparr>)"

definition find_pipeline :: "Db \<Rightarrow> uuid \<Rightarrow> Pipeline option" where
  "find_pipeline db pid = map_option pl_selected (fetch_optional (filter (\<lambda>p. pl_id p = pid) (db_pipelines db)))"

definition find_pipeline_for_workspace :: "Db \<Rightarrow> uuid \<Rightarrow> uuid \<Rightarrow> Pipeline option" where
  "find_pipeline_for_workspace db ws pid = map_option pl_selected
     (fetch_optional (filter (\<lambda>p. pl_workspace_id p = ws \<and> pl_id p = pid) (db_pipelines db)))"

definition mark_in_progress :: "time \<Rightarrow> uuid \<Rightarrow> Db \<Rightarrow> Pipeline option \<times> Db" where
  "mark_in_progress now pid = upd_pipeline (\<lambda>p. pl_id p = pid \<and> pl_status p = ''queued'')
     (\<lambda>p. p\<lparr>pl_status := ''in_progress'', pl_started_at := coalesce (pl_started_at p) now\<rparr>)"

definition open_pipeline :: "uuid \<Rightarrow> PipelineRow \<Rightarrow> bool" where
  "open_pipeline pid p \<longleftrightarrow> pl_id p = pid \<and> pl_status p \<noteq> ''completed''"

definition complete_with :: "time \<Rightarrow> rstr \<Rightarrow> PipelineRow \<Rightarrow> PipelineRow" where
  "complete_with now conclusion p = p\<lparr>pl_status := ''completed'', pl_conclusion := Some conclusion,
     pl_started_at := coalesce (pl_started_at p) now, pl_finished_at := Some now\<rparr>"

definition finalize :: "time \<Rightarrow> uuid \<Rightarrow> rstr \<Rightarrow> Db \<Rightarrow> Pipeline option \<times> Db" where
  "finalize now pid conclusion = upd_pipeline (open_pipeline pid) (complete_with now conclusion)"

definition set_check_run_id :: "uuid \<Rightarrow> int \<Rightarrow> Db \<Rightarrow> Db" where
  "set_check_run_id pid crid db = snd (upd_pipeline
     (\<lambda>p. pl_id p = pid \<and> pl_check_run_id p = None) (\<lambda>p. p\<lparr>pl_check_run_id := Some crid\<rparr>) db)"

definition find_timed_out_pipelines :: "time \<Rightarrow> Db \<Rightarrow> Pipeline list" where
  "find_timed_out_pipelines now db = map pl_selected (filter
     (\<lambda>p. pl_status p \<noteq> ''completed'' \<and> pl_created_at p + secs (pl_timeout_seconds p) < now) (db_pipelines db))"


section \<open>What creation guarantees\<close>

definition numbers_ok :: "Db \<Rightarrow> bool" where
  "numbers_ok db \<longleftrightarrow> distinct (map (\<lambda>p. (pl_repository_id p, pl_number p)) (db_pipelines db)) \<and>
     list_all (\<lambda>p. case map_of (db_counters db) (pl_repository_id p) of
        None \<Rightarrow> False | Some n \<Rightarrow> 1 \<le> pl_number p \<and> pl_number p < n) (db_pipelines db) \<and>
     list_all (\<lambda>c. 1 \<le> snd c) (db_counters db)"

lemma map_of_bump:
  "map_of (map (\<lambda>(r, k). (r, if r = repo then m else k)) cs) =
     (case map_of cs repo of None \<Rightarrow> map_of cs | Some _ \<Rightarrow> (map_of cs)(repo \<mapsto> m))"
  by (induction cs) (auto simp: fun_eq_iff split: option.splits)

lemma claim_number_facts:
  assumes "claim_number repo db = (n, db1)"
  shows "db_pipelines db1 = db_pipelines db" "db_jobs db1 = db_jobs db" "db_runners db1 = db_runners db"
    "db_events db1 = db_events db"
    "map_of (db_counters db1) = (map_of (db_counters db))(repo \<mapsto> n + 1)"
    "n = (case map_of (db_counters db) repo of None \<Rightarrow> 1 | Some k \<Rightarrow> k)"
    "list_all (\<lambda>c. 1 \<le> snd c) (db_counters db) \<Longrightarrow> list_all (\<lambda>c. 1 \<le> snd c) (db_counters db1) \<and> 1 \<le> n"
proof -
  show "db_pipelines db1 = db_pipelines db" "db_jobs db1 = db_jobs db" "db_runners db1 = db_runners db"
    "db_events db1 = db_events db"
    "map_of (db_counters db1) = (map_of (db_counters db))(repo \<mapsto> n + 1)"
    "n = (case map_of (db_counters db) repo of None \<Rightarrow> 1 | Some k \<Rightarrow> k)"
    using assms by (auto simp: claim_number_def map_of_bump split: option.splits)
  show "list_all (\<lambda>c. 1 \<le> snd c) (db_counters db1) \<and> 1 \<le> n" if "list_all (\<lambda>c. 1 \<le> snd c) (db_counters db)"
  proof (cases "map_of (db_counters db) repo")
    case None
    with assms that show ?thesis by (auto simp: claim_number_def)
  next
    case (Some k)
    then have "1 \<le> k" using that map_of_SomeD [OF Some] by (force simp: list_all_iff)
    with Some assms that show ?thesis by (fastforce simp: claim_number_def list_all_iff)
  qed
qed

text \<open>What a successful insertion adds, and that it adds nothing else.\<close>

lemma create_insert_new:
  assumes "create_insert now new_id ids new jobs db = (Inr (p, rows, True), db')"
  obtains number db1 where "claim_number (np_repository_id new) db = (number, db1)"
    "find_existing db new = None" "distinct (map pn_key jobs)"
    "p = pl_selected (pipeline_row now new_id number new)"
    "rows = map (planned_row now new_id new) (zip ids jobs)"
    "db_pipelines db' = db_pipelines db @ [pipeline_row now new_id number new]"
    "db_jobs db' = db_jobs db @ rows" "db_counters db' = db_counters db1" "db_runners db' = db_runners db"
proof -
  obtain number db1 where c: "claim_number (np_repository_id new) db = (number, db1)" by fastforce
  from assms c claim_number_facts(1-3) [OF c] show thesis
    by (intro that [OF c])
      (auto simp: create_insert_def append_def add_audit_def Let_def split: option.splits if_splits)
qed

lemma create_insert_cases:
  "(\<exists>p rows. create_insert now new_id ids new jobs db = (Inr (p, rows, True), snd (create_insert now new_id ids new jobs db)))
   \<or> snd (create_insert now new_id ids new jobs db) = db"
  by (auto simp: create_insert_def append_def Let_def case_prod_unfold split: option.splits)

lemma create_pipeline_row_insert:
  "create_pipeline_row now new_id ids new jobs db = create_insert now new_id ids new jobs db"
  by (simp add: create_pipeline_row_def create_insert_def split: option.splits)

text \<open>C30: Run numbers are handed out once.  Every creation, whether it succeeds, finds an earlier
  pipeline of its delivery or fails, keeps the run numbers of each repository distinct and
  below its counter; a new pipeline gets the counter's value, and a creation that does not
  insert leaves every table, the counters included, as it was.\<close>

theorem run_numbers_unique:
  assumes "numbers_ok db" "create_pipeline_row now new_id ids new jobs db = (r, db')"
  shows "numbers_ok db' \<and>
    (case r of
       Inr (p, rows, True) \<Rightarrow>
         pl_number p = (case map_of (db_counters db) (np_repository_id new) of None \<Rightarrow> 1 | Some n \<Rightarrow> n) \<and>
         map pj_job_key rows = map (pn_key \<circ> snd) (zip ids jobs)
     | _ \<Rightarrow> db' = db)"
proof (cases "\<exists>p rows. r = Inr (p, rows, True)")
  case True
  then obtain p rows where r: "r = Inr (p, rows, True)" by blast
  from assms(2) r have "create_insert now new_id ids new jobs db = (Inr (p, rows, True), db')"
    by (simp add: create_pipeline_row_insert)
  then obtain number db1 where c: "claim_number (np_repository_id new) db = (number, db1)"
    and p: "p = pl_selected (pipeline_row now new_id number new)"
    and rows: "rows = map (planned_row now new_id new) (zip ids jobs)"
    and db': "db_pipelines db' = db_pipelines db @ [pipeline_row now new_id number new]"
      "db_counters db' = db_counters db1"
    by (rule create_insert_new)
  note f = claim_number_facts [OF c]
  have row: "pl_repository_id (pipeline_row now new_id number new) = np_repository_id new"
    "pl_number (pipeline_row now new_id number new) = number" by (simp_all add: pipeline_row_def)
  have below: "pl_number q < number" if "q \<in> set (db_pipelines db)" "pl_repository_id q = np_repository_id new" for q
    using assms(1) that f(6) by (auto simp: numbers_ok_def list_all_iff split: option.splits)
  have "1 \<le> number" and cs: "list_all (\<lambda>c. 1 \<le> snd c) (db_counters db1)"
    using assms(1) f(7) by (auto simp: numbers_ok_def)
  have "numbers_ok db'"
    unfolding numbers_ok_def db' list_all_iff
  proof (intro conjI ballI)
    show "distinct (map (\<lambda>p. (pl_repository_id p, pl_number p)) (db_pipelines db @ [pipeline_row now new_id number new]))"
      using assms(1) below row by (force simp: numbers_ok_def)
  next
    fix q assume q: "q \<in> set (db_pipelines db @ [pipeline_row now new_id number new])"
    show "case map_of (db_counters db1) (pl_repository_id q) of None \<Rightarrow> False
        | Some n \<Rightarrow> 1 \<le> pl_number q \<and> pl_number q < n"
    proof (cases "q \<in> set (db_pipelines db)")
      case True
      with assms(1) below [OF True] show ?thesis
        by (fastforce simp: numbers_ok_def list_all_iff f(5) split: option.splits)
    next
      case False
      with q row \<open>1 \<le> number\<close> show ?thesis by (simp add: f(5))
    qed
  next
    fix c assume "c \<in> set (db_counters db1)"
    with cs show "1 \<le> snd c" by (simp add: list_all_iff)
  qed
  moreover have "pl_number p = number" by (simp add: p pl_selected_def pipeline_row_def Pipeline.truncate_def)
  moreover have "map pj_job_key rows = map (pn_key \<circ> snd) (zip ids jobs)"
    by (simp add: rows planned_row_def job_row_def case_prod_unfold)
  ultimately show ?thesis using r f(6) by simp
next
  case False
  then have "db' = db"
    using assms(2) create_insert_cases [of now new_id ids new jobs db]
    by (auto simp: create_pipeline_row_insert)
  with assms(1) False show ?thesis by (auto split: sum.splits bool.splits)
qed


definition demo_new :: NewPipeline where
  "demo_new = \<lparr>np_workspace_id = 1, np_repository_id = 2, np_workflow_id = 3, np_workflow_name = ''CI'',
     np_workflow_path = ''ci.yml'', np_trigger = ''push'', np_triggered_by = None, np_commit_sha = ''abc'',
     np_commit_message = None, np_commit_author = None, np_actor_login = None, np_actor_avatar_url = None,
     np_git_ref = ''refs/heads/main'', np_trigger_inputs = None, np_pr_number = None,
     np_timeout_seconds = 3600, np_job_timeout_seconds = 600, np_request_id = None,
     np_webhook_delivery_id = Some ''d-1''\<rparr>"

definition demo_plans :: "PlannedJob list" where
  "demo_plans = [\<lparr>pn_key = ''build'', pn_name = None, pn_runs_on = [], pn_needs = [], pn_plan = JObj [], pn_position = 0\<rparr>,
     \<lparr>pn_key = ''test'', pn_name = None, pn_runs_on = [], pn_needs = [''build''], pn_plan = JObj [], pn_position = 1\<rparr>]"

theorem run_numbers_unique_witness:
  "numbers_ok (snd (create_pipeline_row 5 10 [11, 12] demo_new demo_plans empty_db))"
proof -
  have "numbers_ok empty_db" by (simp add: numbers_ok_def empty_db_def)
  from run_numbers_unique [OF this prod.collapse [symmetric]] show ?thesis by blast
qed

definition delivery_keys :: "Db \<Rightarrow> (rstr \<times> uuid option) list" where
  "delivery_keys db = filter_map (\<lambda>p. map_option (\<lambda>d. (d, pl_workflow_id p)) (pl_webhook_delivery_id p)) (db_pipelines db)"

lemma filter_map_append: "filter_map f (xs @ ys) = filter_map f xs @ filter_map f ys"
  by (induction xs) (auto split: option.splits)

text \<open>A redelivered webhook creates nothing twice.  Once a pipeline has been created for a
  delivery and a workflow, every later creation for the same delivery and workflow, with any
  plans and ids, returns a pipeline of that delivery, reports it as not new and leaves the
  tables as they are; and no two pipelines ever share a delivery and a workflow.\<close>

theorem delivery_creates_once:
  assumes "distinct (delivery_keys db)" "np_webhook_delivery_id new = Some d"
    and "create_pipeline_row now i ids new jobs db = (Inr (p, rows, b), db1)"
    and "np_webhook_delivery_id new' = Some d" "np_workflow_id new' = np_workflow_id new"
  shows "distinct (delivery_keys db1) \<and>
    (\<exists>q. create_pipeline_row now' i' ids' new' jobs' db1 = (Inr (q, [], False), db1) \<and>
       pl_workflow_id q = Some (np_workflow_id new))"
proof -
  have found: "\<exists>q. find_existing db1 new' = Some q \<and> pl_workflow_id q = Some (np_workflow_id new)"
    if "\<exists>q\<in>set (db_pipelines db1). same_delivery d (np_workflow_id new) q"
  proof -
    from that have ne: "filter (same_delivery d (np_workflow_id new)) (db_pipelines db1) \<noteq> []"
      by (auto simp: filter_empty_conv)
    then obtain q where q: "fetch_optional (filter (same_delivery d (np_workflow_id new)) (db_pipelines db1)) = Some q"
      by (cases "filter (same_delivery d (np_workflow_id new)) (db_pipelines db1)") auto
    then have "same_delivery d (np_workflow_id new) q" by (auto dest: fetch_optional_Some)
    with q assms(4,5) show ?thesis
      by (simp add: find_existing_def find_by_delivery_def same_delivery_def pl_selected_def Pipeline.truncate_def)
  qed
  have main: "distinct (delivery_keys db1) \<and> (\<exists>q\<in>set (db_pipelines db1). same_delivery d (np_workflow_id new) q)"
  proof (cases b)
    case True
    with assms(3) have "create_insert now i ids new jobs db = (Inr (p, rows, True), db1)"
      by (simp add: create_pipeline_row_insert)
    then obtain number where ne: "find_existing db new = None"
      and db1: "db_pipelines db1 = db_pipelines db @ [pipeline_row now i number new]"
      by (rule create_insert_new)
    have row: "same_delivery d (np_workflow_id new) (pipeline_row now i number new)"
      using assms(2) by (simp add: same_delivery_def pipeline_row_def)
    have "\<forall>q\<in>set (db_pipelines db). \<not> same_delivery d (np_workflow_id new) q"
      using ne assms(2) by (auto simp: find_existing_def find_by_delivery_def filter_empty_conv)
    then have "(d, Some (np_workflow_id new)) \<notin> set (delivery_keys db)"
      by (auto simp: delivery_keys_def set_filter_map same_delivery_def)
    with assms(1) row db1 show ?thesis
      by (auto simp: delivery_keys_def filter_map_append same_delivery_def)
  next
    case False
    have ex: "find_existing db new = Some p" and "db1 = db"
      using assms(3) False
      by (auto simp: create_pipeline_row_insert create_insert_def append_def Let_def case_prod_unfold
          split: option.splits if_splits)
    then obtain q where "q \<in> set (db_pipelines db)" "same_delivery d (np_workflow_id new) q"
      using assms(2) by (auto simp: find_existing_def find_by_delivery_def dest!: fetch_optional_Some)
    with assms(1) \<open>db1 = db\<close> show ?thesis by blast
  qed
  with found show ?thesis by (auto simp: create_pipeline_row_def)
qed

theorem delivery_creates_once_witness:
  "\<exists>p rows db1 q. create_pipeline_row 5 10 [11, 12] demo_new demo_plans empty_db = (Inr (p, rows, True), db1) \<and>
     create_pipeline_row 9 20 [21] demo_new [] db1 = (Inr (q, [], False), db1)"
proof -
  have "\<exists>p rows db1. create_pipeline_row 5 10 [11, 12] demo_new demo_plans empty_db = (Inr (p, rows, True), db1)"
    by (simp add: create_pipeline_row_insert create_insert_def append_def Let_def case_prod_unfold
        find_existing_def find_by_delivery_def empty_db_def demo_new_def demo_plans_def)
  then obtain p rows db1 where c: "create_pipeline_row 5 10 [11, 12] demo_new demo_plans empty_db = (Inr (p, rows, True), db1)"
    by blast
  have "distinct (delivery_keys empty_db)" by (simp add: delivery_keys_def empty_db_def)
  from delivery_creates_once [OF this _ c, of "''d-1''" demo_new 9 20 "[21]" "[]"] c show ?thesis
    by (auto simp: demo_new_def)
qed

end
