(* ===== verification/PipelinePlan.thy ===== *)
theory PipelinePlan
  imports WorkflowParse PipelinesDb
begin

text \<open>
  Executable plans, \<open>services/pipeline_plan.rs\<close> with the image catalog of
  \<open>services/toolchain_images.rs\<close>: what a stored workflow becomes per job.
\<close>

section \<open>The image catalog\<close>

record Toolchain =
  tc_key :: rstr
  tc_label :: rstr
  tc_language :: rstr
  tc_description :: rstr
  tc_tools :: "rstr list"
  tc_image_latest :: rstr
  tc_image_2204 :: rstr
  tc_image_2404 :: rstr
  tc_large :: bool

text \<open>The three images of a family differ in the version at the end.\<close>

definition toolchain :: "rstr \<Rightarrow> rstr \<Rightarrow> rstr \<Rightarrow> rstr \<Rightarrow> rstr list \<Rightarrow> rstr \<Rightarrow> bool \<Rightarrow> Toolchain" where
  "toolchain key label language description tools family large =
     \<lparr>tc_key = key, tc_label = label, tc_language = language, tc_description = description, tc_tools = tools,
      tc_image_latest = ''catthehacker/ubuntu:'' @ family @ ''-latest'',
      tc_image_2204 = ''catthehacker/ubuntu:'' @ family @ ''-22.04'',
      tc_image_2404 = ''catthehacker/ubuntu:'' @ family @ ''-24.04'', tc_large = large\<rparr>"

definition CATALOG :: "Toolchain list" where
  "CATALOG =
    [toolchain ''act'' ''Base (act)'' ''General''
       ''GitHub Actions-compatible base image and the default for `runs-on: ubuntu-*`. Ships Node, Python, git, and build-essential.''
       [''node'', ''python3'', ''git'', ''build-essential'', ''curl''] ''act'' False,
     toolchain ''rust'' ''Rust'' ''Rust'' ''Rust toolchain with cargo, rustfmt, clippy, and cbindgen pre-installed.''
       [''rustc'', ''cargo'', ''rustfmt'', ''clippy'', ''cbindgen''] ''rust'' False,
     toolchain ''js'' ''JavaScript / Node.js'' ''JavaScript'' ''Heavy JS tooling: Node 20/24 via nvm, plus yarn, pnpm, and grunt.''
       [''node'', ''npm'', ''yarn'', ''pnpm'', ''nvm'', ''grunt''] ''js'' False,
     toolchain ''go'' ''Go'' ''Go'' ''Go toolchain with the standard build tools pre-installed.'' [''go'', ''gofmt''] ''go'' False,
     toolchain ''dotnet'' ''.NET'' ''.NET'' ''.NET SDK and runtime tooling pre-installed.'' [''dotnet''] ''dotnet'' False,
     toolchain ''java'' ''Java'' ''Java'' ''JDK with the common Java build tools (Maven, Gradle) pre-installed.''
       [''java'', ''maven'', ''gradle''] ''java-tools'' False,
     toolchain ''pwsh'' ''PowerShell'' ''PowerShell'' ''PowerShell (pwsh) with common modules pre-installed.'' [''pwsh''] ''pwsh'' False,
     toolchain ''gh'' ''GitHub CLI'' ''GitHub CLI'' ''The GitHub CLI (`gh`) and git on top of the base image.'' [''gh'', ''git''] ''gh'' False,
     toolchain ''full'' ''Full runner'' ''All''
       (''A complete dump of the GitHub-hosted runner filesystem '' @ of_chars [0x2014] @
        '' every toolchain, but very large (~60 GB extracted). Prefer a language-specific image where possible.'')
       [''(full GitHub-hosted runner toolset)''] ''full'' True]"

text \<open>The alias's key and the version of its suffix, if it has one.\<close>

definition alias_parts :: "rstr \<Rightarrow> rstr \<times> rstr option" where
  "alias_parts v =
     (case strip_suffix ''-latest'' v of
        Some k \<Rightarrow> (k, Some ''latest'')
      | None \<Rightarrow>
          (case strip_suffix ''-24.04'' v of
             Some k \<Rightarrow> (k, Some ''24.04'')
           | None \<Rightarrow> (case strip_suffix ''-22.04'' v of Some k \<Rightarrow> (k, Some ''22.04'') | None \<Rightarrow> (v, None))))"

definition resolve_alias :: "rstr \<Rightarrow> rstr option \<Rightarrow> rstr option" where
  "resolve_alias value os_version =
     (let v = to_ascii_lowercase (trim value) in
      if v = [] \<or> list_ex (\<lambda>c. c \<in> {CHR ''/'', CHR '':'', CHR ''@''}) v then None
      else
        let (key, explicit_ver) = alias_parts v in
        case first_with (\<lambda>t. tc_key t = key) CATALOG of
          None \<Rightarrow> None
        | Some t \<Rightarrow>
            let version = (case explicit_ver of Some x \<Rightarrow> x | None \<Rightarrow> (case os_version of Some x \<Rightarrow> x | None \<Rightarrow> ''latest''))
            in Some (if version = ''24.04'' then tc_image_2404 t
                     else if version = ''22.04'' then tc_image_2204 t else tc_image_latest t))"

definition is_catalog_image :: "rstr \<Rightarrow> bool" where
  "is_catalog_image img =
     list_ex (\<lambda>t. img = tc_image_latest t \<or> img = tc_image_2204 t \<or> img = tc_image_2404 t) CATALOG"

section \<open>Choosing the image\<close>

datatype PlanError = Invalid | NoRunnableJobs

definition MAX_STEP_RUN_BYTES :: nat where "MAX_STEP_RUN_BYTES = 32 * 1024"
definition MAX_ENV_VALUE_BYTES :: nat where "MAX_ENV_VALUE_BYTES = 8 * 1024"

definition label_of :: "rstr \<Rightarrow> rstr" where
  "label_of l = to_ascii_lowercase (trim l)"

text \<open>The first label a table knows.\<close>

fun first_known :: "(rstr \<times> rstr) list \<Rightarrow> rstr list \<Rightarrow> rstr option" where
  "first_known table [] = None"
| "first_known table (l # ls) =
     (case map_of table (label_of l) of Some x \<Rightarrow> Some x | None \<Rightarrow> first_known table ls)"

definition image_for_runs_on :: "rstr list \<Rightarrow> rstr option" where
  "image_for_runs_on = first_known
     [(''ubuntu-latest'', ''catthehacker/ubuntu:act-latest''), (''ubuntu-24.04'', ''catthehacker/ubuntu:act-24.04''),
      (''ubuntu-22.04'', ''catthehacker/ubuntu:act-22.04''), (''ubuntu-20.04'', ''catthehacker/ubuntu:act-20.04'')]"

definition runs_on_os :: "rstr list \<Rightarrow> rstr option" where
  "runs_on_os = first_known [(''ubuntu-24.04'', ''24.04''), (''ubuntu-22.04'', ''22.04'')]"

definition image_glob_match :: "rstr \<Rightarrow> rstr \<Rightarrow> bool" where
  "image_glob_match pattern img =
     (case strip_suffix ''*'' pattern of Some p \<Rightarrow> starts_with img p | None \<Rightarrow> pattern = img)"

definition image_allowed :: "rstr \<Rightarrow> rstr list \<Rightarrow> bool" where
  "image_allowed img allowlist =
     (if allowlist = [] \<or> is_catalog_image img then True
      else list_ex (\<lambda>entry. image_glob_match entry img) allowlist)"

definition reference_char :: "uchar \<Rightarrow> bool" where
  "reference_char c \<longleftrightarrow> is_ascii_alphanumeric c \<or> c \<in> set (map ch ''._-/:@'')"

definition is_valid_image_reference :: "rstr \<Rightarrow> bool" where
  "is_valid_image_reference value \<longleftrightarrow>
     value \<noteq> [] \<and> length value \<le> 256 \<and> (case chars value of [] \<Rightarrow> False | c # _ \<Rightarrow> is_ascii_alphanumeric c) \<and>
     list_all reference_char (chars value)"

definition sanitize_for_notice :: "rstr \<Rightarrow> rstr" where
  "sanitize_for_notice value = strip_control_take 100 value"

text \<open>\<open>value.get(key)\<close> looks through tags.\<close>

definition v_get :: "yaml \<Rightarrow> rstr \<Rightarrow> yaml option" where
  "v_get v k = Option.bind (y_map v) (\<lambda>m. yget m k)"

definition container_image :: "yaml \<Rightarrow> rstr option" where
  "container_image job_node =
     Option.bind (v_get job_node ''container'') (\<lambda>container.
       case container of
         YStr img \<Rightarrow> Some img
       | YMap _ \<Rightarrow> Option.bind (v_get container ''image'') y_str
       | _ \<Rightarrow> None)"

definition fallback_image :: "rstr \<Rightarrow> rstr list \<Rightarrow> rstr" where
  "fallback_image default_image runs_on =
     (case image_for_runs_on runs_on of Some i \<Rightarrow> i | None \<Rightarrow> default_image)"

text \<open>The image of a job and the notices of choosing it.\<close>

definition choose_image :: "rstr \<Rightarrow> rstr list \<Rightarrow> rstr list \<Rightarrow> yaml \<Rightarrow> rstr \<times> rstr list" where
  "choose_image default_image allowlist runs_on job_node =
     (case container_image job_node of
        None \<Rightarrow> (fallback_image default_image runs_on, [])
      | Some reference \<Rightarrow>
          (case resolve_alias reference (runs_on_os runs_on) of
             Some resolved \<Rightarrow> (resolved, [''toolchain `'' @ sanitize_for_notice reference @ ''` resolved to image `'' @ resolved @ ''`''])
           | None \<Rightarrow>
               if is_valid_image_reference reference then
                 if image_allowed reference allowlist then (reference, [])
                 else (fallback_image default_image runs_on,
                   [''container image `'' @ sanitize_for_notice reference @
                    ''` is not in the allowed image list; using the image for `runs-on` instead''])
               else (fallback_image default_image runs_on,
                 [''container image `'' @ sanitize_for_notice reference @
                  ''` is not a valid image reference; using the image for `runs-on` instead''])))"

section \<open>Environment and working directories\<close>

fun env_scalar :: "yaml \<Rightarrow> rstr option" where
  "env_scalar (YStr s) = Some s"
| "env_scalar (YBool b) = Some (show_bool b)"
| "env_scalar (YNum n j) = Some n"
| "env_scalar _ = None"

definition env_entry :: "yaml \<times> yaml \<Rightarrow> (rstr \<times> rstr) option" where
  "env_entry kv = Option.bind (y_str (fst kv)) (\<lambda>k.
     map_option (\<lambda>v. (k, truncate_utf8 v MAX_ENV_VALUE_BYTES)) (env_scalar (snd kv)))"

definition env_map :: "yaml option \<Rightarrow> (rstr \<times> rstr) list" where
  "env_map node = (case Option.bind node y_map of None \<Rightarrow> [] | Some m \<Rightarrow> bt_extend [] (filter_map env_entry m))"

definition defaults_working_directory :: "yaml \<Rightarrow> rstr option" where
  "defaults_working_directory node =
     Option.bind (Option.bind (Option.bind (v_get node ''defaults'') (\<lambda>d. v_get d ''run'')) (\<lambda>r. v_get r ''working-directory'')) y_str"

definition plan_working_directory :: "rstr \<Rightarrow> rstr + rstr" where
  "plan_working_directory raw =
     (if contains raw ''${{'' then
        if length raw \<le> MAX_RELATIVE_PATH_BYTES \<and> \<not> list_ex is_control (chars raw) then Inr raw
        else Inl (sanitize_for_notice raw)
      else case normalize_relative_path raw of
        Some n \<Rightarrow> Inr n
      | None \<Rightarrow> Inl (sanitize_for_notice raw))"

definition push_workdir_notice :: "rstr \<Rightarrow> rstr list \<Rightarrow> rstr list" where
  "push_workdir_notice bad notices =
     (let notice = ''working-directory `'' @ bad @
        ''` is not a supported workspace-relative path; the affected steps run at the workspace root''
      in if notice \<in> set notices then notices else notices @ [notice])"

text \<open>The value to persist, and the notices with one more where it is rejected.\<close>

definition planned_workdir :: "rstr \<Rightarrow> rstr list \<Rightarrow> rstr option \<times> rstr list" where
  "planned_workdir raw notices =
     (case plan_working_directory raw of
        Inr value \<Rightarrow> (Some value, notices)
      | Inl bad \<Rightarrow> (None, push_workdir_notice bad notices))"

section \<open>Steps\<close>

definition action_of :: "rstr \<Rightarrow> rstr" where
  "action_of uses = hd (split_on (CHR ''@'') uses)"

definition is_checkout_action :: "rstr \<Rightarrow> bool" where
  "is_checkout_action uses \<longleftrightarrow> action_of uses = ''actions/checkout''"

definition setup_action_hint :: "rstr \<Rightarrow> rstr option" where
  "setup_action_hint uses = map_of
     [(''actions/setup-node'', ''container: js''), (''actions/setup-go'', ''container: go''),
      (''actions/setup-java'', ''container: java''), (''actions/setup-dotnet'', ''container: dotnet''),
      (''actions/setup-python'', ''container: python:3.12''), (''ruby/setup-ruby'', ''container: ruby:3.3''),
      (''dtolnay/rust-toolchain'', ''container: rust''), (''actions-rust-lang/setup-rust-toolchain'', ''container: rust''),
      (''actions-rs/toolchain'', ''container: rust'')] (action_of uses)"

definition uses_notice :: "rstr \<Rightarrow> rstr" where
  "uses_notice uses =
     (if is_checkout_action uses then
        ''step `uses: '' @ uses @ ''` is a no-op here '' @ of_chars [0x2014] @
        '' your repository is checked out automatically before the job runs''
      else case setup_action_hint uses of
        Some hint \<Rightarrow> ''step `uses: '' @ uses @ ''` is not executed; the default job image ships common toolchains '' @
          of_chars [0x2014] @ '' pin this one by adding `'' @ hint @ ''` to the job''
      | None \<Rightarrow> ''step `uses: '' @ uses @ ''` is not supported yet; skipped'')"

definition step_json :: "rstr \<Rightarrow> rstr \<Rightarrow> rstr \<Rightarrow> rstr option \<Rightarrow> json" where
  "step_json name run shell workdir =
     (let j = jobj [(''name'', JStr name), (''run'', JStr run), (''shell'', JStr shell)]
      in case workdir of None \<Rightarrow> j | Some w \<Rightarrow> jset ''workingDirectory'' (JStr w) j)"

definition plan_step :: "rstr option \<Rightarrow> nat \<times> yaml \<Rightarrow> json list \<times> rstr list \<Rightarrow> json list \<times> rstr list" where
  "plan_step job_default entry acc =
     (let (index, step) = entry in
      case Option.bind (v_get step ''uses'') y_str of
        Some uses \<Rightarrow> (fst acc, snd acc @ [uses_notice (sanitize_for_notice uses)])
      | None \<Rightarrow>
          (case Option.bind (v_get step ''run'') y_str of
             None \<Rightarrow> acc
           | Some run \<Rightarrow>
               let name = (case Option.bind (v_get step ''name'') y_str of Some n \<Rightarrow> n | None \<Rightarrow> ''step '' @ dec (index + 1));
                   shell = (if Option.bind (v_get step ''shell'') y_str = Some ''bash'' then ''bash'' else ''sh'');
                   (workdir, notices) = (case Option.bind (v_get step ''working-directory'') y_str of
                      Some raw \<Rightarrow> planned_workdir raw (snd acc)
                    | None \<Rightarrow> (job_default, snd acc))
               in (fst acc @ [step_json name (truncate_utf8 run MAX_STEP_RUN_BYTES) shell workdir], notices)))"

definition plan_steps :: "ParsedJob \<Rightarrow> yaml \<Rightarrow> rstr option \<Rightarrow> rstr list \<Rightarrow> json list \<times> rstr list" where
  "plan_steps job job_node job_default notices =
     (case jb_uses job of
        Some uses \<Rightarrow> ([], notices @ [''reusable workflow `'' @ uses @ ''` is not supported yet; job produces no steps''])
      | None \<Rightarrow>
          (case Option.bind (v_get job_node ''steps'') y_seq of
             None \<Rightarrow> ([], notices)
           | Some xs \<Rightarrow> fold (plan_step job_default) (List.enumerate 0 xs) ([], notices)))"

section \<open>Plans\<close>

definition env_json :: "(rstr \<times> rstr) list \<Rightarrow> json" where
  "env_json env = JObj (map (\<lambda>(k, v). (k, JStr v)) env)"

definition plan_job :: "rstr \<Rightarrow> rstr list \<Rightarrow> yaml \<Rightarrow> ParsedJob \<Rightarrow> PlannedJob" where
  "plan_job default_image allowlist doc job =
     (let job_node = (case Option.bind (v_get doc ''jobs'') (\<lambda>jobs. v_get jobs (jb_key job)) of Some n \<Rightarrow> n | None \<Rightarrow> YNull);
          notices = (if jb_strategy job \<noteq> None then [''matrix strategy is not expanded yet; the job runs once''] else []);
          (img, image_notices) = choose_image default_image allowlist (jb_runs_on job) job_node;
          env = bt_extend (env_map (v_get doc ''env'')) (env_map (v_get job_node ''env''));
          raw_default = (case defaults_working_directory job_node of Some r \<Rightarrow> Some r | None \<Rightarrow> defaults_working_directory doc);
          (job_default, notices) = (case raw_default of
             None \<Rightarrow> (None, notices @ image_notices)
           | Some raw \<Rightarrow> planned_workdir raw (notices @ image_notices));
          (steps, notices) = plan_steps job job_node job_default notices
      in \<lparr>pn_key = jb_key job, pn_name = jb_name job, pn_runs_on = jb_runs_on job, pn_needs = jb_needs job,
          pn_plan = jobj [(''image'', JStr img), (''env'', env_json env), (''steps'', JArr steps),
             (''environment'', jopt JStr (jb_environment job)), (''notices'', JArr (map JStr notices))],
          pn_position = jb_position job\<rparr>)"

definition no_steps :: "PlannedJob \<Rightarrow> bool" where
  "no_steps p = (case j_array (jidx (pn_plan p) ''steps'') of None \<Rightarrow> True | Some xs \<Rightarrow> xs = [])"

definition build_plans ::
  "(rstr \<Rightarrow> (rstr \<times> nat option) + yaml) \<Rightarrow> rstr \<Rightarrow> rstr \<Rightarrow> rstr list \<Rightarrow> PlanError + PlannedJob list"
where
  "build_plans parse_yaml raw_content default_image allowlist =
     (let parsed = parse_and_validate parse_yaml raw_content in
      if status parsed = ''errors'' then Inl Invalid
      else if wf_jobs parsed = [] then Inl NoRunnableJobs
      else
        let doc = (case parse_yaml raw_content of Inr v \<Rightarrow> v | Inl _ \<Rightarrow> YNull);
            plans = map (plan_job default_image allowlist doc) (wf_jobs parsed)
        in if list_all no_steps plans then Inl NoRunnableJobs else Inr plans)"


section \<open>What a plan may hold\<close>

definition RUNS_ON_IMAGES :: "rstr list" where
  "RUNS_ON_IMAGES = [''catthehacker/ubuntu:act-latest'', ''catthehacker/ubuntu:act-24.04'',
     ''catthehacker/ubuntu:act-22.04'', ''catthehacker/ubuntu:act-20.04'']"

definition image_ok :: "rstr \<Rightarrow> rstr list \<Rightarrow> rstr \<Rightarrow> bool" where
  "image_ok default_image allowlist img \<longleftrightarrow>
     img = default_image \<or> img \<in> set RUNS_ON_IMAGES \<or> is_catalog_image img \<or>
     is_valid_image_reference img \<and> (allowlist = [] \<or> list_ex (\<lambda>entry. image_glob_match entry img) allowlist)"

text \<open>A working directory is in normal form or an expression that is looked at again at dispatch.\<close>

definition workdir_ok :: "rstr \<Rightarrow> bool" where
  "workdir_ok w \<longleftrightarrow> length w \<le> MAX_RELATIVE_PATH_BYTES \<and> (contains w ''${{'' \<or> normalize_relative_path w = Some w)"

definition step_ok :: "json \<Rightarrow> bool" where
  "step_ok j \<longleftrightarrow> (\<exists>name run shell workdir. j = step_json name run shell workdir \<and>
     length run \<le> MAX_STEP_RUN_BYTES \<and> shell \<in> {''sh'', ''bash''} \<and> pred_option workdir_ok workdir)"

definition plan_ok :: "rstr \<Rightarrow> rstr list \<Rightarrow> PlannedJob \<Rightarrow> bool" where
  "plan_ok default_image allowlist p \<longleftrightarrow> (\<exists>img env steps.
     jidx (pn_plan p) ''image'' = JStr img \<and> image_ok default_image allowlist img \<and>
     jidx (pn_plan p) ''env'' = env_json env \<and> list_all (\<lambda>kv. length (snd kv) \<le> MAX_ENV_VALUE_BYTES) env \<and>
     jidx (pn_plan p) ''steps'' = JArr steps \<and> list_all step_ok steps)"

lemma image_for_runs_on_known: "image_for_runs_on ls = Some img \<Longrightarrow> img \<in> set RUNS_ON_IMAGES"
  unfolding image_for_runs_on_def
  by (induction ls) (auto simp: RUNS_ON_IMAGES_def split: option.splits if_splits)

lemma fallback_ok: "image_ok d al (fallback_image d ls)"
  by (auto simp: image_ok_def fallback_image_def dest: image_for_runs_on_known split: option.splits)

lemma resolve_alias_catalog: "resolve_alias v os = Some img \<Longrightarrow> is_catalog_image img"
  by (auto simp: resolve_alias_def Let_def is_catalog_image_def list_ex_iff dest!: first_with_Some
      split: if_splits option.splits prod.splits)

lemma choose_image_ok: "image_ok d al (fst (choose_image d al ls node))"
  by (auto simp: choose_image_def fallback_ok image_allowed_def split: option.splits if_splits)
    (auto simp: image_ok_def dest: resolve_alias_catalog)

lemma planned_workdir_ok: "pred_option workdir_ok (fst (planned_workdir raw ns))"
proof (cases "contains raw ''${{''")
  case False
  then show ?thesis
    using normalize_Some [of raw] normalize_valid
    by (auto simp: planned_workdir_def plan_working_directory_def workdir_ok_def split: option.splits)
qed (auto simp: planned_workdir_def plan_working_directory_def workdir_ok_def)


lemma plan_step_ok:
  assumes "list_all step_ok (fst acc)" "pred_option workdir_ok d"
  shows "list_all step_ok (fst (plan_step d e acc))"
proof -
  obtain index step where e: "e = (index, step)" by (cases e)
  show ?thesis
  proof (cases "Option.bind (v_get step ''uses'') y_str")
    case (Some u)
    with assms(1) show ?thesis by (simp add: plan_step_def e)
  next
    case None
    note uses = None
    show ?thesis
    proof (cases "Option.bind (v_get step ''run'') y_str")
      case None
      with uses assms(1) show ?thesis by (simp add: plan_step_def e)
    next
      case (Some run)
      define wn where "wn = (case Option.bind (v_get step ''working-directory'') y_str of
          Some raw \<Rightarrow> planned_workdir raw (snd acc) | None \<Rightarrow> (d, snd acc))"
      have "pred_option workdir_ok (fst wn)"
        using assms(2) planned_workdir_ok by (simp add: wn_def split: option.splits)
      moreover define name where "name = (case Option.bind (v_get step ''name'') y_str of
          Some n \<Rightarrow> n | None \<Rightarrow> ''step '' @ dec (index + 1))"
      define shell where "shell = (if Option.bind (v_get step ''shell'') y_str = Some ''bash'' then ''bash'' else ''sh'')"
      have "shell \<in> {''sh'', ''bash''}" by (simp add: shell_def)
      moreover have "fst (plan_step d e acc) = fst acc @ [step_json name (truncate_utf8 run MAX_STEP_RUN_BYTES) shell (fst wn)]"
        using uses Some by (simp add: plan_step_def e wn_def [symmetric] case_prod_unfold Let_def name_def shell_def cong: option.case_cong)
      ultimately show ?thesis
        using assms(1) truncate_utf8_length [of run MAX_STEP_RUN_BYTES] by (auto simp: step_ok_def)
    qed
  qed
qed

lemma plan_steps_fold_ok:
  "pred_option workdir_ok d \<Longrightarrow> list_all step_ok (fst acc) \<Longrightarrow> list_all step_ok (fst (fold (plan_step d) es acc))"
  by (induction es arbitrary: acc) (simp_all add: plan_step_ok)

lemma plan_steps_ok: "pred_option workdir_ok d \<Longrightarrow> list_all step_ok (fst (plan_steps job node d ns))"
  by (simp add: plan_steps_def plan_steps_fold_ok split: option.splits)

definition env_capped :: "(rstr \<times> rstr) list \<Rightarrow> bool" where
  "env_capped m \<longleftrightarrow> list_all (\<lambda>kv. length (snd kv) \<le> MAX_ENV_VALUE_BYTES) m"

lemma env_capped_insert: "env_capped m \<Longrightarrow> length v \<le> MAX_ENV_VALUE_BYTES \<Longrightarrow> env_capped (bt_insert k v m)"
  unfolding env_capped_def by (induction k v m rule: bt_insert.induct) auto

lemma env_capped_extend: "env_capped m \<Longrightarrow> env_capped kvs \<Longrightarrow> env_capped (bt_extend m kvs)"
proof (induction m kvs rule: bt_extend.induct)
  case (2 m k v kvs)
  then have "env_capped (bt_insert k v m)" "env_capped kvs" by (auto intro: env_capped_insert simp: env_capped_def [of "(k, v) # kvs"] env_capped_def [of kvs])
  with 2 show ?case by simp
qed simp

lemma env_map_capped: "env_capped (env_map node)"
proof -
  have "env_capped (filter_map env_entry m)" for m
    using truncate_utf8_length
    by (auto simp: env_capped_def list_all_iff set_filter_map env_entry_def bind_eq_Some_conv)
  then show ?thesis by (auto simp: env_map_def env_capped_def [of "[]"] intro: env_capped_extend split: option.splits)
qed

text \<open>The parts of a plan.\<close>

definition job_node_of :: "yaml \<Rightarrow> ParsedJob \<Rightarrow> yaml" where
  "job_node_of doc job =
     (case Option.bind (v_get doc ''jobs'') (\<lambda>jobs. v_get jobs (jb_key job)) of Some n \<Rightarrow> n | None \<Rightarrow> YNull)"

lemma plan_job_parts:
  "\<exists>d ns env. pred_option workdir_ok d \<and> env_capped env \<and>
     jidx (pn_plan (plan_job di al doc job)) ''image'' = JStr (fst (choose_image di al (jb_runs_on job) (job_node_of doc job))) \<and>
     jidx (pn_plan (plan_job di al doc job)) ''env'' = env_json env \<and>
     jidx (pn_plan (plan_job di al doc job)) ''steps'' = JArr (fst (plan_steps job (job_node_of doc job) d ns))"
proof -
  define node where "node = job_node_of doc job"
  define raw where "raw = (case defaults_working_directory node of Some r \<Rightarrow> Some r | None \<Rightarrow> defaults_working_directory doc)"
  define ns where "ns = (if jb_strategy job \<noteq> None then [''matrix strategy is not expanded yet; the job runs once''] else []) @
    snd (choose_image di al (jb_runs_on job) node)"
  define dn where "dn = (case raw of None \<Rightarrow> (None, ns) | Some raw \<Rightarrow> planned_workdir raw ns)"
  define st where "st = plan_steps job node (fst dn) (snd dn)"
  define env where "env = bt_extend (env_map (v_get doc ''env'')) (env_map (v_get node ''env''))"
  have plan: "pn_plan (plan_job di al doc job) = jobj [(''image'', JStr (fst (choose_image di al (jb_runs_on job) node))),
      (''env'', env_json env), (''steps'', JArr (fst st)), (''environment'', jopt JStr (jb_environment job)),
      (''notices'', JArr (map JStr (snd st)))]"
    unfolding plan_job_def Let_def case_prod_unfold job_node_of_def [symmetric] node_def [symmetric] raw_def [symmetric]
      ns_def [symmetric]
    by (simp add: dn_def [symmetric] st_def [symmetric] env_def [symmetric])
  have get: "jidx (jobj kvs) k = (case map_of (rev kvs) k of None \<Rightarrow> JNull | Some x \<Rightarrow> x)" for kvs k
    by (simp add: jobj_def jidx_def map_of_bt_extend)
  have "pred_option workdir_ok (fst dn)" using planned_workdir_ok by (simp add: dn_def split: option.splits)
  moreover have "env_capped env" by (simp add: env_def env_capped_extend env_map_capped)
  ultimately show ?thesis
    unfolding plan get node_def [symmetric]
    by (intro exI [of _ "fst dn"] exI [of _ "snd dn"] exI [of _ env]) (simp add: st_def)
qed

lemma plan_job_ok: "plan_ok di al (plan_job di al doc job)"
  using plan_job_parts [of di al doc job] plan_steps_ok choose_image_ok
  unfolding plan_ok_def env_capped_def by blast



definition demo_run_yaml :: mapping where
  "demo_run_yaml = [(YStr ''on'', YStr ''push''), (YStr ''jobs'', YMap
     [(YStr ''build'', YMap [(YStr ''runs-on'', YStr ''linux''), (YStr ''container'', YStr ''rust''),
         (YStr ''steps'', YSeq [YMap [(YStr ''run'', YStr [])]])])])]"

lemma demo_run_plans:
  "\<exists>plans. build_plans (\<lambda>_. Inr (YMap demo_run_yaml)) ''x'' ''img'' [] = Inr plans \<and> map pn_key plans = [''build'']"
proof -
  let ?parse = "\<lambda>_. Inr (YMap demo_run_yaml)"
  have "check_budget (YMap demo_run_yaml) = None"
    by (simp add: check_budget_def walk.simps demo_run_yaml_def MAX_NODES_def MAX_DEPTH_def)
  then have w: "parse_and_validate ?parse ''x'' = reduce_root ''x'' demo_run_yaml"
    by (simp add: parse_and_validate_def MAX_WORKFLOW_FILE_BYTES_def y_map_def)
  have files: "snd (detect_file_refs demo_run_yaml) = []"
    by (simp add: detect_file_refs_def demo_run_yaml_def defaults_run_working_directory_def yget_def y_map_def y_seq_def
        read_working_directory_def add_workdir_def job_refs_def step_refs_def MAX_JOBS_def MAX_STEPS_PER_JOB_def Let_def)
  have "snd (extract_dispatch_inputs demo_run_yaml) = []" by code_simp
  moreover have "snd (extract_trigger_filters demo_run_yaml) = []" by code_simp
  moreover have "snd (extract_triggers demo_run_yaml) = []" by code_simp
  moreover have "validate_needs (fst (extract_jobs demo_run_yaml)) (unknown_keys KNOWN_TOP_LEVEL_KEYS f demo_run_yaml @
      snd (extract_triggers demo_run_yaml) @ snd (extract_jobs demo_run_yaml)) = []" for f by code_simp
  ultimately have st: "status (reduce_root ''x'' demo_run_yaml) = ''valid''"
    by (simp add: status_def reduce_root_def Let_def case_prod_unfold files)
  have jobs: "wf_jobs (reduce_root ''x'' demo_run_yaml) = fst (extract_jobs demo_run_yaml)"
    by (simp add: reduce_root_def Let_def case_prod_unfold)
  have job: "fst (extract_jobs demo_run_yaml) = [\<lparr>jb_key = ''build'', jb_name = None, jb_runs_on = [''linux''], jb_needs = [],
      jb_uses = None, jb_strategy = None, jb_environment = None, jb_step_count = 1, jb_position = 0\<rparr>]" by code_simp
  then have keys: "map jb_key (wf_jobs (reduce_root ''x'' demo_run_yaml)) = [''build'']" by (simp add: jobs)
  let ?plans = "map (plan_job ''img'' [] (YMap demo_run_yaml)) (wf_jobs (reduce_root ''x'' demo_run_yaml))"
  have "\<not> no_steps (plan_job ''img'' [] (YMap demo_run_yaml) j)" if "j = hd (fst (extract_jobs demo_run_yaml))" for j
  proof -
    obtain d ns where steps: "jidx (pn_plan (plan_job ''img'' [] (YMap demo_run_yaml) j)) ''steps'' =
        JArr (fst (plan_steps j (job_node_of (YMap demo_run_yaml) j) d ns))"
      using plan_job_parts [of "''img''" "[]" "YMap demo_run_yaml" j] by blast
    have j: "jb_key j = ''build''" "jb_uses j = None" by (simp_all add: that job)
    have "job_node_of (YMap demo_run_yaml) j = YMap [(YStr ''runs-on'', YStr ''linux''), (YStr ''container'', YStr ''rust''),
         (YStr ''steps'', YSeq [YMap [(YStr ''run'', YStr [])]])]"
      by (simp add: job_node_of_def j v_get_def y_map_def yget_def demo_run_yaml_def)
    then have "fst (plan_steps j (job_node_of (YMap demo_run_yaml) j) d ns) \<noteq> []"
      by (simp add: plan_steps_def j v_get_def y_map_def yget_def y_seq_def plan_step_def y_str_def case_prod_unfold Let_def)
    then show ?thesis by (simp add: no_steps_def steps)
  qed
  then have "\<not> list_all no_steps ?plans" by (simp add: jobs job)
  moreover have "wf_jobs (reduce_root ''x'' demo_run_yaml) \<noteq> []" by (simp only: jobs job list.distinct not_False_eq_True)
  ultimately have b: "build_plans ?parse ''x'' ''img'' [] = Inr ?plans"
    unfolding build_plans_def w st Let_def by (simp only: if_False sum.case) simp
  have "map pn_key ?plans = map jb_key (wf_jobs (reduce_root ''x'' demo_run_yaml))"
    by (simp add: plan_job_def Let_def case_prod_unfold comp_def)
  with b keys show ?thesis by metis
qed


end
