(* ===== verification/Hubs.thy ===== *)
theory Hubs
  imports LogStore PipelinesDb "HOL-Library.AList"
begin

text \<open>
  The in-memory hubs beside the log hub, \<open>services/runner_hub.rs\<close> and
  \<open>services/workspace_hub.rs\<close>, and the server state that the pipeline code threads through:
  the tables, the hubs, the scheduler's wake-up permit and the background tasks spawned.
\<close>

section \<open>The runner hub\<close>

definition RUNNER_QUEUE :: nat where "RUNNER_QUEUE = 64"

text \<open>A bounded channel: what is queued in it, and whether its receiver is still there.\<close>

record Channel =
  ch_queue :: "ServerMsg list"
  ch_open :: bool

text \<open>
  The registry maps a runner to one of the channels created so far; a channel's position is
  its identity, which is what \<open>same_channel\<close> compares.
\<close>

record RunnerHub =
  rh_connections :: "(uuid \<times> nat) list"
  rh_channels :: "Channel list"

definition RunnerHub_default :: RunnerHub where
  "RunnerHub_default = \<lparr>rh_connections = [], rh_channels = []\<rparr>"

definition hub_register :: "RunnerHub \<Rightarrow> uuid \<Rightarrow> nat \<times> RunnerHub" where
  "hub_register h rid =
     (length (rh_channels h),
      h\<lparr>rh_connections := AList.update rid (length (rh_channels h)) (rh_connections h),
        rh_channels := rh_channels h @ [\<lparr>ch_queue = [], ch_open = True\<rparr>]\<rparr>)"

definition unregister_conn :: "RunnerHub \<Rightarrow> uuid \<Rightarrow> nat \<Rightarrow> RunnerHub" where
  "unregister_conn h rid conn =
     (if map_of (rh_connections h) rid = Some conn
      then h\<lparr>rh_connections := AList.delete rid (rh_connections h)\<rparr> else h)"

definition unregister :: "RunnerHub \<Rightarrow> uuid \<Rightarrow> RunnerHub" where
  "unregister h rid = h\<lparr>rh_connections := AList.delete rid (rh_connections h)\<rparr>"

definition is_connected :: "RunnerHub \<Rightarrow> uuid \<Rightarrow> bool" where
  "is_connected h rid \<longleftrightarrow> map_of (rh_connections h) rid \<noteq> None"

definition connected_ids :: "RunnerHub \<Rightarrow> uuid list" where
  "connected_ids h = map fst (rh_connections h)"

definition hub_send :: "RunnerHub \<Rightarrow> uuid \<Rightarrow> ServerMsg \<Rightarrow> bool \<times> RunnerHub" where
  "hub_send h rid msg =
     (case map_of (rh_connections h) rid of
        None \<Rightarrow> (False, h)
      | Some c \<Rightarrow>
          let ch = rh_channels h ! c in
          if ch_open ch \<and> length (ch_queue ch) < RUNNER_QUEUE
          then (True, h\<lparr>rh_channels := (rh_channels h)[c := ch\<lparr>ch_queue := ch_queue ch @ [msg]\<rparr>]\<rparr>)
          else (False, h))"

text \<open>The socket task takes the next message, or drops its receiver.\<close>

definition hub_recv :: "RunnerHub \<Rightarrow> nat \<Rightarrow> ServerMsg option \<times> RunnerHub" where
  "hub_recv h c =
     (if length (rh_channels h) \<le> c then (None, h)
      else case ch_queue (rh_channels h ! c) of
        [] \<Rightarrow> (None, h)
      | m # ms \<Rightarrow> (Some m, h\<lparr>rh_channels := (rh_channels h)[c := (rh_channels h ! c)\<lparr>ch_queue := ms\<rparr>]\<rparr>))"

definition hub_close :: "RunnerHub \<Rightarrow> nat \<Rightarrow> RunnerHub" where
  "hub_close h c = h\<lparr>rh_channels := (rh_channels h)[c := \<lparr>ch_queue = [], ch_open = False\<rparr>]\<rparr>"

section \<open>The workspace hub\<close>

datatype WorkspaceEvent =
    Ws_PipelineUpdate uuid rstr "rstr option" "time option" "time option"
  | Ws_RunnerUpdate RunnerResponse
  | Ws_RunnerHealth uuid json time
  | Ws_ArtifactUpdate uuid uuid rstr rstr rstr
  | Ws_ActivityUpdate rstr

text \<open>
  \<open>wh_dirty\<close> is the indexer's set of dirty workspaces, \<open>wh_poked\<close> the projector's wake-up
  permit, \<open>wh_sent\<close> the events the channels accepted.
\<close>

record WorkspaceHub =
  wh_channels :: "uuid \<Rightarrow> nat option"
  wh_sent :: "(uuid \<times> WorkspaceEvent) list"
  wh_dirty :: "uuid list"
  wh_poked :: bool

definition WorkspaceHub_new :: WorkspaceHub where
  "WorkspaceHub_new = \<lparr>wh_channels = Map.empty, wh_sent = [], wh_dirty = [], wh_poked = False\<rparr>"

definition ws_subscribe :: "WorkspaceHub \<Rightarrow> uuid \<Rightarrow> WorkspaceHub" where
  "ws_subscribe h ws = h\<lparr>wh_channels := (wh_channels h)
     (ws \<mapsto> Suc (case wh_channels h ws of None \<Rightarrow> 0 | Some n \<Rightarrow> n))\<rparr>"

definition mark_dirty :: "uuid \<Rightarrow> WorkspaceHub \<Rightarrow> WorkspaceHub" where
  "mark_dirty ws h = h\<lparr>wh_dirty := List.insert ws (wh_dirty h)\<rparr>"

definition ws_publish :: "WorkspaceHub \<Rightarrow> uuid \<Rightarrow> WorkspaceEvent \<Rightarrow> WorkspaceHub" where
  "ws_publish h0 ws ev =
     (let h = (mark_dirty ws h0)\<lparr>wh_poked := True\<rparr> in
      case wh_channels h ws of
        None \<Rightarrow> h
      | Some n \<Rightarrow>
          if n = 0 then h\<lparr>wh_channels := (wh_channels h)(ws := None)\<rparr>
          else h\<lparr>wh_sent := wh_sent h @ [(ws, ev)]\<rparr>)"

section \<open>The server state\<close>

text \<open>The tasks \<open>tokio::spawn\<close> leaves running; their work is outside the pipeline tables.\<close>

datatype Spawned = ChecksCreate uuid | ChecksStarted uuid | ChecksCompleted uuid | ArchiveLog uuid

record AppState =
  st_db :: Db
  st_log_hub :: LogHub
  st_runner_hub :: RunnerHub
  st_workspace_hub :: WorkspaceHub
  st_poked :: bool
  st_spawned :: "Spawned list"
  st_now :: time
  st_max_log_bytes :: int
  st_checks_enabled :: bool
  st_has_storage :: bool

definition poke :: "AppState \<Rightarrow> AppState" where
  "poke s = s\<lparr>st_poked := True\<rparr>"

definition spawn :: "Spawned \<Rightarrow> AppState \<Rightarrow> AppState" where
  "spawn t s = s\<lparr>st_spawned := st_spawned s @ [t]\<rparr>"

definition with_db :: "(Db \<Rightarrow> 'a \<times> Db) \<Rightarrow> AppState \<Rightarrow> 'a \<times> AppState" where
  "with_db f s = (let (x, db) = f (st_db s) in (x, s\<lparr>st_db := db\<rparr>))"

definition send_runner :: "uuid \<Rightarrow> ServerMsg \<Rightarrow> AppState \<Rightarrow> bool \<times> AppState" where
  "send_runner rid msg s = (let (ok, h) = hub_send (st_runner_hub s) rid msg in (ok, s\<lparr>st_runner_hub := h\<rparr>))"

definition publish_ws :: "uuid \<Rightarrow> WorkspaceEvent \<Rightarrow> AppState \<Rightarrow> AppState" where
  "publish_ws ws ev s = s\<lparr>st_workspace_hub := ws_publish (st_workspace_hub s) ws ev\<rparr>"

definition publish_log :: "uuid \<Rightarrow> BrowserEvent \<Rightarrow> AppState \<Rightarrow> AppState" where
  "publish_log pid ev s = s\<lparr>st_log_hub := publish (st_log_hub s) pid ev\<rparr>"

text \<open>
  Both services run the log hub on the pair of hub and tables.
\<close>

definition with_logs ::
  "(LogHub \<times> Db \<Rightarrow> (AppError + unit) \<times> LogHub \<times> Db) \<Rightarrow> AppState \<Rightarrow> (AppError + unit) \<times> AppState"
where
  "with_logs f s = (let (r, h, db) = f (st_log_hub s, st_db s) in (r, s\<lparr>st_log_hub := h, st_db := db\<rparr>))"

section \<open>Connections\<close>

text \<open>
  Every registered connection is a channel that exists, and no channel is over its bound.
\<close>

definition hub_ok :: "RunnerHub \<Rightarrow> bool" where
  "hub_ok h \<longleftrightarrow> list_all (\<lambda>c. snd c < length (rh_channels h)) (rh_connections h) \<and>
     distinct (map fst (rh_connections h)) \<and>
     list_all (\<lambda>ch. length (ch_queue ch) \<le> RUNNER_QUEUE) (rh_channels h)"

datatype HubOp = HRegister uuid | HUnregisterConn uuid nat | HUnregister uuid | HSend uuid ServerMsg | HRecv nat | HClose nat

fun hub_op :: "HubOp \<Rightarrow> RunnerHub \<Rightarrow> RunnerHub" where
  "hub_op (HRegister r) h = snd (hub_register h r)"
| "hub_op (HUnregisterConn r c) h = unregister_conn h r c"
| "hub_op (HUnregister r) h = unregister h r"
| "hub_op (HSend r m) h = snd (hub_send h r m)"
| "hub_op (HRecv c) h = snd (hub_recv h c)"
| "hub_op (HClose c) h = hub_close h c"

lemma set_alist_delete: "set (AList.delete k xs) \<subseteq> set xs"
  by (auto simp: AList.delete_eq)

lemma set_alist_update: "set (AList.update k v xs) \<subseteq> insert (k, v) (set xs)"
  by (induction xs) auto

lemma hub_op_ok: "hub_ok h \<Longrightarrow> hub_ok (hub_op op h)"
proof (cases op)
  case (HRegister r)
  assume ok: "hub_ok h"
  have "c \<in> set (rh_connections h) \<Longrightarrow> snd c < Suc (length (rh_channels h))" for c
    using ok by (auto simp: hub_ok_def list_all_iff less_Suc_eq)
  then show ?thesis
    using ok HRegister set_alist_update [of r "length (rh_channels h)" "rh_connections h"]
    by (auto simp: hub_ok_def hub_register_def list_all_iff RUNNER_QUEUE_def distinct_update)
next
  case (HSend r m)
  assume "hub_ok h"
  then show ?thesis
    unfolding HSend by (auto simp: hub_ok_def hub_send_def Let_def list_all_iff dest!: set_update_subset_insert [THEN subsetD]
        split: option.splits)
next
  case (HRecv c)
  assume ok: "hub_ok h"
  have "length ms \<le> RUNNER_QUEUE" if "c < length (rh_channels h)" "ch_queue (rh_channels h ! c) = m # ms" for m ms
  proof -
    have "length (ch_queue (rh_channels h ! c)) \<le> RUNNER_QUEUE" using ok that(1) by (simp add: hub_ok_def list_all_iff)
    with that(2) show ?thesis by simp
  qed
  with ok show ?thesis
    unfolding HRecv by (auto simp: hub_ok_def hub_recv_def list_all_iff not_le dest!: set_update_subset_insert [THEN subsetD]
        split: list.splits)
next
  case (HClose c)
  assume "hub_ok h"
  then show ?thesis
    unfolding HClose by (auto simp: hub_ok_def hub_close_def list_all_iff dest!: set_update_subset_insert [THEN subsetD])
qed (use set_alist_delete in \<open>fastforce simp: hub_ok_def unregister_conn_def unregister_def list_all_iff distinct_delete\<close>)+


text \<open>A reconnect wins over the old connection's cleanup, and no runner queue grows past its
  bound.  After a runner registers again, removing its previous connection changes nothing,
  the runner is still connected and the next message goes to the new connection alone; every
  sequence of hub operations keeps each queue within 64 messages.\<close>

theorem reconnect_survives_cleanup:
  assumes "hub_ok h" "hub_register h rid = (c2, h2)" "c1 < length (rh_channels h)"
  shows "unregister_conn h2 rid c1 = h2 \<and> is_connected h2 rid \<and>
    hub_send h2 rid m = (True, h2\<lparr>rh_channels := rh_channels h @ [\<lparr>ch_queue = [m], ch_open = True\<rparr>]\<rparr>) \<and>
    hub_ok (fold hub_op ops h2)"
proof -
  have conn: "map_of (rh_connections h2) rid = Some c2" and c2: "c2 = length (rh_channels h)"
    and chans: "rh_channels h2 = rh_channels h @ [\<lparr>ch_queue = [], ch_open = True\<rparr>]"
    using assms(2) by (auto simp: hub_register_def update_Some_unfold)
  have "hub_ok h2" using hub_op_ok [OF assms(1), of "HRegister rid"] assms(2) by simp
  then have "hub_ok (fold hub_op ops h2)"
    by (induction ops arbitrary: h2) (auto intro: hub_op_ok)
  moreover have "hub_send h2 rid m = (True, h2\<lparr>rh_channels := rh_channels h @ [\<lparr>ch_queue = [m], ch_open = True\<rparr>]\<rparr>)"
    by (simp add: hub_send_def conn c2 chans RUNNER_QUEUE_def nth_append)
  ultimately show ?thesis
    using assms(3) conn c2 by (simp add: unregister_conn_def is_connected_def)
qed

theorem reconnect_survives_cleanup_witness:
  "is_connected (unregister_conn (snd (hub_register (snd (hub_register RunnerHub_default 3)) 3)) 3 0) 3"
proof -
  let ?h = "snd (hub_register RunnerHub_default 3)"
  have "hub_ok ?h" "0 < length (rh_channels ?h)"
    by (simp_all add: hub_ok_def hub_register_def RunnerHub_default_def)
  from reconnect_survives_cleanup [OF this(1) prod.collapse [symmetric] this(2), of 3 Ping "[]"]
  show ?thesis by simp
qed

end
