(* ===== verification/PipelineRun.thy ===== *)
theory PipelineRun
  imports Hubs
begin

text \<open>
  The execution state machine, \<open>services/pipeline_run.rs\<close>: the hooks around every job
  transition, dependency skipping, the conclusion of a pipeline and its finalisation,
  cancellation, timeouts and orphan recovery.  Every function takes the server state and
  returns it; the ones that write a log chunk can fail, the others cannot by their own logic.
\<close>

section \<open>Publishing and recording\<close>

definition publish_job :: "PipelineJob \<Rightarrow> AppState \<Rightarrow> AppState" where
  "publish_job job = publish_log (pj_pipeline_id job) (Be_JobUpdate (PipelineJobResponse_from job))"

definition publish_pipeline :: "Pipeline \<Rightarrow> AppState \<Rightarrow> AppState" where
  "publish_pipeline p s =
     publish_ws (pl_workspace_id p)
       (Ws_PipelineUpdate (pl_id p) (pl_status p) (pl_conclusion p) (pl_started_at p) (pl_finished_at p))
       (publish_log (pl_id p)
         (Be_PipelineUpdate (pl_id p) (pl_status p) (pl_conclusion p) (pl_started_at p) (pl_finished_at p)) s)"

definition record_event ::
  "uuid \<Rightarrow> uuid option \<Rightarrow> rstr \<Rightarrow> rstr option \<Rightarrow> rstr option \<Rightarrow> uuid option \<Rightarrow> uuid option \<Rightarrow> json \<Rightarrow>
     AppState \<Rightarrow> AppState"
where
  "record_event pid jid event_type from_state to_state rid actor payload s =
     (let (e, db) = append (st_now s) pid jid event_type from_state to_state rid actor payload (st_db s)
      in publish_log pid (Be_Event (PipelineEventResponse_from e)) (s\<lparr>st_db := db\<rparr>))"

definition spawn_checks :: "Spawned \<Rightarrow> AppState \<Rightarrow> AppState" where
  "spawn_checks t s = (if st_checks_enabled s then spawn t s else s)"

definition spawn_archive :: "PipelineJob \<Rightarrow> AppState \<Rightarrow> AppState" where
  "spawn_archive job s =
     (if \<not> st_has_storage s then s
      else if pj_conclusion job = Some ''skipped'' \<or> pj_log_bytes job = 0 then s
      else spawn (ArchiveLog (pj_id job)) s)"

definition audit :: "AuditRow \<Rightarrow> AppState \<Rightarrow> AppState" where
  "audit a s = s\<lparr>st_db := add_audit a (st_db s)\<rparr>"

definition jint :: "int \<Rightarrow> json" where "jint i = JNum (dec_int i)"

definition attempt_json :: "PipelineJob \<Rightarrow> json" where
  "attempt_json job = jobj [(''attempt'', jint (pj_attempt job))]"

section \<open>Hooks\<close>

definition on_job_assigned :: "PipelineJob \<Rightarrow> AppState \<Rightarrow> AppState" where
  "on_job_assigned job s =
     publish_job job (record_event (pj_pipeline_id job) (Some (pj_id job)) ''job.assigned''
       (Some ''queued'') (Some ''assigned'') (pj_runner_id job) None (attempt_json job) s)"

definition on_job_started :: "PipelineJob \<Rightarrow> AppState \<Rightarrow> AppState" where
  "on_job_started job s =
     (let (started, s) = with_db (mark_in_progress (st_now s) (pj_pipeline_id job)) s;
          s = (case started of
                 None \<Rightarrow> s
               | Some p \<Rightarrow> spawn_checks (ChecksStarted (pl_id p)) (publish_pipeline p
                   (record_event (pl_id p) None ''pipeline.started'' (Some ''queued'') (Some ''in_progress'')
                     None None (JObj []) s)))
      in publish_job job (record_event (pj_pipeline_id job) (Some (pj_id job)) ''job.started''
           (Some ''assigned'') (Some ''preparing'') (pj_runner_id job) None (attempt_json job) s))"

definition on_job_stage :: "PipelineJob \<Rightarrow> json \<Rightarrow> AppState \<Rightarrow> AppState" where
  "on_job_stage job payload s =
     publish_job job (record_event (pj_pipeline_id job) (Some (pj_id job)) ''job.stage'' None
       (Some (pj_stage job)) (pj_runner_id job) None payload s)"

text \<open>The step's name is read from the stored plan; where the plan has none it is empty.\<close>

definition plan_step_name :: "json \<Rightarrow> nat \<Rightarrow> rstr" where
  "plan_step_name plan index =
     (case Option.bind (jget plan ''steps'') j_array of
        None \<Rightarrow> []
      | Some steps \<Rightarrow>
          if length steps \<le> index then []
          else case Option.bind (jget (steps ! index) ''name'') j_str of None \<Rightarrow> [] | Some n \<Rightarrow> n)"

definition on_job_step :: "PipelineJob \<Rightarrow> nat \<Rightarrow> rstr \<Rightarrow> int option \<Rightarrow> AppState \<Rightarrow> AppState" where
  "on_job_step job index status exit_code s =
     record_event (pj_pipeline_id job) (Some (pj_id job))
       (if status = ''started'' then ''job.step_started'' else ''job.step_finished'')
       None (Some status) (pj_runner_id job) None
       (jobj [(''stepIndex'', JNum (dec index)), (''stepName'', JStr (plan_step_name (pj_plan job) index)),
          (''status'', JStr status), (''exitCode'', jopt jint exit_code), (''attempt'', jint (pj_attempt job))]) s"

section \<open>Skipping dependents\<close>

text \<open>
  \<open>doomed\<close> keeps the keys that can no longer succeed and \<open>to_skip\<close> the ids found on the
  way; a pass goes over the jobs once, the loop repeats it until a pass finds nothing.
\<close>

definition failed_for_good :: "PipelineJob \<Rightarrow> bool" where
  "failed_for_good j \<longleftrightarrow> pj_status j = ''completed'' \<and> pj_conclusion j \<noteq> Some ''success''"

definition doom_step :: "PipelineJob \<Rightarrow> rstr list \<times> uuid list \<Rightarrow> rstr list \<times> uuid list" where
  "doom_step j st =
     (if pj_status j \<noteq> ''queued'' \<or> pj_job_key j \<in> set (fst st) then st
      else if list_ex (\<lambda>need. need \<in> set (fst st)) (pj_needs j)
      then (pj_job_key j # fst st, snd st @ [pj_id j])
      else st)"

definition doom_pass :: "PipelineJob list \<Rightarrow> rstr list \<times> uuid list \<Rightarrow> rstr list \<times> uuid list" where
  "doom_pass jobs st = fold doom_step jobs st"

definition undoomed :: "PipelineJob list \<Rightarrow> rstr list \<times> uuid list \<Rightarrow> nat" where
  "undoomed jobs st = length (filter (\<lambda>j. pj_job_key j \<notin> set (fst st)) jobs)"

lemma doom_step_mono: "set (fst st) \<subseteq> set (fst (doom_step j st))"
  by (auto simp: doom_step_def)

lemma doom_fold_mono: "set (fst st) \<subseteq> set (fst (fold doom_step jobs st))"
proof (induction jobs arbitrary: st)
  case (Cons j jobs)
  then show ?case using doom_step_mono [of st j] by fastforce
qed simp

text \<open>A pass that adds an id adds the key of one of the jobs, which was not doomed before.\<close>

lemma doom_fold_grows:
  "snd (fold doom_step jobs st) \<noteq> snd st \<Longrightarrow>
     \<exists>j\<in>set jobs. pj_job_key j \<notin> set (fst st) \<and> pj_job_key j \<in> set (fst (fold doom_step jobs st))"
proof (induction jobs arbitrary: st)
  case (Cons j jobs)
  show ?case
  proof (cases "snd (doom_step j st) = snd st")
    case True
    then have same: "doom_step j st = st" by (auto simp: doom_step_def split: if_splits)
    with Cons show ?thesis by auto
  next
    case False
    then have new: "pj_job_key j \<notin> set (fst st)" "pj_job_key j \<in> set (fst (doom_step j st))"
      by (auto simp: doom_step_def split: if_splits)
    with doom_fold_mono [of "doom_step j st" jobs] show ?thesis by auto
  qed
qed simp

lemma undoomed_less:
  assumes "snd (doom_pass jobs st) \<noteq> snd st"
  shows "undoomed jobs (doom_pass jobs st) < undoomed jobs st"
proof -
  from doom_fold_grows [of jobs st] assms obtain j where j: "j \<in> set jobs" "pj_job_key j \<notin> set (fst st)"
    "pj_job_key j \<in> set (fst (doom_pass jobs st))" by (auto simp: doom_pass_def)
  have sub: "set (fst st) \<subseteq> set (fst (doom_pass jobs st))" by (simp add: doom_pass_def doom_fold_mono)
  have le: "length (filter (\<lambda>j. pj_job_key j \<notin> set (fst (doom_pass jobs st))) js)
      \<le> length (filter (\<lambda>j. pj_job_key j \<notin> set (fst st)) js)" for js
    by (induction js) (use sub in auto)
  obtain as bs where jobs: "jobs = as @ j # bs" using j(1) by (meson split_list)
  show ?thesis
    using le [of as] le [of bs] j(2,3) by (simp add: undoomed_def jobs)
qed

function doom_loop :: "PipelineJob list \<Rightarrow> rstr list \<times> uuid list \<Rightarrow> rstr list \<times> uuid list" where
  "doom_loop jobs st =
     (let st' = doom_pass jobs st in if snd st' = snd st then st' else doom_loop jobs st')"
  by pat_completeness auto
termination
  by (relation "measure (\<lambda>(jobs, st). undoomed jobs st)") (auto intro: undoomed_less)

declare doom_loop.simps [simp del]

definition to_skip :: "PipelineJob list \<Rightarrow> uuid list" where
  "to_skip jobs = snd (doom_loop jobs (map pj_job_key (filter failed_for_good jobs), []))"

definition skip_one :: "uuid \<Rightarrow> PipelineJob \<Rightarrow> AppState \<Rightarrow> AppState" where
  "skip_one pid job s =
     publish_job job (record_event pid (Some (pj_id job)) ''job.completed'' (Some ''queued'') (Some ''skipped'')
       None None (jobj [(''reason'', JStr ''dependency_failed'')]) s)"

definition skip_dependents :: "uuid \<Rightarrow> AppState \<Rightarrow> AppState" where
  "skip_dependents pid s =
     (let ids = to_skip (list_for_pipeline (st_db s) pid) in
      if ids = [] then s
      else
        let (skipped, s) = with_db (mark_skipped (st_now s) ids) s
        in fold (skip_one pid) skipped s)"

section \<open>Conclusion and finalisation\<close>

definition compute_conclusion :: "(rstr \<times> rstr option) list \<Rightarrow> rstr option" where
  "compute_conclusion statuses =
     (if statuses = [] \<or> list_ex (\<lambda>st. fst st \<noteq> ''completed'') statuses then None
      else
        let has = (\<lambda>c. list_ex (\<lambda>st. snd st = Some c) statuses) in
        Some (if has ''cancelled'' then ''cancelled''
              else if has ''timed_out'' then ''timed_out''
              else if has ''failure'' \<and> has ''success'' then ''partial''
              else if has ''failure'' then ''failure''
              else ''success''))"

definition pipeline_audit :: "Pipeline \<Rightarrow> uuid option \<Rightarrow> rstr \<Rightarrow> json \<Rightarrow> rstr option \<Rightarrow> AuditRow" where
  "pipeline_audit p actor action metadata request_id =
     \<lparr>au_workspace_id = pl_workspace_id p, au_actor = actor, au_action = action,
      au_subject_type = ''pipeline'', au_subject_id = pl_id p, au_metadata = metadata,
      au_request_id = request_id\<rparr>"

definition maybe_finalize :: "uuid \<Rightarrow> AppState \<Rightarrow> AppState" where
  "maybe_finalize pid s =
     (case compute_conclusion (statuses_for_pipeline (st_db s) pid) of
        None \<Rightarrow> s
      | Some conclusion \<Rightarrow>
          (case with_db (finalize (st_now s) pid conclusion) s of
             (None, s) \<Rightarrow> s
           | (Some p, s) \<Rightarrow>
               audit (pipeline_audit p None ''pipeline.completed''
                   (jobj [(''conclusion'', JStr conclusion), (''number'', jint (pl_number p))]) None)
                 (spawn_checks (ChecksCompleted (pl_id p)) (publish_pipeline p
                   (record_event (pl_id p) None ''pipeline.completed'' (Some ''in_progress'') (Some conclusion)
                     None None (JObj []) s)))))"

section \<open>Ends of jobs\<close>

definition flush_logs :: "PipelineJob \<Rightarrow> AppState \<Rightarrow> (AppError + unit) \<times> AppState" where
  "flush_logs job s =
     with_logs (finish_job (st_now s) (st_max_log_bytes s) (pj_pipeline_id job) (pj_id job)) s"

definition release_runner :: "uuid option \<Rightarrow> AppState \<Rightarrow> AppState" where
  "release_runner rid s = (case rid of None \<Rightarrow> s | Some r \<Rightarrow> s\<lparr>st_db := release r (st_db s)\<rparr>)"

definition on_job_finished :: "PipelineJob \<Rightarrow> AppState \<Rightarrow> (AppError + unit) \<times> AppState" where
  "on_job_finished job s0 =
     and_then (flush_logs job s0) (\<lambda>_ s.
       let s = release_runner (pj_runner_id job) s;
           conclusion = (case pj_conclusion job of None \<Rightarrow> ''failure'' | Some c \<Rightarrow> c);
           s = record_event (pj_pipeline_id job) (Some (pj_id job)) ''job.completed'' (Some ''in_progress'')
                 (Some conclusion) (pj_runner_id job) None
                 (jobj [(''exitCode'', jopt jint (pj_exit_code job)),
                    (''errorCategory'', jopt JStr (pj_error_category job)),
                    (''attempt'', jint (pj_attempt job))]) s;
           s = publish_job job s;
           s = (if conclusion \<noteq> ''success'' then skip_dependents (pj_pipeline_id job) s else s);
           s = spawn_archive job s
       in (Inr (), poke (maybe_finalize (pj_pipeline_id job) s)))"

definition on_job_requeued :: "PipelineJob \<Rightarrow> AppState \<Rightarrow> (AppError + unit) \<times> AppState" where
  "on_job_requeued job s0 =
     and_then (flush_logs job s0) (\<lambda>_ s.
       (Inr (), poke (publish_job job
          (record_event (pj_pipeline_id job) (Some (pj_id job)) ''job.requeued'' (Some ''in_progress'')
            (Some ''queued'') None None (attempt_json job) s))))"

section \<open>Cancellation, timeouts, lost runners\<close>

definition cancelled_one :: "uuid \<Rightarrow> uuid option \<Rightarrow> json \<Rightarrow> PipelineJob \<Rightarrow> AppState \<Rightarrow> AppState" where
  "cancelled_one pid actor payload job s =
     publish_job job (record_event pid (Some (pj_id job)) ''job.completed'' (Some ''queued'') (Some ''cancelled'')
       None actor payload s)"

definition force_end :: "uuid \<Rightarrow> rstr \<Rightarrow> rstr option \<Rightarrow> AppState \<Rightarrow> (AppError + unit) \<times> AppState" where
  "force_end jid conclusion category s =
     (case with_db (force_finish (st_now s) jid conclusion category) s of
        (None, s) \<Rightarrow> (Inr (), s)
      | (Some finished, s) \<Rightarrow> on_job_finished finished s)"

text \<open>A running job is cancelled through its runner, or here when the runner cannot be reached.\<close>

definition cancel_running :: "PipelineJob \<Rightarrow> AppState \<Rightarrow> (AppError + unit) \<times> AppState" where
  "cancel_running job s =
     (let (signalled, s) = (case pj_runner_id job of
              None \<Rightarrow> (False, s)
            | Some rid \<Rightarrow> send_runner rid (JobCancel (pj_id job) User) s)
      in if signalled then (Inr (), s) else force_end (pj_id job) ''cancelled'' None s)"

definition cancel_pipeline ::
  "Pipeline \<Rightarrow> uuid option \<Rightarrow> rstr option \<Rightarrow> AppState \<Rightarrow> (AppError + unit) \<times> AppState"
where
  "cancel_pipeline p actor request_id s =
     (if pl_status p = ''completed'' then (Inl (Conflict ''pipeline already finished''), s)
      else
        let s = record_event (pl_id p) None ''pipeline.cancel_requested'' None None None actor (JObj []) s;
            (cancelled, s) = with_db (cancel_queued (st_now s) (pl_id p)) s;
            s = fold (cancelled_one (pl_id p) actor (JObj [])) cancelled s
        in and_then (for_each cancel_running (running_for_pipeline (st_db s) (pl_id p)) s) (\<lambda>_ s.
             (Inr (), maybe_finalize (pl_id p)
                (audit (pipeline_audit p actor ''pipeline.cancelled''
                   (jobj [(''number'', jint (pl_number p))]) request_id) s))))"

definition cancel_job ::
  "Pipeline \<Rightarrow> PipelineJob \<Rightarrow> uuid option \<Rightarrow> rstr option \<Rightarrow> AppState \<Rightarrow> (AppError + unit) \<times> AppState"
where
  "cancel_job p job actor request_id s =
     (if pj_status job = ''completed'' then (Inl (Conflict ''job already finished''), s)
      else
        let s = record_event (pl_id p) (Some (pj_id job)) ''job.cancel_requested'' None None None actor (JObj []) s;
            (cancelled, s) = with_db (cancel_one_queued (st_now s) (pj_id job)) s;
            (r, s) = (case cancelled of
                Some c \<Rightarrow> (Inr (), maybe_finalize (pl_id p) (skip_dependents (pl_id p)
                   (cancelled_one (pl_id p) actor (JObj []) c s)))
              | None \<Rightarrow>
                  (case find_for_pipeline (st_db s) (pl_id p) (pj_id job) of
                     None \<Rightarrow> (Inl NotFound, s)
                   | Some current \<Rightarrow>
                       if pj_status current = ''completed'' then (Inl (Conflict ''job already finished''), s)
                       else cancel_running current s))
        in and_then (r, s) (\<lambda>_ s. (Inr (), audit
             \<lparr>au_workspace_id = pl_workspace_id p, au_actor = actor, au_action = ''job.cancelled'',
              au_subject_type = ''pipeline_job'', au_subject_id = pj_id job,
              au_metadata = jobj [(''pipeline'', JStr (dec (pl_id p))), (''number'', jint (pl_number p)),
                (''job'', JStr (pj_job_key job))],
              au_request_id = request_id\<rparr> s)))"

definition timeout_job :: "PipelineJob \<Rightarrow> AppState \<Rightarrow> (AppError + unit) \<times> AppState" where
  "timeout_job job s =
     (let s = (case pj_runner_id job of
                 None \<Rightarrow> s
               | Some rid \<Rightarrow> snd (send_runner rid (JobCancel (pj_id job) Timeout) s))
      in force_end (pj_id job) ''timed_out'' (Some ''timeout'') s)"

definition timeout_pipeline :: "Pipeline \<Rightarrow> AppState \<Rightarrow> (AppError + unit) \<times> AppState" where
  "timeout_pipeline p s =
     (let (cancelled, s) = with_db (cancel_queued (st_now s) (pl_id p)) s;
          s = fold (cancelled_one (pl_id p) None (jobj [(''reason'', JStr ''pipeline_timeout'')])) cancelled s
      in and_then (for_each timeout_job (running_for_pipeline (st_db s) (pl_id p)) s) (\<lambda>_ s.
           (Inr (), maybe_finalize (pl_id p) s)))"

definition orphan_runner_jobs :: "uuid \<Rightarrow> AppState \<Rightarrow> (AppError + unit) \<times> AppState" where
  "orphan_runner_jobs rid s =
     (let ((requeued, failed), s) = with_db (requeue_orphans (st_now s) rid) s
      in and_then (for_each on_job_requeued requeued s) (\<lambda>_. for_each on_job_finished failed))"

end
