(* ===== verification/Kept.thy ===== *)
theory Kept
  imports PipelineRun
begin

text \<open>
  What the statements on the tables keep, the execution state machine keeps.  The locale
  \<open>kept\<close> takes a property of the tables that every single statement preserves and derives
  it for every hook, cancellation, timeout and recovery built from them; the components that
  follow add their operations to it.
\<close>

section \<open>What the operations do to the tables\<close>

named_theorems tables_of \<comment> \<open>the tables after an operation, as statements on the tables before\<close>

lemma st_db_wrappers [simp, tables_of]:
  "st_db (publish_log pid ev s) = st_db s" "st_db (publish_ws ws wev s) = st_db s" "st_db (spawn t s) = st_db s"
  "st_db (spawn_checks t s) = st_db s" "st_db (publish_pipeline p s) = st_db s" "st_db (publish_job job s) = st_db s"
  "st_db (spawn_archive job s) = st_db s" "st_db (poke s) = st_db s" "st_db (snd (send_runner rid m s)) = st_db s"
  by (simp_all add: publish_log_def publish_ws_def spawn_def spawn_checks_def publish_pipeline_def publish_job_def
      spawn_archive_def poke_def send_runner_def case_prod_unfold Let_def)

lemma st_db_statements [tables_of]:
  "st_db (snd (with_db f s)) = snd (f (st_db s))"
  "st_db (audit au s) = add_audit au (st_db s)"
  "st_db (record_event pid jid t a b rid actor payload s) = snd (append (st_now s) pid jid t a b rid actor payload (st_db s))"
  "st_db (release_runner r s) = (case r of None \<Rightarrow> st_db s | Some i \<Rightarrow> release i (st_db s))"
  by (simp_all add: with_db_def audit_def record_event_def release_runner_def case_prod_unfold Let_def split: option.splits)

section \<open>Writing logs\<close>

text \<open>The log path reaches the tables by two statements, and counts bytes only for its job.\<close>

lemma write_chunk_keeps:
  assumes chunk: "\<And>now i ck db. P db \<Longrightarrow> P (insert_chunk now i ck db)"
    and bytes: "\<And>n db. P db \<Longrightarrow> P (snd (add_log_bytes db jid n))" and p: "P (snd ls)"
  shows "P (snd (snd (write_chunk now mx pid jid seq m at ls)))"
proof -
  have put: "P (snd (put_chunk now pid jid c xs))" if "P (snd xs)" for c xs
    using that by (simp add: put_chunk_def insert_chunks_def chunk)
  obtain r db where a: "add_log_bytes (snd ls) jid (int (min (length m) 2147483647)) = (r, db)" by fastforce
  with bytes [OF p, of "int (min (length m) 2147483647)"] have "P db" by simp
  then show ?thesis by (cases r) (auto simp: write_chunk_def a Let_def intro!: put chunk)
qed

lemma finish_job_keeps:
  assumes chunk: "\<And>now i ck db. P db \<Longrightarrow> P (insert_chunk now i ck db)"
    and bytes: "\<And>n db. P db \<Longrightarrow> P (snd (add_log_bytes db jid n))" and p: "P (snd ls)"
  shows "P (snd (snd (finish_job now mx pid jid ls)))"
  using write_chunk_keeps [of P, OF chunk bytes] p
  by (auto simp: finish_job_def Let_def case_prod_unfold split: option.splits sum.splits)

section \<open>The interface\<close>

text \<open>
  \<open>kept_end\<close> holds the statements that run when a job ends or reports; \<open>kept\<close> adds those
  that assign, cancel and recover.
\<close>

locale kept_end =
  fixes P :: "Db \<Rightarrow> bool"
  assumes event: "t \<noteq> ''pipeline.completed'' \<Longrightarrow> P db \<Longrightarrow> P (snd (append now pid jid t a b rid actor payload db))"
    and audited: "P db \<Longrightarrow> P (add_audit au db)"
    and skipped: "P db \<Longrightarrow> P (snd (mark_skipped now ids db))"
    and chunk: "P db \<Longrightarrow> P (insert_chunk now i ck db)"
    and bytes: "P db \<Longrightarrow> P (snd (add_log_bytes db i n))"
    and started: "P db \<Longrightarrow> P (snd (mark_in_progress now pid db))"
    and released: "P db \<Longrightarrow> P (release i db)"
    and settled: "P (st_db s) \<Longrightarrow> P (st_db (maybe_finalize pid s))"
begin

lemma write_chunk: "P (snd ls) \<Longrightarrow> P (snd (snd (write_chunk now mx pid jid seq m at ls)))"
  by (rule write_chunk_keeps [where P = P, OF chunk bytes])

lemma finish_logs: "P (snd ls) \<Longrightarrow> P (snd (snd (finish_job now mx pid jid ls)))"
  by (rule finish_job_keeps [where P = P, OF chunk bytes])

lemma ingest: "P (snd ls) \<Longrightarrow> P (snd (snd (ingest_log now mx pid jid seq st txt step ph ls)))"
  using write_chunk by (auto simp: ingest_log_def Let_def case_prod_unfold split: option.splits)

lemma flush_logs: "P (st_db s) \<Longrightarrow> P (st_db (snd (flush_logs job s)))"
  using finish_logs by (simp add: flush_logs_def with_logs_def Let_def case_prod_unfold)

lemma release_runner: "P (st_db s) \<Longrightarrow> P (st_db (release_runner r s))"
  by (simp add: tables_of released split: option.splits)

lemma recorded: "t \<noteq> ''pipeline.completed'' \<Longrightarrow> P (st_db s) \<Longrightarrow> P (st_db (record_event pid jid t a b rid actor payload s))"
  by (simp add: tables_of event)

lemma audit: "P (st_db s) \<Longrightarrow> P (st_db (audit au s))"
  by (simp add: tables_of audited)

lemma on_job_assigned: "P (st_db s) \<Longrightarrow> P (st_db (on_job_assigned job s))"
  by (simp add: on_job_assigned_def recorded)

lemma on_job_started: "P (st_db s) \<Longrightarrow> P (st_db (on_job_started job s))"
  by (auto simp: on_job_started_def Let_def case_prod_unfold recorded tables_of(10) started split: option.splits)

lemma on_job_stage: "P (st_db s) \<Longrightarrow> P (st_db (on_job_stage job payload s))"
  by (simp add: on_job_stage_def recorded)

lemma on_job_step: "P (st_db s) \<Longrightarrow> P (st_db (on_job_step job i st code s))"
  by (simp add: on_job_step_def recorded)

lemma on_job_requeued: "P (st_db s) \<Longrightarrow> P (st_db (snd (on_job_requeued job s)))"
  unfolding on_job_requeued_def
  by (rule and_then_state [where P = "\<lambda>s. P (st_db s)"]) (simp_all add: flush_logs recorded)

lemma skip_one: "P (st_db s) \<Longrightarrow> P (st_db (skip_one pid job s))"
  by (simp add: skip_one_def recorded)

lemma cancel_one: "P (st_db s) \<Longrightarrow> P (st_db (cancelled_one pid actor payload job s))"
  by (simp add: cancelled_one_def recorded)

lemma folded: "(\<And>x s. P (st_db s) \<Longrightarrow> P (st_db (f x s))) \<Longrightarrow> P (st_db s) \<Longrightarrow> P (st_db (fold f xs s))"
  by (induction xs arbitrary: s) auto

lemma skip_dependents: "P (st_db s) \<Longrightarrow> P (st_db (skip_dependents pid s))"
  by (auto simp: skip_dependents_def Let_def case_prod_unfold intro!: folded skip_one simp: tables_of(10) skipped)

lemma on_job_finished: "P (st_db s) \<Longrightarrow> P (st_db (snd (on_job_finished job s)))"
  unfolding on_job_finished_def
  by (rule and_then_state [where P = "\<lambda>s. P (st_db s)"])
    (auto simp: flush_logs Let_def intro!: settled skip_dependents recorded release_runner)

end

locale kept = kept_end +
  assumes cancelled: "P db \<Longrightarrow> P (snd (cancel_queued now pid db))"
    and cancelled_one: "P db \<Longrightarrow> P (snd (cancel_one_queued now i db))"
    and forced: "P db \<Longrightarrow> P (snd (force_finish now i c cat db))"
    and orphaned: "P db \<Longrightarrow> P (snd (requeue_orphans now rid' db))"
    and claimed: "P db \<Longrightarrow> P (snd (claim_for_runner now i rid' db))"
    and unclaimed: "P db \<Longrightarrow> P (snd (unclaim i db))"
    and reverted: "P db \<Longrightarrow> P (snd (revert_unacked now cutoff db))"
    and acked: "P db \<Longrightarrow> P (snd (ack now i rid' db))"
    and staged: "P db \<Longrightarrow> P (snd (set_stage i rid' st db))"
    and finished: "P db \<Longrightarrow> P (snd (finish_from_runner now i rid' c code cat metrics db))"
    and offline: "P db \<Longrightarrow> P (mark_offline i db)"
begin

lemma force_end: "P (st_db s) \<Longrightarrow> P (st_db (snd (force_end jid c cat s)))"
  using forced [of "st_db s" "st_now s" jid c cat] tables_of(10) [of "force_finish (st_now s) jid c cat" s]
  by (auto simp: force_end_def split: prod.splits option.splits intro!: on_job_finished)

lemma cancel_running: "P (st_db s) \<Longrightarrow> P (st_db (snd (cancel_running job s)))"
  by (auto simp: cancel_running_def Let_def case_prod_unfold intro!: force_end split: option.splits)

lemma cancel_pipeline: "P (st_db s) \<Longrightarrow> P (st_db (snd (cancel_pipeline p actor rid s)))"
  by (auto simp: cancel_pipeline_def Let_def case_prod_unfold tables_of(10)
      intro!: cancelled and_then_state [where P = "\<lambda>s. P (st_db s)"] for_each_state [where P = "\<lambda>s. P (st_db s)"]
        folded cancel_one cancel_running settled audit recorded)

lemma cancel_job: "P (st_db s) \<Longrightarrow> P (st_db (snd (cancel_job p job actor rid s)))"
proof -
  assume p: "P (st_db s)"
  define t where "t = record_event (pl_id p) (Some (pj_id job)) ''job.cancel_requested'' None None None actor (JObj []) s"
  define u where "u = with_db (cancel_one_queued (st_now t) (pj_id job)) t"
  have u: "P (st_db (snd u))" by (simp add: u_def tables_of(10) cancelled_one t_def recorded p)
  define m where "m = (case fst u of
      Some c \<Rightarrow> (Inr (), maybe_finalize (pl_id p) (skip_dependents (pl_id p) (cancelled_one (pl_id p) actor (JObj []) c (snd u))))
    | None \<Rightarrow> (case find_for_pipeline (st_db (snd u)) (pl_id p) (pj_id job) of
                 None \<Rightarrow> (Inl NotFound, snd u)
               | Some current \<Rightarrow> if pj_status current = ''completed'' then (Inl (Conflict ''job already finished''), snd u)
                   else cancel_running current (snd u)))"
  have "P (st_db (snd m))"
    using u by (auto simp: m_def intro!: settled skip_dependents cancel_one cancel_running split: option.splits)
  then show ?thesis
    unfolding cancel_job_def Let_def case_prod_unfold t_def [symmetric] u_def [symmetric] m_def [symmetric]
    using p by (auto intro!: and_then_state [where P = "\<lambda>s. P (st_db s)"] audit)
qed

lemma timeout_job: "P (st_db s) \<Longrightarrow> P (st_db (snd (timeout_job job s)))"
  by (auto simp: timeout_job_def Let_def intro!: force_end split: option.splits)

lemma timeout_pipeline: "P (st_db s) \<Longrightarrow> P (st_db (snd (timeout_pipeline p s)))"
  by (auto simp: timeout_pipeline_def Let_def case_prod_unfold tables_of(10)
      intro!: cancelled and_then_state [where P = "\<lambda>s. P (st_db s)"] for_each_state [where P = "\<lambda>s. P (st_db s)"]
        folded cancel_one timeout_job settled)

lemma orphan_runner_jobs: "P (st_db s) \<Longrightarrow> P (st_db (snd (orphan_runner_jobs rid s)))"
  by (auto simp: orphan_runner_jobs_def Let_def case_prod_unfold tables_of(10)
      intro!: orphaned and_then_state [where P = "\<lambda>s. P (st_db s)"] for_each_state [where P = "\<lambda>s. P (st_db s)"]
        on_job_requeued on_job_finished)

end

end
