(* ===== verification/Ledger.thy ===== *)
theory Ledger
  imports Kept
begin

text \<open>
  What the execution state machine keeps of the ledger: whatever sequence of job hooks,
  cancellations, timeouts and runner losses runs, a completed pipeline stays as it is and has
  exactly one completion event.
\<close>

section \<open>The ledger\<close>

definition done_ids :: "Db \<Rightarrow> uuid list" where
  "done_ids db = map pe_pipeline_id (filter (\<lambda>e. pe_event_type e = ''pipeline.completed'') (db_events db))"

definition ledger_ok :: "Db \<Rightarrow> bool" where
  "ledger_ok db \<longleftrightarrow> distinct (map pl_id (db_pipelines db)) \<and>
     list_all (\<lambda>p. count_list (done_ids db) (pl_id p) = (if pl_status p = ''completed'' then 1 else 0))
       (db_pipelines db)"

definition finished_rows :: "Db \<Rightarrow> PipelineRow list" where
  "finished_rows db = filter (\<lambda>p. pl_status p = ''completed'') (db_pipelines db)"

text \<open>What every operation does: it keeps the ledger and the finished pipelines.\<close>

definition advances :: "AppState \<Rightarrow> AppState \<Rightarrow> bool" where
  "advances s s' \<longleftrightarrow> (ledger_ok (st_db s) \<longrightarrow> ledger_ok (st_db s')) \<and>
     set (finished_rows (st_db s)) \<subseteq> set (finished_rows (st_db s'))"

definition quiet :: "AppState \<Rightarrow> AppState \<Rightarrow> bool" where
  "quiet s s' \<longleftrightarrow> db_pipelines (st_db s') = db_pipelines (st_db s) \<and> done_ids (st_db s') = done_ids (st_db s)"

interpretation adv: state_order advances
  by unfold_locales (auto simp: advances_def)

interpretation qt: state_order quiet
  by unfold_locales (auto simp: quiet_def)

lemma quiet_advances: "quiet s s' \<Longrightarrow> advances s s'"
  by (simp add: quiet_def advances_def ledger_ok_def finished_rows_def)

lemmas adv_quiet = adv.trans [OF _ quiet_advances]

section \<open>Operations that leave the ledger alone\<close>

named_theorems quiet_intros

lemma quiet_publish [quiet_intros]:
  "quiet s (publish_log pid ev s)" "quiet s (publish_ws ws wev s)" "quiet s (spawn t s)" "quiet s (spawn_checks t s)"
  "quiet s (poke s)" "quiet s (audit a s)" "quiet s (snd (send_runner rid m s))" "quiet s (spawn_archive job s)"
  "quiet s (publish_job job s)" "quiet s (publish_pipeline p s)" "quiet s (release_runner r s)"
  by (auto simp: quiet_def done_ids_def publish_log_def publish_ws_def spawn_def spawn_checks_def poke_def audit_def
      add_audit_def send_runner_def case_prod_unfold Let_def spawn_archive_def publish_job_def publish_pipeline_def
      release_runner_def release_def upd_runners_def db_defs split: option.splits)

lemma quiet_record_event [quiet_intros]:
  "t \<noteq> ''pipeline.completed'' \<Longrightarrow> quiet s (record_event pid jid t a b rid actor payload s)"
  by (simp add: quiet_def done_ids_def record_event_def append_def Let_def publish_log_def)

lemma quiet_with_db:
  "(db_pipelines (snd (f (st_db s))) = db_pipelines (st_db s)) \<Longrightarrow> db_events (snd (f (st_db s))) = db_events (st_db s) \<Longrightarrow>
     quiet s (snd (with_db f s))"
  by (simp add: quiet_def done_ids_def with_db_def case_prod_unfold Let_def)

lemma upd_jobs_other [simp]:
  "db_pipelines (snd (upd_jobs P f db)) = db_pipelines db" "db_events (snd (upd_jobs P f db)) = db_events db"
  "db_pipelines (snd (upd_job P f db)) = db_pipelines db" "db_events (snd (upd_job P f db)) = db_events db"
  by (simp_all add: upd_defs)

lemma quiet_jobs [quiet_intros]:
  "quiet s (snd (with_db (mark_skipped now ids) s))" "quiet s (snd (with_db (cancel_queued now pid) s))"
  "quiet s (snd (with_db (cancel_one_queued now jid) s))" "quiet s (snd (with_db (force_finish now jid c cat) s))"
  "quiet s (snd (with_db (requeue_orphans now rid) s))"
  by (auto intro!: quiet_with_db simp: mark_skipped_def cancel_queued_def cancel_one_queued_def force_finish_def
      requeue_orphans_def recover_orphans_def case_prod_unfold Let_def)


lemma write_chunk_other:
  "db_pipelines (snd (snd (write_chunk now mx pid jid seq m at ls))) = db_pipelines (snd ls)"
  "db_events (snd (snd (write_chunk now mx pid jid seq m at ls))) = db_events (snd ls)"
  by (auto simp: write_chunk_def add_log_bytes_def put_chunk_def insert_chunk_def Let_def case_prod_unfold
      split: sum.splits option.splits)

lemma finish_job_other:
  "db_pipelines (snd (snd (finish_job now mx pid jid ls))) = db_pipelines (snd ls)"
  "db_events (snd (snd (finish_job now mx pid jid ls))) = db_events (snd ls)"
  by (auto simp: finish_job_def write_chunk_other Let_def case_prod_unfold split: sum.splits option.splits)

lemma quiet_flush_logs [quiet_intros]: "quiet s (snd (flush_logs job s))"
  by (simp add: flush_logs_def with_logs_def quiet_def done_ids_def finish_job_other Let_def case_prod_unfold)

lemma quiet_skip_one [quiet_intros]: "quiet s (skip_one pid job s)"
  unfolding skip_one_def by (rule qt.trans [OF quiet_record_event quiet_publish(9)]) simp

lemma quiet_cancelled_one [quiet_intros]: "quiet s (cancelled_one pid actor payload job s)"
  unfolding cancelled_one_def by (rule qt.trans [OF quiet_record_event quiet_publish(9)]) simp

lemma quiet_skip_dependents [quiet_intros]: "quiet s (skip_dependents pid s)"
  by (auto simp: skip_dependents_def Let_def case_prod_unfold
      intro: qt.refl qt.trans [OF quiet_jobs(1) qt.fold_R [OF quiet_skip_one]])

lemma audit_ledger [simp]:
  "db_pipelines (st_db (audit a s)) = db_pipelines (st_db s)" "done_ids (st_db (audit a s)) = done_ids (st_db s)"
  by (simp_all add: audit_def add_audit_def done_ids_def)

lemma record_event_db [simp]:
  "db_pipelines (st_db (record_event pid jid t a b rid actor payload s)) = db_pipelines (st_db s)"
  "done_ids (st_db (record_event pid jid t a b rid actor payload s)) =
     done_ids (st_db s) @ (if t = ''pipeline.completed'' then [pid] else [])"
  by (simp_all add: record_event_def append_def done_ids_def Let_def)

lemma advances_maybe_finalize: "advances s (maybe_finalize pid s)"
proof (cases "compute_conclusion (statuses_for_pipeline (st_db s) pid)")
  case None
  then show ?thesis by (simp add: maybe_finalize_def adv.refl)
next
  case (Some c)
  define db where "db = st_db s"
  define db1 where "db1 = snd (finalize (st_now s) pid c db)"
  have ev: "db_events db1 = db_events db" and
    pl: "db_pipelines db1 = update_where (open_pipeline pid) (complete_with (st_now s) c) (db_pipelines db)"
    by (simp_all add: db1_def finalize_def upd_pipeline_def)
  have fin: "set (finished_rows db) \<subseteq> set (finished_rows db1)"
    by (auto simp: finished_rows_def pl set_update_where open_pipeline_def)
  show ?thesis
  proof (cases "fst (finalize (st_now s) pid c db)")
    case None
    then have "update_where (open_pipeline pid) (complete_with (st_now s) c) (db_pipelines db) = db_pipelines db"
      by (intro update_where_none) (auto simp: finalize_def upd_pipeline_def returning_Nil)
    then have "maybe_finalize pid s = s\<lparr>st_db := db1\<rparr>" "db_pipelines db1 = db_pipelines db"
      using None Some pl by (simp_all add: maybe_finalize_def with_db_def db1_def db_def case_prod_unfold Let_def)
    then show ?thesis using ev
      by (intro quiet_advances) (simp add: quiet_def done_ids_def db_def)
  next
    case (Some p)
    have p: "pl_id p = pid \<and> (\<exists>q\<in>set (db_pipelines db). open_pipeline pid q)"
      using Some fetch_optional_Some
      by (fastforce simp: finalize_def upd_pipeline_def set_returning pl_selected_def Pipeline.truncate_def
          complete_with_def open_pipeline_def)
    have fz: "with_db (finalize (st_now s) pid c) s = (Some p, s\<lparr>st_db := db1\<rparr>)"
      using Some by (simp add: with_db_def db1_def db_def case_prod_unfold Let_def)
    have done1: "done_ids db1 = done_ids db" by (simp add: done_ids_def ev)
    have pid: "pl_id p = pid" using p by simp
    have s': "db_pipelines (st_db (maybe_finalize pid s)) = db_pipelines db1"
      "done_ids (st_db (maybe_finalize pid s)) = done_ids db @ [pid]"
      unfolding maybe_finalize_def \<open>compute_conclusion _ = Some c\<close>
      by (simp_all add: fz done1 pid)
    have "ledger_ok (st_db (maybe_finalize pid s))" if ok: "ledger_ok db"
    proof -
      have ids: "map pl_id (db_pipelines db1) = map pl_id (db_pipelines db)"
        unfolding pl by (rule map_update_where) (simp add: complete_with_def)
      have "count_list (done_ids db @ [pid]) (pl_id q) = (if pl_status q = ''completed'' then 1 else 0)"
        if q: "q \<in> set (db_pipelines db1)" for q
      proof -
        from q obtain r where r: "r \<in> set (db_pipelines db)"
          "q = (if open_pipeline pid r then complete_with (st_now s) c r else r)"
          unfolding pl set_update_where by blast
        from ok r(1) have cnt: "count_list (done_ids db) (pl_id r) = (if pl_status r = ''completed'' then 1 else 0)"
          by (simp add: ledger_ok_def list_all_iff)
        from p obtain r0 where r0: "r0 \<in> set (db_pipelines db)" "open_pipeline pid r0" by blast
        have same: "r = r0" if "pl_id r = pid"
          using ok r0 r(1) that by (auto simp: ledger_ok_def distinct_map inj_on_def open_pipeline_def)
        show ?thesis
        proof (cases "pl_id r = pid")
          case True
          with same r0(2) cnt show ?thesis unfolding r(2) by (simp add: complete_with_def open_pipeline_def)
        next
          case False
          with cnt show ?thesis unfolding r(2) by (simp add: open_pipeline_def)
        qed
      qed
      with ok ids show ?thesis by (simp add: ledger_ok_def list_all_iff s')
    qed
    with fin show ?thesis by (simp add: advances_def db_def [symmetric] finished_rows_def s')
  qed
qed


section \<open>Every operation advances\<close>

lemma mark_in_progress_ledger:
  "ledger_ok (snd (mark_in_progress now pid db)) = ledger_ok db"
  "finished_rows (snd (mark_in_progress now pid db)) = finished_rows db"
proof -
  let ?f = "\<lambda>p. p\<lparr>pl_status := ''in_progress'', pl_started_at := coalesce (pl_started_at p) now\<rparr>"
  let ?P = "\<lambda>p. pl_id p = pid \<and> pl_status p = ''queued''"
  have rows: "db_pipelines (snd (mark_in_progress now pid db)) = update_where ?P ?f (db_pipelines db)"
    and done_same: "done_ids (snd (mark_in_progress now pid db)) = done_ids db"
    by (simp_all add: mark_in_progress_def upd_pipeline_def done_ids_def)
  have ids: "map pl_id (update_where ?P ?f ps) = map pl_id ps" for ps
    by (rule map_update_where) simp
  have fin: "filter (\<lambda>p. pl_status p = ''completed'') (update_where ?P ?f ps) = filter (\<lambda>p. pl_status p = ''completed'') ps" for ps
    by (induction ps) (simp_all add: update_where_def)
  have cnt: "list_all (\<lambda>p. count_list ds (pl_id p) = (if pl_status p = ''completed'' then 1 else 0)) (update_where ?P ?f ps) =
      list_all (\<lambda>p. count_list ds (pl_id p) = (if pl_status p = ''completed'' then 1 else 0)) ps" for ds ps
    by (induction ps) (simp_all add: update_where_def)
  show "ledger_ok (snd (mark_in_progress now pid db)) = ledger_ok db"
    "finished_rows (snd (mark_in_progress now pid db)) = finished_rows db"
    by (simp_all only: ledger_ok_def finished_rows_def rows done_same cnt ids fin)
qed

text \<open>The statements that touch neither the pipelines nor the completion events.\<close>

lemma append_ledger:
  "db_pipelines (snd (append now pid jid t a b rid actor payload db)) = db_pipelines db"
  "t \<noteq> ''pipeline.completed'' \<Longrightarrow> done_ids (snd (append now pid jid t a b rid actor payload db)) = done_ids db"
  by (simp_all add: append_def done_ids_def Let_def)

lemma claim_ledger:
  "db_pipelines (snd (claim_for_runner now jid rid db)) = db_pipelines db"
  "done_ids (snd (claim_for_runner now jid rid db)) = done_ids db"
  by (auto simp: claim_for_runner_def case_prod_unfold done_ids_def split: option.splits)

lemma add_log_bytes_ledger:
  "db_pipelines (snd (add_log_bytes db jid n)) = db_pipelines db" "done_ids (snd (add_log_bytes db jid n)) = done_ids db"
  by (auto simp: add_log_bytes_def done_ids_def Let_def split: option.splits)

definition ledger_from :: "PipelineRow set \<Rightarrow> Db \<Rightarrow> bool" where
  "ledger_from F db \<longleftrightarrow> ledger_ok db \<and> F \<subseteq> set (finished_rows db)"

lemma ledger_from_same:
  "ledger_from F db \<Longrightarrow> db_pipelines db' = db_pipelines db \<Longrightarrow> done_ids db' = done_ids db \<Longrightarrow> ledger_from F db'"
  by (simp add: ledger_from_def ledger_ok_def finished_rows_def)

interpretation led: kept "ledger_from F" for F
proof unfold_locales
  fix s :: AppState and pid assume "ledger_from F (st_db s)"
  with advances_maybe_finalize [of s pid] show "ledger_from F (st_db (maybe_finalize pid s))"
    by (auto simp: advances_def ledger_from_def)
next
  fix db now pid assume "ledger_from F db"
  with mark_in_progress_ledger [of now pid db] show "ledger_from F (snd (mark_in_progress now pid db))"
    by (simp add: ledger_from_def)
next
  fix db now pid jid and t :: rstr and a b rid actor payload assume "t \<noteq> ''pipeline.completed''" "ledger_from F db"
  then show "ledger_from F (snd (append now pid jid t a b rid actor payload db))"
    by (intro ledger_from_same [OF _ append_ledger])
next
  fix db now i rid assume "ledger_from F db"
  then show "ledger_from F (snd (claim_for_runner now i rid db))" using claim_ledger by (rule ledger_from_same)
next
  fix db i n assume "ledger_from F db"
  then show "ledger_from F (snd (add_log_bytes db i n))" using add_log_bytes_ledger by (rule ledger_from_same)
qed (erule ledger_from_same; simp add: add_audit_def done_ids_def
    mark_skipped_def cancel_queued_def cancel_one_queued_def force_finish_def requeue_orphans_def recover_orphans_def
    unclaim_def revert_unacked_def ack_def set_stage_def finish_from_runner_def insert_chunk_def release_def
    mark_offline_def upd_runners_def case_prod_unfold Let_def)+

datatype RunOp =
    OpAssigned PipelineJob | OpStarted PipelineJob | OpStage PipelineJob json
  | OpStep PipelineJob nat rstr "int option" | OpEnded PipelineJob | OpRequeued PipelineJob
  | CancelPipeline Pipeline "uuid option" "rstr option" | CancelJob Pipeline PipelineJob "uuid option" "rstr option"
  | TimeoutJob PipelineJob | TimeoutPipeline Pipeline | OrphanRunner uuid | Settle uuid

fun run_op :: "RunOp \<Rightarrow> AppState \<Rightarrow> AppState" where
  "run_op (OpAssigned j) s = on_job_assigned j s"
| "run_op (OpStarted j) s = on_job_started j s"
| "run_op (OpStage j payload) s = on_job_stage j payload s"
| "run_op (OpStep j i st code) s = on_job_step j i st code s"
| "run_op (OpEnded j) s = snd (on_job_finished j s)"
| "run_op (OpRequeued j) s = snd (on_job_requeued j s)"
| "run_op (CancelPipeline p a r) s = snd (cancel_pipeline p a r s)"
| "run_op (CancelJob p j a r) s = snd (cancel_job p j a r s)"
| "run_op (TimeoutJob j) s = snd (timeout_job j s)"
| "run_op (TimeoutPipeline p) s = snd (timeout_pipeline p s)"
| "run_op (OrphanRunner r) s = snd (orphan_runner_jobs r s)"
| "run_op (Settle pid) s = maybe_finalize pid s"

lemma led_run_op: "ledger_from F (st_db s) \<Longrightarrow> ledger_from F (st_db (run_op op s))"
  by (cases op) (simp_all add: led.on_job_assigned led.on_job_started led.on_job_stage led.on_job_step led.on_job_finished
      led.on_job_requeued led.cancel_pipeline led.cancel_job led.timeout_job led.timeout_pipeline led.orphan_runner_jobs
      led.settled)

lemma led_run_ops: "ledger_from F (st_db s) \<Longrightarrow> ledger_from F (st_db (fold run_op ops s))"
  by (induction ops arbitrary: s) (auto intro: led_run_op)

text \<open>A pipeline completes once.  Whatever sequence of job hooks, cancellations, timeouts and
  runner losses runs, with whatever arguments, every pipeline has exactly one completion event
  when it is completed and none before, and a pipeline that is completed keeps its whole row,
  conclusion and times included.\<close>

theorem pipeline_completes_once:
  assumes "ledger_ok (st_db s)"
  shows "ledger_ok (st_db (fold run_op ops s)) \<and>
    set (finished_rows (st_db s)) \<subseteq> set (finished_rows (st_db (fold run_op ops s)))"
  using led_run_ops [of "set (finished_rows (st_db s))" s ops] assms by (simp add: ledger_from_def)

end
