(* ===== verification/SkipDeps.thy ===== *)
theory SkipDeps
  imports PipelineRun
begin

text \<open>
  Dependency skipping computes exactly the transitive closure: a queued job is skipped if and
  only if it depends, through queued jobs, on a job that ended without success.
\<close>

section \<open>The closure\<close>

inductive doomed :: "PipelineJob list \<Rightarrow> rstr \<Rightarrow> bool" for jobs where
  root: "j \<in> set jobs \<Longrightarrow> failed_for_good j \<Longrightarrow> doomed jobs (pj_job_key j)"
| dep: "j \<in> set jobs \<Longrightarrow> pj_status j = ''queued'' \<Longrightarrow> need \<in> set (pj_needs j) \<Longrightarrow> doomed jobs need \<Longrightarrow>
    doomed jobs (pj_job_key j)"

text \<open>
  The loop's invariant: every key in the set is doomed, every failed job's key is in it, and
  the ids are those of the queued jobs whose keys were added.
\<close>

definition doom_inv :: "PipelineJob list \<Rightarrow> rstr list \<times> uuid list \<Rightarrow> bool" where
  "doom_inv jobs st \<longleftrightarrow>
     (\<forall>k\<in>set (fst st). doomed jobs k) \<and>
     (\<forall>j\<in>set jobs. failed_for_good j \<longrightarrow> pj_job_key j \<in> set (fst st)) \<and>
     set (snd st) = pj_id ` {j \<in> set jobs. pj_status j = ''queued'' \<and> pj_job_key j \<in> set (fst st)}"

lemma key_inj: "distinct (map pj_job_key jobs) \<Longrightarrow> j \<in> set jobs \<Longrightarrow> j' \<in> set jobs \<Longrightarrow>
    pj_job_key j = pj_job_key j' \<Longrightarrow> j = j'"
  by (auto simp: distinct_map inj_on_def)

lemma doom_step_inv:
  assumes "distinct (map pj_job_key jobs)" "j \<in> set jobs" "doom_inv jobs st"
  shows "doom_inv jobs (doom_step j st)"
proof (cases "pj_status j = ''queued'' \<and> pj_job_key j \<notin> set (fst st) \<and> list_ex (\<lambda>n. n \<in> set (fst st)) (pj_needs j)")
  case True
  then have eq: "doom_step j st = (pj_job_key j # fst st, snd st @ [pj_id j])" by (simp add: doom_step_def)
  from True obtain n where "n \<in> set (pj_needs j)" "n \<in> set (fst st)" by (auto simp: list_ex_iff)
  then have "doomed jobs (pj_job_key j)" using assms(2,3) True by (auto simp: doom_inv_def intro: doomed.dep)
  moreover have "{i \<in> set jobs. pj_status i = ''queued'' \<and> pj_job_key i \<in> insert (pj_job_key j) (set (fst st))} =
      insert j {i \<in> set jobs. pj_status i = ''queued'' \<and> pj_job_key i \<in> set (fst st)}"
    using True assms(2) key_inj [OF assms(1,2)] by (auto simp del: list_ex_iff) metis+
  ultimately show ?thesis using assms(3) unfolding doom_inv_def eq by auto
next
  case False
  then have "doom_step j st = st" by (auto simp: doom_step_def)
  with assms(3) show ?thesis by simp
qed

lemma doom_fold_inv:
  assumes "distinct (map pj_job_key jobs)" "set js \<subseteq> set jobs" "doom_inv jobs st"
  shows "doom_inv jobs (fold doom_step js st)"
  using assms(2,3)
proof (induction js arbitrary: st)
  case (Cons j js)
  then have "doom_inv jobs (doom_step j st)" using doom_step_inv [OF assms(1)] by simp
  with Cons show ?case by simp
qed simp

lemma doom_step_same: "snd (doom_step j st) = snd st \<longleftrightarrow> doom_step j st = st"
  by (cases st) (simp add: doom_step_def)

lemma doom_step_prefix: "prefix (snd st) (snd (doom_step j st))"
  by (auto simp: doom_step_def)

lemma doom_fold_prefix: "prefix (snd st) (snd (fold doom_step js st))"
proof (induction js arbitrary: st)
  case (Cons j js)
  from prefix_order.trans [OF doom_step_prefix Cons] show ?case by simp
qed simp

text \<open>A pass that adds nothing leaves the state alone at every job.\<close>

lemma doom_fold_fixed:
  "snd (fold doom_step js st) = snd st \<Longrightarrow> fold doom_step js st = st \<and> (\<forall>j\<in>set js. doom_step j st = st)"
proof (induction js arbitrary: st)
  case (Cons j js)
  have "snd (doom_step j st) = snd st"
    using Cons.prems doom_step_prefix [of st j] doom_fold_prefix [of "doom_step j st" js]
    by (metis fold_simps(2) prefix_order.antisym)
  then have j: "doom_step j st = st" by (simp add: doom_step_same)
  with Cons.prems Cons.IH [of st] show ?case by simp
qed simp

lemma doom_loop_result:
  assumes "distinct (map pj_job_key jobs)" "doom_inv jobs st"
  shows "doom_inv jobs (doom_loop jobs st) \<and>
    (\<forall>j\<in>set jobs. pj_status j = ''queued'' \<longrightarrow> list_ex (\<lambda>n. n \<in> set (fst (doom_loop jobs st))) (pj_needs j) \<longrightarrow>
       pj_job_key j \<in> set (fst (doom_loop jobs st)))"
  using assms
proof (induction jobs st rule: doom_loop.induct)
  case (1 jobs st)
  have inv: "doom_inv jobs (doom_pass jobs st)"
    using doom_fold_inv [OF "1.prems"(1) subset_refl "1.prems"(2)] by (simp add: doom_pass_def)
  show ?case
  proof (cases "snd (doom_pass jobs st) = snd st")
    case True
    from doom_fold_fixed [OF True [unfolded doom_pass_def]]
    have "doom_pass jobs st = st" "\<forall>j\<in>set jobs. doom_step j st = st" by (simp_all add: doom_pass_def)
    moreover have "pj_job_key j \<in> set (fst st)"
      if "doom_step j st = st" "pj_status j = ''queued''" "list_ex (\<lambda>n. n \<in> set (fst st)) (pj_needs j)" for j
      using that by (cases st) (simp add: doom_step_def split: if_splits)
    moreover have "doom_loop jobs st = doom_pass jobs st" using True by (simp add: doom_loop.simps [of jobs st])
    ultimately show ?thesis using inv by simp
  next
    case False
    with "1.IH" [OF refl False "1.prems"(1) inv] show ?thesis by (simp add: doom_loop.simps [of jobs st])
  qed
qed

text \<open>C34: Dependency skipping is exact.  For jobs with distinct keys the loop skips a job if and
  only if it is queued and depends, directly or through other queued jobs, on a job that ended
  without success; nothing else is touched.\<close>

theorem to_skip_exact:
  assumes "distinct (map pj_job_key jobs)"
  shows "set (to_skip jobs) = pj_id ` {j \<in> set jobs. pj_status j = ''queued'' \<and> doomed jobs (pj_job_key j)}"
proof -
  define st where "st = doom_loop jobs (map pj_job_key (filter failed_for_good jobs), [])"
  have "doom_inv jobs (map pj_job_key (filter failed_for_good jobs), [])"
    unfolding doom_inv_def
  proof (intro conjI)
    show "set (snd (map pj_job_key (filter failed_for_good jobs), [])) =
        pj_id ` {j \<in> set jobs. pj_status j = ''queued'' \<and> pj_job_key j \<in> set (fst (map pj_job_key (filter failed_for_good jobs), []))}"
      using key_inj [OF assms] by (fastforce simp: failed_for_good_def)
  qed (auto intro: doomed.root)
  from doom_loop_result [OF assms this]
  have inv: "doom_inv jobs st"
    and closed: "\<And>j. j \<in> set jobs \<Longrightarrow> pj_status j = ''queued'' \<Longrightarrow>
      list_ex (\<lambda>n. n \<in> set (fst st)) (pj_needs j) \<Longrightarrow> pj_job_key j \<in> set (fst st)"
    by (auto simp: st_def)
  have "k \<in> set (fst st)" if "doomed jobs k" for k
    using that
  proof induction
    case (root j)
    then show ?case using inv by (simp add: doom_inv_def)
  next
    case (dep j need)
    then show ?case using closed by (auto simp: list_ex_iff)
  qed
  then have "set (fst st) = {k. doomed jobs k}" using inv by (auto simp: doom_inv_def)
  with inv show ?thesis by (simp add: to_skip_def st_def [symmetric] doom_inv_def)
qed

end
