(* ===== verification/Cancel.thy ===== *)
theory Cancel
  imports Ledger SkipDeps
begin

text \<open>
  Cancelling a pipeline none of whose runners can be reached: the call returns, every job of
  the pipeline ends and the pipeline is completed as cancelled.
\<close>

section \<open>What the hooks leave of the job table\<close>

text \<open>The columns of a job that the state machine reads.\<close>

definition job_core :: "Db \<Rightarrow> (uuid \<times> uuid \<times> rstr \<times> rstr option \<times> uuid option) list" where
  "job_core db = map (\<lambda>j. (pj_id j, pj_pipeline_id j, pj_status j, pj_conclusion j, pj_runner_id j)) (db_jobs db)"

definition same_jobs :: "AppState \<Rightarrow> AppState \<Rightarrow> bool" where
  "same_jobs s s' \<longleftrightarrow> job_core (st_db s') = job_core (st_db s)"

interpretation sj: state_order same_jobs
  by unfold_locales (auto simp: same_jobs_def)

lemma job_core_jobs: "db_jobs db' = db_jobs db \<Longrightarrow> job_core db' = job_core db"
  by (simp add: job_core_def)

lemma write_chunk_core: "job_core (snd (snd (write_chunk now mx pid jid seq m at ls))) = job_core (snd ls)"
proof -
  have "job_core (snd (add_log_bytes db jid n)) = job_core db" for db n
    by (auto simp: add_log_bytes_def job_core_def Let_def update_where_def split: option.splits)
  then show ?thesis
    by (auto simp: write_chunk_def put_chunk_def insert_chunk_def Let_def case_prod_unfold job_core_def
        split: sum.splits option.splits)
qed

lemma finish_job_core: "job_core (snd (snd (finish_job now mx pid jid ls))) = job_core (snd ls)"
  by (auto simp: finish_job_def write_chunk_core Let_def case_prod_unfold split: sum.splits option.splits)

lemma flush_logs_core: "same_jobs s (snd (flush_logs job s))"
  by (simp add: flush_logs_def with_logs_def same_jobs_def finish_job_core Let_def case_prod_unfold)

lemma record_event_jobs [simp]: "db_jobs (st_db (record_event pid jid t a b rid actor payload s)) = db_jobs (st_db s)"
  by (simp add: record_event_def append_def Let_def)

lemma audit_jobs [simp]: "db_jobs (st_db (audit a s)) = db_jobs (st_db s)"
  by (simp add: audit_def add_audit_def)

lemma release_runner_jobs [simp]: "db_jobs (st_db (release_runner r s)) = db_jobs (st_db s)"
  by (simp add: release_runner_def release_def upd_runners_def split: option.splits)

lemma maybe_finalize_jobs [simp]: "db_jobs (st_db (maybe_finalize pid s)) = db_jobs (st_db s)"
  by (auto simp: maybe_finalize_def with_db_def finalize_def upd_pipeline_def Let_def case_prod_unfold split: option.splits)

lemma maybe_finalize_core [simp]: "job_core (st_db (maybe_finalize pid s)) = job_core (st_db s)"
  by (simp add: job_core_def)

text \<open>A pipeline without queued jobs has no dependents to skip.\<close>

definition none_queued :: "uuid \<Rightarrow> AppState \<Rightarrow> bool" where
  "none_queued pid s \<longleftrightarrow> list_all (\<lambda>(i, p, st, con, r). p = pid \<longrightarrow> st \<noteq> ''queued'') (job_core (st_db s))"

lemma none_queued_same: "same_jobs s s' \<Longrightarrow> none_queued pid s' = none_queued pid s"
  by (simp add: none_queued_def same_jobs_def)

lemma doom_fold_none: "\<forall>j\<in>set js. pj_status j \<noteq> ''queued'' \<Longrightarrow> fold doom_step js st = st"
  by (induction js arbitrary: st) (simp_all add: doom_step_def)

lemma skip_dependents_none: "none_queued pid s \<Longrightarrow> skip_dependents pid s = s"
proof -
  assume "none_queued pid s"
  then have "\<forall>j\<in>set (list_for_pipeline (st_db s) pid). pj_status j \<noteq> ''queued''"
    by (auto simp: none_queued_def job_core_def list_all_iff list_for_pipeline_def)
  then have "to_skip (list_for_pipeline (st_db s) pid) = []"
    by (simp add: to_skip_def doom_loop.simps doom_pass_def doom_fold_none)
  then show ?thesis by (simp add: skip_dependents_def)
qed

text \<open>Flushing the log of a job that exists cannot fail.\<close>

lemma flush_logs_ok: "\<exists>j\<in>set (db_jobs (st_db s)). pj_id j = pj_id job \<Longrightarrow> fst (flush_logs job s) = Inr ()"
  by (auto simp: flush_logs_def with_logs_def finish_job_def write_chunk_def add_log_bytes_def returning_Nil Let_def
      case_prod_unfold split: sum.splits option.splits)


section \<open>One unreachable runner\<close>

definition unreachable :: "RunnerHub \<Rightarrow> uuid \<Rightarrow> bool" where
  "unreachable h rid \<longleftrightarrow> (case map_of (rh_connections h) rid of
     None \<Rightarrow> True
   | Some c \<Rightarrow> \<not> ch_open (rh_channels h ! c) \<or> RUNNER_QUEUE \<le> length (ch_queue (rh_channels h ! c)))"

lemma hub_send_fails: "unreachable h rid \<Longrightarrow> hub_send h rid m = (False, h)"
  by (auto simp: unreachable_def hub_send_def Let_def split: option.splits)

lemma runner_hub_same [simp]:
  "st_runner_hub (publish_log pid ev s) = st_runner_hub s" "st_runner_hub (spawn t s) = st_runner_hub s"
  "st_runner_hub (publish_ws ws wev s) = st_runner_hub s" "st_runner_hub (poke s) = st_runner_hub s"
  "st_runner_hub (publish_job job s) = st_runner_hub s" "st_runner_hub (publish_pipeline p s) = st_runner_hub s"
  "st_runner_hub (spawn_checks t s) = st_runner_hub s" "st_runner_hub (spawn_archive job s) = st_runner_hub s"
  "st_runner_hub (audit a s) = st_runner_hub s" "st_runner_hub (release_runner r s) = st_runner_hub s"
  "st_runner_hub (snd (with_db f s)) = st_runner_hub s" "st_runner_hub (snd (flush_logs job s)) = st_runner_hub s"
  by (simp_all add: publish_log_def spawn_def publish_ws_def poke_def publish_job_def publish_pipeline_def
      spawn_checks_def spawn_archive_def audit_def release_runner_def with_db_def flush_logs_def with_logs_def
      Let_def case_prod_unfold split: option.splits)

lemma runner_hub_event [simp]: "st_runner_hub (record_event pid jid t a b rid actor payload s) = st_runner_hub s"
  by (simp add: record_event_def append_def Let_def)

lemma runner_hub_finalize [simp]: "st_runner_hub (maybe_finalize pid s) = st_runner_hub s"
proof -
  show ?thesis
  proof (cases "compute_conclusion (statuses_for_pipeline (st_db s) pid)")
    case None
    then show ?thesis by (simp add: maybe_finalize_def)
  next
    case (Some c)
    obtain x s' where w: "with_db (finalize (st_now s) pid c) s = (x, s')" by fastforce
    with runner_hub_same(11) [of "finalize (st_now s) pid c" s] have "st_runner_hub s' = st_runner_hub s" by simp
    then show ?thesis by (cases x) (simp_all add: maybe_finalize_def Some w)
  qed
qed

text \<open>
  While a pipeline is being cancelled none of its jobs is queued, and if it is completed at
  all, it is completed as cancelled.
\<close>

definition cancelling :: "uuid \<Rightarrow> AppState \<Rightarrow> bool" where
  "cancelling pid s \<longleftrightarrow> none_queued pid s \<and> distinct (map fst (job_core (st_db s))) \<and>
     list_all (\<lambda>p. pl_id p = pid \<longrightarrow> pl_status p = ''completed'' \<longrightarrow> pl_conclusion p = Some ''cancelled'')
       (db_pipelines (st_db s))"

definition has_cancelled :: "uuid \<Rightarrow> AppState \<Rightarrow> bool" where
  "has_cancelled pid s \<longleftrightarrow>
     list_ex (\<lambda>(i, p, st, con, r). p = pid \<and> st = ''completed'' \<and> con = Some ''cancelled'') (job_core (st_db s))"

lemma cancelling_quiet: "same_jobs s s' \<Longrightarrow> quiet s s' \<Longrightarrow> cancelling pid s' = cancelling pid s"
  by (simp add: cancelling_def none_queued_def same_jobs_def quiet_def)

lemma compute_cancelled:
  assumes "has_cancelled pid s" "compute_conclusion (statuses_for_pipeline (st_db s) pid) = Some c"
  shows "c = ''cancelled''"
proof -
  have "list_ex (\<lambda>st. snd st = Some ''cancelled'') (statuses_for_pipeline (st_db s) pid)"
    using assms(1) by (auto simp: has_cancelled_def job_core_def statuses_for_pipeline_def list_ex_iff)
  with assms(2) show ?thesis by (simp add: compute_conclusion_def Let_def split: if_splits)
qed

lemma maybe_finalize_rows:
  "db_pipelines (st_db (maybe_finalize pid s)) =
     (case compute_conclusion (statuses_for_pipeline (st_db s) pid) of
        None \<Rightarrow> db_pipelines (st_db s)
      | Some c \<Rightarrow> update_where (open_pipeline pid) (complete_with (st_now s) c) (db_pipelines (st_db s)))"
  by (auto simp: maybe_finalize_def with_db_def finalize_def upd_pipeline_def Let_def case_prod_unfold split: option.splits)

lemma cancelling_finalize:
  assumes "cancelling pid s" "has_cancelled pid s"
  shows "cancelling pid (maybe_finalize pid s)"
proof -
  have "same_jobs s (maybe_finalize pid s)" by (simp add: same_jobs_def job_core_def)
  moreover have "list_all (\<lambda>p. pl_id p = pid \<longrightarrow> pl_status p = ''completed'' \<longrightarrow> pl_conclusion p = Some ''cancelled'')
       (db_pipelines (st_db (maybe_finalize pid s)))"
  proof (cases "compute_conclusion (statuses_for_pipeline (st_db s) pid)")
    case None
    with assms(1) show ?thesis by (simp add: maybe_finalize_rows cancelling_def)
  next
    case (Some c)
    with compute_cancelled [OF assms(2)] have "c = ''cancelled''" by blast
    then have rows: "db_pipelines (st_db (maybe_finalize pid s)) =
        update_where (open_pipeline pid) (complete_with (st_now s) ''cancelled'') (db_pipelines (st_db s))"
      by (simp add: maybe_finalize_rows Some)
    have "pl_conclusion q = Some ''cancelled''" if "q \<in> set (db_pipelines (st_db (maybe_finalize pid s)))"
      "pl_id q = pid" "pl_status q = ''completed''" for q
    proof -
      from that(1) obtain r where r: "r \<in> set (db_pipelines (st_db s))"
        "q = (if open_pipeline pid r then complete_with (st_now s) ''cancelled'' r else r)"
        unfolding rows set_update_where by blast
      from assms(1) r(1) have "pl_id r = pid \<longrightarrow> pl_status r = ''completed'' \<longrightarrow> pl_conclusion r = Some ''cancelled''"
        by (simp add: cancelling_def list_all_iff)
      with r(2) that(2,3) show ?thesis by (cases "open_pipeline pid r") (simp_all add: complete_with_def)
    qed
    then show ?thesis by (simp add: list_all_iff)
  qed
  ultimately show ?thesis using assms(1) by (simp add: cancelling_def none_queued_def same_jobs_def)
qed

text \<open>The end of a job of a pipeline that is being cancelled.\<close>

lemma finished_while_cancelling:
  assumes "cancelling pid s" "has_cancelled pid s" "pj_pipeline_id job = pid"
    and "\<exists>j\<in>set (db_jobs (st_db s)). pj_id j = pj_id job"
  shows "fst (on_job_finished job s) = Inr () \<and> cancelling pid (snd (on_job_finished job s)) \<and>
    same_jobs s (snd (on_job_finished job s)) \<and>
    st_runner_hub (snd (on_job_finished job s)) = st_runner_hub s"
proof -
  obtain s1 where fl: "flush_logs job s = (Inr (), s1)"
    using flush_logs_ok [OF assms(4)] by (metis prod.collapse)
  have s1: "same_jobs s s1" "quiet s s1" "st_runner_hub s1 = st_runner_hub s"
    using flush_logs_core [of s job] quiet_flush_logs [of s job] runner_hub_same(12) [of job s] by (simp_all add: fl)
  define c where "c = (case pj_conclusion job of None \<Rightarrow> ''failure'' | Some c \<Rightarrow> c)"
  define s2 where "s2 = publish_job job (record_event pid (Some (pj_id job)) ''job.completed'' (Some ''in_progress'')
                 (Some c) (pj_runner_id job) None
                 (jobj [(''exitCode'', jopt jint (pj_exit_code job)),
                    (''errorCategory'', jopt JStr (pj_error_category job)),
                    (''attempt'', jint (pj_attempt job))]) (release_runner (pj_runner_id job) s1))"
  have s2: "same_jobs s1 s2" "quiet s1 s2" "st_runner_hub s2 = st_runner_hub s1"
    by (simp_all add: s2_def same_jobs_def job_core_def qt.trans [OF qt.trans [OF quiet_publish(11) quiet_record_event] quiet_publish(9)])
  have i2: "cancelling pid s2" "has_cancelled pid s2"
    using assms(1,2) cancelling_quiet [OF sj.trans [OF s1(1) s2(1)] qt.trans [OF s1(2) s2(2)]] s1(1) s2(1)
    by (simp_all add: has_cancelled_def same_jobs_def)
  then have sk: "skip_dependents pid s2 = s2" by (simp add: skip_dependents_none cancelling_def)
  define s3 where "s3 = spawn_archive job s2"
  have i3: "cancelling pid s3" "has_cancelled pid s3" "same_jobs s2 s3" "st_runner_hub s3 = st_runner_hub s2"
    using i2 by (simp_all add: s3_def cancelling_def none_queued_def has_cancelled_def same_jobs_def)
  have eq: "on_job_finished job s = (Inr (), poke (maybe_finalize pid s3))"
    by (simp only: on_job_finished_def fl and_then_simps Let_def c_def [symmetric] s2_def [symmetric] assms(3) sk if_cancel
        s3_def [symmetric])
  have mf: "cancelling pid (maybe_finalize pid s3)" by (rule cancelling_finalize [OF i3(1,2)])
  have "same_jobs s (maybe_finalize pid s3)"
    using s1(1) s2(1) i3(3) by (simp add: same_jobs_def)
  with mf show ?thesis
    using s1(3) s2(3) i3(4) by (simp add: eq cancelling_def none_queued_def same_jobs_def)
qed


section \<open>The whole cancellation\<close>

type_synonym core = "uuid \<times> uuid \<times> rstr \<times> rstr option \<times> uuid option"

definition end_one :: "uuid \<Rightarrow> core \<Rightarrow> core" where
  "end_one jid = (\<lambda>(i, p, st, con, r).
     if i = jid \<and> st \<noteq> ''completed'' then (i, p, ''completed'', Some ''cancelled'', r) else (i, p, st, con, r))"

definition end_core :: "uuid \<Rightarrow> core list \<Rightarrow> core list" where
  "end_core jid = map (end_one jid)"

lemma force_finish_core: "job_core (snd (force_finish now jid ''cancelled'' cat db)) = end_core jid (job_core db)"
  by (auto simp: force_finish_def upd_defs job_core_def end_core_def end_one_def update_where_def)

lemma end_core_ids [simp]: "map fst (end_core jid c) = map fst c"
  by (auto simp: end_core_def end_one_def)

lemma force_finish_Some:
  assumes "fst (force_finish now jid c cat db) = Some f"
  shows "f \<in> set (db_jobs (snd (force_finish now jid c cat db))) \<and> pj_id f = jid \<and>
    pj_status f = ''completed'' \<and> pj_conclusion f = Some c \<and>
    (\<exists>j0\<in>set (db_jobs db). pj_id j0 = jid \<and> pj_status j0 \<noteq> ''completed'' \<and> pj_pipeline_id f = pj_pipeline_id j0)"
proof -
  let ?P = "\<lambda>j. pj_id j = jid \<and> pj_status j \<noteq> ''completed''"
  let ?f = "\<lambda>j. j\<lparr>pj_status := ''completed'', pj_conclusion := Some c, pj_stage := ''done'',
        pj_error_category := cat, pj_started_at := coalesce (pj_started_at j) now, pj_finished_at := Some now\<rparr>"
  have f: "f \<in> set (returning ?P ?f (db_jobs db))"
    using fetch_optional_Some assms by (simp add: force_finish_def upd_defs)
  with returning_in_table [of ?P ?f "db_jobs db"] have tab: "f \<in> set (db_jobs (snd (force_finish now jid c cat db)))"
    by (auto simp: force_finish_def upd_defs)
  from f obtain j0 where "j0 \<in> set (db_jobs db)" "?P j0" "f = ?f j0" unfolding set_returning by blast
  with tab show ?thesis by auto
qed

lemma end_core_none_queued:
  "list_all (\<lambda>(i, p, st, con, r). p = pid \<longrightarrow> st \<noteq> ''queued'') c \<Longrightarrow>
     list_all (\<lambda>(i, p, st, con, r). p = pid \<longrightarrow> st \<noteq> ''queued'') (end_core jid c)"
  by (induction c) (auto simp: end_core_def end_one_def split: if_splits)

lemma cancel_running_unreachable:
  assumes inv: "cancelling pid s" and j: "(pj_id job, pid, st, con, r) \<in> set (job_core (st_db s))"
    and un: "case pj_runner_id job of None \<Rightarrow> True | Some rid \<Rightarrow> unreachable (st_runner_hub s) rid"
  shows "fst (cancel_running job s) = Inr () \<and> cancelling pid (snd (cancel_running job s)) \<and>
    job_core (st_db (snd (cancel_running job s))) = end_core (pj_id job) (job_core (st_db s)) \<and>
    st_runner_hub (snd (cancel_running job s)) = st_runner_hub s"
proof -
  let ?jid = "pj_id job"
  have "cancel_running job s = force_end ?jid ''cancelled'' None s"
    using un by (auto simp: cancel_running_def send_runner_def hub_send_fails split: option.splits)
  moreover define db1 where "db1 = snd (force_finish (st_now s) ?jid ''cancelled'' None (st_db s))"
  define s1 where "s1 = s\<lparr>st_db := db1\<rparr>"
  have core: "job_core (st_db s1) = end_core ?jid (job_core (st_db s))" by (simp add: s1_def db1_def force_finish_core)
  have "quiet s s1" using quiet_jobs(4) [of s "st_now s" ?jid "''cancelled''" None]
    by (simp add: with_db_def case_prod_unfold Let_def s1_def db1_def)
  then have i1: "cancelling pid s1"
    using inv end_core_none_queued by (simp add: cancelling_def none_queued_def quiet_def core)
  show ?thesis
  proof (cases "fst (force_finish (st_now s) ?jid ''cancelled'' None (st_db s))")
    case None
    then have "force_end ?jid ''cancelled'' None s = (Inr (), s1)"
      by (simp add: force_end_def with_db_def case_prod_unfold Let_def s1_def db1_def)
    with calculation i1 core show ?thesis by (simp add: s1_def)
  next
    case (Some f)
    then have fe: "force_end ?jid ''cancelled'' None s = on_job_finished f s1"
      by (simp add: force_end_def with_db_def case_prod_unfold Let_def s1_def db1_def)
    from force_finish_Some [OF Some] obtain j0 where j0: "j0 \<in> set (db_jobs (st_db s))" "pj_id j0 = ?jid" "pj_status j0 \<noteq> ''completed''"
      and f: "pj_id f = ?jid" "pj_pipeline_id f = pj_pipeline_id j0" "f \<in> set (db_jobs db1)"
      "pj_status f = ''completed''" "pj_conclusion f = Some ''cancelled''"
      unfolding db1_def by blast
    have "(?jid, pj_pipeline_id j0, pj_status j0, pj_conclusion j0, pj_runner_id j0) \<in> set (job_core (st_db s))"
      unfolding job_core_def j0(2) [symmetric] using j0(1) by simp
    with inv j have "pj_pipeline_id j0 = pid"
      by (auto simp: cancelling_def dest: eq_key_imp_eq_value)
    with f have fp: "pj_pipeline_id f = pid" by simp
    have hc: "has_cancelled pid s1"
      unfolding has_cancelled_def list_ex_iff job_core_def using f fp by (fastforce simp: s1_def)
    have ex: "\<exists>j\<in>set (db_jobs (st_db s1)). pj_id j = pj_id f" using f(3) by (auto simp: s1_def)
    have hub: "st_runner_hub s1 = st_runner_hub s" by (simp add: s1_def)
    show ?thesis
      using finished_while_cancelling [OF i1 hc fp ex] by (simp add: calculation fe same_jobs_def core hub)
  qed
qed


lemma in_end_core:
  assumes "(i, p, st, con, r) \<in> set c"
  shows "\<exists>st' con'. (i, p, st', con', r) \<in> set (end_core jid c) \<and>
     (st = ''completed'' \<longrightarrow> st' = st \<and> con' = con) \<and>
     (i = jid \<longrightarrow> st' = ''completed'' \<and> (st \<noteq> ''completed'' \<longrightarrow> con' = Some ''cancelled''))"
proof -
  from assms have "end_one jid (i, p, st, con, r) \<in> set (end_core jid c)" by (simp add: end_core_def)
  then show ?thesis by (cases "i = jid \<and> st \<noteq> ''completed''") (auto simp: end_one_def)
qed

lemma of_end_core:
  assumes "(i, p, st', con', r) \<in> set (end_core jid c)"
  shows "\<exists>st con. (i, p, st, con, r) \<in> set c \<and>
     (st = ''completed'' \<longrightarrow> st' = ''completed'' \<and> con' = con) \<and>
     (i = jid \<longrightarrow> st' = ''completed'') \<and> (i \<noteq> jid \<longrightarrow> st' = st \<and> con' = con)"
proof -
  from assms obtain y where y: "y \<in> set c" "end_one jid y = (i, p, st', con', r)" by (auto simp: end_core_def)
  obtain i0 p0 st con r0 where "y = (i0, p0, st, con, r0)" by (cases y)
  with y show ?thesis by (cases "i0 = jid \<and> st \<noteq> ''completed''") (auto simp: end_one_def)
qed

lemma cancel_all_unreachable:
  assumes "cancelling pid s" "\<forall>j\<in>set js. \<exists>st con r. (pj_id j, pid, st, con, r) \<in> set (job_core (st_db s))"
    and "\<forall>j\<in>set js. case pj_runner_id j of None \<Rightarrow> True | Some rid \<Rightarrow> unreachable (st_runner_hub s) rid"
  shows "fst (for_each cancel_running js s) = Inr () \<and> cancelling pid (snd (for_each cancel_running js s)) \<and>
    job_core (st_db (snd (for_each cancel_running js s))) = fold end_core (map pj_id js) (job_core (st_db s))"
  using assms
proof (induction js arbitrary: s)
  case (Cons j js)
  obtain st con r where j: "(pj_id j, pid, st, con, r) \<in> set (job_core (st_db s))" using Cons.prems(2) by auto
  define s1 where "s1 = snd (cancel_running j s)"
  have c1: "fst (cancel_running j s) = Inr ()" "cancelling pid s1"
    "job_core (st_db s1) = end_core (pj_id j) (job_core (st_db s))" "st_runner_hub s1 = st_runner_hub s"
    using cancel_running_unreachable [OF Cons.prems(1) j] Cons.prems(3) by (auto simp: s1_def)
  have "cancel_running j s = (Inr (), s1)" using c1(1) by (simp add: s1_def prod_eq_iff)
  moreover have ex1: "\<forall>i\<in>set js. \<exists>st con r. (pj_id i, pid, st, con, r) \<in> set (job_core (st_db s1))"
    using Cons.prems(2) in_end_core unfolding c1(3) by (metis list.set_intros(2))
  have un1: "\<forall>i\<in>set js. case pj_runner_id i of None \<Rightarrow> True | Some rid \<Rightarrow> unreachable (st_runner_hub s1) rid"
    unfolding c1(4) using Cons.prems(3) by simp
  from Cons.IH [OF c1(2) ex1 un1] calculation show ?case by (simp add: c1(3))
qed simp

lemma fold_end_core_done:
  "(i, p, st, con, r) \<in> set (fold end_core ids c) \<Longrightarrow> st \<noteq> ''completed'' \<Longrightarrow> i \<notin> set ids \<and> (i, p, st, con, r) \<in> set c"
proof (induction ids arbitrary: c)
  case (Cons j ids)
  then have "i \<notin> set ids" "(i, p, st, con, r) \<in> set (end_core j c)" by auto
  with of_end_core [OF this(2)] Cons.prems(2) show ?case by auto
qed simp

lemma fold_end_core_keeps: "(i, p, ''completed'', con, r) \<in> set c \<Longrightarrow> (i, p, ''completed'', con, r) \<in> set (fold end_core ids c)"
proof (induction ids arbitrary: c)
  case (Cons j ids)
  from in_end_core [OF Cons.prems, of j] Cons.IH show ?case by auto
qed simp

lemma fold_end_core_cancels:
  "(i, p, st, con, r) \<in> set c \<Longrightarrow> st \<noteq> ''completed'' \<Longrightarrow> i \<in> set ids \<Longrightarrow>
     (i, p, ''completed'', Some ''cancelled'', r) \<in> set (fold end_core ids c)"
proof (induction ids arbitrary: c st con)
  case (Cons j ids)
  from in_end_core [OF Cons.prems(1), of j] obtain st' con' where e: "(i, p, st', con', r) \<in> set (end_core j c)"
    "i = j \<longrightarrow> st' = ''completed'' \<and> con' = Some ''cancelled''" using Cons.prems(2) by auto
  show ?case
  proof (cases "i = j")
    case True
    with e fold_end_core_keeps show ?thesis by simp
  next
    case False
    have "(i, p, st, con, r) \<in> set (end_core j c)"
      using Cons.prems(1) False by (force simp: end_core_def end_one_def)
    with Cons False show ?thesis by simp
  qed
qed simp


text \<open>A pipeline whose jobs have all ended, one of them cancelled, settles as cancelled.\<close>

definition all_ended :: "uuid \<Rightarrow> AppState \<Rightarrow> bool" where
  "all_ended pid s \<longleftrightarrow> list_all (\<lambda>(i, p, st, con, r). p = pid \<longrightarrow> st = ''completed'') (job_core (st_db s))"

lemma settle_cancelled:
  assumes "cancelling pid s" "has_cancelled pid s" "all_ended pid s" "q \<in> set (db_pipelines (st_db (maybe_finalize pid s)))"
    "pl_id q = pid"
  shows "pl_status q = ''completed'' \<and> pl_conclusion q = Some ''cancelled''"
proof -
  let ?sts = "statuses_for_pipeline (st_db s) pid"
  have "?sts \<noteq> []" using assms(2)
    by (auto simp: has_cancelled_def job_core_def statuses_for_pipeline_def list_ex_iff filter_empty_conv)
  moreover have "\<not> list_ex (\<lambda>st. fst st \<noteq> ''completed'') ?sts" using assms(3)
    by (auto simp: all_ended_def job_core_def statuses_for_pipeline_def list_ex_iff list_all_iff)
  ultimately have "compute_conclusion ?sts = Some ''cancelled''"
    using compute_cancelled [OF assms(2)] by (fastforce simp: compute_conclusion_def Let_def)
  then have rows: "db_pipelines (st_db (maybe_finalize pid s)) =
      update_where (open_pipeline pid) (complete_with (st_now s) ''cancelled'') (db_pipelines (st_db s))"
    by (simp add: maybe_finalize_rows)
  from assms(4) obtain r where r: "r \<in> set (db_pipelines (st_db s))"
    "q = (if open_pipeline pid r then complete_with (st_now s) ''cancelled'' r else r)"
    unfolding rows set_update_where by blast
  with assms(1,5) show ?thesis
    by (cases "open_pipeline pid r") (auto simp: complete_with_def open_pipeline_def cancelling_def list_all_iff)
qed

lemma cancelled_one_same [simp]:
  "db_jobs (st_db (fold (cancelled_one pid actor payload) js s)) = db_jobs (st_db s)"
  "db_pipelines (st_db (fold (cancelled_one pid actor payload) js s)) = db_pipelines (st_db s)"
  "st_runner_hub (fold (cancelled_one pid actor payload) js s) = st_runner_hub s"
  by (induction js arbitrary: s) (simp_all add: cancelled_one_def)

definition known_statuses :: "Db \<Rightarrow> bool" where
  "known_statuses db \<longleftrightarrow>
     list_all (\<lambda>j. pj_status j \<in> {''queued'', ''in_progress'', ''completed''}) (db_jobs db)"

definition unfinished :: "uuid \<Rightarrow> Db \<Rightarrow> bool" where
  "unfinished pid db \<longleftrightarrow> list_ex (\<lambda>j. pj_pipeline_id j = pid \<and> pj_status j \<noteq> ''completed'') (db_jobs db) \<and>
     list_all (\<lambda>q. pl_id q = pid \<longrightarrow> pl_status q \<noteq> ''completed'') (db_pipelines db)"

definition no_runner_reachable :: "uuid \<Rightarrow> AppState \<Rightarrow> bool" where
  "no_runner_reachable pid s \<longleftrightarrow> list_all
     (\<lambda>j. case pj_runner_id j of None \<Rightarrow> True | Some rid \<Rightarrow> unreachable (st_runner_hub s) rid)
     (running_for_pipeline (st_db s) pid)"

text \<open>The state after the queued jobs are cancelled.\<close>

lemma cancel_queued_state:
  assumes "distinct (map pj_id (db_jobs (st_db s)))" "known_statuses (st_db s)" "unfinished pid (st_db s)"
    and "s1 = snd (with_db (cancel_queued now pid) s)"
  shows "cancelling pid s1" "running_for_pipeline (st_db s1) pid = running_for_pipeline (st_db s) pid"
    and "\<exists>i st con r. (i, pid, st, con, r) \<in> set (job_core (st_db s1)) \<and>
      (st = ''completed'' \<and> con = Some ''cancelled'' \<or>
       st \<noteq> ''completed'' \<and> i \<in> pj_id ` set (running_for_pipeline (st_db s) pid))"
    and "\<And>i st con r. (i, pid, st, con, r) \<in> set (job_core (st_db s1)) \<Longrightarrow> st \<noteq> ''completed'' \<Longrightarrow>
      i \<in> pj_id ` set (running_for_pipeline (st_db s) pid)"
proof -
  let ?P = "\<lambda>j. pj_pipeline_id j = pid \<and> pj_status j = ''queued''"
  have jobs: "db_jobs (st_db s1) = update_where ?P (conclude_queued now ''cancelled'') (db_jobs (st_db s))"
    and pls: "db_pipelines (st_db s1) = db_pipelines (st_db s)"
    by (simp_all add: assms(4) with_db_def case_prod_unfold Let_def cancel_queued_def upd_defs)
  have ids: "map pj_id (update_where ?P (conclude_queued now ''cancelled'') js) = map pj_id js" for js
    by (rule map_update_where) (simp add: conclude_queued_def)
  have row: "\<exists>j0\<in>set (db_jobs (st_db s)). j = (if ?P j0 then conclude_queued now ''cancelled'' j0 else j0)"
    if "j \<in> set (db_jobs (st_db s1))" for j
    using that unfolding jobs set_update_where by blast
  have "pj_status j \<noteq> ''queued''" if "j \<in> set (db_jobs (st_db s1))" "pj_pipeline_id j = pid" for j
  proof -
    from row [OF that(1)] obtain j0 where "j = (if ?P j0 then conclude_queued now ''cancelled'' j0 else j0)" by blast
    with that(2) show ?thesis by (cases "?P j0") (auto simp: conclude_queued_def)
  qed
  then have "none_queued pid s1" by (auto simp: none_queued_def job_core_def list_all_iff)
  moreover have "map fst (job_core (st_db s1)) = map pj_id (db_jobs (st_db s))"
    using ids by (simp add: job_core_def jobs comp_def)
  ultimately show "cancelling pid s1"
    using assms(1,3) by (simp add: cancelling_def pls unfinished_def list_all_iff)
  have "filter (\<lambda>j. pj_pipeline_id j = pid \<and> pj_status j = ''in_progress'')
      (update_where ?P (conclude_queued now ''cancelled'') js) =
    filter (\<lambda>j. pj_pipeline_id j = pid \<and> pj_status j = ''in_progress'') js" for js
    by (induction js) (simp_all add: update_where_def conclude_queued_def)
  then show "running_for_pipeline (st_db s1) pid = running_for_pipeline (st_db s) pid"
    by (simp add: running_for_pipeline_def jobs)
  show rest: "i \<in> pj_id ` set (running_for_pipeline (st_db s) pid)"
    if "(i, pid, st, con, r) \<in> set (job_core (st_db s1))" "st \<noteq> ''completed''" for i st con r
  proof -
    from that(1) obtain j where "j \<in> set (db_jobs (st_db s1))" and j: "i = pj_id j" "pid = pj_pipeline_id j" "st = pj_status j"
      by (auto simp: job_core_def)
    with row obtain j0 where j0: "j0 \<in> set (db_jobs (st_db s))"
      "j = (if ?P j0 then conclude_queued now ''cancelled'' j0 else j0)" by blast
    then have "\<not> ?P j0" using j(3) that(2) by (auto simp: conclude_queued_def)
    with j0(2) have "j = j0" by (simp only: if_False)
    moreover note \<open>\<not> ?P j0\<close>
    moreover have "pj_status j0 \<in> {''queued'', ''in_progress'', ''completed''}"
      using assms(2) j0(1) by (simp add: known_statuses_def list_all_iff)
    ultimately show ?thesis using j j0(1) that(2) by (auto simp: running_for_pipeline_def)
  qed
  from assms(3) obtain j where j: "j \<in> set (db_jobs (st_db s))" "pj_pipeline_id j = pid" "pj_status j \<noteq> ''completed''"
    by (auto simp: unfinished_def list_ex_iff)
  define j1 where "j1 = (if ?P j then conclude_queued now ''cancelled'' j else j)"
  have "j1 \<in> set (db_jobs (st_db s1))" unfolding jobs set_update_where j1_def using j(1) by blast
  then have "(pj_id j1, pj_pipeline_id j1, pj_status j1, pj_conclusion j1, pj_runner_id j1) \<in> set (job_core (st_db s1))"
    by (simp add: job_core_def)
  moreover have "pj_pipeline_id j1 = pid" using j(2) by (simp add: j1_def conclude_queued_def)
  moreover have "pj_status j1 = ''completed'' \<and> pj_conclusion j1 = Some ''cancelled'' \<or> pj_status j1 \<noteq> ''completed''"
    using j(3) by (simp add: j1_def conclude_queued_def)
  ultimately show "\<exists>i st con r. (i, pid, st, con, r) \<in> set (job_core (st_db s1)) \<and>
      (st = ''completed'' \<and> con = Some ''cancelled'' \<or>
       st \<noteq> ''completed'' \<and> i \<in> pj_id ` set (running_for_pipeline (st_db s) pid))"
    using rest by metis
qed


text \<open>C35: Cancelling a pipeline whose runners cannot be reached finishes it.  For an open pipeline
  with an unfinished job, none of whose running jobs has a runner that accepts a message, the
  call returns without an error, every job of the pipeline has ended and the pipeline is
  completed with the conclusion cancelled.\<close>

theorem cancel_finishes_unreachable:
  assumes "distinct (map pj_id (db_jobs (st_db s)))" "known_statuses (st_db s)"
    and "unfinished (pl_id p) (st_db s)" "no_runner_reachable (pl_id p) s" "pl_status p \<noteq> ''completed''"
    and "cancel_pipeline p actor request_id s = (r, s')"
  shows "r = Inr () \<and> all_ended (pl_id p) s' \<and>
    list_all (\<lambda>q. pl_id q = pl_id p \<longrightarrow> pl_status q = ''completed'' \<and> pl_conclusion q = Some ''cancelled'')
      (db_pipelines (st_db s'))"
proof -
  let ?pid = "pl_id p"
  define s0 where "s0 = record_event ?pid None ''pipeline.cancel_requested'' None None None actor (JObj []) s"
  have s0: "db_jobs (st_db s0) = db_jobs (st_db s)" "db_pipelines (st_db s0) = db_pipelines (st_db s)"
    "st_runner_hub s0 = st_runner_hub s" by (simp_all add: s0_def)
  define c where "c = with_db (cancel_queued (st_now s0) ?pid) s0"
  have hub1: "st_runner_hub (snd c) = st_runner_hub s" by (simp add: c_def s0(3))
  have pre: "distinct (map pj_id (db_jobs (st_db s0)))" "known_statuses (st_db s0)" "unfinished ?pid (st_db s0)"
    using assms(1-3) by (simp_all add: s0 known_statuses_def unfinished_def)
  note q = cancel_queued_state [OF pre, of "snd c" "st_now s0", unfolded c_def, OF refl, folded c_def]
  define s2 where "s2 = fold (cancelled_one ?pid actor (JObj [])) (fst c) (snd c)"
  have core2: "job_core (st_db s2) = job_core (st_db (snd c))" by (simp add: s2_def job_core_def)
  have hub2: "st_runner_hub s2 = st_runner_hub s" by (simp add: s2_def hub1)
  have "cancelling ?pid s2" using q(1) core2 by (simp add: cancelling_def none_queued_def s2_def)
  define js where "js = running_for_pipeline (st_db s2) ?pid"
  have js: "js = running_for_pipeline (st_db s) ?pid" using q(2) by (simp add: js_def s2_def running_for_pipeline_def s0(1))
  define e where "e = for_each cancel_running js s2"
  have all: "fst e = Inr () \<and> cancelling ?pid (snd e) \<and>
      job_core (st_db (snd e)) = fold end_core (map pj_id js) (job_core (st_db s2))"
    unfolding e_def
  proof (rule cancel_all_unreachable [OF \<open>cancelling ?pid s2\<close>])
    show "\<forall>j\<in>set js. \<exists>st con r. (pj_id j, ?pid, st, con, r) \<in> set (job_core (st_db s2))"
    proof
      fix j assume "j \<in> set js"
      then have j: "j \<in> set (db_jobs (st_db s2))" "pj_pipeline_id j = ?pid" by (auto simp: js_def running_for_pipeline_def)
      have "(pj_id j, pj_pipeline_id j, pj_status j, pj_conclusion j, pj_runner_id j) \<in> set (job_core (st_db s2))"
        using j(1) by (simp add: job_core_def)
      with j(2) show "\<exists>st con r. (pj_id j, ?pid, st, con, r) \<in> set (job_core (st_db s2))" by auto
    qed
    show "\<forall>j\<in>set js. case pj_runner_id j of None \<Rightarrow> True | Some rid \<Rightarrow> unreachable (st_runner_hub s2) rid"
      using assms(4) unfolding hub2 js no_runner_reachable_def list_all_iff .
  qed
  have run0: "running_for_pipeline (st_db s0) ?pid = js" by (simp add: js running_for_pipeline_def s0(1))
  define f where "f = audit (pipeline_audit p actor ''pipeline.cancelled'' (jobj [(''number'', jint (pl_number p))]) request_id) (snd e)"
  have core_f: "job_core (st_db f) = fold end_core (map pj_id js) (job_core (st_db (snd c)))"
    using all core2 by (simp add: f_def job_core_def)
  have "job_core (st_db f) = job_core (st_db (snd e))" "db_pipelines (st_db f) = db_pipelines (st_db (snd e))"
    by (simp_all add: f_def job_core_def)
  moreover have "cancelling ?pid (snd e)" using all by blast
  ultimately have cf: "cancelling ?pid f" by (simp only: cancelling_def none_queued_def)
  have ended: "all_ended ?pid f"
    unfolding all_ended_def core_f list_all_iff
  proof (clarify, rule ccontr)
    fix i st con r
    assume i: "(i, ?pid, st, con, r) \<in> set (fold end_core (map pj_id js) (job_core (st_db (snd c))))" "st \<noteq> ''completed''"
    from fold_end_core_done [OF this] q(4) [unfolded run0, OF _ i(2)] show False by auto
  qed
  from q(3) [unfolded run0] obtain i st con rn where row: "(i, ?pid, st, con, rn) \<in> set (job_core (st_db (snd c)))"
    "st = ''completed'' \<and> con = Some ''cancelled'' \<or> st \<noteq> ''completed'' \<and> i \<in> pj_id ` set js" by blast
  have "(i, ?pid, ''completed'', Some ''cancelled'', rn) \<in> set (job_core (st_db f))"
    unfolding core_f using row(2)
  proof (elim disjE conjE)
    assume "st = ''completed''" "con = Some ''cancelled''"
    with row(1) fold_end_core_keeps show "(i, ?pid, ''completed'', Some ''cancelled'', rn) \<in> set (fold end_core (map pj_id js) (job_core (st_db (snd c))))" by simp
  next
    assume "st \<noteq> ''completed''" "i \<in> pj_id ` set js"
    with fold_end_core_cancels [OF row(1)] show "(i, ?pid, ''completed'', Some ''cancelled'', rn) \<in> set (fold end_core (map pj_id js) (job_core (st_db (snd c))))" by simp
  qed
  then have hf: "has_cancelled ?pid f" by (force simp: has_cancelled_def list_ex_iff)
  have "cancel_pipeline p actor request_id s = (Inr (), maybe_finalize ?pid f)"
  proof -
    have e: "fst e = Inr ()" using all by blast
    show ?thesis
      using assms(5)
      by (simp add: cancel_pipeline_def s0_def [symmetric] c_def [symmetric] s2_def [symmetric] js_def [symmetric]
          e_def [symmetric] case_prod_unfold Let_def) (simp add: and_then_def f_def e case_prod_unfold)
  qed
  with assms(6) have r: "r = Inr ()" "s' = maybe_finalize ?pid f" by simp_all
  moreover have "all_ended ?pid s'" using ended by (simp add: r(2) all_ended_def)
  ultimately show ?thesis using settle_cancelled [OF cf hf ended] by (simp add: list_all_iff)
qed


text \<open>
  A pipeline with a running job, whose runner is not connected, and a queued one.
\<close>

definition demo_pipelines_db :: Db where
  "demo_pipelines_db = snd (create_pipeline_row 5 10 [11, 12] demo_new demo_plans empty_db)"

definition demo_running_db :: Db where
  "demo_running_db = snd (upd_jobs (\<lambda>j. pj_id j = 11) (assign_to 6 3) demo_pipelines_db)"

definition demo_state :: AppState where
  "demo_state = \<lparr>st_db = demo_running_db, st_log_hub = LogHub_default, st_runner_hub = RunnerHub_default,
     st_workspace_hub = WorkspaceHub_new, st_poked = False, st_spawned = [], st_now = 7, st_max_log_bytes = 1000,
     st_checks_enabled = True, st_has_storage = True\<rparr>"

definition demo_pipeline :: Pipeline where
  "demo_pipeline = pl_selected (pipeline_row 5 10 1 demo_new)"

lemma demo_db_eval:
  "map (\<lambda>j. (pj_id j, pj_pipeline_id j, pj_status j, pj_runner_id j)) (db_jobs demo_running_db) =
     [(11, 10, ''in_progress'', Some 3), (12, 10, ''queued'', None)]"
  "map (\<lambda>q. (pl_id q, pl_status q)) (db_pipelines demo_running_db) = [(10, ''queued'')]"
  "done_ids demo_running_db = []"
  by code_simp+

lemma demo_ready:
  "distinct (map pj_id (db_jobs (st_db demo_state)))" "known_statuses (st_db demo_state)"
  "unfinished (pl_id demo_pipeline) (st_db demo_state)" "no_runner_reachable (pl_id demo_pipeline) demo_state"
  "pl_status demo_pipeline \<noteq> ''completed''" "ledger_ok (st_db demo_state)"
  by code_simp+

theorem cancel_finishes_unreachable_witness:
  "fst (cancel_pipeline demo_pipeline (Some 1) None demo_state) = Inr () \<and>
   all_ended 10 (snd (cancel_pipeline demo_pipeline (Some 1) None demo_state))"
proof -
  have "pl_id demo_pipeline = 10" by code_simp
  with cancel_finishes_unreachable [OF demo_ready(1-5) prod.collapse [symmetric], of "Some 1" None]
  show ?thesis by simp
qed

theorem pipeline_completes_once_witness:
  "ledger_ok (st_db (run_op (CancelPipeline demo_pipeline (Some 1) None) demo_state))"
  using pipeline_completes_once [OF demo_ready(6), of "[CancelPipeline demo_pipeline (Some 1) None]"] by simp

lemma img_pair: "j \<in> set js \<Longrightarrow> (pj_id j, pj_job_key j) \<in> set (map (\<lambda>j. (pj_id j, pj_job_key j)) js)"
  by simp

theorem to_skip_exact_witness:
  "doomed (db_jobs (snd (force_finish 8 11 ''failure'' None demo_running_db))) ''test''"
proof -
  let ?js = "db_jobs (snd (force_finish 8 11 ''failure'' None demo_running_db))"
  have d: "distinct (map pj_job_key ?js)" by code_simp
  have ids: "to_skip ?js = [12]" by code_simp
  have keys: "map (\<lambda>j. (pj_id j, pj_job_key j)) ?js = [(11, ''build''), (12, ''test'')]" by code_simp
  have "12 \<in> pj_id ` {j \<in> set ?js. pj_status j = ''queued'' \<and> doomed ?js (pj_job_key j)}"
    unfolding to_skip_exact [OF d, symmetric] ids by simp
  then obtain j where j: "j \<in> set ?js" "pj_id j = 12" "doomed ?js (pj_job_key j)" by auto
  from j(1) have "(pj_id j, pj_job_key j) \<in> set (map (\<lambda>j. (pj_id j, pj_job_key j)) ?js)" by (rule img_pair)
  with j(2,3) keys show ?thesis by simp
qed

end
