(* ===== verification/RunnerLife.thy ===== *)
theory RunnerLife
  imports JobMachine
begin

text \<open>
  The life of a runner row and the properties of registration: the moves of a row, the
  interface \<open>runner_table\<close> every statement on the runners table meets, revocation as a
  final state, what draining and disabling amount to, the hosted-runner quota and the
  one-shot bootstrap credential.
\<close>

section \<open>The moves of a row\<close>

text \<open>The columns scheduling depends on.\<close>

definition life :: "RunnerRow \<Rightarrow> uuid \<times> uuid \<times> rstr \<times> time option \<times> time option" where
  "life r = (rn_id r, rn_workspace_id r, rn_status r, rn_draining_at r, rn_revoked_at r)"

inductive runner_step :: "RunnerRow \<Rightarrow> RunnerRow \<Rightarrow> bool" where
  Other: "life r' = life r \<Longrightarrow> runner_step r r'"
| Connect: "rn_revoked_at r = None \<Longrightarrow>
     runner_step r (r\<lparr>rn_status := ''idle'', rn_version := Some v, rn_last_seen_at := Some t\<rparr>)"
| Offline: "runner_step r (r\<lparr>rn_status := ''offline''\<rparr>)"
| Occupy: "rn_status r = ''idle'' \<Longrightarrow> rn_revoked_at r = None \<Longrightarrow> runner_step r (make_busy r)"
| Release: "rn_status r = ''busy'' \<Longrightarrow>
     runner_step r (r\<lparr>rn_status := (if rn_draining_at r \<noteq> None then ''offline'' else ''idle''), rn_draining_at := None\<rparr>)"
| Drain: "rn_revoked_at r = None \<Longrightarrow> rn_draining_at r = None \<Longrightarrow> rn_status r \<in> {''idle'', ''busy''} \<Longrightarrow>
     runner_step r (r\<lparr>rn_draining_at := Some t,
       rn_status := (if rn_status r = ''idle'' then ''offline'' else rn_status r)\<rparr>)"
| Disable: "rn_revoked_at r = None \<Longrightarrow> rn_status r \<noteq> ''disabled'' \<Longrightarrow> runner_step r (r\<lparr>rn_status := ''disabled''\<rparr>)"
| Resume: "rn_revoked_at r = None \<Longrightarrow> rn_status r = ''disabled'' \<Longrightarrow> s \<in> {''idle'', ''offline''} \<Longrightarrow>
     runner_step r (r\<lparr>rn_status := s\<rparr>)"
| Revoke: "rn_revoked_at r = None \<Longrightarrow> runner_step r (r\<lparr>rn_revoked_at := Some t, rn_status := ''offline''\<rparr>)"

inductive_cases runner_stepE: "runner_step r r'"

definition runner_moves :: "Db \<Rightarrow> Db \<Rightarrow> bool" where
  "runner_moves db db' \<longleftrightarrow> list_all2 (runner_step\<^sup>*\<^sup>*) (db_runners db) (db_runners db')"

lemma runner_moves_refl [simp]: "runner_moves db db"
  by (simp add: runner_moves_def list_all2_same)

lemma runner_moves_trans: "runner_moves a b \<Longrightarrow> runner_moves b c \<Longrightarrow> runner_moves a c"
  unfolding runner_moves_def by (rule list_all2_trans [where ?P1.0 = "runner_step\<^sup>*\<^sup>*"]) auto

lemma runner_moves_cong:
  "db_runners db1 = db_runners db2 \<Longrightarrow> runner_moves db db1 \<longleftrightarrow> runner_moves db db2"
  by (simp add: runner_moves_def)

lemma update_where_moves:
  assumes "\<And>r. P r \<Longrightarrow> runner_step r (f r)"
  shows "list_all2 (runner_step\<^sup>*\<^sup>*) rows (update_where P f rows)"
proof -
  have "runner_step\<^sup>*\<^sup>* r (if P r then f r else r)" for r using assms by auto
  then show ?thesis by (simp add: update_where_def list_all2_conv_all_nth)
qed

lemma upd_runners_moves:
  assumes "\<And>r. P r \<Longrightarrow> runner_step r (f r)"
  shows "runner_moves db (upd_runners P f db)"
  using update_where_moves [OF assms] by (simp add: runner_moves_def upd_runners_def)

lemma audited_moves:
  assumes "\<And>r. P r \<Longrightarrow> runner_step r (f r)"
  shows "runner_moves db (snd (audited P f ws i a actor q db))"
  using upd_runners_moves [where db = db, OF assms]
  by (auto simp: audited_def add_audit_def runner_moves_def list_all2_same split: option.splits)

locale runner_table =
  fixes op :: "Db \<Rightarrow> Db"
  assumes moves: "runner_moves db (op db)"
begin

lemma row_moves: "i < length (db_runners db) \<Longrightarrow> runner_step\<^sup>*\<^sup>* (db_runners db ! i) (db_runners (op db) ! i)"
  using moves [of db] by (simp add: runner_moves_def list_all2_nthD)

end

interpretation claim_runner: runner_table "\<lambda>db. snd (claim_for_runner now jid rid db)" for now jid rid
proof
  fix db
  obtain res db' where c: "claim_for_runner now jid rid db = (res, db')" by fastforce
  show "runner_moves db (snd (claim_for_runner now jid rid db))"
  proof (cases res)
    case None
    then have "db' = db" using c by (auto simp: claim_for_runner_def case_prod_unfold split: option.splits if_splits)
    with c show ?thesis by simp
  next
    case (Some job)
    have "list_all2 (runner_step\<^sup>*\<^sup>*) (db_runners db) (update_where (idle_runner rid) make_busy (db_runners db))"
      by (rule update_where_moves) (simp add: idle_runner_def Occupy)
    with c Some claim_Some(2) [of now jid rid db job db'] show ?thesis by (simp add: runner_moves_def)
  qed
qed

text \<open>
  Every other statement also makes at most one move per row and never makes a row busy: only
  a claim occupies a runner.
\<close>

definition quiet_step :: "RunnerRow \<Rightarrow> RunnerRow \<Rightarrow> bool" where
  "quiet_step r r' \<longleftrightarrow> runner_step r r' \<and> (rn_status r' = ''busy'' \<longrightarrow> rn_status r = ''busy'')"

locale quiet_table = runner_table +
  assumes quiet: "list_all2 quiet_step (db_runners db) (db_runners (op db))"
begin

lemma row_quiet: "i < length (db_runners db) \<Longrightarrow> quiet_step (db_runners db ! i) (db_runners (op db) ! i)"
  using quiet [of db] by (simp add: list_all2_nthD)

end

lemma upd_runners_quiet:
  assumes "\<And>r. P r \<Longrightarrow> runner_step r (f r)" "\<And>r. P r \<Longrightarrow> rn_status (f r) = ''busy'' \<Longrightarrow> rn_status r = ''busy''"
  shows "quiet_table (upd_runners P f)"
proof
  fix db
  show "runner_moves db (upd_runners P f db)" by (rule upd_runners_moves [OF assms(1)])
  have "quiet_step r (if P r then f r else r)" for r
    using assms by (auto simp: quiet_step_def intro: Other)
  then show "list_all2 quiet_step (db_runners db) (db_runners (upd_runners P f db))"
    by (simp add: upd_runners_def update_where_def list_all2_conv_all_nth)
qed

lemma audited_quiet:
  assumes "\<And>r. P r \<Longrightarrow> runner_step r (f r)" "\<And>r. P r \<Longrightarrow> rn_status (f r) = ''busy'' \<Longrightarrow> rn_status r = ''busy''"
  shows "quiet_table (\<lambda>db. snd (audited P f ws i a actor q db))"
proof
  fix db
  show "runner_moves db (snd (audited P f ws i a actor q db))" by (rule audited_moves [OF assms(1)])
  have "list_all2 quiet_step (db_runners db) (db_runners (upd_runners P f db))"
    by (rule quiet_table.quiet [OF upd_runners_quiet]) (fact assms)+
  then show "list_all2 quiet_step (db_runners db) (db_runners (snd (audited P f ws i a actor q db)))"
    by (auto simp: audited_def add_audit_def quiet_step_def Other list_all2_same split: option.splits)
qed

interpretation connect: quiet_table "mark_connected now i v" for now i v
  unfolding mark_connected_def by (rule upd_runners_quiet) (simp_all add: Connect)

interpretation labels: quiet_table "update_labels i ls" for i ls
  unfolding update_labels_def by (rule upd_runners_quiet) (simp_all add: Other life_def)

interpretation touch: quiet_table "touch_last_seen now i" for now i
  unfolding touch_last_seen_def by (rule upd_runners_quiet) (simp_all add: Other life_def)

interpretation health: quiet_table "touch_last_seen_with_health now i h" for now i h
  unfolding touch_last_seen_with_health_def by (rule upd_runners_quiet) (simp_all add: Other life_def)

interpretation offline: quiet_table "mark_offline i" for i
  unfolding mark_offline_def by (rule upd_runners_quiet) (simp_all add: Offline)

interpretation all_offline: quiet_table mark_all_offline
  unfolding mark_all_offline_def by (rule upd_runners_quiet) (simp_all add: Offline)

interpretation rel: quiet_table "release i" for i
  unfolding release_def by (rule upd_runners_quiet) (rule Release, simp, simp split: if_splits)

interpretation drain: quiet_table "\<lambda>db. snd (drain_start now ws i actor q db)" for now ws i actor q
  unfolding drain_start_def by (rule audited_quiet) (rule Drain, auto split: if_splits)

interpretation dis: quiet_table "\<lambda>db. snd (disable ws i actor q db)" for ws i actor q
  unfolding disable_def by (rule audited_quiet) (simp_all add: Disable)

interpretation res: quiet_table "\<lambda>db. snd (resume ws i connected actor q db)" for ws i connected actor q
  unfolding resume_def by (rule audited_quiet) (rule Resume, auto split: if_splits)

interpretation revoke: quiet_table "\<lambda>db. snd (revoke_for_workspace now ws i actor q db)" for now ws i actor q
  unfolding revoke_for_workspace_def by (rule audited_quiet) (simp_all add: Revoke)

interpretation exchange: quiet_table "\<lambda>db. snd (exchange_bootstrap_token i h db)" for i h
  unfolding exchange_bootstrap_token_def Let_def snd_conv
  by (rule upd_runners_quiet) (simp_all add: Other life_def)

interpretation retoken: quiet_table "\<lambda>db. snd (regenerate_token ws i h actor q db)" for ws i h actor q
  unfolding regenerate_token_def by (rule audited_quiet) (simp_all add: Other life_def)

section \<open>Any sequence of statements\<close>

datatype RunnerOp =
    RClaim uuid uuid
  | RConnect uuid rstr
  | RLabels uuid "rstr list"
  | RTouch uuid
  | RHealth uuid json
  | ROffline uuid
  | RAllOffline
  | RRelease uuid
  | RDrain uuid uuid uuid
  | RDisable uuid uuid uuid
  | RResume uuid uuid bool uuid
  | RRevoke uuid uuid uuid
  | RExchange uuid rstr
  | RRetoken uuid uuid rstr uuid

fun runner_op :: "time \<times> RunnerOp \<Rightarrow> Db \<Rightarrow> Db" where
  "runner_op (now, RClaim jid rid) db = snd (claim_for_runner now jid rid db)"
| "runner_op (now, RConnect i v) db = mark_connected now i v db"
| "runner_op (now, RLabels i ls) db = update_labels i ls db"
| "runner_op (now, RTouch i) db = touch_last_seen now i db"
| "runner_op (now, RHealth i h) db = touch_last_seen_with_health now i h db"
| "runner_op (now, ROffline i) db = mark_offline i db"
| "runner_op (now, RAllOffline) db = mark_all_offline db"
| "runner_op (now, RRelease i) db = release i db"
| "runner_op (now, RDrain ws i actor) db = snd (drain_start now ws i actor None db)"
| "runner_op (now, RDisable ws i actor) db = snd (disable ws i actor None db)"
| "runner_op (now, RResume ws i connected actor) db = snd (resume ws i connected actor None db)"
| "runner_op (now, RRevoke ws i actor) db = snd (revoke_for_workspace now ws i actor None db)"
| "runner_op (now, RExchange i h) db = snd (exchange_bootstrap_token i h db)"
| "runner_op (now, RRetoken ws i h actor) db = snd (regenerate_token ws i h actor None db)"

definition runner_ops :: "(time \<times> RunnerOp) list \<Rightarrow> Db \<Rightarrow> Db" where
  "runner_ops ops db = fold runner_op ops db"

lemma runner_op_moves: "runner_moves db (runner_op op db)"
  by (cases "(op, db)" rule: runner_op.cases)
    (simp_all add: claim_runner.moves connect.moves labels.moves touch.moves health.moves offline.moves
      all_offline.moves rel.moves drain.moves dis.moves res.moves revoke.moves exchange.moves retoken.moves)

interpretation runner_run: runner_table "runner_ops ops" for ops
proof
  fix db
  show "runner_moves db (runner_ops ops db)"
    unfolding runner_ops_def
  proof (induction ops arbitrary: db)
    case (Cons op ops)
    show ?case using runner_moves_trans [OF runner_op_moves [of db op] Cons] by simp
  qed simp
qed


section \<open>Revocation\<close>

definition runner_ok :: "RunnerRow \<Rightarrow> bool" where
  "runner_ok r \<longleftrightarrow> rn_status r \<in> {''offline'', ''idle'', ''busy'', ''disabled''} \<and>
     (rn_revoked_at r = None \<or> rn_status r = ''offline'')"

lemma step_runner_ok: "runner_step r r' \<Longrightarrow> runner_ok r \<Longrightarrow> runner_ok r'"
  by (erule runner_stepE) (auto simp: runner_ok_def life_def make_busy_def)

lemma step_revoked:
  "runner_step r r' \<Longrightarrow> runner_ok r \<Longrightarrow> rn_revoked_at r = Some t \<Longrightarrow> rn_revoked_at r' = Some t"
  by (erule runner_stepE) (auto simp: runner_ok_def life_def make_busy_def)

lemma steps_runner_ok: "runner_step\<^sup>*\<^sup>* r r' \<Longrightarrow> runner_ok r \<Longrightarrow> runner_ok r'"
  by (induction rule: rtranclp_induct) (auto intro: step_runner_ok)

lemma steps_revoked:
  "runner_step\<^sup>*\<^sup>* r r' \<Longrightarrow> runner_ok r \<Longrightarrow> rn_revoked_at r = Some t \<Longrightarrow> rn_revoked_at r' = Some t"
proof (induction rule: rtranclp_induct)
  case (step y z)
  then show ?case using step_revoked [OF step.hyps(2)] steps_runner_ok [OF step.hyps(1)] by blast
qed simp

text \<open>Revocation is final.  Once a runner is revoked it stays revoked and offline through
  every sequence of connections, heartbeats, claims, releases and lifecycle requests, so it
  is never offered to the scheduler again.\<close>

theorem revoked_is_final:
  assumes "i < length (db_runners db)" "runner_ok (db_runners db ! i)"
    and "rn_revoked_at (db_runners db ! i) = Some t"
  shows "rn_revoked_at (db_runners (runner_ops ops db) ! i) = Some t \<and>
    rn_status (db_runners (runner_ops ops db) ! i) = ''offline'' \<and>
    \<not> schedulable (db_runners (runner_ops ops db) ! i)"
proof -
  note m = runner_run.row_moves [OF assms(1), of ops]
  have "rn_revoked_at (db_runners (runner_ops ops db) ! i) = Some t"
    by (rule steps_revoked [OF m assms(2,3)])
  with steps_runner_ok [OF m assms(2)] show ?thesis by (auto simp: runner_ok_def schedulable_def)
qed

theorem revoked_is_final_witness:
  "\<not> schedulable (db_runners (runner_ops [(8, RConnect 3 ''2''), (9, RResume 1 3 True 1)]
     (runner_ops [(7, RRevoke 1 3 1)] demo_claim_db)) ! 0)"
proof -
  define db where "db = runner_ops [(7, RRevoke 1 3 1)] demo_claim_db"
  have "db_runners db ! 0 = (demo_runner 3)\<lparr>rn_revoked_at := Some 7, rn_status := ''offline''\<rparr>"
    "0 < length (db_runners db)"
    by (simp_all add: db_def runner_ops_def revoke_for_workspace_def audited_def hit_runner_def
        demo_claim_db_def demo_runner_def runner_row_def add_audit_def upd_runners_def update_where_def)
  then show ?thesis
    using revoked_is_final [of 0 db 7 "[(8, RConnect 3 ''2''), (9, RResume 1 3 True 1)]"]
    unfolding db_def [symmetric] by (simp add: runner_ok_def)
qed

section \<open>Draining and disabling\<close>

text \<open>
  The scheduler claims only for runners \<open>find_idle_by_ids\<close> offers; \<open>sched_op\<close> is a statement
  under that discipline.
\<close>

definition sched_op :: "time \<times> RunnerOp \<Rightarrow> Db \<Rightarrow> Db" where
  "sched_op o1 db = (case snd o1 of
     RClaim jid rid \<Rightarrow> if find_idle_by_ids db [rid] = [] then db else runner_op o1 db
   | _ \<Rightarrow> runner_op o1 db)"

definition sched_ops :: "(time \<times> RunnerOp) list \<Rightarrow> Db \<Rightarrow> Db" where
  "sched_ops ops db = fold sched_op ops db"

definition parked :: "RunnerRow \<Rightarrow> bool" where
  "parked r \<longleftrightarrow> rn_draining_at r \<noteq> None \<and> rn_status r \<noteq> ''busy''"

lemma step_id: "runner_step r r' \<Longrightarrow> rn_id r' = rn_id r"
  by (erule runner_stepE) (auto simp: life_def make_busy_def)

lemma steps_id: "runner_step\<^sup>*\<^sup>* r r' \<Longrightarrow> rn_id r' = rn_id r"
  by (induction rule: rtranclp_induct) (auto dest: step_id)

lemma moves_ids: "runner_moves db db' \<Longrightarrow> map rn_id (db_runners db') = map rn_id (db_runners db)"
  unfolding runner_moves_def
  by (intro nth_equalityI) (auto simp: list_all2_conv_all_nth dest: steps_id)

lemma step_parked: "runner_step r r' \<Longrightarrow> parked r \<Longrightarrow> parked r' \<or> r' = make_busy r"
  by (erule runner_stepE) (auto simp: parked_def life_def)

lemma quiet_parked:
  assumes "quiet_step r r'" "parked r"
  shows "parked r'"
proof -
  have "r' \<noteq> make_busy r" using assms by (auto simp: quiet_step_def parked_def make_busy_def)
  with assms step_parked show ?thesis by (auto simp: quiet_step_def)
qed

text \<open>A claim leaves alone the rows of other runners and the rows it may not take.\<close>

lemma claim_other_row:
  assumes "i < length (db_runners db)" "\<not> idle_runner rid (db_runners db ! i)"
  shows "db_runners (snd (claim_for_runner now jid rid db)) ! i = db_runners db ! i"
proof -
  obtain r db' where c: "claim_for_runner now jid rid db = (r, db')" by fastforce
  show ?thesis
  proof (cases r)
    case None
    then have "db' = db" using c by (auto simp: claim_for_runner_def case_prod_unfold split: option.splits if_splits)
    with c show ?thesis by simp
  next
    case (Some job)
    with c claim_Some(2) [of now jid rid db job db'] assms show ?thesis by simp
  qed
qed

lemma quiet_op:
  assumes "\<forall>jid rid. snd o1 \<noteq> RClaim jid rid"
  shows "list_all2 quiet_step (db_runners db) (db_runners (runner_op o1 db))"
  using assms
  by (cases "(o1, db)" rule: runner_op.cases)
    (simp_all add: connect.quiet labels.quiet touch.quiet health.quiet offline.quiet all_offline.quiet
      rel.quiet drain.quiet dis.quiet res.quiet revoke.quiet exchange.quiet retoken.quiet)

lemma sched_op_keeps:
  assumes "i < length (db_runners db)" "distinct (map rn_id (db_runners db))" "parked (db_runners db ! i)"
  shows "i < length (db_runners (sched_op o1 db)) \<and> distinct (map rn_id (db_runners (sched_op o1 db))) \<and>
    parked (db_runners (sched_op o1 db) ! i) \<and> rn_id (db_runners (sched_op o1 db) ! i) = rn_id (db_runners db ! i)"
proof -
  have m: "runner_moves db (sched_op o1 db)"
    using runner_op_moves [of db o1] by (auto simp: sched_op_def split: RunnerOp.splits)
  then have ids: "map rn_id (db_runners (sched_op o1 db)) = map rn_id (db_runners db)" by (rule moves_ids)
  then have len: "length (db_runners (sched_op o1 db)) = length (db_runners db)" by (metis length_map)
  have "parked (db_runners (sched_op o1 db) ! i)"
  proof (cases "\<exists>jid rid. snd o1 = RClaim jid rid")
    case True
    then obtain now jid rid where o1: "o1 = (now, RClaim jid rid)" by (cases o1) auto
    show ?thesis
    proof (cases "find_idle_by_ids db [rid] = []")
      case True
      with o1 assms(3) show ?thesis by (simp add: sched_op_def)
    next
      case False
      then obtain k where k: "k < length (db_runners db)" "rn_id (db_runners db ! k) = rid" "schedulable (db_runners db ! k)"
        by (auto simp: find_idle_by_ids_def filter_empty_conv in_set_conv_nth)
      have "k \<noteq> i" using k(3) assms(3) by (auto simp: parked_def schedulable_def)
      then have "rn_id (db_runners db ! i) \<noteq> rid"
        using assms(1,2) k(1,2) by (metis length_map nth_eq_iff_index_eq nth_map)
      then have "\<not> idle_runner rid (db_runners db ! i)" by (simp add: idle_runner_def)
      from claim_other_row [OF assms(1) this] False o1 assms(3) show ?thesis by (simp add: sched_op_def)
    qed
  next
    case False
    then have "sched_op o1 db = runner_op o1 db" by (auto simp: sched_op_def split: RunnerOp.splits)
    moreover have "list_all2 quiet_step (db_runners db) (db_runners (runner_op o1 db))"
      by (rule quiet_op) (use False in blast)
    ultimately have "quiet_step (db_runners db ! i) (db_runners (sched_op o1 db) ! i)"
      using assms(1) by (simp add: list_all2_nthD)
    then show ?thesis using assms(3) by (rule quiet_parked)
  qed
  with ids len assms show ?thesis by (metis nth_map)
qed

text \<open>A runner drained while it had no job never takes work again.  Its drain mark is cleared
  only when a busy runner is released, and it can never become busy: whatever it does
  afterwards (disconnect, reconnect, be disabled and resumed), the scheduler's query does not
  offer it.\<close>

theorem drained_idle_never_scheduled:
  assumes "i < length (db_runners db)" "distinct (map rn_id (db_runners db))"
    and "rn_draining_at (db_runners db ! i) \<noteq> None" "rn_status (db_runners db ! i) \<noteq> ''busy''"
  shows "\<not> schedulable (db_runners (sched_ops ops db) ! i)"
proof -
  have "i < length (db_runners (sched_ops ops db)) \<and> distinct (map rn_id (db_runners (sched_ops ops db))) \<and>
    parked (db_runners (sched_ops ops db) ! i)"
    using assms unfolding sched_ops_def
  proof (induction ops arbitrary: db)
    case Nil
    then show ?case by (simp add: parked_def)
  next
    case (Cons o1 ops)
    have p: "parked (db_runners db ! i)" using Cons.prems by (simp add: parked_def)
    have "i < length (db_runners (sched_op o1 db))" "distinct (map rn_id (db_runners (sched_op o1 db)))"
      "rn_draining_at (db_runners (sched_op o1 db) ! i) \<noteq> None"
      "rn_status (db_runners (sched_op o1 db) ! i) \<noteq> ''busy''"
      using sched_op_keeps [OF Cons.prems(1,2) p, of o1] by (simp_all add: parked_def)
    from Cons.IH [OF this] show ?case by simp
  qed
  then show ?thesis by (simp add: parked_def schedulable_def)
qed

theorem drained_idle_never_scheduled_witness:
  "\<not> schedulable (db_runners (sched_ops [(9, ROffline 3), (10, RConnect 3 ''2''), (11, RClaim 7 3)]
     (snd (drain_start 8 1 3 1 None demo_claim_db))) ! 0)"
proof -
  define db where "db = snd (drain_start 8 1 3 1 None demo_claim_db)"
  have "db_runners db = [(demo_runner 3)\<lparr>rn_draining_at := Some 8, rn_status := ''offline''\<rparr>, demo_runner 4]"
    by (simp add: db_def drain_start_def audited_def hit_runner_def demo_claim_db_def demo_runner_def
        runner_row_def add_audit_def upd_runners_def update_where_def)
  then show ?thesis
    unfolding db_def [symmetric]
    by (intro drained_idle_never_scheduled) (simp_all add: demo_runner_def runner_row_def)
qed

text \<open>Disabling a runner lasts only until its next connection.  A disabled runner that
  disconnects and says hello again is offered to the scheduler, although nobody resumed it.\<close>

theorem reconnect_undoes_disable:
  assumes "i < length (db_runners db)" "db_runners db ! i = r"
    and "rn_status r = ''disabled''" "rn_revoked_at r = None" "rn_draining_at r = None"
  shows "schedulable (db_runners (mark_connected now (rn_id r) v (mark_offline (rn_id r) db)) ! i)"
  using assms by (simp add: mark_connected_def mark_offline_def upd_runners_def schedulable_def)

theorem reconnect_undoes_disable_witness:
  "schedulable (db_runners (mark_connected 9 3 ''1'' (mark_offline 3 (snd (disable 1 3 1 None demo_claim_db)))) ! 0)"
proof -
  define db where "db = snd (disable 1 3 1 None demo_claim_db)"
  have "db_runners db = [(demo_runner 3)\<lparr>rn_status := ''disabled''\<rparr>, demo_runner 4]"
    by (simp add: db_def disable_def audited_def hit_runner_def demo_claim_db_def demo_runner_def
        runner_row_def add_audit_def upd_runners_def update_where_def)
  then show ?thesis
    using reconnect_undoes_disable [of 0 db "(demo_runner 3)\<lparr>rn_status := ''disabled''\<rparr>" 9 "''1''"]
    unfolding db_def [symmetric] by (simp add: demo_runner_def runner_row_def)
qed

end
