(* ===== verification/Vault.thy ===== *)
theory Vault
  imports RunnerLife
begin

text \<open>
  Secrets and environments in the database: \<open>db/secrets.rs\<close>, \<open>db/environments.rs\<close>,
  the lookups of repositories, installations and permissions they lean on, and the envelope
  encryption of \<open>services/secrets_crypto.rs\<close>.  AES-256-GCM and the random generator are
  parameters.
\<close>

section \<open>Envelope encryption\<close>

record EncryptedSecret =
  es_ciphertext :: rstr
  es_nonce :: rstr
  es_wrapped_dek :: rstr
  es_dek_nonce :: rstr
  es_key_version :: int

definition NONCE_LEN :: nat where "NONCE_LEN = 12"
definition KEY_VERSION :: int where "KEY_VERSION = 1"

text \<open>
  AES-256-GCM under a key and a nonce, with associated data.  The sources only ever pass the
  bytes of a row's id there, so the id stands for them.
\<close>

record aead =
  seal :: "rstr \<Rightarrow> rstr \<Rightarrow> uuid \<Rightarrow> rstr \<Rightarrow> rstr option"
  unseal :: "rstr \<Rightarrow> rstr \<Rightarrow> uuid \<Rightarrow> rstr \<Rightarrow> rstr option"

text \<open>\<open>SecretsCrypto::new\<close> takes exactly 32 bytes; the value is the master key.\<close>

definition crypto_new :: "rstr \<Rightarrow> rstr option" where
  "crypto_new key = (if length key = 32 then Some key else None)"

text \<open>\<open>dek\<close>, \<open>nonce\<close> and \<open>dek_nonce\<close> are what the random generator fills in.\<close>

definition encrypt :: "aead \<Rightarrow> rstr \<Rightarrow> rstr \<times> rstr \<times> rstr \<Rightarrow> rstr \<Rightarrow> uuid \<Rightarrow> EncryptedSecret option" where
  "encrypt lib master rnd plaintext aad =
     (case rnd of (dek, nonce, dek_nonce) \<Rightarrow>
        (case seal lib dek nonce aad plaintext of
           None \<Rightarrow> None
         | Some ciphertext \<Rightarrow>
             (case seal lib master dek_nonce aad dek of
                None \<Rightarrow> None
              | Some wrapped \<Rightarrow>
                  Some \<lparr>es_ciphertext = ciphertext, es_nonce = nonce, es_wrapped_dek = wrapped,
                        es_dek_nonce = dek_nonce, es_key_version = KEY_VERSION\<rparr>)))"

definition decrypt :: "aead \<Rightarrow> rstr \<Rightarrow> EncryptedSecret \<Rightarrow> uuid \<Rightarrow> rstr option" where
  "decrypt lib master enc aad =
     (if es_key_version enc \<noteq> KEY_VERSION then None
      else if length (es_nonce enc) \<noteq> NONCE_LEN \<or> length (es_dek_nonce enc) \<noteq> NONCE_LEN then None
      else case unseal lib master (es_dek_nonce enc) aad (es_wrapped_dek enc) of
        None \<Rightarrow> None
      | Some dek \<Rightarrow>
          if length dek \<noteq> 32 then None
          else unseal lib dek (es_nonce enc) aad (es_ciphertext enc))"

definition random_ok :: "rstr \<times> rstr \<times> rstr \<Rightarrow> bool" where
  "random_ok rnd \<longleftrightarrow> length (fst rnd) = 32 \<and> length (fst (snd rnd)) = NONCE_LEN \<and> length (snd (snd rnd)) = NONCE_LEN"

definition aead_correct :: "aead \<Rightarrow> bool" where
  "aead_correct lib \<longleftrightarrow> (\<forall>k n a m c. seal lib k n a m = Some c \<longrightarrow> unseal lib k n a c = Some m)"

lemma decrypt_encrypt:
  assumes "aead_correct lib" "random_ok rnd" "encrypt lib master rnd m a = Some enc"
  shows "decrypt lib master enc a = Some m"
  using assms by (auto simp: aead_correct_def random_ok_def encrypt_def decrypt_def split: prod.splits option.splits)

section \<open>Tables\<close>

record SecretRow =
  sc_id :: uuid
  sc_workspace_id :: uuid
  sc_repository_id :: "uuid option"
  sc_environment_id :: "uuid option"
  sc_name :: rstr
  sc_description :: "rstr option"
  sc_encrypted :: EncryptedSecret
  sc_created_by :: "uuid option"
  sc_updated_by :: "uuid option"
  sc_created_at :: time
  sc_updated_at :: time
  sc_value_set_at :: time
  sc_last_used_at :: "time option"
  sc_usage_count :: int

record EnvironmentRow =
  en_id :: uuid
  en_workspace_id :: uuid
  en_name :: rstr
  en_description :: "rstr option"
  en_created_by :: "uuid option"
  en_updated_by :: "uuid option"
  en_created_at :: time
  en_updated_at :: time

record Repository =
  rp_id :: uuid
  rp_workspace_id :: uuid
  rp_installation_id :: uuid
  rp_github_repo_id :: int
  rp_owner :: rstr
  rp_owner_avatar_url :: "rstr option"
  rp_name :: rstr
  rp_full_name :: rstr
  rp_private :: bool
  rp_default_branch :: rstr
  rp_language :: "rstr option"
  rp_description :: "rstr option"
  rp_sync_status :: rstr
  rp_sync_error :: "rstr option"
  rp_last_synced_at :: "time option"
  rp_imported_by :: "uuid option"
  rp_created_at :: time
  rp_updated_at :: time

record GitHubInstallation =
  gi_id :: uuid
  gi_workspace_id :: uuid
  gi_installation_id :: int
  gi_account_login :: rstr
  gi_account_type :: rstr
  gi_account_avatar_url :: "rstr option"
  gi_linked_by :: "uuid option"
  gi_suspended_at :: "time option"
  gi_created_at :: time
  gi_updated_at :: time

text \<open>
  \<open>va_members\<close> are the pairs of a user and a role in a workspace, \<open>va_role_permissions\<close>
  the permissions of a role, \<open>va_users\<close> the names the metadata joins in.
\<close>

record Vault =
  va_members :: "(uuid \<times> uuid \<times> uuid) list"
  va_role_permissions :: "(uuid \<times> rstr) list"
  va_users :: "(uuid \<times> rstr) list"
  va_repositories :: "Repository list"
  va_installations :: "GitHubInstallation list"
  va_environments :: "EnvironmentRow list"
  va_secrets :: "SecretRow list"

text \<open>The tables a transaction touches: these, and the audit log beside the pipeline tables.\<close>

type_synonym Store = "Vault \<times> Db"

definition st_audit :: "uuid \<Rightarrow> uuid \<Rightarrow> rstr \<Rightarrow> rstr \<Rightarrow> uuid \<Rightarrow> json \<Rightarrow> rstr option \<Rightarrow> Db \<Rightarrow> Db" where
  "st_audit ws actor action subject_type subject metadata request_id =
     add_audit \<lparr>au_workspace_id = ws, au_actor = Some actor, au_action = action,
       au_subject_type = subject_type, au_subject_id = subject, au_metadata = metadata,
       au_request_id = request_id\<rparr>"

definition juuid :: "uuid option \<Rightarrow> json" where
  "juuid = jopt (\<lambda>i. JStr (dec i))"

section \<open>Permissions and lookups\<close>

definition SECRETS_READ :: rstr where "SECRETS_READ = ''secrets.read''"
definition SECRETS_MANAGE :: rstr where "SECRETS_MANAGE = ''secrets.manage''"
definition ENVIRONMENTS_MANAGE :: rstr where "ENVIRONMENTS_MANAGE = ''environments.manage''"
definition CONTENT_READ :: rstr where "CONTENT_READ = ''content.read''"
definition CONTENT_WRITE :: rstr where "CONTENT_WRITE = ''content.write''"

definition allowed :: "Vault \<Rightarrow> uuid \<Rightarrow> uuid \<Rightarrow> rstr \<Rightarrow> bool" where
  "allowed v user ws permission \<longleftrightarrow>
     list_ex (\<lambda>(u, w, role). u = user \<and> w = ws \<and> (role, permission) \<in> set (va_role_permissions v)) (va_members v)"

definition require_permission :: "Vault \<Rightarrow> uuid \<Rightarrow> uuid \<Rightarrow> rstr \<Rightarrow> AppError + unit" where
  "require_permission v user ws permission = (if allowed v user ws permission then Inr () else Inl Forbidden)"

definition find_repository :: "Vault \<Rightarrow> uuid \<Rightarrow> uuid \<Rightarrow> Repository option" where
  "find_repository v ws i = first_with (\<lambda>r. rp_workspace_id r = ws \<and> rp_id r = i) (va_repositories v)"

definition find_installation :: "Vault \<Rightarrow> uuid \<Rightarrow> uuid \<Rightarrow> GitHubInstallation option" where
  "find_installation v ws i = first_with (\<lambda>r. gi_workspace_id r = ws \<and> gi_id r = i) (va_installations v)"

text \<open>\<open>lower\<close> is the database's own \<open>lower(text)\<close>, which depends on its locale.\<close>

definition find_environment_by_name :: "(rstr \<Rightarrow> rstr) \<Rightarrow> Vault \<Rightarrow> uuid \<Rightarrow> rstr \<Rightarrow> uuid option" where
  "find_environment_by_name lower v ws name =
     map_option en_id (first_with (\<lambda>e. en_workspace_id e = ws \<and> lower (en_name e) = lower name) (va_environments v))"

section \<open>Secrets\<close>

record SecretMeta =
  sm_id :: uuid
  sm_workspace_id :: uuid
  sm_repository_id :: "uuid option"
  sm_repository_name :: "rstr option"
  sm_environment_id :: "uuid option"
  sm_environment_name :: "rstr option"
  sm_name :: rstr
  sm_description :: "rstr option"
  sm_creator_login :: "rstr option"
  sm_updater_login :: "rstr option"
  sm_created_at :: time
  sm_updated_at :: time
  sm_value_set_at :: time
  sm_last_used_at :: "time option"
  sm_usage_count :: int

definition joined :: "('r \<Rightarrow> uuid) \<Rightarrow> ('r \<Rightarrow> rstr) \<Rightarrow> 'r list \<Rightarrow> uuid option \<Rightarrow> rstr option" where
  "joined key name rows i =
     (case i of None \<Rightarrow> None | Some i \<Rightarrow> map_option name (first_with (\<lambda>r. key r = i) rows))"

definition secret_meta :: "Vault \<Rightarrow> SecretRow \<Rightarrow> SecretMeta" where
  "secret_meta v s =
    \<lparr>sm_id = sc_id s, sm_workspace_id = sc_workspace_id s, sm_repository_id = sc_repository_id s,
     sm_repository_name = joined rp_id rp_full_name (va_repositories v) (sc_repository_id s),
     sm_environment_id = sc_environment_id s,
     sm_environment_name = joined en_id en_name (va_environments v) (sc_environment_id s),
     sm_name = sc_name s, sm_description = sc_description s,
     sm_creator_login = joined fst snd (va_users v) (sc_created_by s),
     sm_updater_login = joined fst snd (va_users v) (sc_updated_by s),
     sm_created_at = sc_created_at s, sm_updated_at = sc_updated_at s,
     sm_value_set_at = sc_value_set_at s, sm_last_used_at = sc_last_used_at s,
     sm_usage_count = sc_usage_count s\<rparr>"

definition secret_find_meta :: "Vault \<Rightarrow> uuid \<Rightarrow> uuid \<Rightarrow> SecretMeta option" where
  "secret_find_meta v ws i =
     map_option (secret_meta v) (first_with (\<lambda>s. sc_workspace_id s = ws \<and> sc_id s = i) (va_secrets v))"

definition scope_label :: "uuid option \<Rightarrow> uuid option \<Rightarrow> rstr" where
  "scope_label repository_id environment_id =
     (if repository_id \<noteq> None then ''repository''
      else if environment_id \<noteq> None then ''environment'' else ''workspace'')"

text \<open>
  The three partial unique indexes: one name per workspace scope, per repository and per
  environment.  The primary key and the scope constraint make an insertion fail outright.
\<close>

definition same_scope :: "uuid \<Rightarrow> uuid option \<Rightarrow> uuid option \<Rightarrow> SecretRow \<Rightarrow> bool" where
  "same_scope ws repo env s \<longleftrightarrow> sc_workspace_id s = ws \<and> sc_repository_id s = repo \<and> sc_environment_id s = env"

datatype SecretInsertOutcome = SecretCreated SecretMeta | SecretDuplicateName

definition secret_row ::
  "time \<Rightarrow> uuid \<Rightarrow> uuid \<Rightarrow> uuid option \<Rightarrow> uuid option \<Rightarrow> rstr \<Rightarrow> rstr option \<Rightarrow> EncryptedSecret \<Rightarrow> uuid \<Rightarrow> SecretRow"
where
  "secret_row now i ws repo env name description enc creator =
    \<lparr>sc_id = i, sc_workspace_id = ws, sc_repository_id = repo, sc_environment_id = env, sc_name = name,
     sc_description = description, sc_encrypted = enc, sc_created_by = Some creator,
     sc_updated_by = Some creator, sc_created_at = now, sc_updated_at = now, sc_value_set_at = now,
     sc_last_used_at = None, sc_usage_count = 0\<rparr>"

definition secret_insert ::
  "time \<Rightarrow> uuid \<Rightarrow> uuid \<Rightarrow> uuid option \<Rightarrow> uuid option \<Rightarrow> rstr \<Rightarrow> rstr option \<Rightarrow> EncryptedSecret \<Rightarrow> uuid \<Rightarrow>
     rstr option \<Rightarrow> Store \<Rightarrow> (AppError + SecretInsertOutcome) \<times> Store"
where
  "secret_insert now i ws repo env name description enc creator request_id st =
     (case st of (v, db) \<Rightarrow>
        if repo \<noteq> None \<and> env \<noteq> None then (Inl (UniqueViolation ''secrets_scope_exclusive''), st)
        else if list_ex (\<lambda>s. sc_id s = i) (va_secrets v) then (Inl (UniqueViolation ''secrets_pkey''), st)
        else if list_ex (\<lambda>s. same_scope ws repo env s \<and> sc_name s = name) (va_secrets v)
        then (Inr SecretDuplicateName, st)
        else
          let s = secret_row now i ws repo env name description enc creator;
              v' = v\<lparr>va_secrets := va_secrets v @ [s]\<rparr>;
              db' = st_audit ws creator ''secret.created'' ''secret'' i
                (jobj [(''name'', JStr name), (''scope'', JStr (scope_label repo env)),
                   (''repositoryId'', juuid repo), (''environmentId'', juuid env)]) request_id db
          in (Inr (SecretCreated (secret_meta v' s)), (v', db')))"

definition this_secret :: "uuid \<Rightarrow> uuid \<Rightarrow> SecretRow \<Rightarrow> bool" where
  "this_secret ws i s \<longleftrightarrow> sc_workspace_id s = ws \<and> sc_id s = i"

text \<open>An \<open>UPDATE\<close> of one secret with the audit entry that names it, or nothing.\<close>

definition upd_secret ::
  "uuid \<Rightarrow> uuid \<Rightarrow> (SecretRow \<Rightarrow> SecretRow) \<Rightarrow> rstr \<Rightarrow> uuid \<Rightarrow> rstr option \<Rightarrow> Store \<Rightarrow> bool \<times> Store"
where
  "upd_secret ws i f field actor request_id st =
     (case st of (v, db) \<Rightarrow>
        case fetch_optional (filter (this_secret ws i) (va_secrets v)) of
          None \<Rightarrow> (False, st)
        | Some s \<Rightarrow>
            (True, (v\<lparr>va_secrets := update_where (this_secret ws i) f (va_secrets v)\<rparr>,
              st_audit ws actor ''secret.updated'' ''secret'' i
                (jobj [(''name'', JStr (sc_name s)), (''field'', JStr field)]) request_id db)))"

definition secret_replace_value ::
  "time \<Rightarrow> uuid \<Rightarrow> uuid \<Rightarrow> EncryptedSecret \<Rightarrow> uuid \<Rightarrow> rstr option \<Rightarrow> Store \<Rightarrow> bool \<times> Store"
where
  "secret_replace_value now ws i enc actor request_id =
     upd_secret ws i (\<lambda>s. s\<lparr>sc_encrypted := enc, sc_updated_by := Some actor, sc_updated_at := now,
       sc_value_set_at := now\<rparr>) ''value'' actor request_id"

definition secret_update_description ::
  "time \<Rightarrow> uuid \<Rightarrow> uuid \<Rightarrow> rstr option \<Rightarrow> uuid \<Rightarrow> rstr option \<Rightarrow> Store \<Rightarrow> bool \<times> Store"
where
  "secret_update_description now ws i description actor request_id =
     upd_secret ws i (\<lambda>s. s\<lparr>sc_description := description, sc_updated_by := Some actor, sc_updated_at := now\<rparr>)
       ''description'' actor request_id"

definition secret_delete :: "uuid \<Rightarrow> uuid \<Rightarrow> uuid \<Rightarrow> rstr option \<Rightarrow> Store \<Rightarrow> rstr option \<times> Store" where
  "secret_delete ws i actor request_id st =
     (case st of (v, db) \<Rightarrow>
        case fetch_optional (filter (this_secret ws i) (va_secrets v)) of
          None \<Rightarrow> (None, st)
        | Some s \<Rightarrow>
            (Some (sc_name s), (v\<lparr>va_secrets := filter (\<lambda>s. \<not> this_secret ws i s) (va_secrets v)\<rparr>,
              st_audit ws actor ''secret.deleted'' ''secret'' i
                (jobj [(''name'', JStr (sc_name s)),
                   (''scope'', JStr (scope_label (sc_repository_id s) (sc_environment_id s))),
                   (''repositoryId'', juuid (sc_repository_id s)),
                   (''environmentId'', juuid (sc_environment_id s))]) request_id db)))"

section \<open>What a dispatch sees\<close>

definition applies :: "uuid \<Rightarrow> uuid \<Rightarrow> uuid option \<Rightarrow> SecretRow \<Rightarrow> bool" where
  "applies ws repo env s \<longleftrightarrow> sc_workspace_id s = ws \<and>
     (sc_repository_id s = None \<and> sc_environment_id s = None \<or>
      sc_repository_id s = Some repo \<or> env \<noteq> None \<and> sc_environment_id s = env)"

text \<open>
  \<open>ORDER BY name, (environment_id IS NOT NULL) DESC, (repository_id IS NOT NULL) DESC\<close>:
  by name, and within a name by this rank.  \<open>DISTINCT ON (name)\<close> keeps the first of each.
\<close>

definition scope_rank :: "SecretRow \<Rightarrow> nat" where
  "scope_rank s = (if sc_environment_id s \<noteq> None then 0 else 2) + (if sc_repository_id s \<noteq> None then 0 else 1)"

fun distinct_on :: "('r \<Rightarrow> 'k) \<Rightarrow> 'k list \<Rightarrow> 'r list \<Rightarrow> 'r list" where
  "distinct_on f seen [] = []"
| "distinct_on f seen (r # rs) =
     (if f r \<in> set seen then distinct_on f seen rs else r # distinct_on f (f r # seen) rs)"

definition resolve_for_dispatch :: "Vault \<Rightarrow> uuid \<Rightarrow> uuid \<Rightarrow> uuid option \<Rightarrow> SecretRow list" where
  "resolve_for_dispatch v ws repo env =
     distinct_on sc_name [] (sort_key sc_name (sort_key scope_rank (filter (applies ws repo env) (va_secrets v))))"

definition any_for_dispatch :: "Vault \<Rightarrow> uuid \<Rightarrow> uuid \<Rightarrow> uuid option \<Rightarrow> bool" where
  "any_for_dispatch v ws repo env = list_ex (applies ws repo env) (va_secrets v)"

definition record_usage :: "time \<Rightarrow> uuid list \<Rightarrow> Vault \<Rightarrow> Vault" where
  "record_usage now ids v =
     v\<lparr>va_secrets := update_where (\<lambda>s. sc_id s \<in> set ids)
        (\<lambda>s. s\<lparr>sc_last_used_at := Some now, sc_usage_count := sc_usage_count s + 1\<rparr>) (va_secrets v)\<rparr>"


section \<open>Environments\<close>

record EnvironmentMeta =
  em_id :: uuid
  em_workspace_id :: uuid
  em_name :: rstr
  em_description :: "rstr option"
  em_creator_login :: "rstr option"
  em_updater_login :: "rstr option"
  em_secret_count :: int
  em_created_at :: time
  em_updated_at :: time

definition environment_meta :: "Vault \<Rightarrow> EnvironmentRow \<Rightarrow> EnvironmentMeta" where
  "environment_meta v e =
    \<lparr>em_id = en_id e, em_workspace_id = en_workspace_id e, em_name = en_name e,
     em_description = en_description e,
     em_creator_login = joined fst snd (va_users v) (en_created_by e),
     em_updater_login = joined fst snd (va_users v) (en_updated_by e),
     em_secret_count = int (length (filter (\<lambda>s. sc_environment_id s = Some (en_id e)) (va_secrets v))),
     em_created_at = en_created_at e, em_updated_at = en_updated_at e\<rparr>"

definition this_environment :: "uuid \<Rightarrow> uuid \<Rightarrow> EnvironmentRow \<Rightarrow> bool" where
  "this_environment ws i e \<longleftrightarrow> en_workspace_id e = ws \<and> en_id e = i"

definition environment_find_meta :: "Vault \<Rightarrow> uuid \<Rightarrow> uuid \<Rightarrow> EnvironmentMeta option" where
  "environment_find_meta v ws i =
     map_option (environment_meta v) (first_with (this_environment ws i) (va_environments v))"

text \<open>The index \<open>environments_ws_name_key\<close>: one name per workspace up to case.\<close>

definition environment_taken :: "(rstr \<Rightarrow> rstr) \<Rightarrow> uuid \<Rightarrow> rstr \<Rightarrow> EnvironmentRow list \<Rightarrow> bool" where
  "environment_taken lower ws name = list_ex (\<lambda>e. en_workspace_id e = ws \<and> lower (en_name e) = lower name)"

datatype EnvironmentInsertOutcome = EnvironmentCreated EnvironmentMeta | EnvironmentDuplicateName
datatype EnvironmentUpdateOutcome =
  EnvironmentUpdated EnvironmentMeta | EnvironmentUpdateDuplicateName | EnvironmentNotFound

text \<open>\<open>i\<close> is the id the database draws.\<close>

definition environment_insert ::
  "(rstr \<Rightarrow> rstr) \<Rightarrow> time \<Rightarrow> uuid \<Rightarrow> uuid \<Rightarrow> rstr \<Rightarrow> rstr option \<Rightarrow> uuid \<Rightarrow> rstr option \<Rightarrow> Store \<Rightarrow>
     EnvironmentInsertOutcome \<times> Store"
where
  "environment_insert lower now i ws name description creator request_id st =
     (case st of (v, db) \<Rightarrow>
        if environment_taken lower ws name (va_environments v) then (EnvironmentDuplicateName, st)
        else
          let e = \<lparr>en_id = i, en_workspace_id = ws, en_name = name, en_description = description,
                   en_created_by = Some creator, en_updated_by = Some creator, en_created_at = now,
                   en_updated_at = now\<rparr>;
              v' = v\<lparr>va_environments := va_environments v @ [e]\<rparr>
          in (EnvironmentCreated (environment_meta v' e),
              (v', st_audit ws creator ''environment.created'' ''environment'' i
                 (jobj [(''name'', JStr name)]) request_id db)))"

text \<open>A new name may not be the name of another row; the row itself may keep it in another case.\<close>

definition environment_update ::
  "(rstr \<Rightarrow> rstr) \<Rightarrow> time \<Rightarrow> uuid \<Rightarrow> uuid \<Rightarrow> rstr option \<Rightarrow> rstr option \<Rightarrow> uuid \<Rightarrow> rstr option \<Rightarrow> Store \<Rightarrow>
     EnvironmentUpdateOutcome \<times> Store"
where
  "environment_update lower now ws i name description actor request_id st =
     (case st of (v, db) \<Rightarrow>
        case fetch_optional (filter (this_environment ws i) (va_environments v)) of
          None \<Rightarrow> (EnvironmentNotFound, st)
        | Some e \<Rightarrow>
            let new_name = (case name of None \<Rightarrow> en_name e | Some n \<Rightarrow> n) in
            if environment_taken lower ws new_name (filter (\<lambda>e. en_id e \<noteq> i) (va_environments v))
            then (EnvironmentUpdateDuplicateName, st)
            else
              let v' = v\<lparr>va_environments := update_where (this_environment ws i)
                    (\<lambda>e. e\<lparr>en_name := new_name, en_description := description,
                       en_updated_by := Some actor, en_updated_at := now\<rparr>) (va_environments v)\<rparr>;
                  db' = st_audit ws actor ''environment.updated'' ''environment'' i
                    (jobj [(''name'', JStr new_name), (''renamed'', JBool (name \<noteq> None))]) request_id db
              in ((case environment_find_meta v' ws i of
                     Some m \<Rightarrow> EnvironmentUpdated m | None \<Rightarrow> EnvironmentNotFound), (v', db')))"

text \<open>
  The rows of the environment's secrets in the workspace are read before the delete, for the
  audit; the foreign key's cascade then removes every secret of the environment.
\<close>

definition cascade_audit :: "uuid \<Rightarrow> uuid \<Rightarrow> uuid \<Rightarrow> rstr option \<Rightarrow> SecretRow \<Rightarrow> Db \<Rightarrow> Db" where
  "cascade_audit ws i actor request_id s =
     st_audit ws actor ''secret.deleted'' ''secret'' (sc_id s)
       (jobj [(''name'', JStr (sc_name s)), (''scope'', JStr ''environment''),
          (''environmentId'', juuid (Some i)), (''cascade'', JStr ''environment'')]) request_id"

definition environment_remove :: "uuid \<Rightarrow> uuid \<Rightarrow> uuid \<Rightarrow> rstr option \<Rightarrow> Store \<Rightarrow> nat option \<times> Store" where
  "environment_remove ws i actor request_id st =
     (case st of (v, db) \<Rightarrow>
        let secrets = filter (\<lambda>s. sc_workspace_id s = ws \<and> sc_environment_id s = Some i) (va_secrets v) in
        case fetch_optional (filter (this_environment ws i) (va_environments v)) of
          None \<Rightarrow> (None, st)
        | Some e \<Rightarrow>
            (Some (length secrets),
             (v\<lparr>va_environments := filter (\<lambda>e. \<not> this_environment ws i e) (va_environments v),
                va_secrets := filter (\<lambda>s. sc_environment_id s \<noteq> Some i) (va_secrets v)\<rparr>,
              st_audit ws actor ''environment.deleted'' ''environment'' i
                (jobj [(''name'', JStr (en_name e)), (''deletedSecrets'', JNum (dec (length secrets)))]) request_id
                (fold (cascade_audit ws i actor request_id) secrets db))))"

section \<open>The narrowest scope wins\<close>

text \<open>
  What the migrations' indexes and constraints promise about the table.
\<close>

definition secrets_ok :: "SecretRow list \<Rightarrow> bool" where
  "secrets_ok ss \<longleftrightarrow> distinct (map sc_id ss) \<and>
     distinct (map (\<lambda>s. (sc_workspace_id s, sc_repository_id s, sc_environment_id s, sc_name s)) ss) \<and>
     list_all (\<lambda>s. sc_repository_id s = None \<or> sc_environment_id s = None) ss"

lemma set_distinct_on:
  "r \<in> set (distinct_on f seen rs) \<longleftrightarrow> f r \<notin> set seen \<and> first_with (\<lambda>x. f x = f r) rs = Some r"
proof (induction f seen rs rule: distinct_on.induct)
  case (2 f seen x rs)
  then show ?case by (cases "x = r") auto
qed simp

lemma distinct_distinct_on: "distinct (map f (distinct_on f seen rs)) \<and> set seen \<inter> f ` set (distinct_on f seen rs) = {}"
  by (induction f seen rs rule: distinct_on.induct) auto

lemma first_with_filter: "first_with P xs = fetch_optional (filter P xs)"
  by (induction xs) auto

lemma first_of_sorted:
  assumes "sorted (map k xs)" "fetch_optional (filter P xs) = Some r" "x \<in> set xs" "P x"
  shows "k r \<le> k x"
proof -
  have "sorted (map k (filter P xs))" using assms(1) by (rule sorted_filter)
  moreover have "x \<in> set (filter P xs)" using assms by simp
  ultimately show ?thesis using assms(2) by (cases "filter P xs") auto
qed

text \<open>
  The dispatch's rows, for any table: one of each name that applies, of the lowest rank.
\<close>

lemma resolve_facts:
  assumes "s \<in> set (resolve_for_dispatch v ws repo env)"
  shows "s \<in> set (va_secrets v) \<and> applies ws repo env s \<and>
    (\<forall>t\<in>set (va_secrets v). applies ws repo env t \<longrightarrow> sc_name t = sc_name s \<longrightarrow> scope_rank s \<le> scope_rank t)"
proof -
  let ?ss = "filter (applies ws repo env) (va_secrets v)"
  have "first_with (\<lambda>x. sc_name x = sc_name s) (sort_key sc_name (sort_key scope_rank ?ss)) = Some s"
    using assms by (simp add: resolve_for_dispatch_def set_distinct_on)
  then have first: "fetch_optional (filter (\<lambda>x. sc_name x = sc_name s) (sort_key scope_rank ?ss)) = Some s"
    by (simp add: first_with_filter sort_key_stable)
  then have "s \<in> set ?ss" using fetch_optional_Some by fastforce
  moreover have "scope_rank s \<le> scope_rank t" if "t \<in> set ?ss" "sc_name t = sc_name s" for t
    by (rule first_of_sorted [OF sorted_sort_key first]) (use that in auto)
  ultimately show ?thesis by simp
qed

lemma resolve_complete:
  assumes "t \<in> set (va_secrets v)" "applies ws repo env t"
  shows "\<exists>s\<in>set (resolve_for_dispatch v ws repo env). sc_name s = sc_name t"
proof -
  let ?rs = "sort_key sc_name (sort_key scope_rank (filter (applies ws repo env) (va_secrets v)))"
  have "t \<in> set ?rs" using assms by simp
  then obtain s where s: "first_with (\<lambda>x. sc_name x = sc_name t) ?rs = Some s"
    by (cases "first_with (\<lambda>x. sc_name x = sc_name t) ?rs") (auto simp: first_with_None)
  then have "sc_name s = sc_name t" using first_with_Some by fast
  with s show ?thesis by (auto simp: resolve_for_dispatch_def set_distinct_on)
qed

lemma scope_rank_inj:
  assumes "applies ws repo env s" "applies ws repo env t" "scope_rank s = scope_rank t"
    "sc_repository_id s = None \<or> sc_environment_id s = None" "sc_repository_id t = None \<or> sc_environment_id t = None"
  shows "sc_repository_id s = sc_repository_id t \<and> sc_environment_id s = sc_environment_id t"
  using assms by (auto simp: applies_def scope_rank_def split: if_splits)

text \<open>Every operation on the tables keeps their constraints.\<close>

datatype VaultOp =
    SecretInsert time uuid uuid "uuid option" "uuid option" rstr "rstr option" EncryptedSecret uuid "rstr option"
  | SecretReplaceValue time uuid uuid EncryptedSecret uuid "rstr option"
  | SecretUpdateDescription time uuid uuid "rstr option" uuid "rstr option"
  | SecretDelete uuid uuid uuid "rstr option"
  | EnvironmentInsert time uuid uuid rstr "rstr option" uuid "rstr option"
  | EnvironmentUpdate time uuid uuid "rstr option" "rstr option" uuid "rstr option"
  | EnvironmentRemove uuid uuid uuid "rstr option"
  | RecordUsage time "uuid list"

fun vault_op :: "(rstr \<Rightarrow> rstr) \<Rightarrow> VaultOp \<Rightarrow> Store \<Rightarrow> Store" where
  "vault_op lower (SecretInsert t i ws repo env name d enc u r) st = snd (secret_insert t i ws repo env name d enc u r st)"
| "vault_op lower (SecretReplaceValue t ws i enc u r) st = snd (secret_replace_value t ws i enc u r st)"
| "vault_op lower (SecretUpdateDescription t ws i d u r) st = snd (secret_update_description t ws i d u r st)"
| "vault_op lower (SecretDelete ws i u r) st = snd (secret_delete ws i u r st)"
| "vault_op lower (EnvironmentInsert t i ws name d u r) st = snd (environment_insert lower t i ws name d u r st)"
| "vault_op lower (EnvironmentUpdate t ws i name d u r) st = snd (environment_update lower t ws i name d u r st)"
| "vault_op lower (EnvironmentRemove ws i u r) st = snd (environment_remove ws i u r st)"
| "vault_op lower (RecordUsage t ids) st = (record_usage t ids (fst st), snd st)"

definition secret_key :: "SecretRow \<Rightarrow> uuid \<times> uuid \<times> uuid option \<times> uuid option \<times> rstr" where
  "secret_key s = (sc_id s, sc_workspace_id s, sc_repository_id s, sc_environment_id s, sc_name s)"

lemma secrets_ok_filter: "secrets_ok ss \<Longrightarrow> secrets_ok (filter P ss)"
  by (auto simp: secrets_ok_def list_all_iff distinct_map_filter)

lemma secrets_ok_update:
  assumes "secrets_ok ss" "\<And>s. secret_key (f s) = secret_key s"
  shows "secrets_ok (update_where P f ss)"
proof -
  have f: "sc_id (f s) = sc_id s" "sc_workspace_id (f s) = sc_workspace_id s" "sc_name (f s) = sc_name s"
    "sc_repository_id (f s) = sc_repository_id s" "sc_environment_id (f s) = sc_environment_id s" for s
    using assms(2) [of s] by (simp_all add: secret_key_def)
  show ?thesis using assms(1) by (auto simp: secrets_ok_def map_update_where f list_all_iff set_update_where)
qed

lemma vault_op_ok: "secrets_ok (va_secrets (fst st)) \<Longrightarrow> secrets_ok (va_secrets (fst (vault_op lower op st)))"
proof (cases op)
  case (SecretInsert t i ws repo env name d enc u r)
  assume "secrets_ok (va_secrets (fst st))"
  then show ?thesis unfolding SecretInsert
    by (cases st) (auto simp: secret_insert_def Let_def secrets_ok_def secret_row_def list_all_iff list_ex_iff same_scope_def)
next
  case (SecretReplaceValue t ws i enc u r)
  assume "secrets_ok (va_secrets (fst st))"
  then show ?thesis unfolding SecretReplaceValue
    by (cases st) (auto simp: secret_replace_value_def upd_secret_def secret_key_def intro!: secrets_ok_update split: option.splits)
next
  case (SecretUpdateDescription t ws i d u r)
  assume "secrets_ok (va_secrets (fst st))"
  then show ?thesis unfolding SecretUpdateDescription
    by (cases st) (auto simp: secret_update_description_def upd_secret_def secret_key_def intro!: secrets_ok_update split: option.splits)
next
  case (EnvironmentUpdate t ws i name d u r)
  assume "secrets_ok (va_secrets (fst st))"
  then show ?thesis unfolding EnvironmentUpdate
    by (cases st) (auto simp: environment_update_def Let_def split: option.splits)
qed (cases st; auto simp: secret_delete_def environment_insert_def environment_remove_def record_usage_def secret_key_def Let_def
    intro: secrets_ok_filter intro!: secrets_ok_update split: option.splits)+

lemma vault_ops_ok: "secrets_ok (va_secrets (fst st)) \<Longrightarrow> secrets_ok (va_secrets (fst (fold (vault_op lower) ops st)))"
proof (induction ops arbitrary: st)
  case (Cons op ops)
  from Cons.IH [OF vault_op_ok [OF Cons.prems]] show ?case by simp
qed simp

text \<open>
  C28: A dispatch gets, for every name, exactly the secret of the narrowest scope.  After any
  operations on tables that keep their constraints, a row is handed to the dispatch exactly when it applies to it and
  every other row of its name that applies has a wider scope, where an environment is
  narrower than a repository and that narrower than the workspace; no name is handed over twice.
\<close>

theorem narrowest_secret_wins:
  assumes "secrets_ok (va_secrets (fst st))"
    "v = fst (fold (vault_op lower) ops st)"
  shows "set (resolve_for_dispatch v ws repo env) =
      {s \<in> set (va_secrets v). applies ws repo env s \<and>
         (\<forall>t\<in>set (va_secrets v). applies ws repo env t \<and> sc_name t = sc_name s \<and> t \<noteq> s \<longrightarrow>
            scope_rank s < scope_rank t)} \<and>
    distinct (map sc_name (resolve_for_dispatch v ws repo env))"
proof -
  have ok: "secrets_ok (va_secrets v)" using vault_ops_ok [OF assms(1)] assms(2) by simp
  have same: "s = t" if st: "s \<in> set (va_secrets v)" "t \<in> set (va_secrets v)" "sc_name s = sc_name t"
    and ap: "applies ws repo env s" "applies ws repo env t" and rank: "scope_rank s = scope_rank t" for s t
  proof -
    have "sc_repository_id s = sc_repository_id t \<and> sc_environment_id s = sc_environment_id t"
      by (rule scope_rank_inj [OF ap rank]) (use ok st in \<open>auto simp: secrets_ok_def list_all_iff\<close>)
    moreover have "sc_workspace_id s = sc_workspace_id t" using ap by (simp add: applies_def)
    ultimately show ?thesis using ok st by (auto simp: secrets_ok_def distinct_map dest: inj_onD)
  qed
  have "s \<in> set (resolve_for_dispatch v ws repo env) \<longleftrightarrow> s \<in> set (va_secrets v) \<and> applies ws repo env s \<and>
      (\<forall>t\<in>set (va_secrets v). applies ws repo env t \<and> sc_name t = sc_name s \<and> t \<noteq> s \<longrightarrow> scope_rank s < scope_rank t)"
    (is "?in \<longleftrightarrow> ?best") for s
  proof
    assume ?in
    then show ?best using resolve_facts [of s v ws repo env] same by (metis order_le_less)
  next
    assume best: ?best
    then obtain r where r: "r \<in> set (resolve_for_dispatch v ws repo env)" "sc_name r = sc_name s"
      using resolve_complete by metis
    have "r = s" using resolve_facts [OF r(1)] r(2) best by (metis leD)
    with r show ?in by simp
  qed
  moreover have "distinct (map sc_name (resolve_for_dispatch v ws repo env))"
    by (simp add: resolve_for_dispatch_def distinct_distinct_on)
  ultimately show ?thesis by blast
qed

definition demo_enc :: EncryptedSecret where
  "demo_enc = \<lparr>es_ciphertext = ''c'', es_nonce = ''n'', es_wrapped_dek = ''w'', es_dek_nonce = ''d'', es_key_version = 1\<rparr>"

definition demo_vault :: Vault where
  "demo_vault = \<lparr>va_members = [(1, 10, 5)], va_role_permissions = [(5, ''secrets.manage'')], va_users = [(1, ''ann'')],
     va_repositories = [], va_installations = [], va_environments = [], va_secrets = []\<rparr>"

text \<open>A workspace's token, and the same name for one repository.\<close>

theorem narrowest_secret_wins_witness:
  "\<exists>v. v = fst (fold (vault_op id) [SecretInsert 0 1 10 None None ''T'' None demo_enc 1 None,
      SecretInsert 0 2 10 (Some 7) None ''T'' None demo_enc 1 None] (demo_vault, empty_db)) \<and>
     map sc_id (resolve_for_dispatch v 10 7 None) = [2] \<and> map sc_id (resolve_for_dispatch v 10 8 None) = [1] \<and>
     distinct (map sc_name (resolve_for_dispatch v 10 7 None))"
proof -
  let ?ops = "[SecretInsert 0 1 10 None None ''T'' None demo_enc 1 None, SecretInsert 0 2 10 (Some 7) None ''T'' None demo_enc 1 None]"
  let ?v = "fst (fold (vault_op id) ?ops (demo_vault, empty_db))"
  have "secrets_ok (va_secrets (fst (demo_vault, empty_db)))" by (simp add: demo_vault_def secrets_ok_def)
  from narrowest_secret_wins [OF this refl]
  have d: "distinct (map sc_name (resolve_for_dispatch ?v 10 7 None))" by blast
  have ss: "va_secrets ?v = [secret_row 0 1 10 None None ''T'' None demo_enc 1, secret_row 0 2 10 (Some 7) None ''T'' None demo_enc 1]"
    by (simp add: secret_insert_def demo_vault_def Let_def same_scope_def secret_row_def)
  have m: "map sc_id (resolve_for_dispatch ?v 10 7 None) = [2]" "map sc_id (resolve_for_dispatch ?v 10 8 None) = [1]"
    unfolding resolve_for_dispatch_def ss by (simp_all add: applies_def secret_row_def scope_rank_def)
  show ?thesis by (intro exI [of _ ?v] conjI refl m d)
qed

end
