(* ===== verification/ArtifactsDb.thy ===== *)
theory ArtifactsDb
  imports RunnersDb
begin

text \<open>
  Artifacts: the classification of names (\<open>services/artifact_kind.rs\<close>), where an object is
  stored (\<open>services/object_store.rs\<close>, without the S3 client), the retention policies
  (\<open>db/artifact_retention.rs\<close>) and the statements on the artifact table
  (\<open>db/artifacts.rs\<close>).
\<close>

section \<open>Kinds\<close>

definition KINDS :: "rstr list" where
  "KINDS = [''package'', ''report'', ''docs'', ''archive'', ''binary'', ''image'', ''log'', ''other'']"

definition SUFFIX_MAP :: "(rstr \<times> rstr) list" where
  "SUFFIX_MAP =
    [(''.crate'', ''package''), (''.whl'', ''package''), (''.gem'', ''package''), (''.jar'', ''package''),
     (''.deb'', ''package''), (''.rpm'', ''package''), (''.nupkg'', ''package''), (''.apk'', ''package''),
     (''.tar.gz'', ''archive''), (''.tar.bz2'', ''archive''), (''.zip'', ''archive''), (''.tar'', ''archive''),
     (''.tgz'', ''archive''), (''.7z'', ''archive''),
     (''.png'', ''image''), (''.jpg'', ''image''), (''.jpeg'', ''image''), (''.gif'', ''image''),
     (''.svg'', ''image''), (''.webp'', ''image''), (''.ico'', ''image''),
     (''.html'', ''docs''), (''.htm'', ''docs''), (''.pdf'', ''docs''), (''.md'', ''docs''),
     (''.xml'', ''report''), (''.sarif'', ''report''), (''.lcov'', ''report''), (''.junit'', ''report''),
     (''.log'', ''log''), (''.txt'', ''log''),
     (''.exe'', ''binary''), (''.dll'', ''binary''), (''.so'', ''binary''), (''.dylib'', ''binary''),
     (''.wasm'', ''binary''), (''.bin'', ''binary'')]"

definition classify :: "rstr \<Rightarrow> rstr" where
  "classify name =
     (case first_with (\<lambda>(sx, kind). ends_with (to_ascii_lowercase name) sx) SUFFIX_MAP of
        None \<Rightarrow> ''other''
      | Some (sx, kind) \<Rightarrow> kind)"

lemma classify_known: "classify name \<in> set KINDS"
proof -
  have "snd ` set SUFFIX_MAP \<subseteq> set KINDS" by (simp add: SUFFIX_MAP_def KINDS_def)
  then show ?thesis
    by (force simp: classify_def KINDS_def dest: first_with_Some split: option.splits)
qed

section \<open>Stores\<close>

datatype StorageBackend = Minio | R2

fun StorageBackend_as_str :: "StorageBackend \<Rightarrow> rstr" where
  "StorageBackend_as_str Minio = ''minio''"
| "StorageBackend_as_str R2 = ''r2''"

definition StorageBackend_parse :: "rstr \<Rightarrow> StorageBackend" where
  "StorageBackend_parse v = (if v = ''minio'' then Minio else R2)"

lemma StorageBackend_roundtrip [simp]: "StorageBackend_parse (StorageBackend_as_str b) = b"
  by (cases b) (simp_all add: StorageBackend_parse_def)

definition artifact_key :: "uuid \<Rightarrow> uuid \<Rightarrow> uuid \<Rightarrow> rstr \<Rightarrow> rstr" where
  "artifact_key ws pid jid name = ''artifacts/'' @ dec ws @ ''/'' @ dec pid @ ''/'' @ dec jid @ ''/'' @ name"

definition log_key :: "uuid \<Rightarrow> uuid \<Rightarrow> uuid \<Rightarrow> int \<Rightarrow> rstr" where
  "log_key ws pid jid attempt = ''logs/'' @ dec ws @ ''/'' @ dec pid @ ''/'' @ dec jid @ ''-'' @ dec_int attempt @ ''.log.gz''"

text \<open>The router: which stores are configured.  Whether the primary answers its probe is a parameter.\<close>

record Storage =
  so_primary :: StorageBackend
  so_fallback :: "StorageBackend option"

definition store_for :: "Storage \<Rightarrow> rstr \<Rightarrow> StorageBackend" where
  "store_for st backend =
     (let wanted = StorageBackend_parse backend in
      if so_primary st = wanted then so_primary st
      else if so_fallback st = Some wanted then wanted
      else so_primary st)"

definition store_for_upload :: "Storage \<Rightarrow> bool \<Rightarrow> StorageBackend" where
  "store_for_upload st reachable =
     (case so_fallback st of
        Some fallback \<Rightarrow> if \<not> reachable then fallback else so_primary st
      | None \<Rightarrow> so_primary st)"

text \<open>What was granted is what is asked: the marker of a grant leads back to its store.\<close>

lemma store_for_upload_marked: "store_for st (StorageBackend_as_str (store_for_upload st r)) = store_for_upload st r"
  by (auto simp: store_for_def store_for_upload_def split: option.splits)

section \<open>Retention\<close>

definition resolve_days :: "Db \<Rightarrow> uuid \<Rightarrow> rstr \<Rightarrow> int option" where
  "resolve_days db ws kind =
     (let of_kind = (\<lambda>k. map (\<lambda>(_, _, days). days) (filter (\<lambda>(w, k', _). w = ws \<and> k' = k) (db_retention db)))
      in fetch_optional (of_kind kind @ of_kind ''default''))"

definition replace_for_workspace ::
  "uuid \<Rightarrow> (rstr \<times> int) list \<Rightarrow> uuid \<Rightarrow> rstr option \<Rightarrow> Db \<Rightarrow> Db"
where
  "replace_for_workspace ws policies actor request_id db =
     add_audit \<lparr>au_workspace_id = ws, au_actor = Some actor, au_action = ''artifact.retention_updated'',
        au_subject_type = ''workspace'', au_subject_id = ws,
        au_metadata = jobj [(''policies'', JArr (map (\<lambda>(kind, days).
          jobj [(''kind'', JStr kind), (''retentionDays'', JNum (dec_int days))]) policies))],
        au_request_id = request_id\<rparr>
       (db\<lparr>db_retention := filter (\<lambda>(w, _). w \<noteq> ws) (db_retention db) @ map (\<lambda>(kind, days). (ws, kind, days)) policies\<rparr>)"

section \<open>The artifact table\<close>

definition artifact_at :: "uuid \<Rightarrow> rstr \<Rightarrow> Artifact \<Rightarrow> bool" where
  "artifact_at jid name a \<longleftrightarrow> ar_job_id a = jid \<and> ar_name a = name"

definition pending_at :: "uuid \<Rightarrow> rstr \<Rightarrow> Artifact \<Rightarrow> bool" where
  "pending_at jid name a \<longleftrightarrow> artifact_at jid name a \<and> ar_status a = ''pending''"

definition upd_artifacts :: "(Artifact \<Rightarrow> bool) \<Rightarrow> (Artifact \<Rightarrow> Artifact) \<Rightarrow> Db \<Rightarrow> Db" where
  "upd_artifacts P f db = db\<lparr>db_artifacts := update_where P f (db_artifacts db)\<rparr>"

definition insert_pending ::
  "time \<Rightarrow> uuid \<Rightarrow> uuid \<Rightarrow> uuid \<Rightarrow> uuid \<Rightarrow> rstr \<Rightarrow> rstr \<Rightarrow> rstr \<Rightarrow> int \<Rightarrow> rstr \<Rightarrow> rstr \<Rightarrow> time option \<Rightarrow>
     Db \<Rightarrow> Artifact \<times> Db"
where
  "insert_pending now new_id ws pid jid name r2_key backend sz content_type kind expiry db =
     (let reset = (\<lambda>a. a\<lparr>ar_size_bytes := Some sz, ar_content_type := Some content_type, ar_kind := kind,
            ar_storage_backend := backend, ar_status := ''pending'', ar_checksum_sha256 := None,
            ar_uncompressed_bytes := None, ar_file_count := None, ar_entries := None, ar_expires_at := expiry\<rparr>)
      in case fetch_optional (returning (artifact_at jid name) reset (db_artifacts db)) of
           Some a \<Rightarrow> (a, upd_artifacts (artifact_at jid name) reset db)
         | None \<Rightarrow>
             let a = \<lparr>ar_id = new_id, ar_workspace_id = ws, ar_pipeline_id = pid, ar_job_id = jid, ar_name = name,
                   ar_r2_key = r2_key, ar_storage_backend = backend, ar_size_bytes = Some sz,
                   ar_content_type = Some content_type, ar_checksum_sha256 = None, ar_status = ''pending'',
                   ar_kind = kind, ar_uncompressed_bytes = None, ar_file_count = None, ar_entries = None,
                   ar_created_at = now, ar_expires_at = expiry\<rparr>
             in (a, db\<lparr>db_artifacts := db_artifacts db @ [a]\<rparr>))"

definition find_pending :: "Db \<Rightarrow> uuid \<Rightarrow> rstr \<Rightarrow> Artifact option" where
  "find_pending db jid name = fetch_optional (filter (pending_at jid name) (db_artifacts db))"

definition count_for_job :: "Db \<Rightarrow> uuid \<Rightarrow> int" where
  "count_for_job db jid = int (length (filter (\<lambda>a. ar_job_id a = jid) (db_artifacts db)))"

record UploadManifest =
  um_uncompressed_bytes :: "int option"
  um_file_count :: "int option"
  um_entries :: "json option"

definition mark_uploaded ::
  "uuid \<Rightarrow> rstr \<Rightarrow> int \<Rightarrow> rstr \<Rightarrow> UploadManifest option \<Rightarrow> Db \<Rightarrow> Artifact option \<times> Db"
where
  "mark_uploaded jid name sz checksum manifest db =
     (let f = (\<lambda>a. a\<lparr>ar_status := ''uploaded'', ar_size_bytes := Some sz, ar_checksum_sha256 := Some checksum,
            ar_uncompressed_bytes := Option.bind manifest um_uncompressed_bytes,
            ar_file_count := Option.bind manifest um_file_count, ar_entries := Option.bind manifest um_entries\<rparr>)
      in (fetch_optional (returning (pending_at jid name) f (db_artifacts db)), upd_artifacts (pending_at jid name) f db))"

definition mark_failed :: "uuid \<Rightarrow> rstr \<Rightarrow> Db \<Rightarrow> Db" where
  "mark_failed jid name = upd_artifacts (pending_at jid name) (\<lambda>a. a\<lparr>ar_status := ''failed''\<rparr>)"

definition list_artifacts_for_pipeline :: "Db \<Rightarrow> uuid \<Rightarrow> Artifact list" where
  "list_artifacts_for_pipeline db pid = sort_key ar_created_at (filter (\<lambda>a. ar_pipeline_id a = pid) (db_artifacts db))"

definition list_artifacts_for_job :: "Db \<Rightarrow> uuid \<Rightarrow> Artifact list" where
  "list_artifacts_for_job db jid = sort_key ar_created_at (filter (\<lambda>a. ar_job_id a = jid) (db_artifacts db))"

definition find_artifact_for_workspace :: "Db \<Rightarrow> uuid \<Rightarrow> uuid \<Rightarrow> Artifact option" where
  "find_artifact_for_workspace db ws i =
     fetch_optional (filter (\<lambda>a. ar_workspace_id a = ws \<and> ar_id a = i) (db_artifacts db))"

definition delete_artifacts :: "(Artifact \<Rightarrow> bool) \<Rightarrow> Db \<Rightarrow> Db" where
  "delete_artifacts P db = db\<lparr>db_artifacts := filter (\<lambda>a. \<not> P a) (db_artifacts db)\<rparr>"

definition delete_for_workspace :: "uuid \<Rightarrow> uuid \<Rightarrow> uuid \<Rightarrow> rstr option \<Rightarrow> Db \<Rightarrow> Artifact option \<times> Db" where
  "delete_for_workspace ws i actor request_id db =
     (case find_artifact_for_workspace db ws i of
        None \<Rightarrow> (None, db)
      | Some a \<Rightarrow>
          (Some a, add_audit \<lparr>au_workspace_id = ws, au_actor = Some actor, au_action = ''artifact.deleted'',
              au_subject_type = ''artifact'', au_subject_id = ar_id a,
              au_metadata = jobj [(''name'', JStr (ar_name a)), (''sizeBytes'', jopt (\<lambda>n. JNum (dec_int n)) (ar_size_bytes a)),
                (''status'', JStr (ar_status a)), (''pipelineId'', JStr (dec (ar_pipeline_id a)))],
              au_request_id = request_id\<rparr>
             (delete_artifacts (\<lambda>a. ar_workspace_id a = ws \<and> ar_id a = i) db)))"

definition clamp_limit :: "int \<Rightarrow> nat" where
  "clamp_limit limit = nat (min (max limit 1) 1000)"

definition expired :: "time \<Rightarrow> Artifact \<Rightarrow> bool" where
  "expired now a \<longleftrightarrow> ar_status a = ''uploaded'' \<and> (case ar_expires_at a of None \<Rightarrow> False | Some t \<Rightarrow> t < now)"

definition find_expired :: "time \<Rightarrow> int \<Rightarrow> Db \<Rightarrow> Artifact list" where
  "find_expired now limit db =
     take (clamp_limit limit) (sort_key (\<lambda>a. case ar_expires_at a of None \<Rightarrow> 0 | Some t \<Rightarrow> t)
       (filter (expired now) (db_artifacts db)))"

definition mark_expired :: "uuid \<Rightarrow> Db \<Rightarrow> Db" where
  "mark_expired i = upd_artifacts (\<lambda>a. ar_id a = i \<and> ar_status a = ''uploaded'') (\<lambda>a. a\<lparr>ar_status := ''expired''\<rparr>)"

definition find_stale_artifacts :: "time \<Rightarrow> int \<Rightarrow> int \<Rightarrow> Db \<Rightarrow> Artifact list" where
  "find_stale_artifacts now older_than_hours limit db =
     take (clamp_limit limit) (sort_key ar_created_at (filter
       (\<lambda>a. ar_status a = ''pending'' \<and> ar_created_at a < now - secs (3600 * max older_than_hours 1)) (db_artifacts db)))"

definition delete_stale_pending :: "uuid \<Rightarrow> Db \<Rightarrow> Db" where
  "delete_stale_pending i = delete_artifacts (\<lambda>a. ar_id a = i \<and> ar_status a = ''pending'')"

section \<open>The table's invariant\<close>

text \<open>
  One row for a job and a name; every name is safe to put into an object key; an uploaded row
  holds a positive size within the limit and a checksum.
\<close>

definition artifact_ok :: "int \<Rightarrow> (rstr \<Rightarrow> bool) \<Rightarrow> Artifact \<Rightarrow> bool" where
  "artifact_ok limit safe a \<longleftrightarrow> safe (ar_name a) \<and>
     ar_status a \<in> {''pending'', ''uploaded'', ''failed'', ''expired''} \<and> ar_kind a \<in> set KINDS \<and>
     (ar_status a \<in> {''uploaded'', ''expired''} \<longrightarrow>
       (case ar_size_bytes a of None \<Rightarrow> False | Some n \<Rightarrow> 0 < n \<and> n \<le> limit) \<and>
       (case ar_checksum_sha256 a of None \<Rightarrow> False | Some c \<Rightarrow> length c = 64))"

definition artifact_place :: "Artifact \<Rightarrow> uuid \<times> rstr" where
  "artifact_place a = (ar_job_id a, ar_name a)"

definition artifacts_ok :: "int \<Rightarrow> int \<Rightarrow> (rstr \<Rightarrow> bool) \<Rightarrow> Db \<Rightarrow> bool" where
  "artifacts_ok limit max_count safe db \<longleftrightarrow> list_all (artifact_ok limit safe) (db_artifacts db) \<and>
     distinct (map artifact_place (db_artifacts db)) \<and> (\<forall>jid. count_for_job db jid \<le> max max_count 0)"

lemma upd_artifacts_ok:
  assumes "artifacts_ok limit n safe db"
    and "\<And>a. P a \<Longrightarrow> artifact_ok limit safe a \<Longrightarrow> artifact_ok limit safe (f a)"
    and same: "\<And>a. ar_job_id (f a) = ar_job_id a" "\<And>a. ar_name (f a) = ar_name a"
  shows "artifacts_ok limit n safe (upd_artifacts P f db)"
proof -
  have "map artifact_place (update_where P f rows) = map artifact_place rows" for rows
    by (rule map_update_where) (simp add: artifact_place_def same)
  moreover have "length (filter (\<lambda>a. ar_job_id a = jid) (update_where P f rows)) = length (filter (\<lambda>a. ar_job_id a = jid) rows)"
    for jid rows by (induction rows) (auto simp: update_where_def same)
  ultimately show ?thesis
    using assms(1) by (auto simp: artifacts_ok_def upd_artifacts_def count_for_job_def list_all_iff set_update_where intro: assms(2))
qed

lemma delete_artifacts_ok:
  assumes "artifacts_ok limit n safe db"
  shows "artifacts_ok limit n safe (delete_artifacts P db)"
proof -
  have "length (filter (\<lambda>a. ar_job_id a = jid) (filter (\<lambda>a. \<not> P a) rows)) \<le> length (filter (\<lambda>a. ar_job_id a = jid) rows)"
    for jid rows by (induction rows) auto
  then have "count_for_job (delete_artifacts P db) jid \<le> count_for_job db jid" for jid
    by (simp add: count_for_job_def delete_artifacts_def)
  with assms order_trans show ?thesis
    by (fastforce simp: artifacts_ok_def delete_artifacts_def list_all_iff distinct_map inj_on_def)
qed

lemma insert_pending_ok:
  assumes ok: "artifacts_ok limit n safe db" and "safe name" "kind \<in> set KINDS"
    and room: "count_for_job db jid < n"
  shows "artifacts_ok limit n safe (snd (insert_pending now new_id ws pid jid name key backend sz ct kind e db))"
proof (cases "\<exists>a\<in>set (db_artifacts db). artifact_at jid name a")
  case True
  then obtain a where "fetch_optional (returning (artifact_at jid name) f (db_artifacts db)) \<noteq> None" for f
    by (auto simp: returning_def filter_empty_conv)
  then show ?thesis
    unfolding insert_pending_def Let_def
    by (auto split: option.splits intro!: upd_artifacts_ok [OF ok])
      (use assms in \<open>auto simp: artifact_ok_def artifact_at_def\<close>)
next
  case False
  then have none: "fetch_optional (returning (artifact_at jid name) f (db_artifacts db)) = None" for f
    by (auto simp: returning_def filter_empty_conv)
  from False have "(jid, name) \<notin> set (map artifact_place (db_artifacts db))"
    by (auto simp: artifact_place_def artifact_at_def)
  with assms show ?thesis
    by (auto simp: insert_pending_def none Let_def artifacts_ok_def artifact_ok_def artifact_place_def count_for_job_def)
qed

end
