(* ===== verification/Dispatch.thy ===== *)
theory Dispatch
  imports PipelinePlan Cancel Vault ArtifactsDb
begin

text \<open>
  Dispatch of a claimed job, the second half of \<open>services/scheduler.rs\<close>: the payload is built
  from the stored plan and the live secrets, its working directories are checked again, what
  must not be logged is registered, and the signed message is queued to the runner.
\<close>

section \<open>The server around the pipeline code\<close>

text \<open>
  \<open>World\<close> is what the code reads and does not change: the configuration and, as functions, the
  libraries and services it calls.  \<open>wd_mint\<close> is GitHub's answer to a request for a token of an
  installation; \<open>wd_secrets_key\<close> the master key if one is configured.  \<open>wd_hash\<close> is the hex
  SHA-256 of a token, \<open>wd_nfc\<close> Unicode's normal form C, \<open>wd_json_text\<close> the JSON printer; the
  last three are the object store: whether the primary answers its probe, a presigned upload,
  and what the store says of an object (\<open>Inl\<close> an error, \<open>Inr None\<close> no such object).
\<close>

record Config =
  cf_default_job_image :: rstr
  cf_image_allowlist :: "rstr list"
  cf_pipeline_timeout_seconds :: int
  cf_job_timeout_seconds :: int
  cf_signing_key :: rstr
  cf_max_artifact_bytes :: int
  cf_max_artifacts_per_job :: int
  cf_artifact_retention_days :: int

record World =
  wd_config :: Config
  wd_secrets_key :: "rstr option"
  wd_aead :: aead
  wd_crypto :: crypto
  wd_mint :: "int \<Rightarrow> rstr option"
  wd_lower :: "rstr \<Rightarrow> rstr"
  wd_parse_yaml :: "rstr \<Rightarrow> (rstr \<times> nat option) + yaml"
  wd_hash :: "rstr \<Rightarrow> rstr"
  wd_nfc :: "rstr \<Rightarrow> rstr"
  wd_json_text :: "json \<Rightarrow> rstr"
  wd_storage :: Storage
  wd_probe :: "time \<Rightarrow> bool"
  wd_presign :: "StorageBackend \<Rightarrow> rstr \<Rightarrow> rstr \<Rightarrow> int \<Rightarrow> rstr option"
  wd_head :: "StorageBackend \<Rightarrow> rstr \<Rightarrow> time \<Rightarrow> unit + int option"

record Server =
  sv_app :: AppState
  sv_vault :: Vault

definition on_app :: "(AppState \<Rightarrow> 'a \<times> AppState) \<Rightarrow> Server \<Rightarrow> 'a \<times> Server" where
  "on_app f s = (let (r, a) = f (sv_app s) in (r, s\<lparr>sv_app := a\<rparr>))"

definition upd_app :: "(AppState \<Rightarrow> AppState) \<Rightarrow> Server \<Rightarrow> Server" where
  "upd_app f s = s\<lparr>sv_app := f (sv_app s)\<rparr>"

section \<open>Checkout credentials\<close>

definition is_safe_name_segment :: "rstr \<Rightarrow> bool" where
  "is_safe_name_segment value \<longleftrightarrow> value \<noteq> [] \<and> length value \<le> 100 \<and> \<not> starts_with value ''.'' \<and>
     list_all (\<lambda>c. is_ascii_alphanumeric c \<or> c \<in> {ch (CHR ''-''), ch (CHR ''_''), ch (CHR ''.'')}) (chars value)"

definition is_safe_commit_ref :: "rstr \<Rightarrow> bool" where
  "is_safe_commit_ref value \<longleftrightarrow> 7 \<le> length value \<and> length value \<le> 64 \<and> list_all is_ascii_alphanumeric (chars value)"

text \<open>\<open>Inl\<close> is a failure, \<open>Inr None\<close> a workspace with no live installation.\<close>

definition build_checkout :: "World \<Rightarrow> Vault \<Rightarrow> Repository \<Rightarrow> rstr \<Rightarrow> unit + Checkout option" where
  "build_checkout w v repo commit_sha =
     (if \<not> is_safe_name_segment (rp_owner repo) \<or> \<not> is_safe_name_segment (rp_name repo) \<or>
         \<not> is_safe_commit_ref commit_sha
      then Inl ()
      else case find_installation v (rp_workspace_id repo) (rp_installation_id repo) of
        None \<Rightarrow> Inr None
      | Some inst \<Rightarrow>
          if gi_suspended_at inst \<noteq> None then Inr None
          else case wd_mint w (gi_installation_id inst) of
            None \<Rightarrow> Inl ()
          | Some token \<Rightarrow>
              Inr (Some \<lparr>tarball_url = ''https://api.github.com/repos/'' @ rp_owner repo @ ''/'' @ rp_name repo @
                           ''/tarball/'' @ commit_sha,
                         co_token = token\<rparr>))"

section \<open>Secrets\<close>

definition from_utf8 :: "rstr \<Rightarrow> rstr option" where
  "from_utf8 bs = (if list_all scalar (chars bs) \<and> of_chars (chars bs) = bs then Some bs else None)"

lemma from_utf8_Some: "from_utf8 bs = Some s \<longleftrightarrow> s = bs \<and> utf8 bs"
proof
  assume a: "from_utf8 bs = Some s"
  then have c: "\<forall>c\<in>set (chars bs). scalar c" "of_chars (chars bs) = bs"
    by (auto simp: from_utf8_def list_all_iff split: if_splits)
  from utf8_of_chars [OF c(1)] a c(2) show "s = bs \<and> utf8 bs" by (simp add: from_utf8_def split: if_splits)
next
  assume "s = bs \<and> utf8 bs"
  then show "from_utf8 bs = Some s"
    using scalar_chars of_chars_chars by (auto simp: from_utf8_def list_all_iff)
qed

text \<open>The loop over the rows: the first that does not decrypt, or is not text, ends it.\<close>

fun open_secrets :: "aead \<Rightarrow> rstr \<Rightarrow> SecretRow list \<Rightarrow> (SecretRow \<times> rstr) list option" where
  "open_secrets lib key [] = Some []"
| "open_secrets lib key (r # rs) =
     (case decrypt lib key (sc_encrypted r) (sc_id r) of
        None \<Rightarrow> None
      | Some plaintext \<Rightarrow>
          (case from_utf8 plaintext of
             None \<Rightarrow> None
           | Some value \<Rightarrow> map_option (Cons (r, value)) (open_secrets lib key rs)))"

definition dispatch_secrets ::
  "World \<Rightarrow> Vault \<Rightarrow> uuid \<Rightarrow> uuid \<Rightarrow> uuid option \<Rightarrow> (SecretRow \<times> rstr) list option"
where
  "dispatch_secrets w v ws repo env =
     (case wd_secrets_key w of
        Some key \<Rightarrow> open_secrets (wd_aead w) key (resolve_for_dispatch v ws repo env)
      | None \<Rightarrow> if any_for_dispatch v ws repo env then None else Some [])"

definition resolved_secrets :: "(SecretRow \<times> rstr) list \<Rightarrow> (rstr \<times> rstr) list" where
  "resolved_secrets secrets = bt_extend [] (map (\<lambda>(r, value). (sc_name r, value)) secrets)"

definition secret_lookup :: "(rstr \<times> rstr) list \<Rightarrow> rstr \<Rightarrow> rstr \<Rightarrow> rstr option" where
  "secret_lookup resolved ctx name =
     (if ctx = ''secrets'' then Some (case map_of resolved name of None \<Rightarrow> [] | Some value \<Rightarrow> value)
      else if ctx = ''vars'' then Some [] else None)"

section \<open>The payload\<close>

definition expand :: "(rstr \<Rightarrow> rstr \<Rightarrow> rstr option) \<Rightarrow> rstr \<Rightarrow> rstr" where
  "expand lookup value = (if contains value ''${{'' then substitute_context_refs lookup value else value)"

definition plan_env :: "json \<Rightarrow> (rstr \<times> rstr) list" where
  "plan_env plan =
     (case Option.bind (jget plan ''env'') j_object of
        None \<Rightarrow> []
      | Some m \<Rightarrow> bt_extend [] (filter_map (\<lambda>(k, v). map_option (Pair k) (j_str v)) m))"

definition dispatch_env :: "json \<Rightarrow> (rstr \<times> rstr) list \<Rightarrow> (rstr \<times> rstr) list" where
  "dispatch_env plan resolved =
     bt_extend (map (\<lambda>(k, v). (k, expand (secret_lookup resolved) v)) (plan_env plan)) resolved"

text \<open>\<open>Inl\<close> is an unsafe working directory.\<close>

definition resolve_step_workdir :: "rstr option \<Rightarrow> (rstr \<Rightarrow> rstr \<Rightarrow> rstr option) \<Rightarrow> unit + rstr option" where
  "resolve_step_workdir raw lookup =
     (case raw of
        None \<Rightarrow> Inr None
      | Some raw \<Rightarrow>
          (case normalize_relative_path (expand lookup raw) of
             Some normalized \<Rightarrow> Inr (Some normalized)
           | None \<Rightarrow> Inl ()))"

definition field :: "json \<Rightarrow> rstr \<Rightarrow> rstr option" where
  "field v k = Option.bind (jget v k) j_str"

fun dispatch_steps :: "(rstr \<Rightarrow> rstr \<Rightarrow> rstr option) \<Rightarrow> json list \<Rightarrow> JobStep list option" where
  "dispatch_steps lookup [] = Some []"
| "dispatch_steps lookup (step # steps) =
     (case (field step ''run'', field step ''name'') of
        (Some run, Some name) \<Rightarrow>
          (case resolve_step_workdir (field step ''workingDirectory'') lookup of
             Inl _ \<Rightarrow> None
           | Inr working_dir \<Rightarrow>
               map_option (Cons \<lparr>js_name = name, js_run = expand lookup run,
                   js_shell = (case field step ''shell'' of None \<Rightarrow> ''sh'' | Some sh \<Rightarrow> sh),
                   js_working_dir = working_dir\<rparr>) (dispatch_steps lookup steps))
      | _ \<Rightarrow> dispatch_steps lookup steps)"

definition plan_step_list :: "json \<Rightarrow> json list" where
  "plan_step_list plan = (case Option.bind (jget plan ''steps'') j_array of None \<Rightarrow> [] | Some xs \<Rightarrow> xs)"

definition dispatch_masks :: "Checkout option \<Rightarrow> (rstr \<times> rstr) list \<Rightarrow> (SecretRow \<times> rstr) list \<Rightarrow> rstr list" where
  "dispatch_masks checkout env secrets =
     (case checkout of None \<Rightarrow> [] | Some c \<Rightarrow> [co_token c]) @
     map snd (filter (\<lambda>(k, v). looks_confidential k) env) @ map snd secrets"

text \<open>\<open>as u64\<close> and \<open>as u32\<close> keep the low bits.\<close>

definition as_u64 :: "int \<Rightarrow> nat" where "as_u64 i = nat (i mod 2 ^ 64)"
definition as_u32 :: "int \<Rightarrow> nat" where "as_u32 i = nat (i mod 2 ^ 32)"

definition PAYLOAD_TTL_MINUTES :: int where "PAYLOAD_TTL_MINUTES = 5"

definition build_payload ::
  "World \<Rightarrow> AppState \<Rightarrow> PipelineJob \<Rightarrow> uuid \<Rightarrow> (rstr \<times> rstr) list \<Rightarrow> JobStep list \<Rightarrow> Checkout option \<Rightarrow> JobPayload"
where
  "build_payload w a job rid env steps checkout =
    \<lparr>jp_job_id = pj_id job, jp_pipeline_id = pj_pipeline_id job, jp_runner_id = rid,
     issued_at = st_now a, expires_at = st_now a + secs (60 * PAYLOAD_TTL_MINUTES),
     jp_image = (case field (pj_plan job) ''image'' of None \<Rightarrow> cf_default_job_image (wd_config w) | Some i \<Rightarrow> i),
     jp_env = env, jp_steps = steps, jp_checkout = checkout,
     timeout_seconds = nat (max (pj_timeout_seconds job) 0),
     jp_caps = \<lparr>max_log_bytes = as_u64 (st_max_log_bytes a),
        max_artifact_bytes = as_u64 (cf_max_artifact_bytes (wd_config w)),
        max_artifacts = as_u32 (cf_max_artifacts_per_job (wd_config w))\<rparr>\<rparr>"

lemma build_payload_simps [simp]:
  "jp_job_id (build_payload w a job rid env steps co) = pj_id job"
  "jp_runner_id (build_payload w a job rid env steps co) = rid"
  "jp_env (build_payload w a job rid env steps co) = env"
  "jp_steps (build_payload w a job rid env steps co) = steps"
  "jp_checkout (build_payload w a job rid env steps co) = co"
  by (simp_all add: build_payload_def)

section \<open>Dispatch\<close>

datatype DispatchOutcome = Sent | Unreachable | CheckoutUnavailable | SecretsUnavailable | WorkdirInvalid

definition job_environment_id :: "World \<Rightarrow> Vault \<Rightarrow> uuid \<Rightarrow> PipelineJob \<Rightarrow> uuid option" where
  "job_environment_id w v ws job =
     Option.bind (field (pj_plan job) ''environment'') (find_environment_by_name (wd_lower w) v ws)"

text \<open>From the registered masks on: sign, queue, count the use of the secrets.\<close>

definition deliver ::
  "World \<Rightarrow> PipelineJob \<Rightarrow> uuid \<Rightarrow> JobPayload \<Rightarrow> uuid list \<Rightarrow> Server \<Rightarrow> (AppError + DispatchOutcome) \<times> Server"
where
  "deliver w job rid payload injected s =
     (case sign_job_payload (wd_crypto w) (cf_signing_key (wd_config w)) payload of
        None \<Rightarrow> (Inl (Internal ''payload''), s)
      | Some msg \<Rightarrow>
          let (ok, s) = on_app (send_runner rid msg) s in
          if ok then (Inr Sent, s\<lparr>sv_vault := record_usage (st_now (sv_app s)) injected (sv_vault s)\<rparr>)
          else (Inr Unreachable, s))"

definition dispatch :: "World \<Rightarrow> PipelineJob \<Rightarrow> uuid \<Rightarrow> Server \<Rightarrow> (AppError + DispatchOutcome) \<times> Server" where
  "dispatch w job rid s =
     (case find_pipeline (st_db (sv_app s)) (pj_pipeline_id job) of
        None \<Rightarrow> (Inl RowNotFound, s)
      | Some p \<Rightarrow>
     (case find_repository (sv_vault s) (pl_workspace_id p) (pl_repository_id p) of
        None \<Rightarrow> (Inl RowNotFound, s)
      | Some repo \<Rightarrow>
     (case build_checkout w (sv_vault s) repo (pl_commit_sha p) of
        Inl _ \<Rightarrow> (Inr CheckoutUnavailable, s)
      | Inr checkout \<Rightarrow>
     (case dispatch_secrets w (sv_vault s) (pl_workspace_id p) (pl_repository_id p)
             (job_environment_id w (sv_vault s) (pl_workspace_id p) job) of
        None \<Rightarrow> (Inr SecretsUnavailable, s)
      | Some secrets \<Rightarrow>
          let resolved = resolved_secrets secrets;
              env = dispatch_env (pj_plan job) resolved
          in (case dispatch_steps (secret_lookup resolved) (plan_step_list (pj_plan job)) of
                None \<Rightarrow> (Inr WorkdirInvalid, s)
              | Some steps \<Rightarrow>
                  let s = upd_app (\<lambda>a. a\<lparr>st_log_hub := register_masks (st_log_hub a) (pj_id job)
                        (dispatch_masks checkout env secrets)\<rparr>) s
                  in deliver w job rid (build_payload w (sv_app s) job rid env steps checkout)
                       (map (\<lambda>(r, value). sc_id r) secrets) s)))))"


section \<open>What leaves the server\<close>

text \<open>A value is short enough to be exempt, or registered for the job.\<close>

definition masked :: "LogHub \<Rightarrow> uuid \<Rightarrow> rstr \<Rightarrow> bool" where
  "masked h jid v \<longleftrightarrow> length v < MIN_MASK_LEN \<or>
     (case hub_masks h jid of None \<Rightarrow> False | Some st \<Rightarrow> v \<in> set (ms_values st))"

lemma masked_register: "v \<in> set vs \<Longrightarrow> masked (register_masks h jid vs) jid v"
  by (auto simp: masked_def register_masks_def set_mask_def Let_def filter_empty_conv split: option.splits)

definition normal_workdir :: "JobStep \<Rightarrow> bool" where
  "normal_workdir st \<longleftrightarrow> (case js_working_dir st of None \<Rightarrow> True
     | Some d \<Rightarrow> stays_inside d \<and> normalize_relative_path d = Some d)"

lemma dispatch_steps_normal: "dispatch_steps lookup xs = Some steps \<Longrightarrow> list_all normal_workdir steps"
proof (induction xs arbitrary: steps)
  case (Cons x xs)
  then show ?case
    by (auto simp: normal_workdir_def resolve_step_workdir_def normalize_stays_inside split: option.splits sum.splits)
qed simp

lemma open_secrets_Some:
  "open_secrets lib key rs = Some secrets \<Longrightarrow>
     map fst secrets = rs \<and> list_all (\<lambda>(r, value). decrypt lib key (sc_encrypted r) (sc_id r) = Some value \<and> utf8 value) secrets"
  by (induction rs arbitrary: secrets) (auto simp: from_utf8_Some split: option.splits)

lemma open_secrets_mem:
  "open_secrets lib key rs = Some secrets \<Longrightarrow> r \<in> set rs \<Longrightarrow>
     \<exists>x. (r, x) \<in> set secrets \<and> decrypt lib key (sc_encrypted r) (sc_id r) = Some x"
  by (induction rs arbitrary: secrets) (fastforce simp: from_utf8_Some split: option.splits)+

lemma map_of_resolved:
  assumes "distinct (map (\<lambda>(r, v). sc_name r) secrets)" "(r, value) \<in> set secrets"
  shows "map_of (resolved_secrets secrets) (sc_name r) = Some value"
proof -
  have "map_of (rev (map (\<lambda>(r, value). (sc_name r, value)) secrets)) (sc_name r) = Some value"
    by (rule map_of_is_SomeI)
      (use assms in \<open>auto simp: rev_map [symmetric] comp_def case_prod_unfold image_iff intro: bexI [of _ "(r, value)"]\<close>)
  then show ?thesis by (simp add: resolved_secrets_def map_of_bt_extend)
qed

lemma dispatch_Sent:
  assumes "dispatch w job rid s = (Inr Sent, s')"
  obtains p repo checkout secrets steps msg h where
    "find_pipeline (st_db (sv_app s)) (pj_pipeline_id job) = Some p"
    "find_repository (sv_vault s) (pl_workspace_id p) (pl_repository_id p) = Some repo"
    "build_checkout w (sv_vault s) repo (pl_commit_sha p) = Inr checkout"
    "dispatch_secrets w (sv_vault s) (pl_workspace_id p) (pl_repository_id p)
       (job_environment_id w (sv_vault s) (pl_workspace_id p) job) = Some secrets"
    "dispatch_steps (secret_lookup (resolved_secrets secrets)) (plan_step_list (pj_plan job)) = Some steps"
    "h = register_masks (st_log_hub (sv_app s)) (pj_id job)
       (dispatch_masks checkout (dispatch_env (pj_plan job) (resolved_secrets secrets)) secrets)"
    "sign_job_payload (wd_crypto w) (cf_signing_key (wd_config w))
       (build_payload w (sv_app s) job rid (dispatch_env (pj_plan job) (resolved_secrets secrets)) steps checkout) = Some msg"
    "hub_send (st_runner_hub (sv_app s)) rid msg = (True, st_runner_hub (sv_app s'))"
    "st_log_hub (sv_app s') = h"
proof -
  have payload: "build_payload w (a\<lparr>st_log_hub := h\<rparr>) job rid env steps checkout = build_payload w a job rid env steps checkout"
    for a h env steps checkout by (simp add: build_payload_def)
  show thesis
    using assms
    by (auto simp: dispatch_def deliver_def on_app_def send_runner_def upd_app_def payload Let_def case_prod_unfold
        split: option.splits sum.splits if_splits intro!: that prod_eqI)
qed


text \<open>
  A payload is guarded when its working directories are in normal form, and everything
  confidential in it is masked in the job's log: the checkout token, the variables with a
  confidential-looking name, and every secret row handed to the dispatch, which is in the
  environment under its name with the value it decrypts to.
\<close>

definition secret_injected :: "World \<Rightarrow> LogHub \<Rightarrow> JobPayload \<Rightarrow> SecretRow \<Rightarrow> bool" where
  "secret_injected w h p r =
     (case Option.bind (wd_secrets_key w) (\<lambda>key. decrypt (wd_aead w) key (sc_encrypted r) (sc_id r)) of
        None \<Rightarrow> False
      | Some value \<Rightarrow> map_of (jp_env p) (sc_name r) = Some value \<and> masked h (jp_job_id p) value)"

definition guarded :: "World \<Rightarrow> LogHub \<Rightarrow> SecretRow list \<Rightarrow> JobPayload \<Rightarrow> bool" where
  "guarded w h rows p \<longleftrightarrow> list_all normal_workdir (jp_steps p) \<and>
     (case jp_checkout p of None \<Rightarrow> True | Some c \<Rightarrow> masked h (jp_job_id p) (co_token c)) \<and>
     list_all (\<lambda>(k, v). looks_confidential k \<longrightarrow> masked h (jp_job_id p) v) (jp_env p) \<and>
     list_all (secret_injected w h p) rows"

lemma map_of_dispatch_env:
  assumes "map_of resolved k = Some v" "bt_ok resolved"
  shows "map_of (dispatch_env plan resolved) k = Some v"
proof -
  have "distinct (map fst resolved)" using assms(2) by (simp add: bt_ok_def strict_sorted_iff)
  then have "map_of (rev resolved) k = Some v"
    using assms(1) by (intro map_of_is_SomeI) (auto simp: rev_map [symmetric] dest: map_of_SomeD)
  then show ?thesis by (simp add: dispatch_env_def map_of_bt_extend)
qed



definition demo_repo :: Repository where
  "demo_repo = \<lparr>rp_id = 7, rp_workspace_id = 10, rp_installation_id = 1, rp_github_repo_id = 1, rp_owner = ''acme'',
     rp_owner_avatar_url = None, rp_name = ''app'', rp_full_name = ''acme/app'', rp_private = True,
     rp_default_branch = ''main'', rp_language = None, rp_description = None, rp_sync_status = ''synced'',
     rp_sync_error = None, rp_last_synced_at = None, rp_imported_by = None, rp_created_at = 0, rp_updated_at = 0\<rparr>"

definition demo_secret :: SecretRow where
  "demo_secret = secret_row 0 1 10 None None ''DEPLOY_KEY'' None
     \<lparr>es_ciphertext = ''hunter22'', es_nonce = replicate 12 CHR ''n'', es_wrapped_dek = replicate 32 CHR ''w'',
      es_dek_nonce = replicate 12 CHR ''d'', es_key_version = 1\<rparr> 1"

definition demo_plan :: json where
  "demo_plan = JObj [(''env'', JObj [(''API_KEY'', JStr ''abcdefgh'')]), (''image'', JStr ''alpine''),
     (''steps'', JArr [JObj [(''name'', JStr ''build''), (''run'', JStr ''make''),
        (''workingDirectory'', JStr ''deploy/here'')]])]"

definition demo_job :: PipelineJob where
  "demo_job = job_row 0 11 10 ''build'' None [''linux''] [] demo_plan 60 0"

definition demo_run :: PipelineRow where
  "demo_run = pipeline_row 0 10 1
     \<lparr>np_workspace_id = 10, np_repository_id = 7, np_workflow_id = 4, np_workflow_name = ''ci'', np_workflow_path = ''ci.yml'',
      np_trigger = ''push'', np_triggered_by = None, np_commit_sha = ''abcdef0'', np_commit_message = None,
      np_commit_author = None, np_actor_login = None, np_actor_avatar_url = None, np_git_ref = ''main'',
      np_trigger_inputs = None, np_pr_number = None, np_timeout_seconds = 60, np_job_timeout_seconds = 60,
      np_request_id = None, np_webhook_delivery_id = None\<rparr>"

text \<open>The connected idle runner 3 belongs to workspace 20, the pipeline to workspace 10.\<close>

definition demo_runner :: RunnerRow where
  "demo_runner = (runner_row 0 3 20 ''box'' [''linux''] (Some ''h'') None None 1 False None)\<lparr>rn_status := ''idle''\<rparr>"

definition demo_world :: World where
  "demo_world = \<lparr>wd_config = \<lparr>cf_default_job_image = ''alpine'', cf_image_allowlist = [], cf_pipeline_timeout_seconds = 60,
        cf_job_timeout_seconds = 60, cf_signing_key = ''k'', cf_max_artifact_bytes = 1, cf_max_artifacts_per_job = 1, cf_artifact_retention_days = 30\<rparr>,
     wd_secrets_key = Some ''master'', wd_aead = \<lparr>seal = (\<lambda>k n a m. Some m), unseal = (\<lambda>k n a c. Some c)\<rparr>,
     wd_crypto = \<lparr>hmac = (\<lambda>k p. k), hex_encode = id, hex_decode = Some, payload_to_json = (\<lambda>p. Some (jp_image p)),
        payload_of_json = (\<lambda>j. None)\<rparr>,
     wd_mint = (\<lambda>i. None), wd_lower = id, wd_parse_yaml = (\<lambda>c. Inr YNull), wd_hash = id, wd_nfc = id,
     wd_json_text = (\<lambda>j. []), wd_storage = \<lparr>so_primary = R2, so_fallback = None\<rparr>, wd_probe = (\<lambda>t. True),
     wd_presign = (\<lambda>b k c n. Some k), wd_head = (\<lambda>b k t. Inr (Some 1))\<rparr>"

definition demo_server :: Server where
  "demo_server = \<lparr>sv_app = \<lparr>st_db = empty_db\<lparr>db_pipelines := [demo_run], db_jobs := [demo_job], db_runners := [demo_runner]\<rparr>,
        st_log_hub = LogHub_default, st_runner_hub = snd (hub_register RunnerHub_default 3),
        st_workspace_hub = WorkspaceHub_new, st_poked = False, st_spawned = [], st_now = 7, st_max_log_bytes = 1,
        st_checks_enabled = False, st_has_storage = False\<rparr>,
     sv_vault = demo_vault\<lparr>va_repositories := [demo_repo], va_secrets := [demo_secret]\<rparr>\<rparr>"

lemma demo_rows:
  "resolve_for_dispatch (sv_vault demo_server) 10 7 (job_environment_id demo_world (sv_vault demo_server) 10 demo_job) = [demo_secret]"
  by code_simp

lemma demo_opened:
  "dispatch_secrets demo_world (sv_vault demo_server) 10 7 (job_environment_id demo_world (sv_vault demo_server) 10 demo_job) =
     Some [(demo_secret, ''hunter22'')]"
proof -
  have "ascii ''hunter22''" by (simp add: ascii_def)
  then have "from_utf8 ''hunter22'' = Some ''hunter22''" by (simp add: from_utf8_Some utf8_ascii)
  then show ?thesis
    unfolding dispatch_secrets_def demo_rows
    by (simp add: demo_world_def demo_secret_def secret_row_def decrypt_def KEY_VERSION_def NONCE_LEN_def)
qed

lemma demo_expand: "expand lookup ''deploy/here'' = ''deploy/here''" "expand lookup ''make'' = ''make''"
  by (simp_all add: expand_def contains_def starts_with_def)

lemma demo_normal: "normalize_relative_path ''deploy/here'' = Some ''deploy/here''"
  by (rule normalize_valid) (simp_all add: segment_ok_def segment_byte_ok_def is_ascii_alphanumeric_def
      is_ascii_alphabetic_def is_ascii_lower_def is_ascii_upper_def is_ascii_digit_def)

lemma demo_steps:
  "dispatch_steps (secret_lookup (resolved_secrets [(demo_secret, ''hunter22'')])) (plan_step_list (pj_plan demo_job)) =
     Some [\<lparr>js_name = ''build'', js_run = ''make'', js_shell = ''sh'', js_working_dir = Some ''deploy/here''\<rparr>]"
  by (simp add: plan_step_list_def demo_job_def job_row_def demo_plan_def field_def resolve_step_workdir_def demo_expand demo_normal)

lemma demo_dispatch_parts:
  "find_pipeline (st_db (sv_app demo_server)) (pj_pipeline_id demo_job) = Some (pl_selected demo_run)"
  "find_repository (sv_vault demo_server) 10 7 = Some demo_repo"
  "build_checkout demo_world (sv_vault demo_server) demo_repo ''abcdef0'' = Inr None"
  "pl_workspace_id (pl_selected demo_run) = 10" "pl_repository_id (pl_selected demo_run) = 7"
  "pl_commit_sha (pl_selected demo_run) = ''abcdef0''"
  by code_simp+

lemma demo_dispatch: "fst (dispatch demo_world demo_job 3 demo_server) = Inr Sent"
  by (simp add: dispatch_def demo_dispatch_parts demo_steps demo_opened Let_def deliver_def sign_job_payload_def)
    (simp add: demo_world_def on_app_def upd_app_def send_runner_def demo_server_def hub_send_def hub_register_def
      RunnerHub_default_def RUNNER_QUEUE_def case_prod_unfold Let_def)


end
