(* ===== verification/Scheduler.thy ===== *)
theory Scheduler
  imports Dispatch
begin

text \<open>
  The passes of \<open>services/scheduler.rs\<close>: unacknowledged assignments, silent runners and
  timeouts first, then the matching of queued jobs with idle runners and what becomes of a job
  after each outcome of its dispatch.
\<close>

definition ACK_TIMEOUT_SECS :: int where "ACK_TIMEOUT_SECS = 15"
definition RUNNER_STALE_SECS :: int where "RUNNER_STALE_SECS = 90"
definition ASSIGN_BATCH :: nat where "ASSIGN_BATCH = 50"

section \<open>Sweeps\<close>

definition revert_one :: "uuid \<times> uuid \<times> uuid option \<Rightarrow> AppState \<Rightarrow> (AppError + unit) \<times> AppState" where
  "revert_one r s =
     (case r of (jid, pid, rid) \<Rightarrow>
        let s = release_runner rid s in
        case find_for_pipeline (st_db s) pid jid of
          None \<Rightarrow> (Inr (), s)
        | Some job \<Rightarrow> on_job_requeued job s)"

definition revert_unacked_pass :: "AppState \<Rightarrow> (AppError + unit) \<times> AppState" where
  "revert_unacked_pass s =
     (let (reverted, s) = with_db (revert_unacked (st_now s) ACK_TIMEOUT_SECS) s in for_each revert_one reverted s)"

definition sweep_runner :: "Runner \<Rightarrow> AppState \<Rightarrow> (AppError + unit) \<times> AppState" where
  "sweep_runner r s =
     (let s = s\<lparr>st_runner_hub := unregister (st_runner_hub s) (rn_id r), st_db := mark_offline (rn_id r) (st_db s)\<rparr>
      in and_then (orphan_runner_jobs (rn_id r) s) (\<lambda>_ s.
           let s = audit (runner_audit (rn_workspace_id r) None ''runner.offline'' (rn_id r)
                 (jobj [(''name'', JStr (rn_name r))]) None) s
           in (Inr (), case find_runner (st_db s) (rn_workspace_id r) (rn_id r) of
                 None \<Rightarrow> s
               | Some updated \<Rightarrow> publish_ws (rn_workspace_id r) (Ws_RunnerUpdate (RunnerResponse_from updated)) s)))"

definition sweep_stale_runners :: "AppState \<Rightarrow> (AppError + unit) \<times> AppState" where
  "sweep_stale_runners s = for_each sweep_runner (find_stale (st_now s) RUNNER_STALE_SECS (st_db s)) s"

definition sweep_timeouts :: "AppState \<Rightarrow> (AppError + unit) \<times> AppState" where
  "sweep_timeouts s =
     and_then (for_each timeout_job (find_timed_out_jobs (st_now s) (st_db s)) s)
       (\<lambda>_ s. for_each timeout_pipeline (find_timed_out_pipelines (st_now s) (st_db s)) s)"

section \<open>Assignment\<close>

definition labels_satisfy :: "rstr list \<Rightarrow> rstr list \<Rightarrow> bool" where
  "labels_satisfy runs_on runner_labels =
     list_all (\<lambda>wanted. list_ex (\<lambda>label. eq_ignore_ascii_case (trim label) (trim wanted)) runner_labels) runs_on"

definition clear_job_masks :: "uuid \<Rightarrow> AppState \<Rightarrow> AppState" where
  "clear_job_masks jid s = s\<lparr>st_log_hub := clear_masks (st_log_hub s) jid\<rparr>"

definition fail_closed :: "PipelineJob \<Rightarrow> uuid \<Rightarrow> rstr \<Rightarrow> AppState \<Rightarrow> (AppError + unit) \<times> AppState" where
  "fail_closed claimed rid category s =
     force_end (pj_id claimed) ''failure'' (Some category)
       (release_runner (Some rid) (clear_job_masks (pj_id claimed) s))"

definition undo_claim :: "PipelineJob \<Rightarrow> uuid \<Rightarrow> AppState \<Rightarrow> AppState" where
  "undo_claim claimed rid s =
     release_runner (Some rid) (snd (with_db (unclaim (pj_id claimed)) (clear_job_masks (pj_id claimed) s)))"

text \<open>The part of the loop after the claim; the result says whether the runner is used up.\<close>

definition settle_dispatch ::
  "PipelineJob \<Rightarrow> uuid \<Rightarrow> AppError + DispatchOutcome \<Rightarrow> Server \<Rightarrow> (AppError + bool) \<times> Server"
where
  "settle_dispatch claimed rid outcome s =
     (let fail = (\<lambda>category. and_then (on_app (fail_closed claimed rid category) s) (\<lambda>_ s. (Inr False, s))) in
      case outcome of
        Inr Sent \<Rightarrow> (Inr True, upd_app (on_job_assigned claimed) s)
      | Inr CheckoutUnavailable \<Rightarrow> fail ''checkout_unavailable''
      | Inr SecretsUnavailable \<Rightarrow> fail ''secrets_unavailable''
      | Inr WorkdirInvalid \<Rightarrow> fail ''workdir_invalid''
      | _ \<Rightarrow> (Inr False, upd_app (undo_claim claimed rid) s))"

definition pick_runner :: "Runner list \<Rightarrow> uuid list \<Rightarrow> PipelineJob \<Rightarrow> Runner option" where
  "pick_runner idle used job =
     first_with (\<lambda>r. rn_id r \<notin> set used \<and> labels_satisfy (pj_runs_on job) (rn_labels r)) idle"

definition assign_one ::
  "World \<Rightarrow> Runner list \<Rightarrow> uuid list \<Rightarrow> PipelineJob \<Rightarrow> Server \<Rightarrow> (AppError + uuid list) \<times> Server"
where
  "assign_one w idle used job s =
     (case pick_runner idle used job of
        None \<Rightarrow> (Inr used, s)
      | Some runner \<Rightarrow>
          (case on_app (with_db (claim_for_runner (st_now (sv_app s)) (pj_id job) (rn_id runner))) s of
             (None, s) \<Rightarrow> (Inr used, s)
           | (Some claimed, s) \<Rightarrow>
               (case dispatch w claimed (rn_id runner) s of
                  (outcome, s) \<Rightarrow>
                    and_then (settle_dispatch claimed (rn_id runner) outcome s)
                      (\<lambda>took s. (Inr (if took then rn_id runner # used else used), s)))))"

fun assign_jobs ::
  "World \<Rightarrow> Runner list \<Rightarrow> uuid list \<Rightarrow> PipelineJob list \<Rightarrow> Server \<Rightarrow> (AppError + unit) \<times> Server"
where
  "assign_jobs w idle used [] s = (Inr (), s)"
| "assign_jobs w idle used (job # jobs) s =
     and_then (assign_one w idle used job s) (\<lambda>used s. assign_jobs w idle used jobs s)"

definition assign_eligible :: "World \<Rightarrow> Server \<Rightarrow> (AppError + unit) \<times> Server" where
  "assign_eligible w s =
     (let connected = connected_ids (st_runner_hub (sv_app s));
          idle = find_idle_by_ids (st_db (sv_app s)) connected;
          jobs = find_eligible (st_db (sv_app s)) ASSIGN_BATCH
      in if connected = [] \<or> idle = [] \<or> jobs = [] then (Inr (), s) else assign_jobs w idle [] jobs s)"

definition pass :: "World \<Rightarrow> Server \<Rightarrow> (AppError + unit) \<times> Server" where
  "pass w s =
     and_then (on_app revert_unacked_pass s) (\<lambda>_ s.
     and_then (on_app sweep_stale_runners s) (\<lambda>_ s.
     and_then (on_app sweep_timeouts s) (\<lambda>_. assign_eligible w)))"

end
