(* ===== verification/Listing.thy ===== *)
theory Listing
  imports Scheduler Complex_Main
begin

text \<open>
  The listings of the console: the pipelines of a workspace (\<open>handlers/pipelines.rs\<close> and
  \<open>db/pipelines.rs\<close>) and its job queue (\<open>handlers/jobs.rs\<close> and \<open>db/pipeline_jobs.rs\<close>), with
  their filters, the escaped search pattern, the keyset cursors and the reason of a wait.
\<close>

section \<open>Patterns\<close>

definition escape_like :: "rstr \<Rightarrow> rstr" where
  "escape_like raw = concat (map (\<lambda>c. if c \<in> {ch (CHR 0x5C), ch (CHR ''%''), ch (CHR ''_'')}
     then CHR 0x5C # enc_char c else enc_char c) (chars raw))"

text \<open>
  \<open>LIKE ... ESCAPE\<close> of the database, on characters: a backslash takes the next character
  literally.  \<open>ILIKE\<close> folds both sides by the locale's \<open>low\<close> first.
\<close>

fun like :: "uchar list \<Rightarrow> uchar list \<Rightarrow> bool" where
  "like [] s \<longleftrightarrow> s = []"
| "like (p # ps) s \<longleftrightarrow>
     (if p = ch (CHR ''%'') then like ps s \<or> (case s of [] \<Rightarrow> False | _ # s' \<Rightarrow> like (p # ps) s')
      else case s of
        [] \<Rightarrow> False
      | c # s' \<Rightarrow>
          if p = ch (CHR ''_'') then like ps s'
          else if p = ch (CHR 0x5C) then (case ps of [] \<Rightarrow> False | q # ps' \<Rightarrow> q = c \<and> like ps' s')
          else p = c \<and> like ps s')"

definition ilike :: "(uchar \<Rightarrow> uchar) \<Rightarrow> rstr \<Rightarrow> rstr \<Rightarrow> bool" where
  "ilike low pattern s = like (map low (chars pattern)) (map low (chars s))"

definition search_pattern :: "rstr \<Rightarrow> rstr" where
  "search_pattern q = ''%'' @ escape_like q @ ''%''"

section \<open>Cursors\<close>

text \<open>The text forms of an instant and of an id, by \<open>chrono\<close> and \<open>uuid\<close>.\<close>

record Formats =
  ff_time :: "time \<Rightarrow> rstr"
  ff_parse_time :: "rstr \<Rightarrow> time option"
  ff_uuid :: "uuid \<Rightarrow> rstr"
  ff_parse_uuid :: "rstr \<Rightarrow> uuid option"

type_synonym Cursor = "time \<times> uuid"

fun split_once :: "char \<Rightarrow> rstr \<Rightarrow> (rstr \<times> rstr) option" where
  "split_once c [] = None"
| "split_once c (x # xs) = (if x = c then Some ([], xs) else map_option (\<lambda>(a, b). (x # a, b)) (split_once c xs))"

definition parse_cursor :: "Formats \<Rightarrow> rstr \<Rightarrow> AppError + Cursor" where
  "parse_cursor ff raw =
     (if length raw > 128 then Inl (Validation ''invalid cursor'')
      else case split_once (CHR ''~'') raw of
        None \<Rightarrow> Inl (Validation ''invalid cursor'')
      | Some (instant, i) \<Rightarrow>
          (case (ff_parse_time ff instant, ff_parse_uuid ff i) of
             (Some t, Some u) \<Rightarrow> Inr (t, u)
           | _ \<Rightarrow> Inl (Validation ''invalid cursor'')))"

definition format_cursor :: "Formats \<Rightarrow> time \<Rightarrow> uuid \<Rightarrow> rstr" where
  "format_cursor ff t i = ff_time ff t @ ''~'' @ ff_uuid ff i"

text \<open>On the instants and ids that occur, the crates read back what they print, within the bound.\<close>

definition formats_ok :: "Formats \<Rightarrow> Cursor set \<Rightarrow> bool" where
  "formats_ok ff keys \<longleftrightarrow> (\<forall>(t, i)\<in>keys.
     ff_parse_time ff (ff_time ff t) = Some t \<and> CHR ''~'' \<notin> set (ff_time ff t) \<and> length (ff_time ff t) \<le> 64 \<and>
     ff_parse_uuid ff (ff_uuid ff i) = Some i \<and> length (ff_uuid ff i) \<le> 36)"

lemma split_once_append: "c \<notin> set xs \<Longrightarrow> split_once c (xs @ c # ys) = Some (xs, ys)"
  by (induction xs) auto

lemma cursor_roundtrip:
  assumes ok: "formats_ok ff keys" "(t, i) \<in> keys"
  shows "parse_cursor ff (format_cursor ff t i) = Inr (t, i)"
proof -
  from ok have "length (ff_time ff t) \<le> 64" "length (ff_uuid ff i) \<le> 36" by (auto simp: formats_ok_def)
  then have "length (format_cursor ff t i) \<le> 128" by (simp add: format_cursor_def)
  with ok show ?thesis by (auto simp: parse_cursor_def format_cursor_def split_once_append formats_ok_def)
qed

section \<open>Pipelines\<close>

record ListQuery =
  lq_repository_id :: "uuid option"
  lq_workflow_id :: "uuid option"
  lq_status :: "rstr option"
  lq_conclusion :: "rstr option"
  lq_trigger :: "rstr option"
  lq_branch :: "rstr option"
  lq_triggered_by :: "uuid option"
  lq_runner_id :: "uuid option"
  lq_created_after :: "rstr option"
  lq_created_before :: "rstr option"
  lq_q :: "rstr option"
  lq_cursor :: "rstr option"
  lq_limit :: "int option"

record ListFilter =
  lf_repository_id :: "uuid option"
  lf_workflow_id :: "uuid option"
  lf_status :: "rstr option"
  lf_conclusion :: "rstr option"
  lf_trigger :: "rstr option"
  lf_git_ref :: "rstr option"
  lf_triggered_by :: "uuid option"
  lf_runner_id :: "uuid option"
  lf_created_after :: "time option"
  lf_created_before :: "time option"
  lf_search_pattern :: "rstr option"
  lf_cursor :: "Cursor option"
  lf_limit :: int

definition DEFAULT_PAGE :: int where "DEFAULT_PAGE = 50"

definition bind_result :: "'e + 'a \<Rightarrow> ('a \<Rightarrow> 'e + 'b) \<Rightarrow> 'e + 'b" where
  "bind_result r f = (case r of Inl e \<Rightarrow> Inl e | Inr x \<Rightarrow> f x)"

lemma bind_result_simps [simp]: "bind_result (Inl e) f = Inl e" "bind_result (Inr x) f = f x"
  by (simp_all add: bind_result_def)

lemma bind_result_Inr [simp]: "bind_result r f = Inr y \<longleftrightarrow> (\<exists>x. r = Inr x \<and> f x = Inr y)"
  by (cases r) auto

text \<open>A value of a fixed list, where an empty one counts as absent; and a trimmed text with a bound.\<close>

definition one_of :: "rstr list \<Rightarrow> rstr \<Rightarrow> rstr option \<Rightarrow> AppError + rstr option" where
  "one_of values err v =
     (case v of None \<Rightarrow> Inr None
      | Some s \<Rightarrow> if s = [] then Inr None else if s \<in> set values then Inr (Some s) else Inl (Validation err))"

definition short_text :: "nat \<Rightarrow> rstr \<Rightarrow> (rstr \<Rightarrow> AppError + 'a) \<Rightarrow> rstr option \<Rightarrow> AppError + 'a option" where
  "short_text mx err f v =
     (case map_option trim v of None \<Rightarrow> Inr None
      | Some s \<Rightarrow> if s = [] then Inr None
          else if length s \<le> mx then bind_result (f s) (\<lambda>x. Inr (Some x)) else Inl (Validation err))"

definition parse_ts :: "Formats \<Rightarrow> rstr \<Rightarrow> rstr option \<Rightarrow> AppError + time option" where
  "parse_ts ff name = short_text 64 (name @ '' too long'')
     (\<lambda>s. case ff_parse_time ff s of None \<Rightarrow> Inl (Validation (''invalid '' @ name @ '' timestamp'')) | Some t \<Rightarrow> Inr t)"

definition check_conclusion :: "rstr option \<Rightarrow> rstr option \<Rightarrow> AppError + rstr option" where
  "check_conclusion stat conclusion =
     bind_result (one_of [''success'', ''failure'', ''cancelled'', ''timed_out'', ''partial''] ''invalid conclusion filter'' conclusion)
       (\<lambda>c. if c \<noteq> None \<and> stat \<noteq> None \<and> stat \<noteq> Some ''completed''
             then Inl (Validation ''conclusion filter requires completed status'') else Inr c)"

definition build_list_filter :: "Formats \<Rightarrow> ListQuery \<Rightarrow> Cursor option \<Rightarrow> int \<Rightarrow> AppError + ListFilter" where
  "build_list_filter ff query cursor limit =
     bind_result (one_of [''queued'', ''in_progress'', ''completed''] ''invalid status filter'' (lq_status query)) (\<lambda>stat.
     bind_result (check_conclusion stat (lq_conclusion query)) (\<lambda>conclusion.
     bind_result (one_of [''push'', ''manual'', ''pull_request'', ''tag''] ''invalid trigger filter'' (lq_trigger query)) (\<lambda>trigger.
     bind_result (short_text 255 ''branch filter too long'' (\<lambda>b. Inr (''refs/heads/'' @ b)) (lq_branch query)) (\<lambda>git_ref.
     bind_result (parse_ts ff ''createdAfter'' (lq_created_after query)) (\<lambda>created_after.
     bind_result (parse_ts ff ''createdBefore'' (lq_created_before query)) (\<lambda>created_before.
     bind_result (short_text 200 ''search query too long'' (\<lambda>q. Inr (search_pattern q)) (lq_q query)) (\<lambda>pattern.
       Inr \<lparr>lf_repository_id = lq_repository_id query, lf_workflow_id = lq_workflow_id query, lf_status = stat,
            lf_conclusion = conclusion, lf_trigger = trigger, lf_git_ref = git_ref, lf_triggered_by = lq_triggered_by query,
            lf_runner_id = lq_runner_id query, lf_created_after = created_after, lf_created_before = created_before,
            lf_search_pattern = pattern, lf_cursor = cursor, lf_limit = limit\<rparr>)))))))"

record PipelineListRow =
  pr_pipeline :: Pipeline
  pr_repo_full_name :: rstr

definition PipelineResponse_from :: "PipelineListRow \<Rightarrow> PipelineResponse" where
  "PipelineResponse_from row = PipelineResponse_from_row (pr_pipeline row) (pr_repo_full_name row)"

text \<open>\<open>$n IS NULL OR ...\<close>, and a comparison with a column that may be NULL.\<close>

definition given :: "'a option \<Rightarrow> ('a \<Rightarrow> bool) \<Rightarrow> bool" where
  "given x p = (case x of None \<Rightarrow> True | Some y \<Rightarrow> p y)"

definition holds :: "('a \<Rightarrow> bool) \<Rightarrow> 'a option \<Rightarrow> bool" where
  "holds p x = (case x of None \<Rightarrow> False | Some y \<Rightarrow> p y)"

definition matches_filter :: "(uchar \<Rightarrow> uchar) \<Rightarrow> Db \<Rightarrow> ListFilter \<Rightarrow> PipelineRow \<Rightarrow> bool" where
  "matches_filter low db f p \<longleftrightarrow>
     given (lf_repository_id f) (\<lambda>r. pl_repository_id p = r) \<and> given (lf_status f) (\<lambda>s. pl_status p = s) \<and>
     given (lf_workflow_id f) (\<lambda>k. pl_workflow_id p = Some k) \<and> given (lf_conclusion f) (\<lambda>c. pl_conclusion p = Some c) \<and>
     given (lf_trigger f) (\<lambda>t. pl_trigger p = t) \<and> given (lf_git_ref f) (\<lambda>r. pl_git_ref p = r) \<and>
     given (lf_triggered_by f) (\<lambda>u. pl_triggered_by p = Some u) \<and>
     given (lf_runner_id f) (\<lambda>r. list_ex (\<lambda>j. pj_pipeline_id j = pl_id p \<and> pj_runner_id j = Some r) (db_jobs db)) \<and>
     given (lf_created_after f) (\<lambda>t. t \<le> pl_created_at p) \<and> given (lf_created_before f) (\<lambda>t. pl_created_at p \<le> t) \<and>
     given (lf_search_pattern f) (\<lambda>q. holds (ilike low q) (pl_commit_message p) \<or> ilike low q (pl_commit_sha p) \<or>
       ilike low q (pl_workflow_name p))"

definition list_row :: "Vault \<Rightarrow> PipelineRow \<Rightarrow> PipelineListRow option" where
  "list_row v p = map_option (\<lambda>r. \<lparr>pr_pipeline = pl_selected p, pr_repo_full_name = rp_full_name r\<rparr>)
     (first_with (\<lambda>r. rp_id r = pl_repository_id p) (va_repositories v))"

definition run_key :: "PipelineListRow \<Rightarrow> Cursor" where
  "run_key r = (pl_created_at (pr_pipeline r), pl_id (pr_pipeline r))"

definition clamp_page :: "int \<Rightarrow> nat" where
  "clamp_page limit = nat (max 1 (min 100 limit))"

text \<open>Everything that matches, newest first; and the page behind a cursor.\<close>

definition list_all_for_workspace :: "(uchar \<Rightarrow> uchar) \<Rightarrow> Vault \<Rightarrow> Db \<Rightarrow> uuid \<Rightarrow> ListFilter \<Rightarrow> PipelineListRow list" where
  "list_all_for_workspace low v db ws f = rev (sort_key run_key
     (filter_map (list_row v) (filter (\<lambda>p. pl_workspace_id p = ws \<and> matches_filter low db f p) (db_pipelines db))))"

definition list_pipelines_for_workspace :: "(uchar \<Rightarrow> uchar) \<Rightarrow> Vault \<Rightarrow> Db \<Rightarrow> uuid \<Rightarrow> ListFilter \<Rightarrow> PipelineListRow list" where
  "list_pipelines_for_workspace low v db ws f = take (clamp_page (lf_limit f))
     (filter (\<lambda>r. given (lf_cursor f) (\<lambda>c. run_key r < c)) (list_all_for_workspace low v db ws f))"

definition find_row_for_workspace :: "Vault \<Rightarrow> Db \<Rightarrow> uuid \<Rightarrow> uuid \<Rightarrow> PipelineListRow option" where
  "find_row_for_workspace v db ws pid = fetch_optional (filter_map (list_row v)
     (filter (\<lambda>p. pl_workspace_id p = ws \<and> pl_id p = pid) (db_pipelines db)))"

definition page_limit :: "int option \<Rightarrow> int" where
  "page_limit l = max 1 (min 100 (case l of None \<Rightarrow> DEFAULT_PAGE | Some n \<Rightarrow> n))"

definition query_cursor :: "Formats \<Rightarrow> rstr option \<Rightarrow> AppError + Cursor option" where
  "query_cursor ff raw = (case raw of None \<Rightarrow> Inr None | Some raw \<Rightarrow> bind_result (parse_cursor ff raw) (\<lambda>c. Inr (Some c)))"

definition next_cursor :: "Formats \<Rightarrow> ('r \<Rightarrow> Cursor) \<Rightarrow> int \<Rightarrow> 'r list \<Rightarrow> rstr option" where
  "next_cursor ff key limit rows =
     (if int (length rows) = limit \<and> rows \<noteq> [] then Some (format_cursor ff (fst (key (last rows))) (snd (key (last rows)))) else None)"

definition list_pipelines ::
  "Formats \<Rightarrow> (uchar \<Rightarrow> uchar) \<Rightarrow> uuid \<Rightarrow> uuid \<Rightarrow> ListQuery \<Rightarrow> Server \<Rightarrow>
     AppError + PipelineResponse list \<times> rstr option"
where
  "list_pipelines ff low user ws query s =
     bind_result (require_permission (sv_vault s) user ws CONTENT_READ) (\<lambda>_.
     bind_result (query_cursor ff (lq_cursor query)) (\<lambda>cursor.
     bind_result (build_list_filter ff query cursor (page_limit (lq_limit query))) (\<lambda>f.
       let rows = list_pipelines_for_workspace low (sv_vault s) (st_db (sv_app s)) ws f
       in Inr (map PipelineResponse_from rows, next_cursor ff run_key (page_limit (lq_limit query)) rows))))"

section \<open>The job queue\<close>

record QueueQuery =
  qq_status :: "rstr option"
  qq_repository_id :: "uuid option"
  qq_workflow_id :: "uuid option"
  qq_runner_id :: "uuid option"
  qq_label :: "rstr option"
  qq_q :: "rstr option"
  qq_cursor :: "rstr option"
  qq_limit :: "int option"

record QueueFilter =
  qf_status :: "rstr option"
  qf_repository_id :: "uuid option"
  qf_workflow_id :: "uuid option"
  qf_runner_id :: "uuid option"
  qf_label :: "rstr option"
  qf_search_pattern :: "rstr option"
  qf_cursor :: "Cursor option"
  qf_limit :: int

definition build_queue_filter :: "QueueQuery \<Rightarrow> Cursor option \<Rightarrow> int \<Rightarrow> AppError + QueueFilter" where
  "build_queue_filter query cursor limit =
     bind_result (one_of [''queued'', ''in_progress''] ''invalid status filter'' (qq_status query)) (\<lambda>stat.
     bind_result (short_text 128 ''label filter too long'' Inr (qq_label query)) (\<lambda>label.
     bind_result (short_text 200 ''search query too long'' (\<lambda>q. Inr (search_pattern q)) (qq_q query)) (\<lambda>pattern.
       Inr \<lparr>qf_status = stat, qf_repository_id = qq_repository_id query, qf_workflow_id = qq_workflow_id query,
            qf_runner_id = qq_runner_id query, qf_label = label, qf_search_pattern = pattern, qf_cursor = cursor,
            qf_limit = limit\<rparr>)))"

record QueueJobRow =
  qj_job :: PipelineJob
  qj_pipeline_number :: int
  qj_repository_id :: uuid
  qj_repo_full_name :: rstr
  qj_pipeline_workflow_id :: "uuid option"
  qj_workflow_name :: rstr
  qj_git_ref :: rstr
  qj_trigger :: rstr
  qj_actor_login :: "rstr option"
  qj_actor_avatar_url :: "rstr option"
  qj_blocked_by_needs :: bool

definition queue_row :: "Vault \<Rightarrow> Db \<Rightarrow> PipelineRow \<Rightarrow> PipelineJob \<Rightarrow> QueueJobRow option" where
  "queue_row v db p j = map_option (\<lambda>r.
     \<lparr>qj_job = j, qj_pipeline_number = pl_number p, qj_repository_id = pl_repository_id p, qj_repo_full_name = rp_full_name r,
      qj_pipeline_workflow_id = pl_workflow_id p, qj_workflow_name = pl_workflow_name p, qj_git_ref = pl_git_ref p,
      qj_trigger = pl_trigger p, qj_actor_login = pl_actor_login p, qj_actor_avatar_url = pl_actor_avatar_url p,
      qj_blocked_by_needs = blocked_by_needs db j\<rparr>)
     (first_with (\<lambda>r. rp_id r = pl_repository_id p) (va_repositories v))"

definition matches_queue :: "(uchar \<Rightarrow> uchar) \<Rightarrow> QueueFilter \<Rightarrow> PipelineRow \<Rightarrow> PipelineJob \<Rightarrow> bool" where
  "matches_queue low f p j \<longleftrightarrow> pl_status p \<noteq> ''completed'' \<and> pj_status j \<in> {''queued'', ''in_progress''} \<and>
     given (qf_status f) (\<lambda>s. pj_status j = s) \<and> given (qf_repository_id f) (\<lambda>r. pl_repository_id p = r) \<and>
     given (qf_workflow_id f) (\<lambda>k. pl_workflow_id p = Some k) \<and> given (qf_runner_id f) (\<lambda>r. pj_runner_id j = Some r) \<and>
     given (qf_label f) (\<lambda>l. l \<in> set (pj_runs_on j)) \<and>
     given (qf_search_pattern f) (\<lambda>q. ilike low q (pj_job_key j) \<or> holds (ilike low q) (pj_name j) \<or>
       ilike low q (pl_workflow_name p))"

definition queue_key :: "QueueJobRow \<Rightarrow> Cursor" where
  "queue_key r = (pj_queued_at (qj_job r), pj_id (qj_job r))"

definition queue_all_for_workspace :: "(uchar \<Rightarrow> uchar) \<Rightarrow> Vault \<Rightarrow> Db \<Rightarrow> uuid \<Rightarrow> QueueFilter \<Rightarrow> QueueJobRow list" where
  "queue_all_for_workspace low v db ws f = sort_key queue_key (concat (map (\<lambda>j. filter_map (\<lambda>p. queue_row v db p j)
     (filter (\<lambda>p. pl_id p = pj_pipeline_id j \<and> pl_workspace_id p = ws \<and> matches_queue low f p j) (db_pipelines db))) (db_jobs db)))"

definition list_queue_for_workspace :: "(uchar \<Rightarrow> uchar) \<Rightarrow> Vault \<Rightarrow> Db \<Rightarrow> uuid \<Rightarrow> QueueFilter \<Rightarrow> QueueJobRow list" where
  "list_queue_for_workspace low v db ws f = take (clamp_page (qf_limit f))
     (filter (\<lambda>r. given (qf_cursor f) (\<lambda>c. c < queue_key r)) (queue_all_for_workspace low v db ws f))"

record QueueJobResponse =
  qr_id :: uuid
  qr_pipeline_id :: uuid
  qr_key :: rstr
  qr_name :: "rstr option"
  qr_runs_on :: "rstr list"
  qr_needs :: "rstr list"
  qr_status :: rstr
  qr_conclusion :: "rstr option"
  qr_stage :: rstr
  qr_runner_id :: "uuid option"
  qr_attempt :: int
  qr_error_category :: "rstr option"
  qr_queued_at :: time
  qr_assigned_at :: "time option"
  qr_started_at :: "time option"
  qr_pipeline_number :: int
  qr_repository_id :: uuid
  qr_repo_full_name :: rstr
  qr_workflow_id :: "uuid option"
  qr_workflow_name :: rstr
  qr_git_ref :: rstr
  qr_trigger :: rstr
  qr_actor_login :: "rstr option"
  qr_actor_avatar_url :: "rstr option"
  qr_queue_reason :: rstr

definition QueueJobResponse_from_row :: "QueueJobRow \<Rightarrow> rstr \<Rightarrow> QueueJobResponse" where
  "QueueJobResponse_from_row row queue_reason = (let j = qj_job row in
     \<lparr>qr_id = pj_id j, qr_pipeline_id = pj_pipeline_id j, qr_key = pj_job_key j, qr_name = pj_name j,
      qr_runs_on = pj_runs_on j, qr_needs = pj_needs j, qr_status = pj_status j, qr_conclusion = pj_conclusion j,
      qr_stage = pj_stage j, qr_runner_id = pj_runner_id j, qr_attempt = pj_attempt j,
      qr_error_category = pj_error_category j, qr_queued_at = pj_queued_at j, qr_assigned_at = pj_assigned_at j,
      qr_started_at = pj_started_at j, qr_pipeline_number = qj_pipeline_number row, qr_repository_id = qj_repository_id row,
      qr_repo_full_name = qj_repo_full_name row, qr_workflow_id = qj_pipeline_workflow_id row,
      qr_workflow_name = qj_workflow_name row, qr_git_ref = qj_git_ref row, qr_trigger = qj_trigger row,
      qr_actor_login = qj_actor_login row, qr_actor_avatar_url = qj_actor_avatar_url row, qr_queue_reason = queue_reason\<rparr>)"

section \<open>Why a job waits\<close>

record OnlineRunner =
  or_labels :: "rstr list"
  or_idle :: bool

definition is_schedulable :: "Runner \<Rightarrow> bool" where
  "is_schedulable r \<longleftrightarrow> rn_revoked_at r = None \<and> rn_status r \<noteq> ''disabled'' \<and> rn_draining_at r = None"

definition online_fleet :: "uuid list \<Rightarrow> Runner list \<Rightarrow> OnlineRunner list" where
  "online_fleet live runners = map (\<lambda>r. \<lparr>or_labels = rn_labels r, or_idle = (rn_status r = ''idle'')\<rparr>)
     (filter (\<lambda>r. rn_id r \<in> set live \<and> is_schedulable r) runners)"

definition compute_queue_reason :: "QueueJobRow \<Rightarrow> OnlineRunner list \<Rightarrow> rstr" where
  "compute_queue_reason row online =
     (if pj_status (qj_job row) = ''in_progress'' then
        (if pj_stage (qj_job row) = ''assigned'' then ''dispatching''
         else if pj_stage (qj_job row) = ''running'' then ''running'' else ''starting'')
      else if qj_blocked_by_needs row then ''waiting_dependencies''
      else if online = [] then ''no_runner_online''
      else let matching = filter (\<lambda>r. labels_satisfy (pj_runs_on (qj_job row)) (or_labels r)) online in
        if matching = [] then ''no_matching_runner''
        else if list_all (\<lambda>r. \<not> or_idle r) matching then ''runners_busy'' else ''waiting_scheduler'')"

definition list_queue ::
  "Formats \<Rightarrow> (uchar \<Rightarrow> uchar) \<Rightarrow> uuid \<Rightarrow> uuid \<Rightarrow> QueueQuery \<Rightarrow> Server \<Rightarrow>
     AppError + QueueJobResponse list \<times> rstr option"
where
  "list_queue ff low user ws query s =
     bind_result (require_permission (sv_vault s) user ws CONTENT_READ) (\<lambda>_.
     bind_result (query_cursor ff (qq_cursor query)) (\<lambda>cursor.
     bind_result (build_queue_filter query cursor (page_limit (qq_limit query))) (\<lambda>f.
       let rows = list_queue_for_workspace low (sv_vault s) (st_db (sv_app s)) ws f;
           online = online_fleet (connected_ids (st_runner_hub (sv_app s))) (list_runners_for_workspace (st_db (sv_app s)) ws)
       in Inr (map (\<lambda>r. QueueJobResponse_from_row r (compute_queue_reason r online)) rows, next_cursor ff queue_key (page_limit (qq_limit query)) rows))))"

section \<open>The summary\<close>

text \<open>
  The mean wait is the exact quotient; the database rounds it to double precision.  Times are
  nanoseconds, the answer is in seconds.
\<close>

record QueueSummary =
  qs_queued_total :: nat
  qs_queued_blocked :: nat
  qs_queued_waiting_runner :: nat
  qs_in_progress :: nat
  qs_avg_queue_wait_secs :: "rat option"
  qs_max_queue_wait_secs :: "rat option"
  qs_oldest_queued_at :: "time option"
  qs_runners_idle :: nat
  qs_runners_busy :: nat
  qs_runners_offline :: nat
  qs_runners_disabled :: nat

definition active_jobs_of :: "Db \<Rightarrow> uuid \<Rightarrow> PipelineJob list" where
  "active_jobs_of db ws = concat (map (\<lambda>j. map (\<lambda>p. j)
     (filter (\<lambda>p. pl_id p = pj_pipeline_id j \<and> pl_workspace_id p = ws \<and> pl_status p \<noteq> ''completed'' \<and>
        pj_status j \<in> {''queued'', ''in_progress''}) (db_pipelines db))) (db_jobs db))"

definition wait_secs :: "time \<Rightarrow> PipelineJob \<Rightarrow> rat" where
  "wait_secs now j = of_int (now - pj_queued_at j) / 1000000000"

definition claimable_runner :: "uuid list \<Rightarrow> Runner \<Rightarrow> bool" where
  "claimable_runner live r \<longleftrightarrow> rn_status r = ''idle'' \<and> rn_draining_at r = None \<and> rn_id r \<in> set live"

definition busy_runner :: "uuid list \<Rightarrow> Runner \<Rightarrow> bool" where
  "busy_runner live r \<longleftrightarrow> rn_status r = ''busy'' \<and> rn_id r \<in> set live"

definition count_where :: "('a \<Rightarrow> bool) \<Rightarrow> 'a list \<Rightarrow> nat" where
  "count_where P xs = length (filter P xs)"

definition queue_summary :: "time \<Rightarrow> Db \<Rightarrow> uuid \<Rightarrow> uuid list \<Rightarrow> QueueSummary" where
  "queue_summary now db ws live =
     (let active = active_jobs_of db ws;
          queued = filter (\<lambda>j. pj_status j = ''queued'') active;
          fleet = filter (\<lambda>r. rn_revoked_at r = None) (list_runners_for_workspace db ws)
      in \<lparr>qs_queued_total = length queued,
          qs_queued_blocked = count_where (blocked_by_needs db) queued,
          qs_queued_waiting_runner = count_where (\<lambda>j. \<not> blocked_by_needs db j) queued,
          qs_in_progress = count_where (\<lambda>j. pj_status j = ''in_progress'') active,
          qs_avg_queue_wait_secs = (if queued = [] then None else Some (sum_list (map (wait_secs now) queued) / of_nat (length queued))),
          qs_max_queue_wait_secs = (if queued = [] then None else Some (Max (set (map (wait_secs now) queued)))),
          qs_oldest_queued_at = (if queued = [] then None else Some (Min (set (map pj_queued_at queued)))),
          qs_runners_idle = count_where (claimable_runner live) fleet,
          qs_runners_busy = count_where (busy_runner live) fleet,
          qs_runners_offline = count_where (\<lambda>r. rn_status r \<noteq> ''disabled'' \<and> \<not> claimable_runner live r \<and>
            \<not> busy_runner live r) fleet,
          qs_runners_disabled = count_where (\<lambda>r. rn_status r = ''disabled'') fleet\<rparr>)"

definition queue_summary_handler :: "uuid \<Rightarrow> uuid \<Rightarrow> Server \<Rightarrow> AppError + QueueSummary" where
  "queue_summary_handler user ws s = bind_result (require_permission (sv_vault s) user ws CONTENT_READ)
     (\<lambda>_. Inr (queue_summary (st_now (sv_app s)) (st_db (sv_app s)) ws (connected_ids (st_runner_hub (sv_app s)))))"

end
