(* ===== verification/Flow.thy ===== *)
theory Flow
  imports Scheduler
begin

text \<open>
  The scheduler's passes keep what the statements keep; with the job table, the runner table
  and the ledger as instances, what holds of single rows holds of the whole server.
\<close>

lemma on_app_parts [simp]:
  "fst (on_app f s) = fst (f (sv_app s))" "sv_app (snd (on_app f s)) = snd (f (sv_app s))"
  "sv_vault (snd (on_app f s)) = sv_vault s"
  "sv_app (upd_app g s) = g (sv_app s)" "sv_vault (upd_app g s) = sv_vault s"
  by (simp_all add: on_app_def upd_app_def case_prod_unfold Let_def)

lemma clear_job_masks_db [simp]: "st_db (clear_job_masks jid s) = st_db s"
  by (simp add: clear_job_masks_def)

lemma deliver_db: "st_db (sv_app (snd (deliver w job rid payload ids s))) = st_db (sv_app s)"
  by (auto simp: deliver_def Let_def case_prod_unfold split: option.splits)

text \<open>A dispatch itself leaves the tables of the pipelines alone.\<close>

lemma dispatch_db: "st_db (sv_app (snd (dispatch w job rid s))) = st_db (sv_app s)"
  by (auto simp: dispatch_def deliver_db Let_def split: option.splits sum.splits)

context kept
begin

lemma revert_one: "P (st_db s) \<Longrightarrow> P (st_db (snd (revert_one r s)))"
  by (auto simp: revert_one_def Let_def intro!: on_job_requeued release_runner split: prod.splits option.splits)

lemma revert_unacked_pass: "P (st_db s) \<Longrightarrow> P (st_db (snd (revert_unacked_pass s)))"
  by (auto simp: revert_unacked_pass_def case_prod_unfold Let_def tables_of(10)
      intro!: reverted for_each_state [where P = "\<lambda>s. P (st_db s)"] revert_one)

lemma sweep_runner: "P (st_db s) \<Longrightarrow> P (st_db (snd (sweep_runner r s)))"
  unfolding sweep_runner_def Let_def
  by (rule and_then_state [where P = "\<lambda>s. P (st_db s)"])
    (auto intro!: orphan_runner_jobs audit offline split: option.splits)

lemma sweep_stale_runners: "P (st_db s) \<Longrightarrow> P (st_db (snd (sweep_stale_runners s)))"
  unfolding sweep_stale_runners_def by (rule for_each_state [where P = "\<lambda>s. P (st_db s)"]) (auto intro: sweep_runner)

lemma sweep_timeouts: "P (st_db s) \<Longrightarrow> P (st_db (snd (sweep_timeouts s)))"
  unfolding sweep_timeouts_def
  by (rule and_then_state [where P = "\<lambda>s. P (st_db s)"];
      rule for_each_state [where P = "\<lambda>s. P (st_db s)"]) (auto intro: timeout_job timeout_pipeline)

lemma fail_closed: "P (st_db s) \<Longrightarrow> P (st_db (snd (fail_closed claimed rid cat s)))"
  by (simp add: fail_closed_def force_end release_runner)

lemma undo_claim: "P (st_db s) \<Longrightarrow> P (st_db (undo_claim claimed rid s))"
  by (simp add: undo_claim_def release_runner tables_of(10) unclaimed)

abbreviation ok :: "Server \<Rightarrow> bool" where
  "ok s \<equiv> P (st_db (sv_app s))"

lemma settle_dispatch: "ok s \<Longrightarrow> ok (snd (settle_dispatch claimed rid outcome s))"
  by (auto simp: settle_dispatch_def Let_def on_job_assigned undo_claim fail_closed
      intro!: and_then_state [where P = ok] split: sum.splits DispatchOutcome.splits)

lemma assign_one: "ok s \<Longrightarrow> ok (snd (assign_one w idle used job s))"
proof -
  assume p: "ok s"
  have c: "ok (snd (on_app (with_db (claim_for_runner t i r)) s))" for t i r
    using p by (simp add: tables_of(10) claimed)
  show ?thesis
  proof (cases "pick_runner idle used job")
    case (Some runner)
    obtain res s1 where r: "on_app (with_db (claim_for_runner (st_now (sv_app s)) (pj_id job) (rn_id runner))) s = (res, s1)"
      by fastforce
    with c have s1: "ok s1" by (metis snd_conv)
    show ?thesis
    proof (cases res)
      case (Some cl)
      obtain o' s2 where d: "dispatch w cl (rn_id runner) s1 = (o', s2)" by fastforce
      with s1 dispatch_db [of w cl "rn_id runner" s1] have "ok s2" by simp
      with d Some r \<open>pick_runner idle used job = Some runner\<close> show ?thesis
        by (auto simp: assign_one_def intro!: and_then_state [where P = ok] settle_dispatch)
    qed (use r s1 Some in \<open>simp add: assign_one_def\<close>)
  qed (use p in \<open>simp add: assign_one_def\<close>)
qed

lemma assign_jobs: "ok s \<Longrightarrow> ok (snd (assign_jobs w idle used jobs s))"
  by (induction jobs arbitrary: used s) (auto intro!: and_then_state [where P = ok] assign_one)

lemma assign_eligible: "ok s \<Longrightarrow> ok (snd (assign_eligible w s))"
  by (auto simp: assign_eligible_def Let_def intro: assign_jobs)

lemma pass: "ok s \<Longrightarrow> ok (snd (pass w s))"
  unfolding pass_def
  by (intro and_then_state [where P = ok]) (auto intro: revert_unacked_pass sweep_stale_runners sweep_timeouts assign_eligible)

end

end
