(* ===== verification/RunnerWs.thy ===== *)
theory RunnerWs
  imports Flow
begin

text \<open>
  The runner's connection, \<open>handlers/runner_ws.rs\<close>: authentication, the hello, every message
  a runner may send, the artifact grants and confirmations, and the end of a connection.
\<close>

section \<open>What a runner reports about itself\<close>

definition MAX_RUNNER_FRAME :: nat where "MAX_RUNNER_FRAME = 128 * 1024"
definition HEARTBEAT_INTERVAL_SECS :: nat where "HEARTBEAT_INTERVAL_SECS = 30"

definition KNOWN_ERROR_CATEGORIES :: "rstr list" where
  "KNOWN_ERROR_CATEGORIES = [''step_failed'', ''image_pull_failed'', ''container_error'', ''checkout_failed'',
     ''artifact_upload_failed'', ''workdir_missing'', ''timeout'', ''cancelled'', ''internal'']"

definition MAX_METRIC_DURATION_MS :: nat where "MAX_METRIC_DURATION_MS = 7 * 24 * 3600 * 1000"
definition MAX_METRIC_PERMILLE :: nat where "MAX_METRIC_PERMILLE = 1024000"
definition MAX_METRIC_BYTES :: nat where "MAX_METRIC_BYTES = 2 ^ 40"
definition MAX_METRIC_SAMPLES :: nat where "MAX_METRIC_SAMPLES = 100000"

text \<open>The closures \<open>put\<close> and \<open>put_num\<close>: a value over its cap is left out.\<close>

definition capped :: "(rstr \<times> nat option \<times> nat) list \<Rightarrow> (rstr \<times> json) list" where
  "capped = filter_map (\<lambda>(key, reported, cap).
     case reported of None \<Rightarrow> None | Some v \<Rightarrow> if v \<le> cap then Some (key, JNum (dec v)) else None)"

definition object_or_none :: "(rstr \<times> json) list \<Rightarrow> json option" where
  "object_or_none kvs = (if kvs = [] then None else Some (jobj kvs))"

definition sanitize_metrics :: "JobMetrics \<Rightarrow> json option" where
  "sanitize_metrics m = object_or_none (capped
    [(''imagePullMs'', image_pull_ms m, MAX_METRIC_DURATION_MS),
     (''execMs'', exec_ms m, MAX_METRIC_DURATION_MS),
     (''cpuPeakPermille'', cpu_peak_permille m, MAX_METRIC_PERMILLE),
     (''cpuAvgPermille'', cpu_avg_permille m, MAX_METRIC_PERMILLE),
     (''memPeakBytes'', mem_peak_bytes m, MAX_METRIC_BYTES),
     (''netRxBytes'', net_rx_bytes m, MAX_METRIC_BYTES),
     (''netTxBytes'', net_tx_bytes m, MAX_METRIC_BYTES),
     (''blkioReadBytes'', blkio_read_bytes m, MAX_METRIC_BYTES),
     (''blkioWriteBytes'', blkio_write_bytes m, MAX_METRIC_BYTES),
     (''sampleCount'', sample_count m, MAX_METRIC_SAMPLES)])"

definition MAX_HEALTH_PERMILLE :: nat where "MAX_HEALTH_PERMILLE = 1024000"
definition MAX_HEALTH_BYTES :: nat where "MAX_HEALTH_BYTES = 2 ^ 40"
definition MAX_HEALTH_UPTIME_SECS :: nat where "MAX_HEALTH_UPTIME_SECS = 10 * 365 * 24 * 3600"
definition MAX_HEALTH_STRING_LEN :: nat where "MAX_HEALTH_STRING_LEN = 64"

definition sanitize_health_string :: "rstr \<Rightarrow> rstr option" where
  "sanitize_health_string v =
     (let trimmed = trim (of_chars (filter (\<lambda>c. \<not> is_control c) (chars v)))
      in if trimmed = [] then None else Some (take_chars MAX_HEALTH_STRING_LEN trimmed))"

definition sanitize_health :: "RunnerHealth \<Rightarrow> json option" where
  "sanitize_health h = object_or_none (capped
     [(''cpuPermille'', cpu_permille h, MAX_HEALTH_PERMILLE),
      (''memUsedBytes'', mem_used_bytes h, MAX_HEALTH_BYTES),
      (''memTotalBytes'', mem_total_bytes h, MAX_HEALTH_BYTES),
      (''diskUsedBytes'', disk_used_bytes h, MAX_HEALTH_BYTES),
      (''diskTotalBytes'', disk_total_bytes h, MAX_HEALTH_BYTES),
      (''uptimeSecs'', uptime_secs h, MAX_HEALTH_UPTIME_SECS)] @
     filter_map (\<lambda>(key, v). map_option (\<lambda>t. (key, JStr t)) (Option.bind v sanitize_health_string))
       [(''dockerVersion'', docker_version h), (''os'', health_os h)])"

section \<open>Authentication\<close>

definition split_once :: "char \<Rightarrow> rstr \<Rightarrow> (rstr \<times> rstr) option" where
  "split_once c s =
     (if c \<in> set s then Some (takeWhile (\<lambda>x. x \<noteq> c) s, tl (dropWhile (\<lambda>x. x \<noteq> c) s)) else None)"

text \<open>
  The argument is the text of the \<open>Authorization\<close> header, \<open>None\<close> where there is none or it is
  not visible ASCII; \<open>Inl\<close> is the category of the refusal.
\<close>

definition bearer_credential :: "rstr option \<Rightarrow> rstr + rstr" where
  "bearer_credential header =
     (case header of
        None \<Rightarrow> Inl ''missing_token''
      | Some v \<Rightarrow>
          let (scheme, credential) = (case split_once (CHR '' '') v of None \<Rightarrow> (v, []) | Some p \<Rightarrow> p);
              token = trim credential
          in if \<not> eq_ignore_ascii_case scheme ''bearer'' then Inl ''missing_token''
             else if token = [] then Inl ''empty_token''
             else if 128 < length token then Inl ''invalid_token''
             else Inr token)"

definition authenticate :: "World \<Rightarrow> AppState \<Rightarrow> rstr option \<Rightarrow> rstr + (Runner \<times> bool)" where
  "authenticate w s header =
     (case bearer_credential header of
        Inl e \<Rightarrow> Inl e
      | Inr token \<Rightarrow>
          let hash = wd_hash w token in
          case find_by_token_hash (st_db s) hash of
            Some r \<Rightarrow> Inr (r, False)
          | None \<Rightarrow>
              (case find_by_bootstrap_token_hash (st_now s) (st_db s) hash of
                 Some r \<Rightarrow> Inr (r, True)
               | None \<Rightarrow>
                   if bootstrap_token_hash_expired (st_now s) (st_db s) hash then Inl ''bootstrap_expired''
                   else Inl ''invalid_token''))"

section \<open>Labels\<close>

text \<open>\<open>handlers/runners.rs\<close>: what a runner or a label may be called.\<close>

definition MAX_LABELS :: nat where "MAX_LABELS = 16"

definition default_labels :: "rstr list" where
  "default_labels = [''self-hosted'', ''linux'', ''x64'', ''ubuntu-latest'']"

definition is_valid_name :: "rstr \<Rightarrow> bool" where
  "is_valid_name v \<longleftrightarrow> v \<noteq> [] \<and> length v \<le> 64 \<and> \<not> starts_with v ''.'' \<and>
     list_all (\<lambda>c. is_ascii_alphanumeric c \<or> c \<in> {ch (CHR ''-''), ch (CHR ''_''), ch (CHR ''.'')}) (chars v)"

fun collect_labels :: "rstr list \<Rightarrow> rstr list \<Rightarrow> rstr list" where
  "collect_labels acc [] = acc"
| "collect_labels acc (l # ls) =
     (let label = trim l;
          acc = (if is_valid_name label \<and> \<not> list_ex (\<lambda>have'. eq_ignore_ascii_case have' label) acc
                 then acc @ [label] else acc)
      in if length acc = MAX_LABELS then acc else collect_labels acc ls)"

definition sync_advertised_labels :: "Runner \<Rightarrow> rstr list \<Rightarrow> AppState \<Rightarrow> AppState" where
  "sync_advertised_labels runner advertised s =
     (let collected = collect_labels [] advertised in
      if collected = [] \<and> rn_labels runner \<noteq> [] then s
      else
        let labels = (if collected = [] then default_labels else collected) in
        if labels = rn_labels runner then s
        else s\<lparr>st_db := update_labels (rn_id runner) labels (st_db s)\<rparr>)"

section \<open>The connection\<close>

definition publish_runner :: "uuid \<Rightarrow> uuid \<Rightarrow> AppState \<Rightarrow> AppState" where
  "publish_runner ws rid s =
     (case find_runner (st_db s) ws rid of
        None \<Rightarrow> s
      | Some r \<Rightarrow> publish_ws ws (Ws_RunnerUpdate (RunnerResponse_from r)) s)"

text \<open>
  From the first frame to the acknowledgement.  \<open>first\<close> is the frame parsed, \<open>None\<close> where none
  came in time or it is no message; \<open>fresh\<close> the token drawn for a bootstrap connection;
  \<open>delivered\<close> whether the acknowledgement could be written.  The result is the channel of the
  connection and the acknowledgement.
\<close>

definition recovered_audit :: "Runner \<Rightarrow> AppState \<Rightarrow> AppState" where
  "recovered_audit runner s =
     (if rn_status runner = ''offline'' \<and> rn_last_seen_at runner \<noteq> None
      then audit (runner_audit (rn_workspace_id runner) None ''runner.recovered'' (rn_id runner)
             (jobj [(''name'', JStr (rn_name runner))]) None) s
      else s)"

definition permanent_token :: "World \<Rightarrow> Runner \<Rightarrow> bool \<Rightarrow> rstr \<Rightarrow> AppState \<Rightarrow> (unit + rstr option) \<times> AppState" where
  "permanent_token w runner bootstrap fresh s =
     (if bootstrap then
        let (exchanged, s) = with_db (exchange_bootstrap_token (rn_id runner) (wd_hash w fresh)) s
        in (if exchanged then Inr (Some fresh) else Inl (), s)
      else (Inr None, s))"

definition open_connection ::
  "World \<Rightarrow> Runner \<Rightarrow> bool \<Rightarrow> RunnerMsg option \<Rightarrow> rstr \<Rightarrow> bool \<Rightarrow> AppState \<Rightarrow> (nat \<times> ServerMsg) option \<times> AppState"
where
  "open_connection w runner bootstrap first fresh delivered s =
     (case first of
        Some (Hello name version advertised docker) \<Rightarrow>
          let s = s\<lparr>st_db := mark_connected (st_now s) (rn_id runner) version (st_db s)\<rparr>;
              s = publish_runner (rn_workspace_id runner) (rn_id runner)
                    (recovered_audit runner (sync_advertised_labels runner advertised s))
          in (case permanent_token w runner bootstrap fresh s of
                (Inl _, s) \<Rightarrow> (None, s)
              | (Inr token, s) \<Rightarrow>
                  let (conn, h) = hub_register (st_runner_hub s) (rn_id runner);
                      s = s\<lparr>st_runner_hub := h\<rparr>
                  in if delivered
                     then (Some (conn, HelloAck (rn_id runner) HEARTBEAT_INTERVAL_SECS PROTOCOL_VERSION token
                             (Some (cf_signing_key (wd_config w)))), poke s)
                     else (None, s\<lparr>st_runner_hub := unregister_conn (st_runner_hub s) (rn_id runner) conn\<rparr>))
      | _ \<Rightarrow> (None, s))"

text \<open>
  The end of a connection.  An error of the orphan recovery is logged and dropped; the
  receiver goes with the task.
\<close>

definition close_connection :: "uuid \<Rightarrow> uuid \<Rightarrow> nat \<Rightarrow> AppState \<Rightarrow> AppState" where
  "close_connection ws rid conn s =
     (let s = s\<lparr>st_runner_hub := unregister_conn (st_runner_hub s) rid conn\<rparr>;
          s = (if is_connected (st_runner_hub s) rid then s
               else
                 let s = snd (orphan_runner_jobs rid (s\<lparr>st_db := mark_offline rid (st_db s)\<rparr>))
                 in publish_runner ws rid (poke s))
      in s\<lparr>st_runner_hub := hub_close (st_runner_hub s) conn\<rparr>)"

section \<open>Artifacts\<close>

definition MAX_MANIFEST_ENTRIES :: nat where "MAX_MANIFEST_ENTRIES = 1000"
definition MAX_MANIFEST_PATH_CHARS :: nat where "MAX_MANIFEST_PATH_CHARS = 512"
definition MAX_MANIFEST_JSON_BYTES :: nat where "MAX_MANIFEST_JSON_BYTES = 96 * 1024"
definition MAX_UNCOMPRESSED_BYTES :: nat where "MAX_UNCOMPRESSED_BYTES = 2 ^ 40"
definition MAX_FILE_COUNT :: nat where "MAX_FILE_COUNT = 1000000"
definition UPLOAD_URL_TTL :: time where "UPLOAD_URL_TTL = secs (15 * 60)"

definition entry_json :: "ArtifactEntry \<Rightarrow> json" where
  "entry_json e = jobj [(''path'', JStr (ae_path e)), (''size_bytes'', JNum (dec (ae_size_bytes e)))]"

definition over :: "nat option \<Rightarrow> nat \<Rightarrow> bool" where
  "over x cap \<longleftrightarrow> (case x of None \<Rightarrow> False | Some n \<Rightarrow> cap < n)"

definition sanitize_manifest ::
  "World \<Rightarrow> nat option \<Rightarrow> nat option \<Rightarrow> ArtifactEntry list option \<Rightarrow> UploadManifest option"
where
  "sanitize_manifest w uncompressed file_count entries =
     (if uncompressed = None \<and> file_count = None \<and> entries = None then None
      else if over uncompressed MAX_UNCOMPRESSED_BYTES \<or> over file_count MAX_FILE_COUNT then None
      else
        let manifest = (\<lambda>e. Some \<lparr>um_uncompressed_bytes = map_option int uncompressed,
              um_file_count = map_option int file_count, um_entries = e\<rparr>)
        in case entries of
             None \<Rightarrow> manifest None
           | Some es \<Rightarrow>
               if MAX_MANIFEST_ENTRIES < length es \<or>
                  list_ex (\<lambda>e. ae_path e = [] \<or> MAX_MANIFEST_PATH_CHARS < length (chars (ae_path e))) es
               then None
               else let v = JArr (map entry_json es) in
                    if MAX_MANIFEST_JSON_BYTES < length (wd_json_text w v) then None else manifest (Some v))"

text \<open>\<open>as i64\<close> of an unsigned number keeps the bits.\<close>

definition as_i64 :: "nat \<Rightarrow> int" where
  "as_i64 n = (let m = int n mod 2 ^ 64 in if m < 2 ^ 63 then m else m - 2 ^ 64)"

definition deny :: "uuid \<Rightarrow> uuid \<Rightarrow> rstr \<Rightarrow> rstr \<Rightarrow> AppState \<Rightarrow> (AppError + unit) \<times> AppState" where
  "deny rid jid name reason s = (Inr (), snd (send_runner rid (ArtifactDeny jid name reason) s))"

definition safe_content_type :: "rstr \<Rightarrow> rstr" where
  "safe_content_type ct = (if length ct \<le> 128 \<and> ascii ct then ct else ''application/octet-stream'')"

text \<open>A presigned upload for an accepted request: the row, the link, the answer.\<close>

definition grant_upload ::
  "World \<Rightarrow> uuid \<Rightarrow> uuid \<Rightarrow> PipelineJob \<Rightarrow> Pipeline \<Rightarrow> rstr \<Rightarrow> nat \<Rightarrow> rstr \<Rightarrow> AppState \<Rightarrow> (AppError + unit) \<times> AppState"
where
  "grant_upload w new_id rid job p name nbytes content_type s =
     (let store = store_for_upload (wd_storage w) (wd_probe w (st_now s));
          kind = classify name;
          retention_days = (case resolve_days (st_db s) (pl_workspace_id p) kind of
              None \<Rightarrow> cf_artifact_retention_days (wd_config w) | Some d \<Rightarrow> d);
          (a, s) = with_db (insert_pending (st_now s) new_id (pl_workspace_id p) (pl_id p) (pj_id job) name
              (artifact_key (pl_workspace_id p) (pl_id p) (pj_id job) name) (StorageBackend_as_str store)
              (as_i64 nbytes) content_type kind (Some (st_now s + secs (86400 * retention_days)))) s
      in case wd_presign w store (ar_r2_key a) content_type (as_i64 nbytes) of
           None \<Rightarrow> deny rid (pj_id job) name ''artifact storage error'' s
         | Some put_url \<Rightarrow> (Inr (), snd (send_runner rid
             (ArtifactGrant (pj_id job) name put_url (ar_r2_key a) (st_now s + UPLOAD_URL_TTL)) s)))"

definition handle_artifact_request ::
  "World \<Rightarrow> uuid \<Rightarrow> uuid \<Rightarrow> uuid \<Rightarrow> rstr \<Rightarrow> nat \<Rightarrow> rstr \<Rightarrow> AppState \<Rightarrow> (AppError + unit) \<times> AppState"
where
  "handle_artifact_request w new_id rid jid name nbytes content_type s =
     (case find_assigned (st_db s) jid rid of
        None \<Rightarrow> deny rid jid name ''job is not assigned to this runner'' s
      | Some job \<Rightarrow>
          if \<not> st_has_storage s then deny rid jid name ''artifact storage is not configured'' s
          else if \<not> is_safe_name_segment name then deny rid jid name ''invalid artifact name'' s
          else if nbytes = 0 \<or> as_u64 (cf_max_artifact_bytes (wd_config w)) < nbytes
          then deny rid jid name ''artifact exceeds the size limit'' s
          else if cf_max_artifacts_per_job (wd_config w) \<le> count_for_job (st_db s) (pj_id job)
          then deny rid jid name ''artifact count limit reached'' s
          else (case find_pipeline (st_db s) (pj_pipeline_id job) of
                  None \<Rightarrow> (Inl (Internal ''pipeline vanished''), s)
                | Some p \<Rightarrow> grant_upload w new_id rid job p name nbytes (safe_content_type content_type) s))"

definition valid_checksum :: "rstr \<Rightarrow> rstr option" where
  "valid_checksum c =
     (if length c = 64 \<and> list_all is_ascii_hexdigit (chars c) then Some (to_ascii_lowercase c) else None)"

text \<open>The confirmed upload: the row, the audit entry and the two announcements.\<close>

definition record_upload ::
  "uuid \<Rightarrow> uuid \<Rightarrow> uuid \<Rightarrow> rstr \<Rightarrow> int \<Rightarrow> rstr \<Rightarrow> UploadManifest option \<Rightarrow> AppState \<Rightarrow> AppState"
where
  "record_upload ws pid jid name verified checksum manifest s =
     (case with_db (mark_uploaded jid name verified checksum manifest) s of
        (None, s) \<Rightarrow> s
      | (Some a, s) \<Rightarrow>
          publish_log pid (Be_Artifact (ArtifactResponse_from a))
           (publish_ws ws (Ws_ArtifactUpdate (ar_id a) (ar_pipeline_id a) (ar_name a) (ar_status a) (ar_kind a))
             (audit \<lparr>au_workspace_id = ws, au_actor = None, au_action = ''artifact.uploaded'',
                au_subject_type = ''artifact'', au_subject_id = ar_id a,
                au_metadata = jobj [(''name'', JStr (ar_name a)), (''sizeBytes'', jint verified)],
                au_request_id = None\<rparr> s)))"

definition handle_artifact_done ::
  "World \<Rightarrow> uuid \<Rightarrow> uuid \<Rightarrow> rstr \<Rightarrow> rstr \<Rightarrow> nat option \<Rightarrow> nat option \<Rightarrow> ArtifactEntry list option \<Rightarrow>
     AppState \<Rightarrow> (AppError + unit) \<times> AppState"
where
  "handle_artifact_done w rid jid name checksum_sha256 uncompressed file_count entries s =
     (case find_assigned (st_db s) jid rid of
        None \<Rightarrow> (Inr (), s)
      | Some job \<Rightarrow>
          if \<not> st_has_storage s \<or> \<not> is_safe_name_segment name then (Inr (), s)
          else case valid_checksum checksum_sha256 of
            None \<Rightarrow> (Inr (), s)
          | Some checksum \<Rightarrow>
              (case find_pipeline (st_db s) (pj_pipeline_id job) of
                 None \<Rightarrow> (Inl (Internal ''pipeline vanished''), s)
               | Some p \<Rightarrow>
                   (case find_pending (st_db s) (pj_id job) name of
                      None \<Rightarrow> (Inr (), s)
                    | Some pending \<Rightarrow>
                        (case wd_head w (store_for (wd_storage w) (ar_storage_backend pending)) (ar_r2_key pending) (st_now s) of
                           Inr (Some n) \<Rightarrow>
                             if 0 < n \<and> n \<le> cf_max_artifact_bytes (wd_config w)
                             then (Inr (), record_upload (pl_workspace_id p) (pl_id p) (pj_id job) name n checksum
                                     (sanitize_manifest w uncompressed file_count entries) s)
                             else (Inr (), s\<lparr>st_db := mark_failed (pj_id job) name (st_db s)\<rparr>)
                         | _ \<Rightarrow> (Inr (), s\<lparr>st_db := mark_failed (pj_id job) name (st_db s)\<rparr>)))))"

section \<open>Messages\<close>

text \<open>
  \<open>active_jobs\<close> of the connection: the pipeline and the plan's step count of a job it runs.
  A message changes it in place, so it is part of the state of the handler.
\<close>

type_synonym Active = "(uuid \<times> uuid \<times> nat) list"

definition plan_step_count :: "json \<Rightarrow> nat" where
  "plan_step_count plan = length (case Option.bind (jget plan ''steps'') j_array of None \<Rightarrow> [] | Some xs \<Rightarrow> xs)"

definition touch_runner :: "uuid \<Rightarrow> uuid \<Rightarrow> RunnerMsg \<Rightarrow> AppState \<Rightarrow> AppState" where
  "touch_runner ws rid msg s =
     (let plain = s\<lparr>st_db := touch_last_seen (st_now s) rid (st_db s)\<rparr> in
      case msg of
        Heartbeat busy (Some health) \<Rightarrow>
          (case sanitize_health health of
             None \<Rightarrow> plain
           | Some tidy \<Rightarrow> publish_ws ws (Ws_RunnerHealth rid tidy (st_now s))
               (s\<lparr>st_db := touch_last_seen_with_health (st_now s) rid tidy (st_db s)\<rparr>))
      | _ \<Rightarrow> plain)"

definition on_stage :: "uuid \<Rightarrow> uuid \<Rightarrow> rstr \<Rightarrow> rstr option \<Rightarrow> StepProgress option \<Rightarrow> AppState \<Rightarrow> AppState" where
  "on_stage rid jid stage detail step s =
     (if stage \<notin> set STAGES \<or> stage \<in> {''queued'', ''done''} then s
      else case with_db (set_stage jid rid stage) s of
        (None, s) \<Rightarrow> s
      | (Some job, s) \<Rightarrow>
          (case step of
             Some progress \<Rightarrow>
               let plan_len = plan_step_count (pj_plan job) in
               if sp_status progress \<in> {''started'', ''succeeded'', ''failed''} \<and>
                  sp_index progress < plan_len \<and> sp_total progress = plan_len
               then on_job_step job (sp_index progress) (sp_status progress) (sp_exit_code progress) s else s
           | None \<Rightarrow>
               on_job_stage job
                 (case detail of
                    Some i \<Rightarrow> if stage = ''starting_container'' \<and> length i = 12 \<and>
                        list_all (\<lambda>b. is_ascii_hexdigit (of_char b)) i
                      then jobj [(''containerId'', JStr i)] else JObj []
                  | None \<Rightarrow> JObj []) s))"

definition log_step_index :: "nat \<Rightarrow> nat option \<Rightarrow> int option" where
  "log_step_index plan_len step =
     (case step of None \<Rightarrow> None | Some i \<Rightarrow> if i < plan_len \<and> i \<le> 32767 then Some (int i) else None)"

definition log_phase :: "rstr option \<Rightarrow> rstr option" where
  "log_phase phase = (case phase of None \<Rightarrow> None | Some p \<Rightarrow> if p \<in> set LOG_PHASES then Some p else None)"

definition on_log ::
  "uuid \<Rightarrow> uuid \<Rightarrow> nat \<Rightarrow> LogStream \<Rightarrow> rstr \<Rightarrow> nat option \<Rightarrow> rstr option \<Rightarrow> Active \<times> AppState \<Rightarrow>
     (AppError + unit) \<times> Active \<times> AppState"
where
  "on_log rid jid seq stream chunk step phase st =
     (let (active, s) = st;
          found = (case map_of active jid of
              Some entry \<Rightarrow> Some (entry, active)
            | None \<Rightarrow> map_option (\<lambda>job. let entry = (pj_pipeline_id job, plan_step_count (pj_plan job))
                in (entry, AList.update (pj_id job) entry active)) (find_assigned (st_db s) jid rid))
      in case found of
           None \<Rightarrow> (Inr (), active, s)
         | Some ((pid, plan_len), active) \<Rightarrow>
             let (r, s) = with_logs (ingest_log (st_now s) (st_max_log_bytes s) pid jid (int (min seq (2 ^ 63 - 1))) stream
                   chunk (log_step_index plan_len step) (log_phase phase)) s
             in (r, active, s))"

definition error_category_of :: "rstr option \<Rightarrow> rstr option" where
  "error_category_of = map_option (\<lambda>c. if c \<in> set KNOWN_ERROR_CATEGORIES then c else ''runner_error'')"

definition on_result ::
  "uuid \<Rightarrow> uuid \<Rightarrow> JobConclusion \<Rightarrow> int option \<Rightarrow> rstr option \<Rightarrow> JobMetrics \<Rightarrow> AppState \<Rightarrow> (AppError + unit) \<times> AppState"
where
  "on_result rid jid conclusion exit_code error_category metrics s =
     (let metrics_json = sanitize_metrics metrics in
      case with_db (finish_from_runner (st_now s) jid rid (JobConclusion_as_str conclusion) exit_code
             (error_category_of error_category) metrics_json) s of
        (None, s) \<Rightarrow> (Inr (), s)
      | (Some job, s) \<Rightarrow>
          on_job_finished job
            (record_event (pj_pipeline_id job) (Some (pj_id job)) ''job.metrics'' None None (Some rid) None
              (case metrics_json of None \<Rightarrow> JObj [] | Some m \<Rightarrow> m) s))"

definition on_ack :: "uuid \<Rightarrow> uuid \<Rightarrow> Active \<times> AppState \<Rightarrow> (AppError + unit) \<times> Active \<times> AppState" where
  "on_ack rid jid st =
     (case with_db (ack (st_now (snd st)) jid rid) (snd st) of
        (None, s) \<Rightarrow> (Inr (), fst st, s)
      | (Some job, s) \<Rightarrow>
          (Inr (), AList.update (pj_id job) (pj_pipeline_id job, plan_step_count (pj_plan job)) (fst st), on_job_started job s))"

text \<open>The new id is the one an inserted artifact row gets.\<close>

definition on_runner_msg ::
  "World \<Rightarrow> uuid \<Rightarrow> uuid \<Rightarrow> uuid \<Rightarrow> RunnerMsg \<Rightarrow> Active \<times> AppState \<Rightarrow> (AppError + unit) \<times> Active \<times> AppState"
where
  "on_runner_msg w new_id ws rid msg st =
     (let active = fst st;
          s = touch_runner ws rid msg (snd st);
          keep = (\<lambda>(r, s). (r, active, s))
      in case msg of
           JobAck jid \<Rightarrow> on_ack rid jid (active, s)
         | JobStage jid stage detail step \<Rightarrow> (Inr (), active, on_stage rid jid stage detail step s)
         | Log jid seq stream chunk step phase \<Rightarrow> on_log rid jid seq stream chunk step phase (active, s)
         | ArtifactRequest jid name nbytes ct \<Rightarrow> keep (handle_artifact_request w new_id rid jid name nbytes ct s)
         | ArtifactDone jid name nbytes checksum uncompressed file_count entries \<Rightarrow>
             keep (handle_artifact_done w rid jid name checksum uncompressed file_count entries s)
         | JobResult jid conclusion exit_code category metrics \<Rightarrow>
             (let (r, s) = on_result rid jid conclusion exit_code category metrics s
              in (r, AList.delete jid active, s))
         | _ \<Rightarrow> (Inr (), active, s))"

end
