(* ===== verification/Conn.thy ===== *)
theory Conn
  imports RunnerWs
begin

text \<open>
  What the connection handler keeps: the statements it adds to those of the pipelines are the
  assumptions of three locales, and its operations follow.  \<open>kept_msg\<close> is about the messages of
  one runner and assumes of each statement only its use for that runner.
\<close>

section \<open>Connections\<close>

lemma publish_runner_db [simp]: "st_db (publish_runner ws rid s) = st_db s"
  by (simp add: publish_runner_def split: option.splits)

lemma deny_db [simp]: "st_db (snd (deny rid jid name reason s)) = st_db s"
  by (simp add: deny_def)

locale kept_msg = kept_end +
  fixes rid :: uuid
  assumes acked: "P db \<Longrightarrow> P (snd (ack now i rid db))"
    and staged: "P db \<Longrightarrow> P (snd (set_stage i rid st db))"
    and finished: "P db \<Longrightarrow> P (snd (finish_from_runner now i rid c code cat metrics db))"
    and touched: "P db \<Longrightarrow> P (touch_last_seen now rid db)"
    and touched_health: "P db \<Longrightarrow> P (touch_last_seen_with_health now rid h db)"
begin

abbreviation okay :: "AppState \<Rightarrow> bool" where
  "okay s \<equiv> P (st_db s)"

lemma touch_runner: "okay s \<Longrightarrow> okay (touch_runner ws rid msg s)"
  by (auto simp: touch_runner_def Let_def touched touched_health split: RunnerMsg.splits option.splits)

lemma on_stage: "okay s \<Longrightarrow> okay (on_stage rid jid stage detail step s)"
  using staged [of "st_db s" jid stage] tables_of(10) [of "set_stage jid rid stage" s]
  by (auto simp: on_stage_def Let_def split: prod.splits option.splits intro!: on_job_step on_job_stage)

lemma on_ack: "okay (snd st) \<Longrightarrow> okay (snd (snd (on_ack rid jid st)))"
  using acked [of "st_db (snd st)" "st_now (snd st)" jid] tables_of(10) [of "ack (st_now (snd st)) jid rid" "snd st"]
  by (auto simp: on_ack_def split: prod.splits option.splits intro!: on_job_started)

lemma with_logs_ingest: "okay s \<Longrightarrow> okay (snd (with_logs (ingest_log now mx pid jid seq stream chunk step phase) s))"
  using ingest by (simp add: with_logs_def Let_def case_prod_unfold)

lemma on_log: "okay (snd st) \<Longrightarrow> okay (snd (snd (on_log rid jid seq stream chunk step phase st)))"
  by (cases st) (auto simp: on_log_def Let_def case_prod_unfold with_logs_ingest split: option.splits)

lemma on_result: "okay s \<Longrightarrow> okay (snd (on_result rid jid conclusion code category metrics s))"
  using finished [of "st_db s" "st_now s" jid "JobConclusion_as_str conclusion" code "error_category_of category" "sanitize_metrics metrics"]
    tables_of(10) [of "finish_from_runner (st_now s) jid rid (JobConclusion_as_str conclusion) code (error_category_of category)
      (sanitize_metrics metrics)" s]
  by (auto simp: on_result_def Let_def split: prod.splits option.splits intro!: on_job_finished recorded)

text \<open>The two artifact messages come with what they may do to the artifact table.\<close>

lemma on_runner_msg_with:
  assumes ok: "okay (snd st)"
    and req: "\<And>jid name n ct s. okay s \<Longrightarrow> okay (snd (handle_artifact_request w new_id rid jid name n ct s))"
    and fin: "\<And>jid name c u f es s. okay s \<Longrightarrow> okay (snd (handle_artifact_done w rid jid name c u f es s))"
  shows "okay (snd (snd (on_runner_msg w new_id ws rid msg st)))"
proof -
  let ?s = "touch_runner ws rid msg (snd st)"
  have t: "okay ?s" using ok by (rule touch_runner)
  then have a: "okay (snd (snd (on_ack rid jid (fst st, ?s))))" for jid by (intro on_ack) simp
  have l: "okay (snd (snd (on_log rid jid seq stream chunk step phase (fst st, ?s))))" for jid seq stream chunk step phase
    using t by (intro on_log) simp
  show ?thesis
    using t a l on_stage [OF t] on_result [OF t] req [OF t] fin [OF t]
    by (cases msg) (simp_all add: on_runner_msg_def Let_def case_prod_unfold)
qed

end

locale kept_conn = kept +
  assumes connected: "P db \<Longrightarrow> P (mark_connected now i v db)"
    and labelled: "P db \<Longrightarrow> P (update_labels i ls db)"
    and touched: "P db \<Longrightarrow> P (touch_last_seen now i db)"
    and touched_health: "P db \<Longrightarrow> P (touch_last_seen_with_health now i h db)"
    and exchanged: "P db \<Longrightarrow> P (snd (exchange_bootstrap_token i hash db))"
begin

abbreviation okay :: "AppState \<Rightarrow> bool" where
  "okay s \<equiv> P (st_db s)"

lemma sync_advertised_labels: "okay s \<Longrightarrow> okay (sync_advertised_labels runner advertised s)"
  by (simp add: sync_advertised_labels_def Let_def labelled)

lemma recovered_audit: "okay s \<Longrightarrow> okay (recovered_audit runner s)"
  by (simp add: recovered_audit_def audit)

lemma permanent_token: "okay s \<Longrightarrow> okay (snd (permanent_token w runner bootstrap fresh s))"
  by (auto simp: permanent_token_def case_prod_unfold Let_def tables_of(10) exchanged)

lemma open_connection: "okay s \<Longrightarrow> okay (snd (open_connection w runner bootstrap first fresh delivered s))"
proof -
  assume ok: "okay s"
  show ?thesis
  proof (cases "\<exists>name version advertised docker. first = Some (Hello name version advertised docker)")
    case True
    then obtain name version advertised docker where first: "first = Some (Hello name version advertised docker)" by blast
    let ?s = "publish_runner (rn_workspace_id runner) (rn_id runner) (recovered_audit runner (sync_advertised_labels runner advertised
        (s\<lparr>st_db := mark_connected (st_now s) (rn_id runner) version (st_db s)\<rparr>)))"
    have "okay ?s" using ok by (simp add: recovered_audit sync_advertised_labels connected)
    from permanent_token [OF this, of w runner bootstrap fresh] show ?thesis
      by (auto simp: open_connection_def first Let_def case_prod_unfold poke_def split: sum.splits prod.splits)
  qed (auto simp: open_connection_def ok split: option.splits RunnerMsg.splits)
qed

lemma close_connection: "okay s \<Longrightarrow> okay (close_connection ws rid conn s)"
  by (auto simp: close_connection_def Let_def intro!: orphan_runner_jobs offline)

end

sublocale kept_conn \<subseteq> msg: kept_msg P rid for rid
  by unfold_locales (rule acked staged finished touched touched_health, assumption)+

locale kept_ws = kept_conn +
  assumes requested: "P db \<Longrightarrow> P (snd (insert_pending now new_id ws pid jid name key backend n ct kind e db))"
    and uploaded: "P db \<Longrightarrow> P (snd (mark_uploaded jid name n checksum manifest db))"
    and refused: "P db \<Longrightarrow> P (mark_failed jid name db)"
begin

lemma record_upload: "okay s \<Longrightarrow> okay (record_upload ws pid jid name n checksum manifest s)"
  using uploaded [of "st_db s" jid name n checksum manifest] tables_of(10) [of "mark_uploaded jid name n checksum manifest" s]
  by (auto simp: record_upload_def audit split: prod.splits option.splits)

lemma handle_artifact_done: "okay s \<Longrightarrow> okay (snd (handle_artifact_done w rid jid name c u f es s))"
  by (auto simp: handle_artifact_done_def record_upload refused split: option.splits sum.splits)

lemma grant_upload: "okay s \<Longrightarrow> okay (snd (grant_upload w new_id rid job p name n ct s))"
  by (auto simp: grant_upload_def Let_def case_prod_unfold tables_of(10) requested split: option.splits)

lemma handle_artifact_request: "okay s \<Longrightarrow> okay (snd (handle_artifact_request w new_id rid jid name n ct s))"
  by (auto simp: handle_artifact_request_def grant_upload split: option.splits)

lemma on_runner_msg: "okay (snd st) \<Longrightarrow> okay (snd (snd (on_runner_msg w new_id ws rid msg st)))"
  by (rule msg.on_runner_msg_with) (auto intro: handle_artifact_request handle_artifact_done)

end

end
