(* ===== verification/Create.thy ===== *)
theory Create
  imports Conn
begin

text \<open>
  Creation of a pipeline, \<open>create_pipeline\<close> of \<open>services/pipeline_run.rs\<close>: the plans of the
  workflow, the notice about undefined environments, the dispatch inputs in the environment,
  the rows, and the announcement when the rows are new.
\<close>

record TriggerContext =
  tc_trigger :: rstr
  tc_triggered_by :: "uuid option"
  tc_commit_sha :: rstr
  tc_commit_message :: "rstr option"
  tc_commit_author :: "rstr option"
  tc_actor_login :: "rstr option"
  tc_actor_avatar_url :: "rstr option"
  tc_git_ref :: rstr
  tc_inputs :: "json option"
  tc_pr_number :: "int option"
  tc_request_id :: "rstr option"
  tc_webhook_delivery_id :: "rstr option"

definition input_env_name :: "rstr \<Rightarrow> rstr" where
  "input_env_name name = ''INPUT_'' @ concat (map (\<lambda>c.
     if is_ascii_alphanumeric c then [to_ascii_upper (char_of c)] else ''_'') (chars name))"

definition input_env_value :: "(json \<Rightarrow> rstr) \<Rightarrow> json \<Rightarrow> rstr" where
  "input_env_value json_text v =
     (case v of
        JStr s \<Rightarrow> s
      | JBool b \<Rightarrow> if b then ''true'' else ''false''
      | JNum n \<Rightarrow> n
      | _ \<Rightarrow> json_text v)"

text \<open>\<open>value[key]\<close> as a mutable place of an object: a missing key is put there as \<open>Null\<close>.\<close>

definition jplace :: "rstr \<Rightarrow> json \<Rightarrow> json" where
  "jplace k v = (if jget v k = None then jset k JNull v else v)"

definition undefined_notice :: "rstr \<Rightarrow> rstr" where
  "undefined_notice name = ''environment `'' @ name @
     ''` is not defined in this workspace; environment secrets will not be injected''"

definition environment_notice :: "(rstr \<Rightarrow> uuid option) \<Rightarrow> json \<Rightarrow> json" where
  "environment_notice find_env plan =
     (case j_str (jidx plan ''environment'') of
        None \<Rightarrow> plan
      | Some name \<Rightarrow>
          if find_env name \<noteq> None then plan
          else let plan = jplace ''notices'' plan in
            case j_array (jidx plan ''notices'') of
              None \<Rightarrow> plan
            | Some notices \<Rightarrow> jset ''notices'' (JArr (notices @ [JStr (undefined_notice name)])) plan)"

definition add_inputs :: "(json \<Rightarrow> rstr) \<Rightarrow> (rstr \<times> json) list \<Rightarrow> json \<Rightarrow> json" where
  "add_inputs json_text inputs plan =
     (if inputs = [] then plan
      else let plan = jplace ''env'' plan in
        case j_object (jidx plan ''env'') of
          None \<Rightarrow> plan
        | Some env \<Rightarrow> jset ''env'' (JObj (bt_extend env (map (\<lambda>(name, v).
            (input_env_name name, JStr (input_env_value json_text v))) inputs))) plan)"

definition finish_plan :: "World \<Rightarrow> Vault \<Rightarrow> uuid \<Rightarrow> TriggerContext \<Rightarrow> PlannedJob \<Rightarrow> PlannedJob" where
  "finish_plan w v ws ctx p =
     p\<lparr>pn_plan := add_inputs (wd_json_text w)
        (case Option.bind (tc_inputs ctx) j_object of None \<Rightarrow> [] | Some m \<Rightarrow> m)
        (environment_notice (find_environment_by_name (wd_lower w) v ws) (pn_plan p))\<rparr>"

definition new_pipeline :: "Config \<Rightarrow> Repository \<Rightarrow> uuid \<Rightarrow> rstr \<Rightarrow> rstr \<Rightarrow> TriggerContext \<Rightarrow> NewPipeline" where
  "new_pipeline cf repo wf_id wname wpath ctx =
    \<lparr>np_workspace_id = rp_workspace_id repo, np_repository_id = rp_id repo, np_workflow_id = wf_id,
     np_workflow_name = wname, np_workflow_path = wpath, np_trigger = tc_trigger ctx,
     np_triggered_by = tc_triggered_by ctx, np_commit_sha = tc_commit_sha ctx,
     np_commit_message = tc_commit_message ctx, np_commit_author = tc_commit_author ctx,
     np_actor_login = tc_actor_login ctx, np_actor_avatar_url = tc_actor_avatar_url ctx,
     np_git_ref = tc_git_ref ctx, np_trigger_inputs = tc_inputs ctx, np_pr_number = tc_pr_number ctx,
     np_timeout_seconds = cf_pipeline_timeout_seconds cf, np_job_timeout_seconds = cf_job_timeout_seconds cf,
     np_request_id = tc_request_id ctx, np_webhook_delivery_id = tc_webhook_delivery_id ctx\<rparr>"

fun plan_error :: "PlanError \<Rightarrow> AppError" where
  "plan_error Invalid = Validation ''workflow has validation errors and cannot run''"
| "plan_error NoRunnableJobs = Validation ''workflow defines no runnable jobs''"

definition announce :: "Pipeline \<Rightarrow> AppState \<Rightarrow> AppState" where
  "announce p s = poke (publish_ws (pl_workspace_id p)
     (Ws_PipelineUpdate (pl_id p) (pl_status p) (pl_conclusion p) (pl_started_at p) (pl_finished_at p)) s)"

definition create_pipeline ::
  "World \<Rightarrow> uuid \<Rightarrow> uuid list \<Rightarrow> Repository \<Rightarrow> uuid \<Rightarrow> rstr \<Rightarrow> rstr \<Rightarrow> rstr \<Rightarrow> TriggerContext \<Rightarrow> Server \<Rightarrow>
     (AppError + Pipeline \<times> bool) \<times> Server"
where
  "create_pipeline w new_id ids repo wf_id wname wpath raw_content ctx s =
     (case build_plans (wd_parse_yaml w) raw_content (cf_default_job_image (wd_config w))
             (cf_image_allowlist (wd_config w)) of
        Inl e \<Rightarrow> (Inl (plan_error e), s)
      | Inr plans \<Rightarrow>
          (case on_app (with_db (create_pipeline_row (st_now (sv_app s)) new_id ids
                  (new_pipeline (wd_config w) repo wf_id wname wpath ctx)
                  (map (finish_plan w (sv_vault s) (rp_workspace_id repo) ctx) plans))) s of
             (Inl e, s) \<Rightarrow> (Inl e, s)
           | (Inr (p, rows, newly_created), s) \<Rightarrow>
               (Inr (p, newly_created), if newly_created then upd_app (announce p) s else s)))"

end
