(* ===== verification/WebhooksDb.thy ===== *)
theory WebhooksDb
  imports Create
begin

text \<open>
  The tables behind GitHub's webhooks and the statements on them: the delivery queue
  (\<open>db/webhook_deliveries.rs\<close>), the repository timeline (\<open>db/repository_events.rs\<close>), and
  what the processor uses of \<open>db/repositories.rs\<close>, \<open>db/workflows.rs\<close> and
  \<open>db/github_installations.rs\<close>.
\<close>

section \<open>Rows\<close>

record ClaimedDelivery =
  cd_delivery_id :: rstr
  cd_event :: rstr
  cd_action :: "rstr option"
  cd_installation_id :: "int option"
  cd_github_repo_id :: "int option"
  cd_payload :: "json option"
  cd_retry_count :: int
  cd_received_at :: time

record DeliveryRow = ClaimedDelivery +
  dl_status :: rstr
  dl_last_attempt_at :: "time option"
  dl_processed_at :: "time option"

definition claimed :: "DeliveryRow \<Rightarrow> ClaimedDelivery" where
  "claimed d = ClaimedDelivery.truncate d"

record NewRepositoryEvent =
  re_repository_id :: uuid
  re_delivery_id :: rstr
  re_event :: rstr
  re_action :: "rstr option"
  re_git_ref :: "rstr option"
  re_head_sha :: "rstr option"
  re_actor_login :: "rstr option"
  re_actor_avatar_url :: "rstr option"
  re_outcome :: rstr
  re_ignored_reason :: "rstr option"
  re_pipeline_ids :: "uuid list"
  re_sync_run_id :: "uuid option"
  re_summary :: json
  re_received_at :: time

record RunnableWorkflow =
  wk_id :: uuid
  wk_name :: rstr
  wk_path :: rstr
  wk_raw_content :: rstr
  wk_triggers :: "rstr list"
  wk_metadata :: json

record WorkflowRow = RunnableWorkflow +
  wk_repository_id :: uuid
  wk_validation_status :: rstr

record BranchRow =
  rb_repository_id :: uuid
  rb_name :: rstr
  rb_commit_sha :: rstr
  rb_is_default :: bool

record SyncRunRow =
  sr_id :: uuid
  sr_repository_id :: uuid
  sr_trigger :: rstr

record InstallationEventRow =
  ie_installation_id :: int
  ie_account_login :: rstr
  ie_sender_login :: rstr
  ie_received_at :: time

text \<open>
  Beside the tables: the gauge of rejected signatures, the wake-up of the processor, the
  installations whose cached token was evicted, the syncs handed to background tasks, and how
  many statements have run.
\<close>

record WebhookAuthStats =
  ws_total :: nat
  ws_last_at_ms :: int
  ws_last_cause :: nat
  ws_bucket_counts :: "nat list"
  ws_bucket_hours :: "int list"

record Hooks =
  hk_deliveries :: "DeliveryRow list"
  hk_events :: "(uuid \<times> NewRepositoryEvent) list"
  hk_workflows :: "WorkflowRow list"
  hk_branches :: "BranchRow list"
  hk_sync_runs :: "SyncRunRow list"
  hk_installation_events :: "InstallationEventRow list"
  hk_auth :: WebhookAuthStats
  hk_poked :: bool
  hk_evicted :: "int list"
  hk_syncs :: "(Repository \<times> uuid) list"
  hk_statements :: nat

type_synonym Site = "Hooks \<times> Server"

abbreviation site_app :: "Site \<Rightarrow> AppState" where
  "site_app st \<equiv> sv_app (snd st)"

abbreviation site_db :: "Site \<Rightarrow> Db" where
  "site_db st \<equiv> st_db (site_app st)"

section \<open>Statements that can fail\<close>

text \<open>
  Every statement or transaction of the processor may fail as a whole, whenever the database
  does.  \<open>hw_fault n\<close> says whether the \<open>n\<close>-th one does, and \<open>hw_ids n\<close> is what
  \<open>gen_random_uuid\<close> draws in it.  \<open>hw_collate\<close> is the sort key of the database's collation;
  \<open>hw_to_str\<close> reads a header as text, \<open>hw_parse\<close> is the JSON library.
\<close>

record CommitRef =
  cm_added :: "rstr list option"
  cm_removed :: "rstr list option"
  cm_modified :: "rstr list option"

record SenderRef =
  sn_login :: rstr
  sn_avatar_url :: "rstr option"

record HeadCommit =
  hc_id :: "rstr option"
  hc_message :: "rstr option"
  hc_author :: "rstr option option"

record PrSide =
  ps_sha :: "rstr option"
  ps_git_ref :: "rstr option"
  ps_repo :: "int option"

record PullRequestRef =
  pq_number :: int
  pq_title :: "rstr option"
  pq_merged :: "bool option"
  pq_draft :: "bool option"
  pq_head :: "PrSide option"
  pq_base :: "PrSide option"
  pq_user :: "SenderRef option"

record Envelope =
  ev_action :: "rstr option"
  ev_installation :: "(int \<times> rstr option) option"
  ev_repository :: "int option"
  ev_repositories_removed :: "int list option"
  ev_sender :: "SenderRef option"
  ev_git_ref :: "rstr option"
  ev_after :: "rstr option"
  ev_head_commit :: "HeadCommit option"
  ev_pusher :: "rstr option option"
  ev_commits :: "CommitRef list option"
  ev_size :: "int option"
  ev_pull_request :: "PullRequestRef option"

record HookWorld =
  hw_world :: World
  hw_webhook_secret :: rstr
  hw_to_str :: "rstr \<Rightarrow> rstr option"
  hw_parse :: "rstr \<Rightarrow> Envelope option"
  hw_collate :: "rstr \<Rightarrow> rstr"
  hw_fault :: "nat \<Rightarrow> bool"
  hw_ids :: "nat \<Rightarrow> uuid \<times> uuid list"

definition tick :: "Site \<Rightarrow> Site" where
  "tick st = ((fst st)\<lparr>hk_statements := hk_statements (fst st) + 1\<rparr>, snd st)"

definition stmt :: "HookWorld \<Rightarrow> (uuid \<times> uuid list \<Rightarrow> Site \<Rightarrow> 'a \<times> Site) \<Rightarrow> Site \<Rightarrow> (unit + 'a) \<times> Site" where
  "stmt hw f st =
     (let n = hk_statements (fst st) in
      if hw_fault hw n then (Inl (), tick st)
      else let (r, st) = f (hw_ids hw n) (tick st) in (Inr r, st))"

definition on_hooks :: "(Hooks \<Rightarrow> Hooks) \<Rightarrow> Site \<Rightarrow> Site" where
  "on_hooks f st = (f (fst st), snd st)"

definition upd_deliveries :: "(DeliveryRow list \<Rightarrow> DeliveryRow list) \<Rightarrow> Site \<Rightarrow> Site" where
  "upd_deliveries f = on_hooks (\<lambda>h. h\<lparr>hk_deliveries := f (hk_deliveries h)\<rparr>)"

definition upd_vault :: "(Vault \<Rightarrow> Vault) \<Rightarrow> Site \<Rightarrow> Site" where
  "upd_vault f st = (fst st, (snd st)\<lparr>sv_vault := f (sv_vault (snd st))\<rparr>)"

section \<open>The delivery queue\<close>

definition delivery_row ::
  "time \<Rightarrow> rstr \<Rightarrow> rstr \<Rightarrow> rstr option \<Rightarrow> int option \<Rightarrow> int option \<Rightarrow> rstr \<Rightarrow> json option \<Rightarrow> DeliveryRow"
where
  "delivery_row now i event action installation repo stat payload =
    \<lparr>cd_delivery_id = i, cd_event = event, cd_action = action, cd_installation_id = installation,
     cd_github_repo_id = repo, cd_payload = payload, cd_retry_count = 0, cd_received_at = now,
     dl_status = stat, dl_last_attempt_at = None, dl_processed_at = None\<rparr>"

text \<open>The key \<open>delivery_id\<close> is unique; a conflict updates the row only while it is failed.\<close>

definition insert_delivery ::
  "rstr \<Rightarrow> rstr \<Rightarrow> rstr option \<Rightarrow> int option \<Rightarrow> int option \<Rightarrow> rstr \<Rightarrow> json option \<Rightarrow> Site \<Rightarrow> bool \<times> Site"
where
  "insert_delivery i event action installation repo stat payload st =
     (let rows = hk_deliveries (fst st) in
      if i \<notin> cd_delivery_id ` set rows
      then (True, upd_deliveries (\<lambda>rows. rows @
              [delivery_row (st_now (site_app st)) i event action installation repo stat payload]) st)
      else let hit = (\<lambda>d. cd_delivery_id d = i \<and> dl_status d = ''failed'') in
           (list_ex hit rows, upd_deliveries (update_where hit
              (\<lambda>d. d\<lparr>dl_status := ''pending'', cd_retry_count := 0, cd_payload := payload\<rparr>)) st))"

definition oldest_pending :: "HookWorld \<Rightarrow> DeliveryRow list \<Rightarrow> DeliveryRow option" where
  "oldest_pending hw rows = fetch_optional (sort_key cd_received_at
     (sort_key (\<lambda>d. hw_collate hw (cd_delivery_id d)) (filter (\<lambda>d. dl_status d = ''pending'') rows)))"

definition mark_processing :: "time \<Rightarrow> rstr \<Rightarrow> DeliveryRow list \<Rightarrow> DeliveryRow list" where
  "mark_processing now i = update_where (\<lambda>d. cd_delivery_id d = i)
     (\<lambda>d. d\<lparr>dl_status := ''processing'', dl_last_attempt_at := Some now\<rparr>)"

definition claim_next :: "HookWorld \<Rightarrow> Site \<Rightarrow> ClaimedDelivery option \<times> Site" where
  "claim_next hw st =
     (case oldest_pending hw (hk_deliveries (fst st)) of
        None \<Rightarrow> (None, st)
      | Some d \<Rightarrow> (Some (claimed d), upd_deliveries (mark_processing (st_now (site_app st)) (cd_delivery_id d)) st))"

definition finish :: "rstr \<Rightarrow> rstr \<Rightarrow> Site \<Rightarrow> Site" where
  "finish i stat st = upd_deliveries (update_where (\<lambda>d. cd_delivery_id d = i)
     (\<lambda>d. d\<lparr>dl_status := stat, dl_processed_at := Some (st_now (site_app st)), cd_payload := None\<rparr>)) st"

definition bump_retry :: "time \<Rightarrow> int \<Rightarrow> DeliveryRow \<Rightarrow> DeliveryRow" where
  "bump_retry now max_retries d =
     (if cd_retry_count d + 1 \<ge> max_retries
      then d\<lparr>cd_retry_count := cd_retry_count d + 1, dl_status := ''failed'', cd_payload := None,
             dl_processed_at := Some now\<rparr>
      else d\<lparr>cd_retry_count := cd_retry_count d + 1, dl_status := ''pending''\<rparr>)"

definition record_failure :: "rstr \<Rightarrow> int \<Rightarrow> Site \<Rightarrow> Site" where
  "record_failure i max_retries st = upd_deliveries (update_where (\<lambda>d. cd_delivery_id d = i)
     (bump_retry (st_now (site_app st)) max_retries)) st"

definition revert_stuck :: "int \<Rightarrow> Site \<Rightarrow> nat \<times> Site" where
  "revert_stuck older_than_secs st =
     (let stuck = (\<lambda>d. dl_status d = ''processing'' \<and>
            (case dl_last_attempt_at d of None \<Rightarrow> False | Some t \<Rightarrow> t < st_now (site_app st) - secs older_than_secs))
      in (length (filter stuck (hk_deliveries (fst st))),
          upd_deliveries (update_where stuck (\<lambda>d. d\<lparr>dl_status := ''pending''\<rparr>)) st))"

definition pending_count_for_repo :: "Hooks \<Rightarrow> int \<Rightarrow> nat" where
  "pending_count_for_repo h github_repo_id = length (filter (\<lambda>d. cd_github_repo_id d = Some github_repo_id \<and>
     dl_status d \<in> {''pending'', ''processing''}) (hk_deliveries h))"

section \<open>Repositories, workflows, installations\<close>

definition insert_event :: "NewRepositoryEvent \<Rightarrow> uuid \<Rightarrow> Site \<Rightarrow> Site" where
  "insert_event ev i = on_hooks (\<lambda>h. h\<lparr>hk_events := hk_events h @ [(i, ev)]\<rparr>)"

definition find_all_by_github_id :: "int \<Rightarrow> Vault \<Rightarrow> Repository list" where
  "find_all_by_github_id github_repo_id v =
     sort_key rp_created_at (sort_key rp_id (filter (\<lambda>r. rp_github_repo_id r = github_repo_id) (va_repositories v)))"

definition claim_for_sync :: "time \<Rightarrow> uuid \<Rightarrow> Vault \<Rightarrow> Repository option \<times> Vault" where
  "claim_for_sync now i v =
     (let P = (\<lambda>r. rp_id r = i \<and> rp_sync_status r \<noteq> ''syncing'');
          f = (\<lambda>r. r\<lparr>rp_sync_status := ''syncing'', rp_sync_error := None, rp_updated_at := now\<rparr>)
      in (fetch_optional (returning P f (va_repositories v)),
          v\<lparr>va_repositories := update_where P f (va_repositories v)\<rparr>))"

definition mark_repositories_failed :: "time \<Rightarrow> int list \<Rightarrow> rstr \<Rightarrow> Vault \<Rightarrow> Vault" where
  "mark_repositories_failed now ids category v = v\<lparr>va_repositories := update_where
     (\<lambda>r. rp_github_repo_id r \<in> set ids)
     (\<lambda>r. r\<lparr>rp_sync_status := ''failed'', rp_sync_error := Some category, rp_updated_at := now\<rparr>) (va_repositories v)\<rparr>"

definition runnable_for_repo :: "HookWorld \<Rightarrow> uuid \<Rightarrow> rstr \<Rightarrow> Hooks \<Rightarrow> RunnableWorkflow list" where
  "runnable_for_repo hw repository_id event h = map RunnableWorkflow.truncate
     (sort_key (\<lambda>k. hw_collate hw (wk_path k)) (filter (\<lambda>k. wk_repository_id k = repository_id \<and>
        event \<in> set (wk_triggers k) \<and> wk_validation_status k \<noteq> ''errors'') (hk_workflows h)))"

definition set_suspended :: "time \<Rightarrow> int \<Rightarrow> bool \<Rightarrow> Vault \<Rightarrow> Vault" where
  "set_suspended now installation_id suspended v = v\<lparr>va_installations := update_where
     (\<lambda>i. gi_installation_id i = installation_id)
     (\<lambda>i. i\<lparr>gi_suspended_at := (if suspended then Some now else None), gi_updated_at := now\<rparr>) (va_installations v)\<rparr>"

definition record_created_event :: "time \<Rightarrow> int \<Rightarrow> rstr \<Rightarrow> rstr \<Rightarrow> Hooks \<Rightarrow> Hooks" where
  "record_created_event now installation_id account sender h = h\<lparr>hk_installation_events :=
     (let row = \<lparr>ie_installation_id = installation_id, ie_account_login = account, ie_sender_login = sender,
            ie_received_at = now\<rparr>;
          rows = hk_installation_events h
      in if installation_id \<in> ie_installation_id ` set rows
         then update_where (\<lambda>r. ie_installation_id r = installation_id) (\<lambda>_. row) rows else rows @ [row])\<rparr>"

text \<open>
  Deleting an installation takes its repositories, and with them everything that refers to
  them: workflows, branches, syncs, timeline rows, secrets, and pipelines with their jobs, events, logs
  and artifacts.
\<close>

definition drop_pipelines :: "(uuid \<Rightarrow> bool) \<Rightarrow> Db \<Rightarrow> Db" where
  "drop_pipelines gone db =
     (let pids = map pl_id (filter (\<lambda>p. gone (pl_repository_id p)) (db_pipelines db));
          jids = map pj_id (filter (\<lambda>j. pj_pipeline_id j \<in> set pids) (db_jobs db))
      in db\<lparr>db_pipelines := filter (\<lambda>p. pl_id p \<notin> set pids) (db_pipelines db),
            db_jobs := filter (\<lambda>j. pj_id j \<notin> set jids) (db_jobs db),
            db_events := filter (\<lambda>e. pe_pipeline_id e \<notin> set pids) (db_events db),
            db_chunks := filter (\<lambda>l. lr_job_id l \<notin> set jids) (db_chunks db),
            db_counters := filter (\<lambda>(r, _). \<not> gone r) (db_counters db),
            db_artifacts := filter (\<lambda>a. ar_pipeline_id a \<notin> set pids) (db_artifacts db)\<rparr>)"

definition delete_by_installation_id :: "int \<Rightarrow> Site \<Rightarrow> Site" where
  "delete_by_installation_id installation_id st =
     (case st of (h, s) \<Rightarrow>
        let v = sv_vault s;
            insts = map gi_id (filter (\<lambda>i. gi_installation_id i = installation_id) (va_installations v));
            repos = map rp_id (filter (\<lambda>r. rp_installation_id r \<in> set insts) (va_repositories v));
            gone = (\<lambda>r. r \<in> set repos)
        in (h\<lparr>hk_events := filter (\<lambda>(_, e). \<not> gone (re_repository_id e)) (hk_events h),
              hk_workflows := filter (\<lambda>k. \<not> gone (wk_repository_id k)) (hk_workflows h),
              hk_branches := filter (\<lambda>b. \<not> gone (rb_repository_id b)) (hk_branches h),
              hk_sync_runs := filter (\<lambda>r. \<not> gone (sr_repository_id r)) (hk_sync_runs h)\<rparr>,
            (upd_app (\<lambda>a. a\<lparr>st_db := drop_pipelines gone (st_db a)\<rparr>) s)
              \<lparr>sv_vault := v\<lparr>va_installations := filter (\<lambda>i. gi_installation_id i \<noteq> installation_id) (va_installations v),
                va_repositories := filter (\<lambda>r. \<not> gone (rp_id r)) (va_repositories v),
                va_secrets := filter (\<lambda>c. case sc_repository_id c of None \<Rightarrow> True | Some r \<Rightarrow> \<not> gone r) (va_secrets v)\<rparr>\<rparr>))"

definition delete_installation_events :: "int \<Rightarrow> Hooks \<Rightarrow> Hooks" where
  "delete_installation_events installation_id h = h\<lparr>hk_installation_events :=
     filter (\<lambda>r. ie_installation_id r \<noteq> installation_id) (hk_installation_events h)\<rparr>"

end
