(* ===== verification/WebhookReceive.thy ===== *)
theory WebhookReceive
  imports WebhooksDb "HOL-Library.Signed_Division"
begin

text \<open>
  GitHub's webhook endpoint, \<open>handlers/github_webhooks.rs\<close>: the signature over the raw body,
  the normalized payload, and the row of the queue; and the gauge of rejected deliveries,
  \<open>services/webhook_stats.rs\<close>.
\<close>

section \<open>The gauge of rejections\<close>

datatype SignatureError = MissingHeader | MalformedHeader | BadPrefix | InvalidHex | Mismatch

definition cause_str :: "SignatureError \<Rightarrow> rstr" where
  "cause_str e =
     (case e of
        MissingHeader \<Rightarrow> ''missing_header''
      | MalformedHeader \<Rightarrow> ''malformed_header''
      | BadPrefix \<Rightarrow> ''bad_prefix''
      | InvalidHex \<Rightarrow> ''invalid_hex''
      | Mismatch \<Rightarrow> ''mismatch'')"

definition cause_code :: "SignatureError \<Rightarrow> nat" where
  "cause_code e = (case e of MissingHeader \<Rightarrow> 1 | MalformedHeader \<Rightarrow> 2 | BadPrefix \<Rightarrow> 3 | InvalidHex \<Rightarrow> 4 | Mismatch \<Rightarrow> 5)"

definition from_code :: "nat \<Rightarrow> SignatureError option" where
  "from_code c =
     (if c = 1 then Some MissingHeader else if c = 2 then Some MalformedHeader else if c = 3 then Some BadPrefix
      else if c = 4 then Some InvalidHex else if c = 5 then Some Mismatch else None)"

lemma from_code_cause [simp]: "from_code (cause_code e) = Some e"
  by (cases e) (simp_all add: cause_code_def from_code_def)

definition BUCKETS :: nat where "BUCKETS = 24"

definition fetch_add :: "nat \<Rightarrow> nat" where
  "fetch_add n = (n + 1) mod 2 ^ 64"

definition hour_of :: "time \<Rightarrow> int" where
  "hour_of now = (now div secs 1) sdiv 3600"

definition record_at :: "SignatureError \<Rightarrow> time \<Rightarrow> WebhookAuthStats \<Rightarrow> WebhookAuthStats" where
  "record_at cause now s =
     (let hour = hour_of now;
          slot = nat (hour mod int BUCKETS);
          restart = ws_bucket_hours s ! slot \<noteq> hour;
          hours = (if restart then (ws_bucket_hours s)[slot := hour] else ws_bucket_hours s);
          counts = (if restart then (ws_bucket_counts s)[slot := 0] else ws_bucket_counts s)
      in s\<lparr>ws_total := fetch_add (ws_total s), ws_last_at_ms := now div 1000000, ws_last_cause := cause_code cause,
           ws_bucket_hours := hours, ws_bucket_counts := counts[slot := fetch_add (counts ! slot)]\<rparr>)"

record WebhookAuthSnapshot =
  rejections_24h :: nat
  last_rejected_at :: "time option"
  last_cause :: "rstr option"

definition snapshot_at :: "time \<Rightarrow> WebhookAuthStats \<Rightarrow> WebhookAuthSnapshot" where
  "snapshot_at now s =
     (let hour = hour_of now in
      \<lparr>rejections_24h = sum_list (map snd (filter (\<lambda>(stamped, _). hour - int BUCKETS < stamped \<and> stamped \<le> hour)
          (zip (ws_bucket_hours s) (ws_bucket_counts s)))),
       last_rejected_at = (if ws_last_at_ms s > 0 then Some (ws_last_at_ms s * 1000000) else None),
       last_cause = map_option cause_str (from_code (ws_last_cause s))\<rparr>)"

definition stats_ok :: "WebhookAuthStats \<Rightarrow> bool" where
  "stats_ok s \<longleftrightarrow> length (ws_bucket_hours s) = BUCKETS \<and> length (ws_bucket_counts s) = BUCKETS"

lemma record_at_ok: "stats_ok s \<Longrightarrow> stats_ok (record_at cause now s)"
  by (simp add: stats_ok_def record_at_def Let_def)

text \<open>A bucket of the ring holds only rejections of the hour it is stamped with: the hour that
  is being recorded starts from zero unless it has already begun.\<close>

lemma record_at_bucket:
  assumes "stats_ok s" and slot_def: "slot = nat (hour_of now mod int BUCKETS)"
  shows "ws_bucket_hours (record_at cause now s) ! slot = hour_of now"
    and "ws_bucket_counts (record_at cause now s) ! slot =
      fetch_add (if ws_bucket_hours s ! slot = hour_of now then ws_bucket_counts s ! slot else 0)"
    and "i \<noteq> slot \<Longrightarrow> ws_bucket_counts (record_at cause now s) ! i = ws_bucket_counts s ! i"
proof -
  have "slot < BUCKETS" unfolding slot_def BUCKETS_def by (simp add: nat_less_iff)
  with assms(1) have "slot < length (ws_bucket_hours s)" "slot < length (ws_bucket_counts s)"
    by (simp_all add: stats_ok_def)
  then show "ws_bucket_hours (record_at cause now s) ! slot = hour_of now"
    and "ws_bucket_counts (record_at cause now s) ! slot =
      fetch_add (if ws_bucket_hours s ! slot = hour_of now then ws_bucket_counts s ! slot else 0)"
    and "i \<noteq> slot \<Longrightarrow> ws_bucket_counts (record_at cause now s) ! i = ws_bucket_counts s ! i"
    by (simp_all add: record_at_def Let_def flip: slot_def)
qed

section \<open>Headers and signature\<close>

definition MAX_HEADER_LEN :: nat where "MAX_HEADER_LEN = 256"
definition MAX_FIELD_LEN :: nat where "MAX_FIELD_LEN = 512"
definition MAX_TITLE_LEN :: nat where "MAX_TITLE_LEN = 200"
definition MAX_CHANGED_PATHS :: nat where "MAX_CHANGED_PATHS = 300"
definition MAX_REMOVED_REPOS :: nat where "MAX_REMOVED_REPOS = 100"

definition PROCESSED_EVENTS :: "rstr list" where
  "PROCESSED_EVENTS = [''push'', ''pull_request'', ''repository'', ''installation'', ''installation_repositories'']"

text \<open>The headers: the raw value under a lower-case name, where there is one.\<close>

type_synonym headers = "rstr \<Rightarrow> rstr option"

definition header_str :: "HookWorld \<Rightarrow> headers \<Rightarrow> rstr \<Rightarrow> rstr option" where
  "header_str hw headers name =
     (case Option.bind (headers name) (hw_to_str hw) of
        None \<Rightarrow> None
      | Some v \<Rightarrow> if v = [] \<or> length v > MAX_HEADER_LEN then None else Some v)"

definition verify_signature :: "HookWorld \<Rightarrow> headers \<Rightarrow> rstr \<Rightarrow> SignatureError + unit" where
  "verify_signature hw headers body =
     (case headers ''x-hub-signature-256'' of
        None \<Rightarrow> Inl MissingHeader
      | Some raw \<Rightarrow>
          (case hw_to_str hw raw of
             None \<Rightarrow> Inl MalformedHeader
           | Some signature \<Rightarrow>
               (case strip_prefix ''sha256='' signature of
                  None \<Rightarrow> Inl BadPrefix
                | Some hex_digest \<Rightarrow>
                    (case hex_decode (wd_crypto (hw_world hw)) hex_digest of
                       None \<Rightarrow> Inl InvalidHex
                     | Some expected \<Rightarrow>
                         if hmac (wd_crypto (hw_world hw)) (hw_webhook_secret hw) body = expected then Inr ()
                         else Inl Mismatch))))"

section \<open>The normalized payload\<close>

definition cap :: "rstr \<Rightarrow> rstr" where
  "cap s = take_chars MAX_FIELD_LEN s"

definition first_line :: "rstr \<Rightarrow> rstr" where
  "first_line s = (case lines s of [] \<Rightarrow> [] | l # _ \<Rightarrow> l)"

definition entry :: "rstr \<Rightarrow> ('a \<Rightarrow> json) \<Rightarrow> 'a option \<Rightarrow> (rstr \<times> json) list" where
  "entry key f x = (case x of None \<Rightarrow> [] | Some y \<Rightarrow> [(key, f y)])"

definition jint :: "int \<Rightarrow> json" where
  "jint i = JNum (dec_int i)"

definition sanitize_avatar_url :: "rstr option \<Rightarrow> rstr option" where
  "sanitize_avatar_url url =
     (case url of None \<Rightarrow> None | Some u \<Rightarrow> if starts_with u ''https://'' \<and> length u \<le> 512 then Some u else None)"

definition login_of :: "SenderRef \<Rightarrow> rstr option" where
  "login_of sender = (if sn_login sender \<noteq> [] \<and> length (sn_login sender) \<le> 200 then Some (sn_login sender) else None)"

text \<open>The paths of all commits in the order of the loops; the full list breaks out of them all.\<close>

definition commit_paths :: "CommitRef list \<Rightarrow> rstr list" where
  "commit_paths commits = concat (map (\<lambda>c. concat (map (\<lambda>l. case l of None \<Rightarrow> [] | Some ps \<Rightarrow> ps)
     [cm_added c, cm_removed c, cm_modified c])) commits)"

fun collect_paths :: "rstr list \<Rightarrow> bool \<Rightarrow> rstr list \<Rightarrow> rstr list \<times> bool" where
  "collect_paths paths truncated [] = (paths, truncated)"
| "collect_paths paths truncated (p # ps) =
     (if p = [] \<or> length p > MAX_FIELD_LEN \<or> p \<in> set paths then collect_paths paths truncated ps
      else if length paths \<ge> MAX_CHANGED_PATHS then (paths, True)
      else collect_paths (paths @ [p]) truncated ps)"

definition changed_entries :: "Envelope \<Rightarrow> (rstr \<times> json) list" where
  "changed_entries envelope =
     (case ev_commits envelope of
        None \<Rightarrow> []
      | Some commits \<Rightarrow>
          let (paths, truncated) = collect_paths []
                (case ev_size envelope of None \<Rightarrow> False | Some s \<Rightarrow> s > int (length commits)) (commit_paths commits)
          in [(''changedPaths'', JArr (map JStr paths)), (''pathsTruncated'', JBool truncated)])"

definition pr_json :: "PullRequestRef \<Rightarrow> json" where
  "pr_json pr = jobj
     ([(''number'', jint (pq_number pr))] @
      entry ''title'' (\<lambda>t. JStr (take_chars MAX_TITLE_LEN (first_line t))) (pq_title pr) @
      entry ''merged'' JBool (pq_merged pr) @
      entry ''draft'' JBool (pq_draft pr) @
      entry ''headSha'' (\<lambda>s. JStr (cap s)) (Option.bind (pq_head pr) ps_sha) @
      entry ''headRef'' (\<lambda>s. JStr (cap s)) (Option.bind (pq_head pr) ps_git_ref) @
      entry ''headRepoId'' jint (Option.bind (pq_head pr) ps_repo) @
      entry ''baseRef'' (\<lambda>s. JStr (cap s)) (Option.bind (pq_base pr) ps_git_ref) @
      entry ''baseRepoId'' jint (Option.bind (pq_base pr) ps_repo) @
      entry ''userLogin'' JStr (Option.bind (pq_user pr) login_of))"

definition normalize_payload :: "Envelope \<Rightarrow> json" where
  "normalize_payload envelope = jobj
     (entry ''ref'' (\<lambda>s. JStr (cap s)) (ev_git_ref envelope) @
      entry ''after'' (\<lambda>s. JStr (cap s)) (ev_after envelope) @
      entry ''headCommitSha'' (\<lambda>s. JStr (cap s)) (Option.bind (ev_head_commit envelope) hc_id) @
      entry ''commitMessage'' (\<lambda>m. JStr (cap (first_line m))) (Option.bind (ev_head_commit envelope) hc_message) @
      entry ''commitAuthor'' (\<lambda>s. JStr (cap s))
        (Option.bind (ev_head_commit envelope) (\<lambda>head. Option.bind (hc_author head) id)) @
      entry ''pusherName'' (\<lambda>s. JStr (cap s)) (Option.bind (ev_pusher envelope) id) @
      entry ''senderLogin'' JStr (Option.bind (ev_sender envelope) login_of) @
      entry ''senderAvatarUrl'' JStr
        (Option.bind (ev_sender envelope) (\<lambda>sender. sanitize_avatar_url (sn_avatar_url sender))) @
      entry ''installationAccountLogin'' (\<lambda>s. JStr (cap s)) (Option.bind (ev_installation envelope) snd) @
      entry ''repositoriesRemoved'' (\<lambda>rs. JArr (map jint (take MAX_REMOVED_REPOS rs))) (ev_repositories_removed envelope) @
      changed_entries envelope @
      entry ''pullRequest'' pr_json (ev_pull_request envelope))"

section \<open>The endpoint\<close>

definition receive_hook :: "HookWorld \<Rightarrow> headers \<Rightarrow> rstr \<Rightarrow> Site \<Rightarrow> nat \<times> Site" where
  "receive_hook hw headers body st =
     (let event = header_str hw headers ''x-github-event'';
          delivery_id = header_str hw headers ''x-github-delivery''
      in case verify_signature hw headers body of
        Inl cause \<Rightarrow> (401, on_hooks (\<lambda>h. h\<lparr>hk_auth := record_at cause (st_now (site_app st)) (hk_auth h)\<rparr>) st)
      | Inr _ \<Rightarrow>
          (case event of None \<Rightarrow> (400, st) | Some event \<Rightarrow>
           (case delivery_id of None \<Rightarrow> (400, st) | Some delivery_id \<Rightarrow>
            (case hw_parse hw body of None \<Rightarrow> (400, st) | Some envelope \<Rightarrow>
              let (stat, payload) = (if event \<in> set PROCESSED_EVENTS
                    then (''pending'', Some (normalize_payload envelope)) else (''ignored'', None))
              in case stmt hw (\<lambda>_. insert_delivery delivery_id event (ev_action envelope)
                    (map_option fst (ev_installation envelope)) (ev_repository envelope) stat payload) st of
                   (Inl _, st) \<Rightarrow> (500, st)
                 | (Inr False, st) \<Rightarrow> (200, st)
                 | (Inr True, st) \<Rightarrow>
                     (202, if stat = ''pending'' then on_hooks (\<lambda>h. h\<lparr>hk_poked := True\<rparr>) st else st)))))"

end
