(* ===== verification/PipelineApi.thy ===== *)
theory PipelineApi
  imports Listing WebhookReceive
begin

text \<open>
  The pipeline endpoints of the console, \<open>handlers/pipelines.rs\<close>: detail, cancel, rerun, manual
  dispatch with its inputs, jobs, logs and artifacts.  A handler takes the caller and answers
  with an error or a value; the ones that change nothing return no state.
\<close>

text \<open>The columns of the caller's row that are read.\<close>

record User =
  us_id :: uuid
  us_username :: rstr
  us_avatar_url :: "rstr option"

text \<open>
  Beside the world of the scheduler: \<open>ap_number\<close> is what \<open>serde_json\<close> prints for the \<open>f64\<close> a text
  parses to, if it does and is finite; \<open>ap_presign_get\<close> the link an object store signs for a key
  and a file name.
\<close>

record Api =
  ap_world :: World
  ap_collate :: "rstr \<Rightarrow> rstr"
  ap_number :: "rstr \<Rightarrow> rstr option"
  ap_presign_get :: "StorageBackend \<Rightarrow> rstr \<Rightarrow> rstr \<Rightarrow> rstr + rstr"

definition ok_or :: "'e \<Rightarrow> 'a option \<Rightarrow> 'e + 'a" where
  "ok_or e x = (case x of None \<Rightarrow> Inl e | Some y \<Rightarrow> Inr y)"

lemma ok_or_simps [simp]: "ok_or e None = Inl e" "ok_or e (Some x) = Inr x" "ok_or e y = Inr z \<longleftrightarrow> y = Some z"
  by (simp_all add: ok_or_def split: option.split)

section \<open>Scope\<close>

definition scoped_pipeline :: "rstr \<Rightarrow> User \<Rightarrow> uuid \<Rightarrow> uuid \<Rightarrow> Server \<Rightarrow> AppError + Pipeline" where
  "scoped_pipeline permission user ws pid s =
     bind_result (require_permission (sv_vault s) (us_id user) ws permission)
       (\<lambda>_. ok_or NotFound (find_pipeline_for_workspace (st_db (sv_app s)) ws pid))"

definition scoped_job :: "rstr \<Rightarrow> User \<Rightarrow> uuid \<Rightarrow> uuid \<Rightarrow> uuid \<Rightarrow> Server \<Rightarrow> AppError + Pipeline \<times> PipelineJob" where
  "scoped_job permission user ws pid jid s =
     bind_result (scoped_pipeline permission user ws pid s)
       (\<lambda>p. bind_result (ok_or NotFound (find_for_pipeline (st_db (sv_app s)) pid jid)) (\<lambda>job. Inr (p, job)))"

definition scoped_row :: "User \<Rightarrow> uuid \<Rightarrow> uuid \<Rightarrow> Server \<Rightarrow> AppError + PipelineListRow" where
  "scoped_row user ws pid s =
     bind_result (require_permission (sv_vault s) (us_id user) ws CONTENT_READ)
       (\<lambda>_. ok_or NotFound (find_row_for_workspace (sv_vault s) (st_db (sv_app s)) ws pid))"

section \<open>Detail and cancel\<close>

definition pipeline_detail :: "User \<Rightarrow> uuid \<Rightarrow> uuid \<Rightarrow> Server \<Rightarrow>
    AppError + PipelineResponse \<times> PipelineJobResponse list \<times> PipelineEventResponse list" where
  "pipeline_detail user ws pid s =
     bind_result (scoped_row user ws pid s) (\<lambda>row.
       Inr (PipelineResponse_from row, map PipelineJobResponse_from (list_for_pipeline (st_db (sv_app s)) pid),
         map PipelineEventResponse_from (list_events_for_pipeline (st_db (sv_app s)) pid)))"

definition cancel :: "User \<Rightarrow> uuid \<Rightarrow> uuid \<Rightarrow> rstr option \<Rightarrow> Server \<Rightarrow> (AppError + unit) \<times> Server" where
  "cancel user ws pid request_id s =
     (case scoped_pipeline CONTENT_WRITE user ws pid s of
        Inl e \<Rightarrow> (Inl e, s)
      | Inr p \<Rightarrow> on_app (cancel_pipeline p (Some (us_id user)) request_id) s)"

definition job_cancel :: "User \<Rightarrow> uuid \<Rightarrow> uuid \<Rightarrow> uuid \<Rightarrow> rstr option \<Rightarrow> Server \<Rightarrow> (AppError + unit) \<times> Server" where
  "job_cancel user ws pid jid request_id s =
     (case scoped_job CONTENT_WRITE user ws pid jid s of
        Inl e \<Rightarrow> (Inl e, s)
      | Inr (p, job) \<Rightarrow> on_app (cancel_job p job (Some (us_id user)) request_id) s)"

section \<open>Rerun\<close>

definition find_detail_for_workspace :: "Vault \<Rightarrow> Hooks \<Rightarrow> uuid \<Rightarrow> uuid \<Rightarrow> WorkflowRow option" where
  "find_detail_for_workspace v h ws wid = first_with (\<lambda>k. wk_id k = wid \<and>
     list_ex (\<lambda>r. rp_id r = wk_repository_id k \<and> rp_workspace_id r = ws) (va_repositories v)) (hk_workflows h)"

definition no_workflow :: AppError where
  "no_workflow = Conflict ''the workflow for this pipeline no longer exists''"

definition rerun_source :: "User \<Rightarrow> uuid \<Rightarrow> uuid \<Rightarrow> Hooks \<Rightarrow> Server \<Rightarrow> AppError + Pipeline \<times> WorkflowRow \<times> Repository" where
  "rerun_source user ws pid h s =
     bind_result (scoped_pipeline CONTENT_WRITE user ws pid s) (\<lambda>original.
     bind_result (ok_or no_workflow (pl_workflow_id original)) (\<lambda>wid.
     bind_result (ok_or no_workflow (find_detail_for_workspace (sv_vault s) h ws wid)) (\<lambda>workflow.
     bind_result (ok_or (Conflict ''the repository for this pipeline no longer exists'')
         (find_repository (sv_vault s) ws (pl_repository_id original))) (\<lambda>repository.
       Inr (original, workflow, repository)))))"

definition rerun_context :: "User \<Rightarrow> Pipeline \<Rightarrow> rstr option \<Rightarrow> TriggerContext" where
  "rerun_context user original request_id =
    \<lparr>tc_trigger = ''manual'', tc_triggered_by = Some (us_id user), tc_commit_sha = pl_commit_sha original,
     tc_commit_message = pl_commit_message original, tc_commit_author = pl_commit_author original,
     tc_actor_login = Some (us_username user), tc_actor_avatar_url = sanitize_avatar_url (us_avatar_url user),
     tc_git_ref = pl_git_ref original, tc_inputs = pl_trigger_inputs original, tc_pr_number = pl_pr_number original,
     tc_request_id = request_id, tc_webhook_delivery_id = None\<rparr>"

definition respond_created :: "uuid \<Rightarrow> uuid \<Rightarrow> Server \<Rightarrow> (AppError + PipelineResponse) \<times> Server" where
  "respond_created ws pid s =
     (bind_result (ok_or NotFound (find_row_for_workspace (sv_vault s) (st_db (sv_app s)) ws pid))
        (\<lambda>row. Inr (PipelineResponse_from row)), s)"

definition create_from :: "Api \<Rightarrow> uuid \<Rightarrow> uuid list \<Rightarrow> Repository \<Rightarrow> WorkflowRow \<Rightarrow> TriggerContext \<Rightarrow> Server \<Rightarrow>
    (AppError + Pipeline \<times> bool) \<times> Server" where
  "create_from api new_id ids repository workflow =
     create_pipeline (ap_world api) new_id ids repository (wk_id workflow) (wk_name workflow) (wk_path workflow)
       (wk_raw_content workflow)"

definition rerun :: "Api \<Rightarrow> uuid \<Rightarrow> uuid list \<Rightarrow> User \<Rightarrow> uuid \<Rightarrow> uuid \<Rightarrow> rstr option \<Rightarrow> Hooks \<Rightarrow> Server \<Rightarrow>
    (AppError + PipelineResponse) \<times> Server" where
  "rerun api new_id ids user ws pid request_id h s =
     (case rerun_source user ws pid h s of
        Inl e \<Rightarrow> (Inl e, s)
      | Inr (original, workflow, repository) \<Rightarrow>
          and_then (create_from api new_id ids repository workflow (rerun_context user original request_id) s)
            (\<lambda>(p, _) s. respond_created ws (pl_id p) (upd_app (record_event (pl_id p) None ''pipeline.rerun'' None None None
               (Some (us_id user)) (jobj [(''rerunOf'', JStr (dec (pl_id original)))])) s)))"

section \<open>Manual dispatch\<close>

record DispatchRequest =
  dq_branch :: "rstr option"
  dq_commit_sha :: "rstr option"
  dq_inputs :: "(rstr \<times> json) list option"

definition MAX_INPUT_VALUE_BYTES :: nat where "MAX_INPUT_VALUE_BYTES = 1024"
definition MAX_INPUTS_TOTAL_BYTES :: nat where "MAX_INPUTS_TOTAL_BYTES = 16 * 1024"

fun j_is_bool :: "json \<Rightarrow> bool" where
  "j_is_bool (JBool b) = True"
| "j_is_bool _ = False"

fun j_is_number :: "json \<Rightarrow> bool" where
  "j_is_number (JNum n) = True"
| "j_is_number _ = False"

definition input_type :: "json \<Rightarrow> rstr" where
  "input_type def = (case j_str (jidx def ''type'') of None \<Rightarrow> ''string'' | Some t \<Rightarrow> t)"

definition input_required :: "json \<Rightarrow> bool" where
  "input_required def \<longleftrightarrow> jidx def ''required'' = JBool True"

definition input_options :: "json \<Rightarrow> rstr list" where
  "input_options def = (case j_array (jidx def ''options'') of None \<Rightarrow> [] | Some opts \<Rightarrow> filter_map j_str opts)"

definition value_fits :: "json \<Rightarrow> json \<Rightarrow> bool" where
  "value_fits def v =
     (if input_type def = ''boolean'' then j_is_bool v
      else if input_type def = ''number'' then j_is_number v
      else case j_str v of
        None \<Rightarrow> False
      | Some s \<Rightarrow> input_type def = ''choice'' \<longrightarrow> input_options def \<noteq> [] \<and> s \<in> set (input_options def))"

definition default_value :: "(rstr \<Rightarrow> rstr option) \<Rightarrow> json \<Rightarrow> rstr \<Rightarrow> json" where
  "default_value number def d =
     (if input_type def = ''boolean'' then JBool (d = ''true'')
      else if input_type def = ''number'' then (case number d of Some n \<Rightarrow> JNum n | None \<Rightarrow> JStr d)
      else JStr d)"

definition resolve_input :: "Api \<Rightarrow> json \<Rightarrow> rstr \<Rightarrow> json option \<Rightarrow> AppError + json option" where
  "resolve_input api def name v =
     (case v of
        Some v \<Rightarrow>
          if \<not> value_fits def v then
            Inl (Validation (''input `'' @ name @ ''` has an invalid value for type `'' @ input_type def @ ''`''))
          else if MAX_INPUT_VALUE_BYTES < length (wd_json_text (ap_world api) v) then
            Inl (Validation (''input `'' @ name @ ''` is too large''))
          else Inr (Some v)
      | None \<Rightarrow>
          (case j_str (jidx def ''default'') of
             Some d \<Rightarrow> Inr (Some (default_value (ap_number api) def d))
           | None \<Rightarrow>
               if input_required def then Inl (Validation (''required input `'' @ name @ ''` is missing'')) else Inr None))"

text \<open>The effective inputs and the names declared, over the definitions in order.\<close>

fun resolve_inputs ::
  "Api \<Rightarrow> (rstr \<times> json) list \<Rightarrow> json list \<Rightarrow> (rstr \<times> json) list \<Rightarrow> rstr list \<Rightarrow> AppError + (rstr \<times> json) list \<times> rstr list"
where
  "resolve_inputs api submitted [] effective known = Inr (effective, known)"
| "resolve_inputs api submitted (def # defs) effective known =
     (case j_str (jidx def ''name'') of
        None \<Rightarrow> resolve_inputs api submitted defs effective known
      | Some name \<Rightarrow>
          bind_result (resolve_input api def name (map_of submitted name)) (\<lambda>v.
            resolve_inputs api submitted defs
              (case v of None \<Rightarrow> effective | Some v \<Rightarrow> bt_insert name v effective) (known @ [name])))"

definition validate_dispatch_inputs :: "Api \<Rightarrow> json list \<Rightarrow> (rstr \<times> json) list option \<Rightarrow> AppError + json option" where
  "validate_dispatch_inputs api definitions submitted =
     (let given_inputs = (case submitted of None \<Rightarrow> [] | Some m \<Rightarrow> m) in
      if definitions = [] then
        if given_inputs \<noteq> [] then Inl (Validation ''this workflow does not define workflow_dispatch inputs'')
        else Inr None
      else
        bind_result (resolve_inputs api given_inputs definitions [] []) (\<lambda>(effective, known).
          case first_with (\<lambda>name. name \<notin> set known) (map fst given_inputs) of
            Some name \<Rightarrow> Inl (Validation (''unknown input `'' @ name @ ''`''))
          | None \<Rightarrow>
              if MAX_INPUTS_TOTAL_BYTES < length (wd_json_text (ap_world api) (JObj effective))
              then Inl (Validation ''inputs are too large'') else Inr (Some (JObj effective))))"

definition list_branches :: "(rstr \<Rightarrow> rstr) \<Rightarrow> Hooks \<Rightarrow> uuid \<Rightarrow> BranchRow list" where
  "list_branches collate h repo = sort_key (\<lambda>b. \<not> rb_is_default b) (sort_key (\<lambda>b. collate (rb_name b))
     (filter (\<lambda>b. rb_repository_id b = repo) (hk_branches h)))"

definition resolve_branch :: "Api \<Rightarrow> Hooks \<Rightarrow> Repository \<Rightarrow> rstr option \<Rightarrow> AppError + BranchRow" where
  "resolve_branch api h repository wanted =
     bind_result
       (case wanted of
          None \<Rightarrow> Inr (rp_default_branch repository)
        | Some name \<Rightarrow>
            if name = [] then Inr (rp_default_branch repository)
            else if length name \<le> 255 then Inr name else Inl (Validation ''branch name is too long''))
       (\<lambda>name. ok_or (Validation ''unknown branch'')
          (first_with (\<lambda>b. rb_name b = name) (list_branches (ap_collate api) h (rp_id repository))))"

definition is_ascii_hexdigit :: "uchar \<Rightarrow> bool" where
  "is_ascii_hexdigit c \<longleftrightarrow> is_ascii_digit c \<or> 65 \<le> c \<and> c \<le> 70 \<or> 97 \<le> c \<and> c \<le> 102"

definition resolve_commit :: "BranchRow \<Rightarrow> rstr option \<Rightarrow> AppError + rstr" where
  "resolve_commit branch wanted =
     (case map_option trim wanted of
        None \<Rightarrow> Inr (rb_commit_sha branch)
      | Some sha \<Rightarrow>
          if sha = [] then Inr (rb_commit_sha branch)
          else if 7 \<le> length sha \<and> length sha \<le> 40 \<and> list_all is_ascii_hexdigit (chars sha) then Inr (to_ascii_lowercase sha)
          else Inl (Validation ''commit sha must be 7-40 hexadecimal characters''))"

definition dispatch_definitions :: "Api \<Rightarrow> WorkflowRow \<Rightarrow> json list" where
  "dispatch_definitions api workflow =
     (case j_array (jidx (wf_metadata (parse_and_validate (wd_parse_yaml (ap_world api)) (wk_raw_content workflow)))
         ''dispatchInputs'') of
        None \<Rightarrow> [] | Some defs \<Rightarrow> defs)"

definition dispatch_context :: "User \<Rightarrow> BranchRow \<Rightarrow> rstr \<Rightarrow> json option \<Rightarrow> rstr option \<Rightarrow> TriggerContext" where
  "dispatch_context user branch sha inputs request_id =
    \<lparr>tc_trigger = ''manual'', tc_triggered_by = Some (us_id user), tc_commit_sha = sha, tc_commit_message = None,
     tc_commit_author = Some (us_username user), tc_actor_login = Some (us_username user),
     tc_actor_avatar_url = sanitize_avatar_url (us_avatar_url user), tc_git_ref = ''refs/heads/'' @ rb_name branch,
     tc_inputs = inputs, tc_pr_number = None, tc_request_id = request_id, tc_webhook_delivery_id = None\<rparr>"

definition dispatch_source :: "Api \<Rightarrow> User \<Rightarrow> uuid \<Rightarrow> uuid \<Rightarrow> DispatchRequest \<Rightarrow> rstr option \<Rightarrow> Hooks \<Rightarrow> Server \<Rightarrow>
    AppError + WorkflowRow \<times> Repository \<times> TriggerContext" where
  "dispatch_source api user ws wid body request_id h s =
     bind_result (require_permission (sv_vault s) (us_id user) ws CONTENT_WRITE) (\<lambda>_.
     bind_result (ok_or NotFound (find_detail_for_workspace (sv_vault s) h ws wid)) (\<lambda>workflow.
     bind_result (ok_or NotFound (find_repository (sv_vault s) ws (wk_repository_id workflow))) (\<lambda>repository.
     bind_result (resolve_branch api h repository (dq_branch body)) (\<lambda>branch.
     bind_result (resolve_commit branch (dq_commit_sha body)) (\<lambda>sha.
     bind_result (validate_dispatch_inputs api (dispatch_definitions api workflow) (dq_inputs body)) (\<lambda>inputs.
       Inr (workflow, repository, dispatch_context user branch sha inputs request_id)))))))"

definition dispatch_workflow :: "Api \<Rightarrow> uuid \<Rightarrow> uuid list \<Rightarrow> User \<Rightarrow> uuid \<Rightarrow> uuid \<Rightarrow> DispatchRequest \<Rightarrow> rstr option \<Rightarrow> Hooks \<Rightarrow>
    Server \<Rightarrow> (AppError + PipelineResponse) \<times> Server" where
  "dispatch_workflow api new_id ids user ws wid body request_id h s =
     (case dispatch_source api user ws wid body request_id h s of
        Inl e \<Rightarrow> (Inl e, s)
      | Inr (workflow, repository, ctx) \<Rightarrow>
          and_then (create_from api new_id ids repository workflow ctx s) (\<lambda>(p, _) s. respond_created ws (pl_id p) s))"

section \<open>Jobs and logs\<close>

record JobDetail =
  jd_job :: PipelineJobResponse
  jd_pipeline :: PipelineResponse
  jd_events :: "PipelineEventResponse list"
  jd_artifacts :: "ArtifactResponse list"
  jd_runner :: "RunnerResponse option"

definition job_detail :: "User \<Rightarrow> uuid \<Rightarrow> uuid \<Rightarrow> uuid \<Rightarrow> Server \<Rightarrow> AppError + JobDetail" where
  "job_detail user ws pid jid s = (let db = st_db (sv_app s) in
     bind_result (scoped_row user ws pid s) (\<lambda>row.
     bind_result (ok_or NotFound (find_for_pipeline db pid jid)) (\<lambda>job.
       Inr \<lparr>jd_job = PipelineJobResponse_from job, jd_pipeline = PipelineResponse_from row,
            jd_events = map PipelineEventResponse_from (list_events_for_job db pid (pj_id job)),
            jd_artifacts = map ArtifactResponse_from (list_artifacts_for_job db (pj_id job)),
            jd_runner = (case pj_runner_id job of None \<Rightarrow> None
              | Some rid \<Rightarrow> map_option RunnerResponse_from (find_runner db ws rid))\<rparr>)))"

definition fetch_all :: "Db \<Rightarrow> uuid \<Rightarrow> LogChunk list" where
  "fetch_all db jid = sort_key lc_seq (map lr_chunk (filter (\<lambda>r. lr_job_id r = jid) (db_chunks db)))"

definition fetch_range :: "Db \<Rightarrow> uuid \<Rightarrow> int \<Rightarrow> int \<Rightarrow> LogChunk list" where
  "fetch_range db jid from_seq limit = take (nat (max 1 (min 2000 limit)))
     (sort_key lc_seq (filter (\<lambda>c. from_seq \<le> lc_seq c) (map lr_chunk (filter (\<lambda>r. lr_job_id r = jid) (db_chunks db)))))"

record LogsQuery =
  gq_from_seq :: "int option"
  gq_limit :: "int option"

definition job_logs :: "User \<Rightarrow> uuid \<Rightarrow> uuid \<Rightarrow> uuid \<Rightarrow> LogsQuery \<Rightarrow> Server \<Rightarrow> AppError + LogChunkResponse list \<times> rstr" where
  "job_logs user ws pid jid query s =
     bind_result (scoped_job CONTENT_READ user ws pid jid s) (\<lambda>(_, job).
       Inr (map LogChunkResponse_from (fetch_range (st_db (sv_app s)) (pj_id job)
              (max 0 (case gq_from_seq query of None \<Rightarrow> 0 | Some n \<Rightarrow> n)) (case gq_limit query of None \<Rightarrow> 1000 | Some n \<Rightarrow> n)),
            pj_status job))"

datatype RawLog = Redirect rstr | Attachment rstr rstr

definition log_key_for :: "uuid \<Rightarrow> PipelineJob \<Rightarrow> rstr" where
  "log_key_for ws job = log_key ws (pj_pipeline_id job) (pj_id job) (pj_attempt job)"

definition ends_line :: "rstr \<Rightarrow> bool" where
  "ends_line t \<longleftrightarrow> t \<noteq> [] \<and> last t = CHR 0x0A"

definition raw_body :: "LogChunk list \<Rightarrow> rstr" where
  "raw_body chunks = concat (map (\<lambda>c. lc_content c @ (if ends_line (lc_content c) then [] else [CHR 0x0A])) chunks)"

definition log_name :: "PipelineJob \<Rightarrow> rstr \<Rightarrow> rstr" where
  "log_name job ext = pj_job_key job @ ''-'' @ dec_int (pj_attempt job) @ ext"

definition job_logs_raw :: "Api \<Rightarrow> User \<Rightarrow> uuid \<Rightarrow> uuid \<Rightarrow> uuid \<Rightarrow> Server \<Rightarrow> AppError + RawLog" where
  "job_logs_raw api user ws pid jid s =
     bind_result (scoped_job CONTENT_READ user ws pid jid s) (\<lambda>(_, job).
       let chunks = fetch_all (st_db (sv_app s)) (pj_id job) in
       if chunks = [] \<and> pj_logs_archived_at job \<noteq> None \<and> st_has_storage (sv_app s) then
         (case ap_presign_get api
             (store_for (wd_storage (ap_world api)) (case pj_logs_archive_backend job of None \<Rightarrow> ''r2'' | Some b \<Rightarrow> b))
             (log_key_for ws job) (log_name job ''.log.gz'') of
            Inl e \<Rightarrow> Inl (Internal e)
          | Inr url \<Rightarrow> Inr (Redirect url))
       else Inr (Attachment (log_name job ''.log'') (raw_body chunks)))"

section \<open>Artifacts\<close>

definition pipeline_artifacts :: "User \<Rightarrow> uuid \<Rightarrow> uuid \<Rightarrow> Server \<Rightarrow> AppError + ArtifactResponse list" where
  "pipeline_artifacts user ws pid s =
     bind_result (scoped_pipeline CONTENT_READ user ws pid s)
       (\<lambda>_. Inr (map ArtifactResponse_from (list_artifacts_for_pipeline (st_db (sv_app s)) pid)))"

definition download_url :: "Api \<Rightarrow> User \<Rightarrow> uuid \<Rightarrow> uuid \<Rightarrow> Server \<Rightarrow> AppError + rstr \<times> Artifact" where
  "download_url api user ws aid s =
     bind_result (require_permission (sv_vault s) (us_id user) ws CONTENT_READ) (\<lambda>_.
     bind_result (ok_or NotFound (find_artifact_for_workspace (st_db (sv_app s)) ws aid)) (\<lambda>a.
       if ar_status a \<noteq> ''uploaded'' then Inl (Conflict ''artifact is not available for download'')
       else if \<not> st_has_storage (sv_app s) then Inl (Conflict ''artifact storage is not configured'')
       else case ap_presign_get api (store_for (wd_storage (ap_world api)) (ar_storage_backend a)) (ar_r2_key a) (ar_name a) of
         Inl e \<Rightarrow> Inl (Internal e) | Inr url \<Rightarrow> Inr (url, a)))"

definition artifact_download :: "Api \<Rightarrow> User \<Rightarrow> uuid \<Rightarrow> uuid \<Rightarrow> rstr option \<Rightarrow> Server \<Rightarrow> (AppError + rstr) \<times> Server" where
  "artifact_download api user ws aid request_id s =
     (case download_url api user ws aid s of
        Inl e \<Rightarrow> (Inl e, s)
      | Inr (url, a) \<Rightarrow> (Inr url, upd_app (audit
          \<lparr>au_workspace_id = ws, au_actor = Some (us_id user), au_action = ''artifact.downloaded'',
           au_subject_type = ''artifact'', au_subject_id = ar_id a,
           au_metadata = jobj [(''name'', JStr (ar_name a)), (''sizeBytes'', jopt jint (ar_size_bytes a)),
             (''pipelineId'', JStr (dec (ar_pipeline_id a)))],
           au_request_id = request_id\<rparr>) s))"

end
