(* ===== verification/SecretsApi.thy ===== *)
theory SecretsApi
  imports PipelineApi
begin

text \<open>
  The endpoints of secrets and environments, \<open>handlers/secrets.rs\<close> and
  \<open>handlers/environments.rs\<close>: validation of what is submitted, the mutations over the tables of
  the vault, the catalogues, and the fold of the references workflows make.
\<close>

section \<open>Validation\<close>

definition NAME_MAX :: nat where "NAME_MAX = 200"
definition VALUE_MIN :: nat where "VALUE_MIN = 8"
definition VALUE_MAX :: nat where "VALUE_MAX = 32 * 1024"
definition DESCRIPTION_MAX :: nat where "DESCRIPTION_MAX = 500"
definition ENVIRONMENT_NAME_MAX :: nat where "ENVIRONMENT_NAME_MAX = 100"

definition RESERVED_PREFIXES :: "rstr list" where
  "RESERVED_PREFIXES = [''OVERUP_'', ''GITHUB_'', ''RUNNER_'', ''DOCKER_'']"

definition RESERVED_NAMES :: "rstr list" where
  "RESERVED_NAMES = [''CI'', ''PATH'', ''HOME'', ''SHELL'', ''HOSTNAME'', ''LANG'', ''PWD'', ''USER'', ''TMPDIR'',
     ''LD_PRELOAD'', ''LD_LIBRARY_PATH'']"

text \<open>A non-empty text whose first character and whose others are of two classes.\<close>

definition shaped :: "(uchar \<Rightarrow> bool) \<Rightarrow> (uchar \<Rightarrow> bool) \<Rightarrow> rstr \<Rightarrow> bool" where
  "shaped first rest name = (case chars name of [] \<Rightarrow> False | c # cs \<Rightarrow> first c \<and> list_all rest cs)"

definition upper_snake :: "rstr \<Rightarrow> bool" where
  "upper_snake = shaped (\<lambda>c. is_ascii_upper c \<or> c = ch (CHR ''_''))
     (\<lambda>c. is_ascii_upper c \<or> is_ascii_digit c \<or> c = ch (CHR ''_''))"

definition validate_secret_name :: "(rstr \<Rightarrow> rstr) \<Rightarrow> rstr \<Rightarrow> AppError + rstr" where
  "validate_secret_name nfc raw = (let name = nfc (trim raw) in
     if name = [] then Inl (Validation ''secret name is required'')
     else if NAME_MAX < length name then Inl (Validation (''secret name must be at most '' @ dec NAME_MAX @ '' characters''))
     else if \<not> upper_snake name then Inl (Validation (''secret names are UPPER_SNAKE_CASE: letters A-Z, digits, and underscores, '' @
       ''not starting with a digit''))
     else case first_with (starts_with name) RESERVED_PREFIXES of
       Some owned \<Rightarrow> Inl (Validation (''the '' @ owned @ '' prefix is reserved for the platform''))
     | None \<Rightarrow>
         if name \<in> set RESERVED_NAMES then Inl (Validation (name @ '' is a reserved environment variable name''))
         else Inr name)"

definition validate_value :: "rstr \<Rightarrow> AppError + unit" where
  "validate_value v =
     (if length v < VALUE_MIN then Inl (Validation (''secret values must be at least '' @ dec VALUE_MIN @ '' bytes''))
      else if VALUE_MAX < length v then Inl (Validation (''secret values must be at most '' @ dec VALUE_MAX @ '' bytes''))
      else if CHR 0x00 \<in> set v then Inl (Validation ''secret values must not contain NUL bytes'')
      else Inr ())"

definition validate_description :: "rstr option \<Rightarrow> AppError + rstr option" where
  "validate_description raw =
     short_text DESCRIPTION_MAX (''description must be at most '' @ dec DESCRIPTION_MAX @ '' characters'') Inr raw"

definition validate_environment_name :: "(rstr \<Rightarrow> rstr) \<Rightarrow> rstr \<Rightarrow> AppError + rstr" where
  "validate_environment_name nfc raw = (let name = nfc (trim raw) in
     if name = [] then Inl (Validation ''environment name is required'')
     else if ENVIRONMENT_NAME_MAX < length name
     then Inl (Validation (''environment name must be at most '' @ dec ENVIRONMENT_NAME_MAX @ '' characters''))
     else if \<not> shaped is_ascii_alphanumeric
         (\<lambda>c. is_ascii_alphanumeric c \<or> c \<in> {ch (CHR ''.''), ch (CHR ''_''), ch (CHR ''-'')}) name
     then Inl (Validation (''environment names are letters, digits, '' @ [CHR 0x27] @ ''.'' @ [CHR 0x27] @ '', '' @ [CHR 0x27] @
       ''_'' @ [CHR 0x27] @ '', and '' @ [CHR 0x27] @ ''-'' @ [CHR 0x27] @ '', starting with a letter or digit''))
     else Inr name)"

definition require_crypto :: "World \<Rightarrow> AppError + rstr" where
  "require_crypto w = ok_or (Validation ''secrets storage is not configured on this deployment (set SECRETS_MASTER_KEY)'')
     (wd_secrets_key w)"

section \<open>Responses\<close>

record SecretResponse =
  srp_id :: uuid
  srp_name :: rstr
  srp_scope :: rstr
  srp_repository_id :: "uuid option"
  srp_repository_name :: "rstr option"
  srp_environment_id :: "uuid option"
  srp_environment_name :: "rstr option"
  srp_description :: "rstr option"
  srp_creator_login :: "rstr option"
  srp_updater_login :: "rstr option"
  srp_created_at :: time
  srp_updated_at :: time
  srp_value_set_at :: time
  srp_last_used_at :: "time option"
  srp_usage_count :: int

definition SecretResponse_from :: "SecretMeta \<Rightarrow> SecretResponse" where
  "SecretResponse_from m =
    \<lparr>srp_id = sm_id m, srp_name = sm_name m,
     srp_scope = (if sm_repository_id m \<noteq> None then ''repository''
       else if sm_environment_id m \<noteq> None then ''environment'' else ''workspace''),
     srp_repository_id = sm_repository_id m, srp_repository_name = sm_repository_name m,
     srp_environment_id = sm_environment_id m, srp_environment_name = sm_environment_name m,
     srp_description = sm_description m, srp_creator_login = sm_creator_login m, srp_updater_login = sm_updater_login m,
     srp_created_at = sm_created_at m, srp_updated_at = sm_updated_at m, srp_value_set_at = sm_value_set_at m,
     srp_last_used_at = sm_last_used_at m, srp_usage_count = sm_usage_count m\<rparr>"

record EnvironmentResponse =
  er_id :: uuid
  er_name :: rstr
  er_description :: "rstr option"
  er_creator_login :: "rstr option"
  er_updater_login :: "rstr option"
  er_secret_count :: int
  er_created_at :: time
  er_updated_at :: time

definition EnvironmentResponse_from :: "EnvironmentMeta \<Rightarrow> EnvironmentResponse" where
  "EnvironmentResponse_from m =
    \<lparr>er_id = em_id m, er_name = em_name m, er_description = em_description m, er_creator_login = em_creator_login m,
     er_updater_login = em_updater_login m, er_secret_count = em_secret_count m, er_created_at = em_created_at m,
     er_updated_at = em_updated_at m\<rparr>"

section \<open>Changes of secrets\<close>

text \<open>A statement over the vault and the pipeline tables; the announcement on the workspace's channel.\<close>

definition on_store :: "(Store \<Rightarrow> 'a \<times> Store) \<Rightarrow> Server \<Rightarrow> 'a \<times> Server" where
  "on_store f s = (case f (sv_vault s, st_db (sv_app s)) of
     (r, (v, db)) \<Rightarrow> (r, s\<lparr>sv_vault := v, sv_app := (sv_app s)\<lparr>st_db := db\<rparr>\<rparr>))"

definition announce :: "uuid \<Rightarrow> rstr \<Rightarrow> Server \<Rightarrow> Server" where
  "announce ws category = upd_app (publish_ws ws (Ws_ActivityUpdate category))"

record CreateSecret =
  cs_name :: rstr
  cs_value :: rstr
  cs_description :: "rstr option"
  cs_repository_id :: "uuid option"
  cs_environment_id :: "uuid option"

text \<open>What the handler checks before it encrypts: the master key, the name, the description.\<close>

definition check_secret :: "World \<Rightarrow> User \<Rightarrow> uuid \<Rightarrow> CreateSecret \<Rightarrow> Server \<Rightarrow> AppError + rstr \<times> rstr \<times> rstr option" where
  "check_secret w user ws body s =
     bind_result (require_permission (sv_vault s) (us_id user) ws SECRETS_MANAGE) (\<lambda>_.
     bind_result (require_crypto w) (\<lambda>key.
     bind_result (validate_secret_name (wd_nfc w) (cs_name body)) (\<lambda>name.
     bind_result (validate_value (cs_value body)) (\<lambda>_.
     bind_result (validate_description (cs_description body)) (\<lambda>description.
       if cs_repository_id body \<noteq> None \<and> cs_environment_id body \<noteq> None
       then Inl (Validation ''a secret is scoped to a repository or an environment, not both'')
       else if \<not> given (cs_repository_id body) (\<lambda>r. find_repository (sv_vault s) ws r \<noteq> None)
       then Inl (Validation ''repository does not belong to this workspace'')
       else if \<not> given (cs_environment_id body) (\<lambda>e. environment_find_meta (sv_vault s) ws e \<noteq> None)
       then Inl (Validation ''environment does not belong to this workspace'')
       else Inr (key, name, description))))))"

text \<open>\<open>i\<close> is the new id and \<open>rnd\<close> the random data key and nonces.\<close>

definition create_secret ::
  "World \<Rightarrow> uuid \<Rightarrow> rstr \<times> rstr \<times> rstr \<Rightarrow> User \<Rightarrow> uuid \<Rightarrow> CreateSecret \<Rightarrow> rstr option \<Rightarrow> Server \<Rightarrow>
     (AppError + SecretResponse) \<times> Server"
where
  "create_secret w i rnd user ws body request_id s =
     (case check_secret w user ws body s of
        Inl e \<Rightarrow> (Inl e, s)
      | Inr (key, name, description) \<Rightarrow>
          (case encrypt (wd_aead w) key rnd (cs_value body) i of
             None \<Rightarrow> (Inl (Internal ''encrypt''), s)
           | Some enc \<Rightarrow>
               and_then (on_store (secret_insert (st_now (sv_app s)) i ws (cs_repository_id body) (cs_environment_id body)
                   name description enc (us_id user) request_id) s)
                 (\<lambda>outcome s. case outcome of
                    SecretCreated meta \<Rightarrow> (Inr (SecretResponse_from meta), announce ws ''secret'' s)
                  | SecretDuplicateName \<Rightarrow> (Inl (Conflict ''a secret with this name already exists in this scope''), s))))"

text \<open>The answer after an update that found its row.\<close>

definition respond_secret :: "uuid \<Rightarrow> uuid \<Rightarrow> bool \<times> Server \<Rightarrow> (AppError + SecretResponse) \<times> Server" where
  "respond_secret ws i r = (case r of (found, s) \<Rightarrow>
     if \<not> found then (Inl NotFound, s)
     else case secret_find_meta (sv_vault s) ws i of
       None \<Rightarrow> (Inl NotFound, s)
     | Some meta \<Rightarrow> (Inr (SecretResponse_from meta), announce ws ''secret'' s))"

definition replace_secret_value ::
  "World \<Rightarrow> rstr \<times> rstr \<times> rstr \<Rightarrow> User \<Rightarrow> uuid \<Rightarrow> uuid \<Rightarrow> rstr \<Rightarrow> rstr option \<Rightarrow> Server \<Rightarrow>
     (AppError + SecretResponse) \<times> Server"
where
  "replace_secret_value w rnd user ws i v request_id s =
     (case bind_result (require_permission (sv_vault s) (us_id user) ws SECRETS_MANAGE) (\<lambda>_.
           bind_result (require_crypto w) (\<lambda>key. bind_result (validate_value v) (\<lambda>_. Inr key))) of
        Inl e \<Rightarrow> (Inl e, s)
      | Inr key \<Rightarrow>
          (case encrypt (wd_aead w) key rnd v i of
             None \<Rightarrow> (Inl (Internal ''encrypt''), s)
           | Some enc \<Rightarrow> respond_secret ws i
               (on_store (secret_replace_value (st_now (sv_app s)) ws i enc (us_id user) request_id) s)))"

definition update_secret ::
  "User \<Rightarrow> uuid \<Rightarrow> uuid \<Rightarrow> rstr option \<Rightarrow> rstr option \<Rightarrow> Server \<Rightarrow> (AppError + SecretResponse) \<times> Server"
where
  "update_secret user ws i description request_id s =
     (case bind_result (require_permission (sv_vault s) (us_id user) ws SECRETS_MANAGE)
             (\<lambda>_. validate_description description) of
        Inl e \<Rightarrow> (Inl e, s)
      | Inr description \<Rightarrow> respond_secret ws i
          (on_store (secret_update_description (st_now (sv_app s)) ws i description (us_id user) request_id) s))"

definition remove_secret :: "User \<Rightarrow> uuid \<Rightarrow> uuid \<Rightarrow> rstr option \<Rightarrow> Server \<Rightarrow> (AppError + unit) \<times> Server" where
  "remove_secret user ws i request_id s =
     (case require_permission (sv_vault s) (us_id user) ws SECRETS_MANAGE of
        Inl e \<Rightarrow> (Inl e, s)
      | Inr _ \<Rightarrow>
          (case on_store (secret_delete ws i (us_id user) request_id) s of
             (None, s) \<Rightarrow> (Inl NotFound, s)
           | (Some name, s) \<Rightarrow> (Inr (), announce ws ''secret'' s)))"

section \<open>Changes of environments\<close>

definition create_environment ::
  "World \<Rightarrow> uuid \<Rightarrow> User \<Rightarrow> uuid \<Rightarrow> rstr \<Rightarrow> rstr option \<Rightarrow> rstr option \<Rightarrow> Server \<Rightarrow>
     (AppError + EnvironmentResponse) \<times> Server"
where
  "create_environment w i user ws raw_name raw_description request_id s =
     (case bind_result (require_permission (sv_vault s) (us_id user) ws ENVIRONMENTS_MANAGE) (\<lambda>_.
           bind_result (validate_environment_name (wd_nfc w) raw_name) (\<lambda>name.
           bind_result (validate_description raw_description) (\<lambda>description. Inr (name, description)))) of
        Inl e \<Rightarrow> (Inl e, s)
      | Inr (name, description) \<Rightarrow>
          (case on_store (environment_insert (wd_lower w) (st_now (sv_app s)) i ws name description (us_id user) request_id) s of
             (EnvironmentCreated meta, s) \<Rightarrow> (Inr (EnvironmentResponse_from meta), announce ws ''environment'' s)
           | (EnvironmentDuplicateName, s) \<Rightarrow> (Inl (Conflict ''an environment with this name already exists''), s)))"

definition update_environment ::
  "World \<Rightarrow> User \<Rightarrow> uuid \<Rightarrow> uuid \<Rightarrow> rstr option \<Rightarrow> rstr option \<Rightarrow> rstr option \<Rightarrow> Server \<Rightarrow>
     (AppError + EnvironmentResponse) \<times> Server"
where
  "update_environment w user ws i raw_name raw_description request_id s =
     (case bind_result (require_permission (sv_vault s) (us_id user) ws ENVIRONMENTS_MANAGE) (\<lambda>_.
           bind_result (case raw_name of None \<Rightarrow> Inr None
             | Some raw \<Rightarrow> bind_result (validate_environment_name (wd_nfc w) raw) (\<lambda>n. Inr (Some n))) (\<lambda>name.
           bind_result (validate_description raw_description) (\<lambda>description. Inr (name, description)))) of
        Inl e \<Rightarrow> (Inl e, s)
      | Inr (name, description) \<Rightarrow>
          (case on_store (environment_update (wd_lower w) (st_now (sv_app s)) ws i name description (us_id user) request_id) s of
             (EnvironmentUpdated meta, s) \<Rightarrow> (Inr (EnvironmentResponse_from meta), announce ws ''environment'' s)
           | (EnvironmentUpdateDuplicateName, s) \<Rightarrow> (Inl (Conflict ''an environment with this name already exists''), s)
           | (EnvironmentNotFound, s) \<Rightarrow> (Inl NotFound, s)))"

definition remove_environment :: "User \<Rightarrow> uuid \<Rightarrow> uuid \<Rightarrow> rstr option \<Rightarrow> Server \<Rightarrow> (AppError + nat) \<times> Server" where
  "remove_environment user ws i request_id s =
     (case require_permission (sv_vault s) (us_id user) ws ENVIRONMENTS_MANAGE of
        Inl e \<Rightarrow> (Inl e, s)
      | Inr _ \<Rightarrow>
          (case on_store (environment_remove ws i (us_id user) request_id) s of
             (None, s) \<Rightarrow> (Inl NotFound, s)
           | (Some n, s) \<Rightarrow> (Inr n, announce ws ''environment'' s)))"

section \<open>Catalogues\<close>

definition CATALOG_PAGE :: int where "CATALOG_PAGE = 25"

definition catalog_limit :: "int option \<Rightarrow> int" where
  "catalog_limit l = max 1 (min 50 (case l of None \<Rightarrow> CATALOG_PAGE | Some n \<Rightarrow> n))"

definition clamp_catalog :: "int \<Rightarrow> nat" where
  "clamp_catalog limit = nat (max 1 (min 50 limit))"

record SecretQuery =
  sq_q :: "rstr option"
  sq_scope :: "rstr option"
  sq_repository_id :: "uuid option"
  sq_environment_id :: "uuid option"
  sq_cursor :: "rstr option"
  sq_limit :: "int option"

record SecretFilter =
  sf_scope :: "rstr option"
  sf_repository_id :: "uuid option"
  sf_environment_id :: "uuid option"
  sf_search_pattern :: "rstr option"
  sf_cursor :: "Cursor option"
  sf_limit :: int

definition build_secret_filter :: "SecretQuery \<Rightarrow> AppError + Cursor option \<Rightarrow> int \<Rightarrow> AppError + SecretFilter" where
  "build_secret_filter query cursor limit =
     bind_result (one_of [''workspace'', ''repository'', ''environment''] ''invalid scope filter'' (sq_scope query)) (\<lambda>scope.
     bind_result (short_text 200 ''search query too long'' (\<lambda>q. Inr (search_pattern q)) (sq_q query)) (\<lambda>pattern.
     bind_result cursor (\<lambda>cursor.
       Inr \<lparr>sf_scope = scope, sf_repository_id = sq_repository_id query, sf_environment_id = sq_environment_id query,
            sf_search_pattern = pattern, sf_cursor = cursor, sf_limit = limit\<rparr>)))"

definition in_scope :: "rstr \<Rightarrow> SecretRow \<Rightarrow> bool" where
  "in_scope scope s \<longleftrightarrow>
     scope = ''workspace'' \<and> sc_repository_id s = None \<and> sc_environment_id s = None \<or>
     scope = ''repository'' \<and> sc_repository_id s \<noteq> None \<or> scope = ''environment'' \<and> sc_environment_id s \<noteq> None"

definition matches_secret :: "(uchar \<Rightarrow> uchar) \<Rightarrow> SecretFilter \<Rightarrow> SecretRow \<Rightarrow> bool" where
  "matches_secret low f s \<longleftrightarrow>
     given (sf_scope f) (\<lambda>scope. in_scope scope s) \<and> given (sf_repository_id f) (\<lambda>r. sc_repository_id s = Some r) \<and>
     given (sf_environment_id f) (\<lambda>e. sc_environment_id s = Some e) \<and>
     given (sf_search_pattern f) (\<lambda>q. ilike low q (sc_name s) \<or> holds (ilike low q) (sc_description s))"

definition secret_cursor :: "SecretMeta \<Rightarrow> Cursor" where
  "secret_cursor m = (sm_created_at m, sm_id m)"

definition secrets_all :: "(uchar \<Rightarrow> uchar) \<Rightarrow> Vault \<Rightarrow> uuid \<Rightarrow> SecretFilter \<Rightarrow> SecretMeta list" where
  "secrets_all low v ws f = rev (sort_key secret_cursor
     (map (secret_meta v) (filter (\<lambda>s. sc_workspace_id s = ws \<and> matches_secret low f s) (va_secrets v))))"

definition secrets_list_catalog :: "(uchar \<Rightarrow> uchar) \<Rightarrow> Vault \<Rightarrow> uuid \<Rightarrow> SecretFilter \<Rightarrow> SecretMeta list" where
  "secrets_list_catalog low v ws f = take (clamp_catalog (sf_limit f))
     (filter (\<lambda>m. given (sf_cursor f) (\<lambda>c. secret_cursor m < c)) (secrets_all low v ws f))"

definition list_secrets ::
  "Formats \<Rightarrow> (uchar \<Rightarrow> uchar) \<Rightarrow> User \<Rightarrow> uuid \<Rightarrow> SecretQuery \<Rightarrow> Server \<Rightarrow> AppError + SecretResponse list \<times> rstr option"
where
  "list_secrets ff low user ws query s =
     bind_result (require_permission (sv_vault s) (us_id user) ws SECRETS_READ) (\<lambda>_.
     bind_result (build_secret_filter query (query_cursor ff (sq_cursor query)) (catalog_limit (sq_limit query))) (\<lambda>f.
       let rows = secrets_list_catalog low (sv_vault s) ws f
       in Inr (map SecretResponse_from rows, next_cursor ff secret_cursor (catalog_limit (sq_limit query)) rows)))"

record EnvironmentQuery =
  eq_q :: "rstr option"
  eq_cursor :: "rstr option"
  eq_limit :: "int option"

record EnvironmentFilter =
  ef_search_pattern :: "rstr option"
  ef_cursor :: "Cursor option"
  ef_limit :: int

definition environment_cursor :: "EnvironmentMeta \<Rightarrow> Cursor" where
  "environment_cursor m = (em_created_at m, em_id m)"

definition environments_all :: "(uchar \<Rightarrow> uchar) \<Rightarrow> Vault \<Rightarrow> uuid \<Rightarrow> EnvironmentFilter \<Rightarrow> EnvironmentMeta list" where
  "environments_all low v ws f = rev (sort_key environment_cursor (map (environment_meta v)
     (filter (\<lambda>e. en_workspace_id e = ws \<and>
        given (ef_search_pattern f) (\<lambda>q. ilike low q (en_name e) \<or> holds (ilike low q) (en_description e))) (va_environments v))))"

definition environments_list_catalog :: "(uchar \<Rightarrow> uchar) \<Rightarrow> Vault \<Rightarrow> uuid \<Rightarrow> EnvironmentFilter \<Rightarrow> EnvironmentMeta list" where
  "environments_list_catalog low v ws f = take (clamp_catalog (ef_limit f))
     (filter (\<lambda>m. given (ef_cursor f) (\<lambda>c. environment_cursor m < c)) (environments_all low v ws f))"

definition list_environments ::
  "Formats \<Rightarrow> (uchar \<Rightarrow> uchar) \<Rightarrow> User \<Rightarrow> uuid \<Rightarrow> EnvironmentQuery \<Rightarrow> Server \<Rightarrow>
     AppError + EnvironmentResponse list \<times> rstr option"
where
  "list_environments ff low user ws query s =
     bind_result (require_permission (sv_vault s) (us_id user) ws CONTENT_READ) (\<lambda>_.
     bind_result (short_text 200 ''search query too long'' (\<lambda>q. Inr (search_pattern q)) (eq_q query)) (\<lambda>pattern.
     bind_result (query_cursor ff (eq_cursor query)) (\<lambda>cursor.
       let limit = catalog_limit (eq_limit query);
           rows = environments_list_catalog low (sv_vault s) ws
             \<lparr>ef_search_pattern = pattern, ef_cursor = cursor, ef_limit = limit\<rparr>
       in Inr (map EnvironmentResponse_from rows, next_cursor ff environment_cursor limit rows))))"

section \<open>Summaries\<close>

definition days :: "nat \<Rightarrow> time" where "days n = secs (int n * 86400)"

definition SECRET_STALE_DAYS :: nat where "SECRET_STALE_DAYS = 90"

record SecretsSummary =
  su_total :: nat
  su_workspace_scoped :: nat
  su_repository_scoped :: nat
  su_environment_scoped :: nat
  su_used_last_30d :: nat
  su_never_used :: nat
  su_created_last_30d :: nat
  su_distinct_repositories :: nat
  su_total_injections :: int
  su_stale :: nat

definition secrets_summary :: "time \<Rightarrow> Vault \<Rightarrow> uuid \<Rightarrow> SecretsSummary" where
  "secrets_summary now v ws = (let ss = filter (\<lambda>s. sc_workspace_id s = ws) (va_secrets v) in
     \<lparr>su_total = length ss,
      su_workspace_scoped = count_where (\<lambda>s. sc_repository_id s = None \<and> sc_environment_id s = None) ss,
      su_repository_scoped = count_where (\<lambda>s. sc_repository_id s \<noteq> None) ss,
      su_environment_scoped = count_where (\<lambda>s. sc_environment_id s \<noteq> None) ss,
      su_used_last_30d = count_where (\<lambda>s. holds (\<lambda>t. now - days 30 < t) (sc_last_used_at s)) ss,
      su_never_used = count_where (\<lambda>s. sc_last_used_at s = None) ss,
      su_created_last_30d = count_where (\<lambda>s. now - days 30 < sc_created_at s) ss,
      su_distinct_repositories = card (set (filter_map sc_repository_id ss)),
      su_total_injections = sum_list (map sc_usage_count ss),
      su_stale = count_where (\<lambda>s. sc_value_set_at s < now - days SECRET_STALE_DAYS) ss\<rparr>)"

definition secrets_summary_handler :: "World \<Rightarrow> User \<Rightarrow> uuid \<Rightarrow> Server \<Rightarrow> AppError + SecretsSummary \<times> nat \<times> bool" where
  "secrets_summary_handler w user ws s =
     bind_result (require_permission (sv_vault s) (us_id user) ws SECRETS_READ)
       (\<lambda>_. Inr (secrets_summary (st_now (sv_app s)) (sv_vault s) ws, SECRET_STALE_DAYS, wd_secrets_key w \<noteq> None))"

record EnvironmentsSummary =
  es_total :: nat
  es_with_secrets :: nat
  es_created_last_30d :: nat
  es_scoped_secrets :: nat

definition environments_summary :: "time \<Rightarrow> Vault \<Rightarrow> uuid \<Rightarrow> EnvironmentsSummary" where
  "environments_summary now v ws = (let es = filter (\<lambda>e. en_workspace_id e = ws) (va_environments v) in
     \<lparr>es_total = length es,
      es_with_secrets = count_where (\<lambda>e. list_ex (\<lambda>s. sc_environment_id s = Some (en_id e)) (va_secrets v)) es,
      es_created_last_30d = count_where (\<lambda>e. now - days 30 < en_created_at e) es,
      es_scoped_secrets = count_where (\<lambda>s. sc_workspace_id s = ws \<and> sc_environment_id s \<noteq> None) (va_secrets v)\<rparr>)"

definition environments_summary_handler :: "User \<Rightarrow> uuid \<Rightarrow> Server \<Rightarrow> AppError + EnvironmentsSummary" where
  "environments_summary_handler user ws s =
     bind_result (require_permission (sv_vault s) (us_id user) ws CONTENT_READ)
       (\<lambda>_. Inr (environments_summary (st_now (sv_app s)) (sv_vault s) ws))"

section \<open>Requirements\<close>

record RequirementRefRow =
  rq_name :: rstr
  rq_repository_id :: uuid
  rq_repository_name :: rstr
  rq_workflow_id :: uuid
  rq_workflow_path :: rstr
  rq_configured_id :: "uuid option"

text \<open>
  The names of one reference list of the metadata, which the parser fills with texts only; every
  reference in the workspace, and the order of the database's collation.
\<close>

definition ref_names :: "rstr \<Rightarrow> WorkflowRow \<Rightarrow> rstr list" where
  "ref_names key k = (case Option.bind (jget (wk_metadata k) key) j_array of None \<Rightarrow> [] | Some xs \<Rightarrow> filter_map j_str xs)"

definition refs_of :: "rstr \<Rightarrow> Vault \<Rightarrow> Hooks \<Rightarrow> uuid \<Rightarrow> (Repository \<Rightarrow> rstr \<Rightarrow> uuid option) \<Rightarrow> RequirementRefRow list" where
  "refs_of key v h ws configured = concat (map (\<lambda>k. concat (map (\<lambda>r. map (\<lambda>name.
       \<lparr>rq_name = name, rq_repository_id = rp_id r, rq_repository_name = rp_full_name r, rq_workflow_id = wk_id k,
        rq_workflow_path = wk_path k, rq_configured_id = configured r name\<rparr>) (ref_names key k))
     (filter (\<lambda>r. rp_id r = wk_repository_id k \<and> rp_workspace_id r = ws) (va_repositories v)))) (hk_workflows h))"

definition ref_order :: "(rstr \<Rightarrow> rstr) \<Rightarrow> RequirementRefRow \<Rightarrow> rstr \<times> rstr \<times> rstr" where
  "ref_order collate row = (collate (rq_name row), collate (rq_repository_name row), collate (rq_workflow_path row))"

definition secret_satisfies :: "uuid \<Rightarrow> uuid \<Rightarrow> rstr \<Rightarrow> SecretRow \<Rightarrow> bool" where
  "secret_satisfies ws repo name s \<longleftrightarrow> sc_workspace_id s = ws \<and> sc_name s = name \<and>
     (sc_repository_id s = None \<and> sc_environment_id s = None \<or> sc_repository_id s = Some repo \<or> sc_environment_id s \<noteq> None)"

definition secret_ref_states :: "(rstr \<Rightarrow> rstr) \<Rightarrow> Vault \<Rightarrow> Hooks \<Rightarrow> uuid \<Rightarrow> RequirementRefRow list" where
  "secret_ref_states collate v h ws = take 1000 (sort_key (ref_order collate) (refs_of ''secretRefs'' v h ws
     (\<lambda>r name. map_option sc_id (fetch_optional (sort_key scope_rank (filter (secret_satisfies ws (rp_id r) name) (va_secrets v)))))))"

definition workspace_var_refs :: "(rstr \<Rightarrow> rstr) \<Rightarrow> Vault \<Rightarrow> Hooks \<Rightarrow> uuid \<Rightarrow> RequirementRefRow list" where
  "workspace_var_refs collate v h ws =
     take 1000 (sort_key (ref_order collate) (refs_of ''varRefs'' v h ws (\<lambda>_ _. None)))"

definition environment_ref_states :: "(rstr \<Rightarrow> rstr) \<Rightarrow> (rstr \<Rightarrow> rstr) \<Rightarrow> Vault \<Rightarrow> Hooks \<Rightarrow> uuid \<Rightarrow> RequirementRefRow list" where
  "environment_ref_states collate lower v h ws = take 1000 (sort_key (ref_order collate)
     (refs_of ''environments'' v h ws (\<lambda>_. find_environment_by_name lower v ws)))"

definition valid_ref_ident :: "rstr \<Rightarrow> bool" where
  "valid_ref_ident name \<longleftrightarrow> shaped (\<lambda>c. is_ascii_alphabetic c \<or> c = ch (CHR ''_''))
     (\<lambda>c. is_ascii_alphanumeric c \<or> c = ch (CHR ''_'')) name \<and> length name \<le> 200"

definition MAX_ENTRIES :: nat where "MAX_ENTRIES = 200"
definition MAX_REFS_PER_ENTRY :: nat where "MAX_REFS_PER_ENTRY = 20"

text \<open>One entry of the answer, and its fold over the rows.\<close>

record Requirement =
  re_repository_id :: uuid
  re_configured_id :: "uuid option"
  re_count :: nat
  re_references :: "(uuid \<times> rstr) list"

definition ref_key :: "RequirementRefRow \<Rightarrow> rstr \<times> rstr" where
  "ref_key row = (rq_repository_name row, rq_name row)"

definition new_entry :: "RequirementRefRow \<Rightarrow> Requirement" where
  "new_entry row = \<lparr>re_repository_id = rq_repository_id row, re_configured_id = None, re_count = 0, re_references = []\<rparr>"

definition add_reference :: "RequirementRefRow \<Rightarrow> Requirement \<Rightarrow> Requirement" where
  "add_reference row e =
     e\<lparr>re_count := re_count e + 1,
       re_configured_id := (case re_configured_id e of None \<Rightarrow> rq_configured_id row | Some i \<Rightarrow> Some i),
       re_references := (if length (re_references e) < MAX_REFS_PER_ENTRY
         then re_references e @ [(rq_workflow_id row, rq_workflow_path row)] else re_references e)\<rparr>"

definition group_row :: "(rstr \<Rightarrow> bool) \<Rightarrow> RequirementRefRow \<Rightarrow> ((rstr \<times> rstr) \<times> Requirement) list \<Rightarrow> ((rstr \<times> rstr) \<times> Requirement) list" where
  "group_row keep row m =
     (if \<not> keep (rq_name row) then m
      else case map_of m (ref_key row) of
        None \<Rightarrow> if MAX_ENTRIES \<le> length m then m else bt_insert (ref_key row) (add_reference row (new_entry row)) m
      | Some e \<Rightarrow> bt_insert (ref_key row) (add_reference row e) m)"

definition group_requirements :: "(rstr \<Rightarrow> bool) \<Rightarrow> RequirementRefRow list \<Rightarrow> ((rstr \<times> rstr) \<times> Requirement) list" where
  "group_requirements keep rows = fold (group_row keep) rows []"

definition secret_requirements ::
  "(rstr \<Rightarrow> rstr) \<Rightarrow> User \<Rightarrow> uuid \<Rightarrow> Hooks \<Rightarrow> Server \<Rightarrow>
     AppError + ((rstr \<times> rstr) \<times> Requirement) list \<times> ((rstr \<times> rstr) \<times> Requirement) list"
where
  "secret_requirements collate user ws h s =
     bind_result (require_permission (sv_vault s) (us_id user) ws SECRETS_READ) (\<lambda>_.
       Inr (group_requirements valid_ref_ident (secret_ref_states collate (sv_vault s) h ws),
         group_requirements valid_ref_ident (workspace_var_refs collate (sv_vault s) h ws)))"

definition environment_requirements ::
  "World \<Rightarrow> (rstr \<Rightarrow> rstr) \<Rightarrow> User \<Rightarrow> uuid \<Rightarrow> Hooks \<Rightarrow> Server \<Rightarrow> AppError + ((rstr \<times> rstr) \<times> Requirement) list"
where
  "environment_requirements w collate user ws h s =
     bind_result (require_permission (sv_vault s) (us_id user) ws CONTENT_READ) (\<lambda>_.
       Inr (group_requirements (\<lambda>name. \<not> isl (validate_environment_name (wd_nfc w) name))
         (environment_ref_states collate (wd_lower w) (sv_vault s) h ws)))"

end
