(* ===== verification/SecretFacts.thy ===== *)
theory SecretFacts
  imports SecretsApi
begin

text \<open>
  Secrets from the request that stores them to the dispatch that opens them: which row a dispatch
  picks, the value a stored secret delivers, and that every stored row opens.
\<close>

section \<open>Which row a dispatch picks\<close>

definition picked :: "Vault \<Rightarrow> uuid \<Rightarrow> uuid \<Rightarrow> uuid option \<Rightarrow> rstr \<Rightarrow> SecretRow option" where
  "picked v ws repo env n =
     fetch_optional (sort_key scope_rank (filter (\<lambda>s. applies ws repo env s \<and> sc_name s = n) (va_secrets v)))"

lemma resolve_picked: "s \<in> set (resolve_for_dispatch v ws repo env) \<longleftrightarrow> picked v ws repo env (sc_name s) = Some s"
  unfolding resolve_for_dispatch_def set_distinct_on first_with_filter sort_key_stable picked_def
  by (simp add: filter_sort conj_commute)

lemma picked_row:
  assumes "picked v ws repo env n = Some s"
  shows "s \<in> set (va_secrets v)" "applies ws repo env s" "sc_name s = n" "s \<in> set (resolve_for_dispatch v ws repo env)"
proof -
  have "s \<in> set (filter (\<lambda>s. applies ws repo env s \<and> sc_name s = n) (va_secrets v))"
    using fetch_optional_Some [OF assms [unfolded picked_def]] by simp
  then show s: "s \<in> set (va_secrets v)" "applies ws repo env s" "sc_name s = n" by simp_all
  show "s \<in> set (resolve_for_dispatch v ws repo env)" using assms s(3) by (simp add: resolve_picked)
qed

lemma picked_None: "picked v ws repo env n = None \<longleftrightarrow> (\<forall>s\<in>set (va_secrets v). applies ws repo env s \<longrightarrow> sc_name s \<noteq> n)"
proof -
  have "sort_key f xs = [] \<longleftrightarrow> xs = []" for f :: "SecretRow \<Rightarrow> nat" and xs
    using length_sort [of f xs] by (metis length_0_conv)
  then show ?thesis by (auto simp: picked_def filter_empty_conv)
qed

lemma fetch_insort:
  "fetch_optional (insort_key f x xs) = (case fetch_optional xs of None \<Rightarrow> Some x | Some z \<Rightarrow> Some (if f x \<le> f z then x else z))"
  by (cases xs) auto

lemma fetch_sort_snoc:
  "fetch_optional (sort_key f (xs @ [y])) =
     (case fetch_optional (sort_key f xs) of None \<Rightarrow> Some y | Some z \<Rightarrow> Some (if f y < f z then y else z))"
  by (induction xs) (auto simp: fetch_insort split: option.splits)

section \<open>What a dispatch opens\<close>

lemma dispatch_opens:
  assumes "wd_secrets_key w = Some key"
  shows "(\<exists>secrets. dispatch_secrets w v ws repo env = Some secrets) \<longleftrightarrow>
    (\<forall>s\<in>set (resolve_for_dispatch v ws repo env). \<exists>x. decrypt (wd_aead w) key (sc_encrypted s) (sc_id s) = Some x \<and> utf8 x)"
proof -
  have "(\<exists>secrets. open_secrets lib key rs = Some secrets) \<longleftrightarrow>
      (\<forall>s\<in>set rs. \<exists>x. decrypt lib key (sc_encrypted s) (sc_id s) = Some x \<and> utf8 x)" for lib rs
  proof (induction rs)
    case (Cons r rs)
    have "from_utf8 a = None \<longleftrightarrow> \<not> utf8 a" for a using from_utf8_Some [of a a] by (cases "from_utf8 a") (auto simp: from_utf8_Some)
    with Cons show ?case
      by (cases "decrypt lib key (sc_encrypted r) (sc_id r)") (auto simp: from_utf8_Some split: option.splits)
  qed simp
  then show ?thesis by (simp add: dispatch_secrets_def assms)
qed

lemma dispatch_value:
  assumes "wd_secrets_key w = Some key" "dispatch_secrets w v ws repo env = Some secrets"
  shows "map_of (resolved_secrets secrets) n =
    Option.bind (picked v ws repo env n) (\<lambda>s. decrypt (wd_aead w) key (sc_encrypted s) (sc_id s))"
proof -
  let ?rows = "resolve_for_dispatch v ws repo env"
  have o: "open_secrets (wd_aead w) key ?rows = Some secrets" using assms by (simp add: dispatch_secrets_def)
  have names: "map (\<lambda>(r, v). sc_name r) secrets = map sc_name ?rows"
    using arg_cong [OF conjunct1 [OF open_secrets_Some [OF o]], of "map sc_name"] by (simp add: comp_def case_prod_unfold)
  then have d: "distinct (map (\<lambda>(r, v). sc_name r) secrets)" by (simp add: resolve_for_dispatch_def distinct_distinct_on)
  show ?thesis
  proof (cases "picked v ws repo env n")
    case None
    then have "n \<notin> set (map sc_name ?rows)" using resolve_picked [of _ v ws repo env] by force
    then have "n \<notin> set (map fst (rev (map (\<lambda>(r, value). (sc_name r, value)) secrets)))"
      unfolding names [symmetric] by (auto simp: image_iff)
    then have "map_of (rev (map (\<lambda>(r, value). (sc_name r, value)) secrets)) n = None" by (simp only: map_of_eq_None_iff set_map not_False_eq_True)
    then show ?thesis by (simp add: None resolved_secrets_def map_of_bt_extend)
  next
    case (Some s)
    from open_secrets_mem [OF o picked_row(4) [OF Some]] obtain x where
      x: "(s, x) \<in> set secrets" "decrypt (wd_aead w) key (sc_encrypted s) (sc_id s) = Some x" by blast
    from map_of_resolved [OF d x(1)] x(2) show ?thesis by (simp add: Some picked_row(3) [OF Some])
  qed
qed

section \<open>A value from the request to the job\<close>

lemma create_secret_Inr:
  assumes "create_secret w i rnd user ws body req s = (Inr r, s')"
  obtains key name description enc where
    "wd_secrets_key w = Some key" "validate_secret_name (wd_nfc w) (cs_name body) = Inr name" "validate_value (cs_value body) = Inr ()"
    "cs_repository_id body = None \<or> cs_environment_id body = None"
    "encrypt (wd_aead w) key rnd (cs_value body) i = Some enc" "srp_name r = name"
    "va_secrets (sv_vault s') = va_secrets (sv_vault s) @ [secret_row (st_now (sv_app s)) i ws (cs_repository_id body)
       (cs_environment_id body) name description enc (us_id user)]"
  using assms
  by (auto simp: create_secret_def check_secret_def require_crypto_def on_store_def secret_insert_def Let_def announce_def upd_app_def
      SecretResponse_from_def secret_meta_def secret_row_def split: sum.splits option.splits if_splits prod.splits)

lemma picked_snoc:
  assumes "va_secrets v' = va_secrets v @ [row]"
  shows "picked v' ws repo env n =
    (if n = sc_name row \<and> applies ws repo env row \<and>
        (\<forall>t\<in>set (va_secrets v). applies ws repo env t \<and> sc_name t = n \<longrightarrow> scope_rank row < scope_rank t)
     then Some row else picked v ws repo env n)"
proof -
  let ?P = "\<lambda>s. applies ws repo env s \<and> sc_name s = n"
  show ?thesis
  proof (cases "?P row")
    case False
    then show ?thesis by (auto simp: picked_def assms)
  next
    case P: True
    have new: "picked v' ws repo env n =
        (case picked v ws repo env n of None \<Rightarrow> Some row | Some z \<Rightarrow> Some (if scope_rank row < scope_rank z then row else z))"
      using P by (simp add: picked_def assms fetch_sort_snoc)
    show ?thesis
    proof (cases "picked v ws repo env n")
      case None
      then have "\<forall>t\<in>set (va_secrets v). ?P t \<longrightarrow> scope_rank row < scope_rank t" by (simp only: picked_None) blast
      with P have "n = sc_name row \<and> applies ws repo env row \<and>
          (\<forall>t\<in>set (va_secrets v). ?P t \<longrightarrow> scope_rank row < scope_rank t)" by blast
      from if_P [OF this] show ?thesis unfolding new None option.case by (rule sym)
    next
      case (Some z)
      note least = resolve_facts [OF picked_row(4) [OF Some], THEN conjunct2, THEN conjunct2, unfolded picked_row(3) [OF Some]]
      have "scope_rank z \<le> scope_rank t" if "t \<in> set (va_secrets v)" "?P t" for t
        using bspec [OF least that(1)] that(2) by simp
      then have "(\<forall>t\<in>set (va_secrets v). ?P t \<longrightarrow> scope_rank row < scope_rank t) \<longleftrightarrow> scope_rank row < scope_rank z"
        using picked_row(1-3) [OF Some] by (fastforce intro: order_less_le_trans)
      with P have "(n = sc_name row \<and> applies ws repo env row \<and>
          (\<forall>t\<in>set (va_secrets v). ?P t \<longrightarrow> scope_rank row < scope_rank t)) = (scope_rank row < scope_rank z)" by blast
      then show ?thesis unfolding new Some option.case by (simp only: if_distrib [of Some])
    qed
  qed
qed

text \<open>
  C19: A secret stored through the console reaches the jobs it is for, and no others.  After a
  successful request the dispatches its scope covers get exactly the submitted value under its
  name, unless a secret of the same or a narrower scope has the name; every other name, and every other dispatch,
  gets what it got before.
\<close>

theorem created_secret_reaches_dispatch:
  assumes lib: "aead_correct (wd_aead w)" "random_ok rnd" and "utf8 (cs_value body)"
    and create: "create_secret w i rnd user ws body req s = (Inr r, s')"
    and before: "dispatch_secrets w (sv_vault s) ws' repo env = Some old"
  shows "\<exists>row new. va_secrets (sv_vault s') = va_secrets (sv_vault s) @ [row] \<and> sc_name row = srp_name r \<and>
    sc_workspace_id row = ws \<and> sc_repository_id row = cs_repository_id body \<and> sc_environment_id row = cs_environment_id body \<and>
    dispatch_secrets w (sv_vault s') ws' repo env = Some new \<and>
    (\<forall>n. map_of (resolved_secrets new) n =
       (if n = sc_name row \<and> applies ws' repo env row \<and>
           (\<forall>t\<in>set (va_secrets (sv_vault s)). applies ws' repo env t \<and> sc_name t = n \<longrightarrow> scope_rank row < scope_rank t)
        then Some (cs_value body) else map_of (resolved_secrets old) n))"
  using create
proof (rule create_secret_Inr)
  fix key name description enc
  define row where "row = secret_row (st_now (sv_app s)) i ws (cs_repository_id body) (cs_environment_id body) name description enc (us_id user)"
  assume key: "wd_secrets_key w = Some key" and enc: "encrypt (wd_aead w) key rnd (cs_value body) i = Some enc"
    and name: "srp_name r = name"
    and "va_secrets (sv_vault s') = va_secrets (sv_vault s) @ [secret_row (st_now (sv_app s)) i ws (cs_repository_id body)
       (cs_environment_id body) name description enc (us_id user)]"
  then have rows: "va_secrets (sv_vault s') = va_secrets (sv_vault s) @ [row]" by (simp add: row_def)
  have parts: "sc_name row = name" "sc_workspace_id row = ws" "sc_repository_id row = cs_repository_id body"
    "sc_environment_id row = cs_environment_id body" by (simp_all add: row_def secret_row_def)
  have opens: "decrypt (wd_aead w) key (sc_encrypted row) (sc_id row) = Some (cs_value body)"
    by (simp add: row_def secret_row_def decrypt_encrypt [OF lib enc])
  have "\<exists>x. decrypt (wd_aead w) key (sc_encrypted t) (sc_id t) = Some x \<and> utf8 x"
    if "t \<in> set (resolve_for_dispatch (sv_vault s') ws' repo env)" for t
    using that opens before \<open>utf8 (cs_value body)\<close> dispatch_opens [OF key, of "sv_vault s" ws' repo env]
    by (auto simp: resolve_picked picked_snoc [OF rows] split: if_splits)
  then obtain new where new: "dispatch_secrets w (sv_vault s') ws' repo env = Some new"
    using dispatch_opens [OF key] by blast
  show ?thesis
    by (rule exI [of _ row], rule exI [of _ new])
      (auto simp: rows parts new dispatch_value [OF key new] dispatch_value [OF key before] picked_snoc [OF rows] opens name)
qed

section \<open>Every stored secret opens\<close>

definition value_ok :: "rstr \<Rightarrow> bool" where
  "value_ok x \<longleftrightarrow> MIN_MASK_LEN \<le> length x \<and> length x \<le> VALUE_MAX \<and> CHR 0x00 \<notin> set x \<and> utf8 x"

definition secret_name_ok :: "rstr \<Rightarrow> bool" where
  "secret_name_ok name \<longleftrightarrow> upper_snake name \<and> length name \<le> NAME_MAX \<and> name \<notin> set RESERVED_NAMES \<and>
     (\<forall>owned\<in>set RESERVED_PREFIXES. \<not> starts_with name owned)"

definition row_checked :: "World \<Rightarrow> rstr \<Rightarrow> SecretRow \<Rightarrow> bool" where
  "row_checked w key r \<longleftrightarrow> secret_name_ok (sc_name r) \<and>
     (\<exists>x. decrypt (wd_aead w) key (sc_encrypted r) (sc_id r) = Some x \<and> value_ok x)"

definition vault_checked :: "World \<Rightarrow> rstr \<Rightarrow> Vault \<Rightarrow> bool" where
  "vault_checked w key v \<longleftrightarrow> secrets_ok (va_secrets v) \<and> (\<forall>r\<in>set (va_secrets v). row_checked w key r)"

text \<open>The requests that change the vault, and the dispatches that read it and count its use.\<close>

datatype SecretsOp =
    CreateSecretOp uuid "rstr \<times> rstr \<times> rstr" User uuid CreateSecret "rstr option"
  | ReplaceValueOp "rstr \<times> rstr \<times> rstr" User uuid uuid rstr "rstr option"
  | UpdateSecretOp User uuid uuid "rstr option" "rstr option"
  | RemoveSecretOp User uuid uuid "rstr option"
  | CreateEnvironmentOp uuid User uuid rstr "rstr option" "rstr option"
  | UpdateEnvironmentOp User uuid uuid "rstr option" "rstr option" "rstr option"
  | RemoveEnvironmentOp User uuid uuid "rstr option"
  | DispatchOp PipelineJob uuid

fun secrets_op :: "World \<Rightarrow> SecretsOp \<Rightarrow> Server \<Rightarrow> Server" where
  "secrets_op w (CreateSecretOp i rnd user ws body req) s = snd (create_secret w i rnd user ws body req s)"
| "secrets_op w (ReplaceValueOp rnd user ws i x req) s = snd (replace_secret_value w rnd user ws i x req s)"
| "secrets_op w (UpdateSecretOp user ws i d req) s = snd (update_secret user ws i d req s)"
| "secrets_op w (RemoveSecretOp user ws i req) s = snd (remove_secret user ws i req s)"
| "secrets_op w (CreateEnvironmentOp i user ws name d req) s = snd (create_environment w i user ws name d req s)"
| "secrets_op w (UpdateEnvironmentOp user ws i name d req) s = snd (update_environment w user ws i name d req s)"
| "secrets_op w (RemoveEnvironmentOp user ws i req) s = snd (remove_environment user ws i req s)"
| "secrets_op w (DispatchOp job rid) s = snd (dispatch w job rid s)"

text \<open>The generator fills buffers of the right length, and a value is a Rust string.\<close>

fun well_fed :: "SecretsOp \<Rightarrow> bool" where
  "well_fed (CreateSecretOp i rnd user ws body req) \<longleftrightarrow> random_ok rnd \<and> utf8 (cs_value body)"
| "well_fed (ReplaceValueOp rnd user ws i x req) \<longleftrightarrow> random_ok rnd \<and> utf8 x"
| "well_fed _ \<longleftrightarrow> True"

definition secrets_step :: "World \<Rightarrow> SecretsOp \<Rightarrow> Server \<Rightarrow> Server" where
  "secrets_step w op s = (if well_fed op then secrets_op w op s else s)"

lemma validate_value_Inr: "validate_value x = Inr () \<Longrightarrow> utf8 x \<Longrightarrow> value_ok x"
  by (auto simp: validate_value_def value_ok_def MIN_MASK_LEN_def VALUE_MIN_def split: if_splits)

lemma validate_name_Inr: "validate_secret_name nfc raw = Inr name \<Longrightarrow> secret_name_ok name"
  by (auto simp: validate_secret_name_def secret_name_ok_def Let_def first_with_None split: if_splits option.splits)

text \<open>One statement of the vault, where only the row it writes is to be shown checked.\<close>

lemma vault_checked_statement:
  assumes "vault_checked w key (fst st)"
    and "\<And>r. r \<in> set (va_secrets (fst (vault_op lower op st))) \<Longrightarrow> row_checked w key r"
  shows "vault_checked w key (fst (vault_op lower op st))"
  using assms vault_op_ok [of st lower op] by (simp add: vault_checked_def)

lemma row_checked_keep:
  assumes "row_checked w key r" "sc_name r' = sc_name r" "sc_id r' = sc_id r" "sc_encrypted r' = sc_encrypted r"
  shows "row_checked w key r'"
  using assms by (simp add: row_checked_def)

lemma on_store_vault [simp]: "sv_vault (snd (on_store f s)) = fst (snd (f (sv_vault s, st_db (sv_app s))))"
  by (simp add: on_store_def case_prod_unfold)

lemma announce_vault [simp]: "sv_vault (announce ws c s) = sv_vault s"
  by (simp add: announce_def upd_app_def)

lemma respond_secret_vault [simp]: "sv_vault (snd (respond_secret ws i r)) = sv_vault (snd r)"
  by (cases r) (simp add: respond_secret_def split: option.split)

lemma dispatch_vault:
  "sv_vault (snd (dispatch w job rid s)) = sv_vault s \<or> (\<exists>now ids. sv_vault (snd (dispatch w job rid s)) = record_usage now ids (sv_vault s))"
  by (auto simp: dispatch_def deliver_def Let_def on_app_def upd_app_def case_prod_unfold split: option.splits sum.splits)

text \<open>What a statement leaves of a row: the same name and ciphertext under the same id, unless it writes a value.\<close>

fun writes_value :: "VaultOp \<Rightarrow> bool" where
  "writes_value (SecretInsert now i ws repo env name d enc u req) = True"
| "writes_value (SecretReplaceValue now ws i enc u req) = True"
| "writes_value _ = False"

lemma quiet_row:
  assumes "\<not> writes_value op" "r \<in> set (va_secrets (fst (vault_op lower op st)))"
  shows "\<exists>r'\<in>set (va_secrets (fst st)). sc_name r = sc_name r' \<and> sc_id r = sc_id r' \<and> sc_encrypted r = sc_encrypted r'"
  using assms
  by (cases op; cases st)
    (auto simp: secret_update_description_def upd_secret_def set_update_where secret_delete_def environment_insert_def
      environment_update_def environment_remove_def record_usage_def Let_def split: option.splits if_splits)

lemma quiet_statement:
  assumes "vault_checked w key (fst st)" "\<not> writes_value op"
  shows "vault_checked w key (fst (vault_op lower op st))"
proof (rule vault_checked_statement [OF assms(1)])
  fix r assume "r \<in> set (va_secrets (fst (vault_op lower op st)))"
  from quiet_row [OF assms(2) this] obtain r' where
    r': "r' \<in> set (va_secrets (fst st))" "sc_name r = sc_name r'" "sc_id r = sc_id r'" "sc_encrypted r = sc_encrypted r'" by blast
  with assms(1) show "row_checked w key r" by (auto simp: vault_checked_def intro: row_checked_keep [OF _ r'(2-4)])
qed

lemma value_statements:
  assumes "vault_checked w key v" and x: "decrypt (wd_aead w) key enc i = Some x" "value_ok x"
  shows "secret_name_ok name \<Longrightarrow> vault_checked w key (fst (snd (secret_insert now i ws repo env name d enc u req (v, db))))"
    "vault_checked w key (fst (snd (secret_replace_value now ws i enc u req (v, db))))"
proof -
  note rule = vault_checked_statement [where st = "(v, db)" and lower = id and w = w and key = key, simplified fst_conv, OF assms(1)]
  have old: "row_checked w key r" if "r \<in> set (va_secrets v)" for r using assms(1) that by (simp add: vault_checked_def)
  have ins: "r \<in> set (va_secrets v) \<or> r = secret_row now i ws repo env name d enc u"
    if "r \<in> set (va_secrets (fst (snd (secret_insert now i ws repo env name d enc u req (v, db)))))" for r
    using that by (auto simp: secret_insert_def Let_def split: if_splits)
  have new: "secret_name_ok name \<Longrightarrow> row_checked w key (secret_row now i ws repo env name d enc u)"
    using x by (simp add: secret_row_def row_checked_def)
  show "vault_checked w key (fst (snd (secret_insert now i ws repo env name d enc u req (v, db))))" if "secret_name_ok name"
    by (rule rule [of "SecretInsert now i ws repo env name d enc u req", simplified]) (use ins old new that in blast)
  have rep: "r \<in> set (va_secrets v) \<or> (\<exists>r'\<in>set (va_secrets v). sc_name r = sc_name r' \<and> sc_id r = i \<and> sc_encrypted r = enc)"
    if "r \<in> set (va_secrets (fst (snd (secret_replace_value now ws i enc u req (v, db)))))" for r
    using that by (auto simp: secret_replace_value_def upd_secret_def this_secret_def set_update_where split: option.splits if_splits)
  show "vault_checked w key (fst (snd (secret_replace_value now ws i enc u req (v, db))))"
    by (rule rule [of "SecretReplaceValue now ws i enc u req", simplified])
      (use rep old x in \<open>metis row_checked_def\<close>)
qed

lemma secrets_step_checked:
  assumes key: "wd_secrets_key w = Some key" and lib: "aead_correct (wd_aead w)" and ok: "vault_checked w key (sv_vault s)"
  shows "vault_checked w key (sv_vault (secrets_step w op s))"
proof (cases "well_fed op")
  case fed: True
  note opens = decrypt_encrypt [OF lib]
  have quiet: "vault_checked w key (fst (vault_op (wd_lower w) vop (sv_vault s, st_db (sv_app s))))" if "\<not> writes_value vop" for vop
    by (rule quiet_statement) (use ok that in simp_all)
  show ?thesis
  proof (cases op)
    case (CreateSecretOp i rnd user ws body req)
    show ?thesis
    proof (cases "check_secret w user ws body s")
      case (Inr c)
      obtain name d where c: "c = (key, name, d)" and n: "secret_name_ok name" and m: "value_ok (cs_value body)"
        using Inr fed validate_value_Inr validate_name_Inr unfolding CreateSecretOp
        by (cases c) (auto simp: check_secret_def require_crypto_def key split: if_splits)
      show ?thesis
      proof (cases "encrypt (wd_aead w) key rnd (cs_value body) i")
        case (Some enc)
        have "decrypt (wd_aead w) key enc i = Some (cs_value body)" using opens [OF _ Some] fed CreateSecretOp by simp
        from value_statements(1) [OF ok this m n] fed CreateSecretOp show ?thesis
          by (simp add: secrets_step_def create_secret_def Inr c Some and_then_def split: sum.split SecretInsertOutcome.split)
      qed (use ok fed CreateSecretOp in \<open>simp add: secrets_step_def create_secret_def Inr c\<close>)
    qed (use ok fed CreateSecretOp in \<open>simp add: secrets_step_def create_secret_def\<close>)
  next
    case (ReplaceValueOp rnd user ws i x req)
    show ?thesis
    proof (cases "encrypt (wd_aead w) key rnd x i")
      case (Some enc)
      have "decrypt (wd_aead w) key enc i = Some x" using opens [OF _ Some] fed ReplaceValueOp by simp
      from value_statements(2) [OF ok this] fed validate_value_Inr [of x] show ?thesis unfolding ReplaceValueOp
        by (auto simp: secrets_step_def replace_secret_value_def require_crypto_def key Some ok split: sum.split)
    qed (use ok fed ReplaceValueOp in \<open>auto simp: secrets_step_def replace_secret_value_def require_crypto_def key split: sum.split\<close>)
  next
    case (UpdateSecretOp user ws i d req)
    with ok quiet [of "SecretUpdateDescription (st_now (sv_app s)) ws i x (us_id user) req" for x] show ?thesis
      by (simp add: secrets_step_def update_secret_def split: sum.split)
  next
    case (RemoveSecretOp user ws i req)
    have "sv_vault (secrets_step w op s) \<in> {sv_vault s, fst (snd (secret_delete ws i (us_id user) req (sv_vault s, st_db (sv_app s))))}"
      by (auto simp: RemoveSecretOp secrets_step_def remove_secret_def case_prod_unfold split: sum.split option.split)
    with ok quiet [of "SecretDelete ws i (us_id user) req"] show ?thesis by auto
  next
    case (CreateEnvironmentOp i user ws name d req)
    have "\<exists>n d. sv_vault (secrets_step w op s) \<in> {sv_vault s, fst (snd (environment_insert (wd_lower w) (st_now (sv_app s)) i ws n d
        (us_id user) req (sv_vault s, st_db (sv_app s))))}"
      by (auto simp: CreateEnvironmentOp secrets_step_def create_environment_def case_prod_unfold split: sum.split EnvironmentInsertOutcome.split)
    with ok quiet [of "EnvironmentInsert (st_now (sv_app s)) i ws n x (us_id user) req" for n x] show ?thesis by auto
  next
    case (UpdateEnvironmentOp user ws i name d req)
    have "\<exists>n d. sv_vault (secrets_step w op s) \<in> {sv_vault s, fst (snd (environment_update (wd_lower w) (st_now (sv_app s)) ws i n d
        (us_id user) req (sv_vault s, st_db (sv_app s))))}"
      by (auto simp: UpdateEnvironmentOp secrets_step_def update_environment_def case_prod_unfold split: sum.split EnvironmentUpdateOutcome.split)
    with ok quiet [of "EnvironmentUpdate (st_now (sv_app s)) ws i n x (us_id user) req" for n x] show ?thesis by auto
  next
    case (RemoveEnvironmentOp user ws i req)
    have "sv_vault (secrets_step w op s) \<in> {sv_vault s, fst (snd (environment_remove ws i (us_id user) req (sv_vault s, st_db (sv_app s))))}"
      by (auto simp: RemoveEnvironmentOp secrets_step_def remove_environment_def case_prod_unfold split: sum.split option.split)
    with ok quiet [of "EnvironmentRemove ws i (us_id user) req"] show ?thesis by auto
  next
    case (DispatchOp job rid)
    with ok quiet [of "RecordUsage now ids" for now ids] dispatch_vault [of w job rid s] show ?thesis by (auto simp: secrets_step_def)
  qed
qed (use ok in \<open>simp add: secrets_step_def\<close>)

lemma secrets_run_checked:
  assumes "wd_secrets_key w = Some key" "aead_correct (wd_aead w)"
  shows "vault_checked w key (sv_vault s) \<Longrightarrow> vault_checked w key (sv_vault (fold (secrets_step w) ops s))"
  by (induction ops arbitrary: s) (simp_all add: secrets_step_checked [OF assms])

lemma dispatch_refused: "fst (dispatch w job rid s) = Inr SecretsUnavailable \<Longrightarrow> \<exists>ws repo env. dispatch_secrets w (sv_vault s) ws repo env = None"
  by (auto simp: dispatch_def deliver_def Let_def case_prod_unfold split: option.splits sum.splits if_splits)

text \<open>
  C20: Every stored secret opens.  Through any sequence of requests on secrets and environments and of
  dispatches, each stored row keeps an allowed name and a ciphertext that decrypts under its own id to
  a text within the bounds; so no dispatch is ever refused for its secrets, and every value one injects
  is long enough to be masked.
\<close>

theorem stored_secrets_always_open:
  assumes "wd_secrets_key w = Some key" "aead_correct (wd_aead w)" "vault_checked w key (sv_vault s)"
    and s': "s' = fold (secrets_step w) ops s"
  shows "vault_checked w key (sv_vault s') \<and> fst (dispatch w job rid s') \<noteq> Inr SecretsUnavailable \<and>
    (\<forall>secrets. dispatch_secrets w (sv_vault s') ws repo env = Some secrets \<longrightarrow> (\<forall>rx\<in>set secrets. MIN_MASK_LEN \<le> length (snd rx)))"
proof (intro conjI allI impI ballI notI)
  show ok: "vault_checked w key (sv_vault s')" unfolding s' by (rule secrets_run_checked [OF assms(1-3)])
  have opens: "\<exists>x. decrypt (wd_aead w) key (sc_encrypted r) (sc_id r) = Some x \<and> value_ok x"
    if "r \<in> set (resolve_for_dispatch (sv_vault s') ws repo env)" for r ws repo env
    using ok resolve_facts [OF that] by (auto simp: vault_checked_def row_checked_def)
  have "\<exists>secrets. dispatch_secrets w (sv_vault s') ws repo env = Some secrets" for ws repo env
    unfolding dispatch_opens [OF assms(1)] using opens by (fastforce simp: value_ok_def)
  then show "False" if "fst (dispatch w job rid s') = Inr SecretsUnavailable"
    using dispatch_refused [OF that] by (metis option.distinct(1))
  fix secrets rx assume "dispatch_secrets w (sv_vault s') ws repo env = Some secrets" "rx \<in> set secrets"
  then have "open_secrets (wd_aead w) key (resolve_for_dispatch (sv_vault s') ws repo env) = Some secrets"
    by (simp add: dispatch_secrets_def assms(1))
  note o = open_secrets_Some [OF this]
  have "fst rx \<in> set (map fst secrets)" using \<open>rx \<in> set secrets\<close> by simp
  with o have "fst rx \<in> set (resolve_for_dispatch (sv_vault s') ws repo env)" by (simp only:)
  from opens [OF this] o \<open>rx \<in> set secrets\<close> show "MIN_MASK_LEN \<le> length (snd rx)"
    by (auto simp: list_all_iff value_ok_def)
qed

end
