(* ===== verification/System.thy ===== *)
theory System
  imports Create
begin

text \<open>
  The whole server: the scheduler's passes, the runners' connections and messages, creation and
  cancellation, in any order and any number.  What the components keep, every run of the
  server keeps.
\<close>

section \<open>Runs of the server\<close>

text \<open>
  A session is the task of one connection; its channel in the hub is its key.  An operation is
  one handler run to its end.
\<close>

record Session =
  se_workspace :: uuid
  se_runner :: uuid
  se_active :: Active

record Sys =
  sy_server :: Server
  sy_sessions :: "(nat \<times> Session) list"

datatype SysOp =
    Clock time
  | SchedulerPass
  | Create uuid "uuid list" Repository uuid rstr rstr rstr TriggerContext
  | CancelWhole Pipeline "uuid option" "rstr option"
  | CancelOne Pipeline PipelineJob "uuid option" "rstr option"
  | Connect "rstr option" "RunnerMsg option" rstr bool
  | Receive nat uuid RunnerMsg
  | PingFrame nat
  | Deliver nat
  | Hangup nat

abbreviation sy_app :: "Sys \<Rightarrow> AppState" where
  "sy_app y \<equiv> sv_app (sy_server y)"

definition on_sys :: "(AppState \<Rightarrow> AppState) \<Rightarrow> Sys \<Rightarrow> Sys" where
  "on_sys f y = y\<lparr>sy_server := upd_app f (sy_server y)\<rparr>"

definition hang_up :: "nat \<Rightarrow> Sys \<Rightarrow> Sys" where
  "hang_up conn y =
     (case map_of (sy_sessions y) conn of
        None \<Rightarrow> y
      | Some se \<Rightarrow> (on_sys (close_connection (se_workspace se) (se_runner se) conn) y)
          \<lparr>sy_sessions := AList.delete conn (sy_sessions y)\<rparr>)"

text \<open>A drawn id is new: what \<open>gen_random_uuid\<close> promises.\<close>

definition fresh_id :: "uuid \<Rightarrow> Db \<Rightarrow> bool" where
  "fresh_id i db \<longleftrightarrow> i \<notin> pl_id ` set (db_pipelines db) \<and> i \<notin> pe_pipeline_id ` set (db_events db)"

fun is_error :: "ServerMsg \<Rightarrow> bool" where
  "is_error (ServerError _) = True"
| "is_error _ = False"

definition accept_runner :: "World \<Rightarrow> rstr option \<Rightarrow> RunnerMsg option \<Rightarrow> rstr \<Rightarrow> bool \<Rightarrow> Sys \<Rightarrow> Sys" where
  "accept_runner w header first fresh delivered y =
     (case authenticate w (sy_app y) header of
        Inl _ \<Rightarrow> y
      | Inr (runner, bootstrap) \<Rightarrow>
          (case on_app (open_connection w runner bootstrap first fresh delivered) (sy_server y) of
             (None, s) \<Rightarrow> y\<lparr>sy_server := s\<rparr>
           | (Some (conn, hello_ack), s) \<Rightarrow> y\<lparr>sy_server := s, sy_sessions :=
               (conn, \<lparr>se_workspace = rn_workspace_id runner, se_runner = rn_id runner, se_active = []\<rparr>) # sy_sessions y\<rparr>))"

definition receive :: "World \<Rightarrow> nat \<Rightarrow> uuid \<Rightarrow> RunnerMsg \<Rightarrow> Sys \<Rightarrow> Sys" where
  "receive w conn new_id msg y =
     (case map_of (sy_sessions y) conn of
        None \<Rightarrow> y
      | Some se \<Rightarrow>
          let (r, active, a) = on_runner_msg w new_id (se_workspace se) (se_runner se) msg (se_active se, sy_app y)
          in (on_sys (\<lambda>_. a) y)\<lparr>sy_sessions := AList.update conn (se\<lparr>se_active := active\<rparr>) (sy_sessions y)\<rparr>)"

definition deliver_next :: "nat \<Rightarrow> Sys \<Rightarrow> Sys" where
  "deliver_next conn y =
     (case map_of (sy_sessions y) conn of
        None \<Rightarrow> y
      | Some se \<Rightarrow>
          (case hub_recv (st_runner_hub (sy_app y)) conn of
             (Some m, h) \<Rightarrow>
               let y = on_sys (\<lambda>a. a\<lparr>st_runner_hub := h\<rparr>) y in if is_error m then hang_up conn y else y
           | (None, h) \<Rightarrow>
               if map_of (rh_connections (st_runner_hub (sy_app y))) (se_runner se) = Some conn then y
               else hang_up conn y))"

fun sys_step :: "World \<Rightarrow> SysOp \<Rightarrow> Sys \<Rightarrow> Sys" where
  "sys_step w (Clock t) y = on_sys (\<lambda>a. a\<lparr>st_now := t\<rparr>) y"
| "sys_step w SchedulerPass y = y\<lparr>sy_server := snd (pass w (sy_server y))\<rparr>"
| "sys_step w (Create i ids repo wid name path raw ctx) y =
     (if fresh_id i (st_db (sy_app y))
      then y\<lparr>sy_server := snd (create_pipeline w i ids repo wid name path raw ctx (sy_server y))\<rparr> else y)"
| "sys_step w (CancelWhole p actor req) y = on_sys (\<lambda>a. snd (cancel_pipeline p actor req a)) y"
| "sys_step w (CancelOne p job actor req) y = on_sys (\<lambda>a. snd (cancel_job p job actor req a)) y"
| "sys_step w (Connect header first fresh delivered) y = accept_runner w header first fresh delivered y"
| "sys_step w (Receive conn new_id msg) y = receive w conn new_id msg y"
| "sys_step w (PingFrame conn) y =
     (case map_of (sy_sessions y) conn of
        None \<Rightarrow> y
      | Some se \<Rightarrow> on_sys (\<lambda>a. a\<lparr>st_db := touch_last_seen (st_now a) (se_runner se) (st_db a)\<rparr>) y)"
| "sys_step w (Deliver conn) y = deliver_next conn y"
| "sys_step w (Hangup conn) y = hang_up conn y"

lemma on_sys_app [simp]: "sy_app (on_sys f y) = f (sy_app y)"
  by (simp add: on_sys_def)

lemma on_app_result: "on_app f s = (r, s') \<Longrightarrow> sv_app s' = snd (f (sv_app s))"
  by (metis on_app_parts(2) snd_conv)

section \<open>What every run keeps\<close>

locale kept_sys = kept_conn +
  fixes w :: World
  assumes messages: "P (st_db (snd st)) \<Longrightarrow> P (st_db (snd (snd (on_runner_msg w new_id ws rid msg st))))"
    and created: "fresh_id i db \<Longrightarrow> P db \<Longrightarrow> P (snd (create_pipeline_row now i ids new jobs db))"
begin

abbreviation sys_ok :: "Sys \<Rightarrow> bool" where
  "sys_ok y \<equiv> P (st_db (sy_app y))"

lemma hang_up: "sys_ok y \<Longrightarrow> sys_ok (hang_up conn y)"
  by (auto simp: hang_up_def intro: close_connection split: option.splits)

lemma create: "fresh_id i (st_db (sv_app s)) \<Longrightarrow> P (st_db (sv_app s)) \<Longrightarrow>
    P (st_db (sv_app (snd (create_pipeline w i ids repo wid name path raw ctx s))))"
  using created [of i "st_db (sv_app s)"]
  by (auto simp: create_pipeline_def announce_def poke_def tables_of(10) prod_eq_iff split: sum.splits prod.splits
      dest!: arg_cong [where f = snd])

lemma accept: "sys_ok y \<Longrightarrow> sys_ok (accept_runner w header first fresh delivered y)"
  by (auto simp: accept_runner_def split: sum.splits option.splits prod.splits dest!: on_app_result intro: open_connection)

lemma receive: "sys_ok y \<Longrightarrow> sys_ok (receive w conn new_id msg y)"
  using messages by (auto simp: receive_def Let_def case_prod_unfold split: option.splits)

lemma deliver_next: "sys_ok y \<Longrightarrow> sys_ok (deliver_next conn y)"
  by (auto simp: deliver_next_def Let_def intro!: hang_up split: option.splits prod.splits)

lemma sys_step: "sys_ok y \<Longrightarrow> sys_ok (sys_step w op y)"
proof (cases op)
  case SchedulerPass
  moreover assume "sys_ok y"
  ultimately show ?thesis using pass [of "sy_server y" w] by simp
qed (auto intro: create cancel_pipeline cancel_job accept receive touched deliver_next hang_up split: option.splits)

lemma run: "sys_ok y \<Longrightarrow> sys_ok (fold (sys_step w) ops y)"
  by (induction ops arbitrary: y) (auto intro: sys_step)

end


section \<open>Instances\<close>

text \<open>The jobs of a table and the ones added since.\<close>

definition jobs_since :: "Db \<Rightarrow> Db \<Rightarrow> bool" where
  "jobs_since db0 db \<longleftrightarrow> length (db_jobs db0) \<le> length (db_jobs db) \<and>
     (\<forall>i<length (db_jobs db0). job_step\<^sup>*\<^sup>* (db_jobs db0 ! i) (db_jobs db ! i))"

lemma jobs_since_moves: "jobs_since db0 db \<Longrightarrow> job_moves db db' \<Longrightarrow> jobs_since db0 db'"
  unfolding jobs_since_def job_moves_def list_all2_conv_all_nth
  by (metis (no_types) order_less_le_trans rtranclp_trans)

lemma jobs_since_same: "jobs_since db0 db \<Longrightarrow> db_jobs db' = db_jobs db \<Longrightarrow> jobs_since db0 db'"
  by (simp add: jobs_since_def)

lemma jobs_since_more: "jobs_since db0 db \<Longrightarrow> db_jobs db' = db_jobs db @ rows \<Longrightarrow> jobs_since db0 db'"
  by (auto simp: jobs_since_def nth_append)

interpretation jobs_ws: kept_ws "jobs_since db0" for db0
proof unfold_locales
  fix s :: AppState and pid assume "jobs_since db0 (st_db s)"
  then show "jobs_since db0 (st_db (maybe_finalize pid s))" by (rule jobs_since_same) simp
qed (erule jobs_since_moves, rule skip.moves cancel_all.moves cancel_one.moves force.moves orphans.moves claim.moves
    unclaim.moves revert.moves ack.moves stage.moves finish.moves count.moves, (assumption | rule TrueI)?
  | erule jobs_since_same; simp add: append_def add_audit_def insert_chunk_def mark_in_progress_def upd_pipeline_def
      release_def mark_offline_def mark_connected_def update_labels_def touch_last_seen_def touch_last_seen_with_health_def
      exchange_bootstrap_token_def insert_pending_def mark_uploaded_def mark_failed_def upd_artifacts_def upd_runners_def
      Let_def split: option.split)+

interpretation led_ws: kept_ws "ledger_from F" for F
  by unfold_locales (erule ledger_from_same; simp add: done_ids_def mark_connected_def update_labels_def touch_last_seen_def
      touch_last_seen_with_health_def exchange_bootstrap_token_def insert_pending_def mark_uploaded_def mark_failed_def
      upd_artifacts_def upd_runners_def Let_def split: option.split)+

lemma runner_moves_same: "runner_moves db0 db \<Longrightarrow> db_runners db' = db_runners db \<Longrightarrow> runner_moves db0 db'"
  by (simp add: runner_moves_def)

lemma add_log_bytes_runners: "db_runners (snd (add_log_bytes db i n)) = db_runners db"
  by (auto simp: add_log_bytes_def Let_def split: option.splits)

lemma maybe_finalize_other:
  "db_runners (st_db (maybe_finalize pid s)) = db_runners (st_db s)"
  "db_artifacts (st_db (maybe_finalize pid s)) = db_artifacts (st_db s)"
  by (auto simp: maybe_finalize_def with_db_def tables_of finalize_def upd_pipeline_def append_def add_audit_def Let_def
      split: option.splits prod.splits)

interpretation runners_ws: kept_ws "runner_moves db0" for db0
proof unfold_locales
  fix s :: AppState and pid assume "runner_moves db0 (st_db s)"
  then show "runner_moves db0 (st_db (maybe_finalize pid s))" using maybe_finalize_other(1) by (rule runner_moves_same)
qed (erule runner_moves_trans, rule claim_runner.moves rel.moves offline.moves connect.moves labels.moves touch.moves
    health.moves exchange.moves
  | erule runner_moves_same; simp add: append_def add_audit_def insert_chunk_def mark_in_progress_def upd_pipeline_def
      add_log_bytes_runners mark_skipped_def cancel_queued_def cancel_one_queued_def force_finish_def requeue_orphans_def
      recover_orphans_def unclaim_def revert_unacked_def ack_def set_stage_def finish_from_runner_def upd_job_def upd_jobs_def
      insert_pending_def mark_uploaded_def mark_failed_def upd_artifacts_def case_prod_unfold Let_def split: option.split)+

text \<open>A creation adds rows or nothing, and touches neither runners nor artifacts.\<close>

lemma create_adds:
  obtains "snd (create_pipeline_row now i ids new jobs db) = db"
  | number rows where
      "db_pipelines (snd (create_pipeline_row now i ids new jobs db)) = db_pipelines db @ [pipeline_row now i number new]"
      "db_jobs (snd (create_pipeline_row now i ids new jobs db)) = db_jobs db @ rows"
      "done_ids (snd (create_pipeline_row now i ids new jobs db)) = done_ids db"
  unfolding create_pipeline_row_insert
proof (cases rule: disjE [OF create_insert_cases [of now i ids new jobs db]])
  case 1
  then obtain p rows where c: "create_insert now i ids new jobs db = (Inr (p, rows, True), snd (create_insert now i ids new jobs db))"
    by blast
  have "done_ids (snd (create_insert now i ids new jobs db)) = done_ids db"
    by (auto simp: create_insert_def append_def add_audit_def done_ids_def claim_number_def Let_def split: option.splits)
  with create_insert_new [OF c] that(2) show thesis by (metis create_pipeline_row_insert)
qed (simp add: that(1) create_pipeline_row_insert)

lemma create_other:
  "db_runners (snd (create_pipeline_row now i ids new jobs db)) = db_runners db"
  "db_artifacts (snd (create_pipeline_row now i ids new jobs db)) = db_artifacts db"
  by (auto simp: create_pipeline_row_insert create_insert_def append_def add_audit_def claim_number_def Let_def
      split: option.splits)

lemma done_ids_events: "set (done_ids db) \<subseteq> pe_pipeline_id ` set (db_events db)"
  by (auto simp: done_ids_def)

lemma create_ledger:
  assumes "fresh_id i db" "ledger_from F db"
  shows "ledger_from F (snd (create_pipeline_row now i ids new jobs db))"
proof (rule create_adds [of now i ids new jobs db])
  fix number rows
  let ?db = "snd (create_pipeline_row now i ids new jobs db)"
  assume a: "db_pipelines ?db = db_pipelines db @ [pipeline_row now i number new]" "done_ids ?db = done_ids db"
  from assms(1) done_ids_events [of db] have "count_list (done_ids db) i = 0"
    by (auto simp: fresh_id_def count_list_0_iff)
  with assms show ?thesis
    by (auto simp: ledger_from_def ledger_ok_def finished_rows_def a fresh_id_def pipeline_row_def)
qed (use assms in simp)

lemma create_jobs: "jobs_since db0 db \<Longrightarrow> jobs_since db0 (snd (create_pipeline_row now i ids new jobs db))"
  by (rule create_adds [of now i ids new jobs db]) (auto intro: jobs_since_more)

interpretation jobs_sys: kept_sys "jobs_since db0" w for db0 w
  by unfold_locales (auto intro: jobs_ws.on_runner_msg create_jobs)

interpretation led_sys: kept_sys "ledger_from F" w for F w
  by unfold_locales (auto intro: led_ws.on_runner_msg create_ledger)

interpretation runners_sys: kept_sys "runner_moves db0" w for db0 w
  by unfold_locales (auto intro: runners_ws.on_runner_msg runner_moves_same simp: create_other)

text \<open>The artifact table within the configured limits.\<close>

definition within_limits :: "Config \<Rightarrow> Db \<Rightarrow> bool" where
  "within_limits cf = artifacts_ok (cf_max_artifact_bytes cf) (cf_max_artifacts_per_job cf) is_safe_name_segment"

lemma within_limits_same: "within_limits cf db \<Longrightarrow> db_artifacts db' = db_artifacts db \<Longrightarrow> within_limits cf db'"
  by (simp add: within_limits_def artifacts_ok_def count_for_job_def)

lemma add_log_bytes_artifacts: "db_artifacts (snd (add_log_bytes db i n)) = db_artifacts db"
  by (auto simp: add_log_bytes_def Let_def split: option.splits)

lemma claim_artifacts: "db_artifacts (snd (claim_for_runner now i rid db)) = db_artifacts db"
  by (auto simp: claim_for_runner_def upd_job_def upd_jobs_def case_prod_unfold Let_def split: option.splits)

interpretation limits_conn: kept_conn "within_limits cf" for cf
proof unfold_locales
  fix s :: AppState and pid assume "within_limits cf (st_db s)"
  then show "within_limits cf (st_db (maybe_finalize pid s))" using maybe_finalize_other(2) by (rule within_limits_same)
qed (erule within_limits_same; simp add: append_def add_audit_def insert_chunk_def mark_in_progress_def upd_pipeline_def
      add_log_bytes_artifacts mark_skipped_def cancel_queued_def cancel_one_queued_def force_finish_def requeue_orphans_def
      recover_orphans_def unclaim_def revert_unacked_def ack_def set_stage_def finish_from_runner_def upd_job_def upd_jobs_def
      claim_artifacts release_def mark_offline_def mark_connected_def update_labels_def touch_last_seen_def
      touch_last_seen_with_health_def exchange_bootstrap_token_def upd_runners_def case_prod_unfold Let_def)+

lemma find_assigned_id: "find_assigned db jid rid = Some job \<Longrightarrow> pj_id job = jid"
  by (auto simp: find_assigned_def dest!: fetch_optional_Some)

lemma valid_checksum_length: "valid_checksum c = Some c' \<Longrightarrow> length c' = 64"
  by (auto simp: valid_checksum_def to_ascii_lowercase_def split: if_splits)

lemma request_within: "within_limits (wd_config w) (st_db s) \<Longrightarrow>
    within_limits (wd_config w) (st_db (snd (handle_artifact_request w i rid jid name n ct s)))"
  by (auto simp: handle_artifact_request_def grant_upload_def within_limits_def Let_def case_prod_unfold tables_of(10)
      intro!: insert_pending_ok classify_known split: option.splits)

lemma failed_within: "within_limits cf db \<Longrightarrow> within_limits cf (mark_failed jid name db)"
  unfolding within_limits_def mark_failed_def by (rule upd_artifacts_ok) (auto simp: artifact_ok_def)

lemma uploaded_within:
  assumes "within_limits cf db" "0 < n" "n \<le> cf_max_artifact_bytes cf" "length checksum = 64"
  shows "within_limits cf (snd (mark_uploaded jid name n checksum manifest db))"
  using assms unfolding within_limits_def mark_uploaded_def Let_def snd_conv
  by (intro upd_artifacts_ok) (auto simp: artifact_ok_def)

lemma record_within:
  assumes "within_limits cf (st_db s)" "0 < n" "n \<le> cf_max_artifact_bytes cf" "length checksum = 64"
  shows "within_limits cf (st_db (record_upload ws pid jid name n checksum manifest s))"
  using uploaded_within [OF assms, of jid name manifest] tables_of(10) [of "mark_uploaded jid name n checksum manifest" s]
  by (auto simp: record_upload_def limits_conn.audit split: prod.splits option.splits)

lemma done_within: "within_limits (wd_config w) (st_db s) \<Longrightarrow>
    within_limits (wd_config w) (st_db (snd (handle_artifact_done w rid jid name c u f es s)))"
  by (auto simp: handle_artifact_done_def failed_within intro!: record_within dest: valid_checksum_length split: option.splits sum.splits)

interpretation limits_sys: kept_sys "within_limits (wd_config w)" w for w
  by unfold_locales
    (auto intro: limits_conn.msg.on_runner_msg_with request_within done_within within_limits_same simp: create_other)


section \<open>The guarantees of the server\<close>

text \<open>
  The server never rewrites history.  Whatever sequence of scheduler passes, creations,
  cancellations, connections, runner messages and disconnects runs, in any order and with any
  content the runners choose to send, the ledger stays exact (one completion event for every
  completed pipeline, none for an open one), a completed pipeline keeps its row, and a
  completed job keeps its conclusion, exit code, runner and times.
\<close>

theorem server_keeps_history:
  assumes "ledger_ok (st_db (sy_app y))"
  shows "ledger_ok (st_db (sy_app (fold (sys_step w) ops y))) \<and>
    set (finished_rows (st_db (sy_app y))) \<subseteq> set (finished_rows (st_db (sy_app (fold (sys_step w) ops y)))) \<and>
    (\<forall>i<length (db_jobs (st_db (sy_app y))). pj_status (db_jobs (st_db (sy_app y)) ! i) = ''completed'' \<longrightarrow>
       final_part (db_jobs (st_db (sy_app (fold (sys_step w) ops y))) ! i) = final_part (db_jobs (st_db (sy_app y)) ! i))"
proof (intro conjI allI impI)
  let ?db = "st_db (sy_app y)" and ?db' = "st_db (sy_app (fold (sys_step w) ops y))"
  have "ledger_from (set (finished_rows ?db)) ?db" using assms by (simp add: ledger_from_def)
  from led_sys.run [OF this] show "ledger_ok ?db'" "set (finished_rows ?db) \<subseteq> set (finished_rows ?db')"
    by (simp_all add: ledger_from_def)
  fix i assume i: "i < length (db_jobs ?db)" "pj_status (db_jobs ?db ! i) = ''completed''"
  have "jobs_since ?db ?db" by (simp add: jobs_since_def)
  from jobs_sys.run [OF this] i(1) have "job_step\<^sup>*\<^sup>* (db_jobs ?db ! i) (db_jobs ?db' ! i)"
    by (simp add: jobs_since_def)
  from steps_terminal [OF this i(2)] show "final_part (db_jobs ?db' ! i) = final_part (db_jobs ?db ! i)" by blast
qed

text \<open>
  C18: Artifacts stay within their limits.  Whatever runs, and whatever sizes, names, checksums
  and manifests the runners report, every artifact row has a name that is safe in an object key
  and a kind of the allow list, no job has two rows of one name or more rows than configured,
  and an uploaded artifact has a positive size within the limit and a checksum of 64 digits.
\<close>

theorem artifacts_stay_within_limits:
  assumes "within_limits (wd_config w) (st_db (sy_app y))"
  shows "within_limits (wd_config w) (st_db (sy_app (fold (sys_step w) ops y)))"
  by (rule limits_sys.run [OF assms])

definition demo_sys :: Sys where
  "demo_sys = \<lparr>sy_server = upd_app (\<lambda>a. a\<lparr>st_db := (st_db a)\<lparr>db_jobs := [done_job, demo_job],
       db_artifacts := [\<lparr>ar_id = 5, ar_workspace_id = 10, ar_pipeline_id = 10, ar_job_id = 11, ar_name = ''a'', ar_r2_key = ''k'',
         ar_storage_backend = ''r2'', ar_size_bytes = Some 1, ar_content_type = None,
         ar_checksum_sha256 = Some (replicate 64 (CHR ''0'')), ar_status = ''uploaded'', ar_kind = ''other'',
         ar_uncompressed_bytes = None, ar_file_count = None, ar_entries = None, ar_created_at = 0, ar_expires_at = None\<rparr>]\<rparr>\<rparr>)
       demo_server, sy_sessions = []\<rparr>"

lemma demo_sys_db:
  "db_jobs (st_db (sy_app demo_sys)) = [done_job, demo_job]" "db_pipelines (st_db (sy_app demo_sys)) = [demo_run]"
  "db_events (st_db (sy_app demo_sys)) = []" "map ar_status (db_artifacts (st_db (sy_app demo_sys))) = [''uploaded'']"
  by (simp_all add: demo_sys_def demo_server_def upd_app_def empty_db_def)

theorem server_keeps_history_witness:
  "\<forall>ops. ledger_ok (st_db (sy_app (fold (sys_step demo_world) ops demo_sys))) \<and>
     pj_conclusion (db_jobs (st_db (sy_app (fold (sys_step demo_world) ops demo_sys))) ! 0) = Some ''cancelled''"
proof
  fix ops
  let ?db = "st_db (sy_app (fold (sys_step demo_world) ops demo_sys))"
  have "ledger_ok (st_db (sy_app demo_sys))"
    by (simp add: ledger_ok_def done_ids_def demo_sys_db demo_run_def pipeline_row_def)
  from server_keeps_history [OF this, of demo_world ops] have l: "ledger_ok ?db"
    and f: "final_part (db_jobs ?db ! 0) = final_part done_job"
    by (auto simp: demo_sys_db done_job_def conclude_queued_def)
  from f have "pj_conclusion (final_part (db_jobs ?db ! 0)) = pj_conclusion (final_part done_job)" by (rule arg_cong)
  with l show "ledger_ok ?db \<and> pj_conclusion (db_jobs ?db ! 0) = Some ''cancelled''"
    by (simp add: final_part_def done_job_def conclude_queued_def)
qed

theorem artifacts_stay_within_limits_witness:
  "map ar_status (db_artifacts (st_db (sy_app demo_sys))) = [''uploaded''] \<and>
   (\<forall>ops. within_limits (wd_config demo_world) (st_db (sy_app (fold (sys_step demo_world) ops demo_sys))))"
proof -
  have "is_safe_name_segment ''a''"
    by (simp add: is_safe_name_segment_def starts_with_def chars_ascii ascii_def ascii_class_defs)
  then have "within_limits (wd_config demo_world) (st_db (sy_app demo_sys))"
    by (simp add: within_limits_def artifacts_ok_def artifact_ok_def count_for_job_def demo_sys_def upd_app_def demo_server_def
        demo_world_def KINDS_def)
  from artifacts_stay_within_limits [OF this] show ?thesis by (simp add: demo_sys_db)
qed

text \<open>
  A revoked runner is out.  A run of the server never brings a revoked runner back: it stays
  revoked, its row stays offline, and the scheduler is never offered it.
\<close>

lemma revoked_runner_stays_out:
  assumes "i < length (db_runners (st_db (sy_app y)))" "runner_ok (db_runners (st_db (sy_app y)) ! i)"
    and "rn_revoked_at (db_runners (st_db (sy_app y)) ! i) = Some t"
  shows "rn_revoked_at (db_runners (st_db (sy_app (fold (sys_step w) ops y))) ! i) = Some t \<and>
    \<not> schedulable (db_runners (st_db (sy_app (fold (sys_step w) ops y))) ! i)"
proof -
  have "runner_moves (st_db (sy_app y)) (st_db (sy_app (fold (sys_step w) ops y)))" by (rule runners_sys.run) simp
  then have m: "runner_step\<^sup>*\<^sup>* (db_runners (st_db (sy_app y)) ! i) (db_runners (st_db (sy_app (fold (sys_step w) ops y))) ! i)"
    using assms(1) by (simp add: runner_moves_def list_all2_nthD)
  show ?thesis using steps_revoked [OF m assms(2,3)] steps_runner_ok [OF m assms(2)]
    by (auto simp: runner_ok_def schedulable_def)
qed

end
