(* ===== verification/Confine.thy ===== *)
theory Confine
  imports System
begin

text \<open>
  How far a runner's messages reach: the rows of the jobs it does not hold stay as they are, but
  for the dependents skipped because of it; the log of a job is the exception.
\<close>

section \<open>Rows of other jobs\<close>

definition working_on :: "uuid \<Rightarrow> PipelineJob \<Rightarrow> bool" where
  "working_on rid j \<longleftrightarrow> pj_runner_id j = Some rid \<and> pj_status j = ''in_progress''"

text \<open>Nothing but the count of log bytes changed, or the job was waiting and has been skipped.\<close>

definition but_logs :: "PipelineJob \<Rightarrow> PipelineJob" where
  "but_logs j = j\<lparr>pj_log_bytes := 0\<rparr>"

definition row_confined :: "uuid \<Rightarrow> PipelineJob \<Rightarrow> PipelineJob \<Rightarrow> bool" where
  "row_confined rid j j' \<longleftrightarrow> working_on rid j \<or> but_logs j' = but_logs j \<or>
     pj_status j = ''queued'' \<and> (\<exists>now. but_logs j' = but_logs (conclude_queued now ''skipped'' j))"

definition confined :: "uuid \<Rightarrow> Db \<Rightarrow> Db \<Rightarrow> bool" where
  "confined rid db0 db \<longleftrightarrow> list_all2 (row_confined rid) (db_jobs db0) (db_jobs db)"

lemma confined_same: "confined rid db0 db \<Longrightarrow> db_jobs db' = db_jobs db \<Longrightarrow> confined rid db0 db'"
  by (simp add: confined_def)

lemma but_logs_cong:
  "but_logs j' = but_logs j \<Longrightarrow> pj_status j' = pj_status j \<and> pj_runner_id j' = pj_runner_id j \<and> pj_id j' = pj_id j"
  by (cases j; cases j') (simp add: but_logs_def)

lemma but_logs_skip: "but_logs j' = but_logs j \<Longrightarrow> but_logs (conclude_queued now c j') = but_logs (conclude_queued now c j)"
  by (cases j; cases j') (simp add: but_logs_def conclude_queued_def)

lemma skipped_status: "but_logs j' = but_logs (conclude_queued now c j) \<Longrightarrow> pj_status j' = ''completed''"
  by (cases j; cases j') (simp add: but_logs_def conclude_queued_def)

text \<open>A statement that moves only rows the runner holds, counts log bytes or skips keeps \<open>confined\<close>.\<close>

lemma confined_update:
  assumes "confined rid db0 db"
    and own: "\<And>j. Q j \<Longrightarrow> working_on rid j \<or> but_logs (f j) = but_logs j \<or> pj_status j = ''queued'' \<and> f j = conclude_queued now ''skipped'' j"
  shows "confined rid db0 (db\<lparr>db_jobs := update_where Q f (db_jobs db)\<rparr>)"
proof -
  have "row_confined rid j (if Q j' then f j' else j')" if r: "row_confined rid j j'" for j j'
  proof (cases "Q j'")
    case True
    consider "working_on rid j'" | "but_logs (f j') = but_logs j'" | "pj_status j' = ''queued''" "f j' = conclude_queued now ''skipped'' j'"
      using own [OF True] by blast
    then show ?thesis
    proof cases
      case 1
      with r but_logs_cong [of j' j] skipped_status [of j' _ "''skipped''" j] show ?thesis
        by (auto simp: row_confined_def working_on_def)
    next
      case 2
      with r True show ?thesis by (auto simp: row_confined_def)
    next
      case 3
      with r True but_logs_cong [of j' j] but_logs_skip [of j' j] skipped_status [of j' _ "''skipped''" j] show ?thesis
        by (auto simp: row_confined_def)
    qed
  qed (use r in simp)
  with assms(1) show ?thesis
    by (simp add: confined_def update_where_def list_all2_conv_all_nth)
qed

lemma confined_upd_job:
  "confined rid db0 db \<Longrightarrow> (\<And>j. Q j \<Longrightarrow> working_on rid j) \<Longrightarrow> confined rid db0 (snd (upd_job Q f db))"
  using confined_update [of rid db0 db Q f] by (simp add: upd_job_def upd_jobs_def)

interpretation out: kept_msg "confined rid db0" rid for rid db0
proof unfold_locales
  fix now ids db assume "confined rid db0 db"
  then show "confined rid db0 (snd (mark_skipped now ids db))"
    unfolding mark_skipped_def upd_jobs_def snd_conv by (rule confined_update) auto
next
  fix i n db assume c: "confined rid db0 db"
  then have "confined rid db0 (db\<lparr>db_jobs := update_where (\<lambda>j. pj_id j = i) (\<lambda>j. j\<lparr>pj_log_bytes := pj_log_bytes j + n\<rparr>) (db_jobs db)\<rparr>)"
    by (rule confined_update) (simp add: but_logs_def)
  with c show "confined rid db0 (snd (add_log_bytes db i n))"
    by (auto simp: add_log_bytes_def Let_def split: option.splits)
next
  fix s :: AppState and pid assume "confined rid db0 (st_db s)"
  then show "confined rid db0 (st_db (maybe_finalize pid s))" by (rule confined_same) simp
next
  fix now i st db and c code cat metrics assume c: "confined rid db0 db"
  then show "confined rid db0 (snd (ack now i rid db))" "confined rid db0 (snd (set_stage i rid st db))"
    "confined rid db0 (snd (finish_from_runner now i rid c code cat metrics db))"
    by (auto simp: ack_def set_stage_def finish_from_runner_def working_on_def intro!: confined_upd_job)
qed (erule confined_same; simp add: append_def add_audit_def insert_chunk_def mark_in_progress_def upd_pipeline_def
    release_def touch_last_seen_def touch_last_seen_with_health_def upd_runners_def Let_def)+

lemma artifact_messages_jobs:
  "db_jobs (st_db (snd (handle_artifact_request w i rid jid name n ct s))) = db_jobs (st_db s)"
  "db_jobs (st_db (snd (handle_artifact_done w rid jid name c u f es s))) = db_jobs (st_db s)"
  by (auto simp: handle_artifact_request_def grant_upload_def handle_artifact_done_def record_upload_def with_db_def tables_of
      insert_pending_def mark_uploaded_def mark_failed_def upd_artifacts_def add_audit_def Let_def case_prod_unfold
      split: option.splits sum.splits prod.splits)

lemma confined_refl: "confined rid db db"
  by (simp add: confined_def row_confined_def list_all2_same)


section \<open>The log of a job that is over\<close>

text \<open>
  The log is the exception.  A connection remembers the jobs it has acknowledged and never
  looks again: once a job is over, timed out for instance, or has gone to another runner, and
  its masks have been cleared, what the old runner still sends is stored as it comes, secrets
  included.
\<close>

theorem late_log_stored:
  assumes "map_of active jid = Some (pid, n)" "find_assigned (st_db s) jid rid = None"
    and "hub_masks (st_log_hub s) jid = None"
    and "j \<in> set (db_jobs (st_db s))" "pj_id j = jid" "\<forall>k\<in>set (db_jobs (st_db s)). pj_log_bytes k < st_max_log_bytes s"
    and "cap_chunk chunk = chunk" "chunk \<noteq> []" "length chunk < 2147483647" "int seq < 2 ^ 63 - 1"
    and "\<not> has_chunk (st_db s) jid (int seq)" "int seq \<noteq> OVERFLOW_MARKER_SEQ"
  shows "\<exists>r\<in>set (db_chunks (st_db (snd (snd (on_log rid jid seq stream chunk step phase (active, s)))))).
    lr_job_id r = jid \<and> lc_content (lr_chunk r) = chunk"
proof -
  have seq: "min seq 9223372036854775807 = seq" using assms(10) by simp
  let ?f = "\<lambda>j. j\<lparr>pj_log_bytes := pj_log_bytes j + int (length chunk)\<rparr>"
  from assms(4,5) have "fetch_optional (returning (\<lambda>j. pj_id j = jid) ?f (db_jobs (st_db s))) \<noteq> None"
    by (auto simp: returning_def filter_empty_conv)
  then obtain k' where k': "fetch_optional (returning (\<lambda>j. pj_id j = jid) ?f (db_jobs (st_db s))) = Some k'"
    unfolding not_None_eq by (rule exE)
  from fetch_optional_Some [OF this] obtain k where k: "k \<in> set (db_jobs (st_db s))" "k' = ?f k"
    by (auto simp: set_returning)
  let ?db = "(st_db s)\<lparr>db_jobs := update_where (\<lambda>j. pj_id j = jid) ?f (db_jobs (st_db s))\<rparr>"
  have a: "add_log_bytes (st_db s) jid (int (length chunk)) = (Inr (pj_log_bytes k + int (length chunk)), ?db)"
    by (simp add: add_log_bytes_def k' k(2))
  let ?c = "new_chunk (int seq) chunk (LogStream_as_str stream, log_step_index n step, log_phase phase)"
  have new: "insert_chunk (st_now s) jid ?c ?db = ?db\<lparr>db_chunks := db_chunks (st_db s) @ [chunk_row (st_now s) jid ?c]\<rparr>"
    using assms(11) by (simp add: insert_chunk_def has_chunk_def new_chunk_def)
  have room: "\<not> st_max_log_bytes s \<le> pj_log_bytes k" using assms(6) k(1) by auto
  have "snd (snd (write_chunk (st_now s) (st_max_log_bytes s) pid jid (int seq) chunk
      (LogStream_as_str stream, log_step_index n step, log_phase phase) (st_log_hub s, st_db s))) \<in>
    {insert_chunk (st_now s) jid ?c ?db, insert_chunk (st_now s) jid marker_chunk (insert_chunk (st_now s) jid ?c ?db)}"
    using assms(9) room by (simp add: write_chunk_def a Let_def put_chunk_def insert_chunks_def min_absorb1)
  then have "chunk_row (st_now s) jid ?c \<in> set (db_chunks (snd (snd (write_chunk (st_now s) (st_max_log_bytes s) pid jid (int seq) chunk
      (LogStream_as_str stream, log_step_index n step, log_phase phase) (st_log_hub s, st_db s)))))"
    unfolding new by (auto simp: insert_chunk_def)
  then show ?thesis
    using assms(1,3,7,8,12)
    by (intro bexI [of _ "chunk_row (st_now s) jid ?c"])
      (simp_all add: on_log_def with_logs_def ingest_log_def mask_chunk_def seq Let_def case_prod_unfold chunk_row_def new_chunk_def)
qed

theorem late_log_stored_witness:
  "pj_status (db_jobs (st_db (sy_app demo_sys)) ! 0) = ''completed'' \<and>
   (\<exists>r\<in>set (db_chunks (st_db (snd (snd (on_log 3 7 9 Stdout ''hunter22'' None None
        ([(7, 1, 0)], sy_app demo_sys)))))). lr_job_id r = 7 \<and> lc_content (lr_chunk r) = ''hunter22'')"
proof
  show "pj_status (db_jobs (st_db (sy_app demo_sys)) ! 0) = ''completed''"
    by (simp add: demo_sys_db done_job_def conclude_queued_def)
  show "\<exists>r\<in>set (db_chunks (st_db (snd (snd (on_log 3 7 9 Stdout ''hunter22'' None None
        ([(7, 1, 0)], sy_app demo_sys)))))). lr_job_id r = 7 \<and> lc_content (lr_chunk r) = ''hunter22''"
  proof (rule late_log_stored)
    show "cap_chunk ''hunter22'' = ''hunter22''"
      by (simp add: cap_chunk_def truncate_utf8_id MAX_CHUNK_BYTES_def lines_def MAX_LINE_BYTES_def strip_cr_def Let_def)
    show "map_of [(7, 1, 0)] 7 = Some (1, 0)" by simp
    show "done_job \<in> set (db_jobs (st_db (sy_app demo_sys)))" "pj_id done_job = 7"
      by (simp_all add: demo_sys_db done_job_def conclude_queued_def job_row_def)
  qed (simp_all add: demo_sys_db find_assigned_def done_job_def conclude_queued_def job_row_def demo_job_def demo_sys_def
      upd_app_def demo_server_def LogHub_default_def has_chunk_def empty_db_def OVERFLOW_MARKER_SEQ_def)
qed

end
