(* ===== verification/Contained.thy ===== *)
theory Contained
  imports Confine
begin

text \<open>
  What a dispatch that did not reach the runner leaves behind, and two limits of the matching.
\<close>

section \<open>A dispatch that fails\<close>

text \<open>The outcomes that end the job, with the category stored on its row.\<close>

fun fail_category :: "AppError + DispatchOutcome \<Rightarrow> rstr option" where
  "fail_category (Inr CheckoutUnavailable) = Some ''checkout_unavailable''"
| "fail_category (Inr SecretsUnavailable) = Some ''secrets_unavailable''"
| "fail_category (Inr WorkdirInvalid) = Some ''workdir_invalid''"
| "fail_category _ = None"

lemma dispatch_hub:
  assumes "fst (dispatch w job rid s) \<noteq> Inr Sent"
  shows "st_runner_hub (sv_app (snd (dispatch w job rid s))) = st_runner_hub (sv_app s)"
proof -
  have d: "st_runner_hub (sv_app (snd (deliver w job rid p ids t))) = st_runner_hub (sv_app t)"
    if "fst (deliver w job rid p ids t) \<noteq> Inr Sent" for p ids t
    using that by (auto simp: deliver_def on_app_def send_runner_def hub_send_def Let_def case_prod_unfold
        split: option.splits if_splits)
  show ?thesis
    using assms by (auto simp: dispatch_def Let_def d upd_app_def split: option.splits sum.splits)
qed

definition queued_clean :: "Db \<Rightarrow> bool" where
  "queued_clean db \<longleftrightarrow> jobs_ok db \<and> list_all (\<lambda>j. pj_status j = ''queued'' \<longrightarrow> pj_assigned_at j = None) (db_jobs db) \<and>
     distinct (map pj_id (db_jobs db)) \<and> distinct (map rn_id (db_runners db))"

text \<open>Undoing a claim puts both tables back.\<close>

lemma update_where_twice:
  assumes "\<And>r. r \<in> set rows \<Longrightarrow> (if Q (if P r then f r else r) then g (if P r then f r else r) else (if P r then f r else r)) = r"
  shows "update_where Q g (update_where P f rows) = rows"
  using assms by (auto simp: update_where_def intro!: map_idI)

lemma undone_jobs:
  assumes "queued_clean db" "claim_for_runner now jid rid db = (Some c, db1)"
  shows "db_jobs (snd (unclaim jid db1)) = db_jobs db"
proof -
  let ?Q = "\<lambda>j. pj_id j = jid \<and> pj_status j = ''in_progress'' \<and> pj_stage j = ''assigned''"
  note c = claim_Some [OF assms(2)]
  obtain k where k: "k \<in> set (db_jobs db)" "claimable jid k" using c(3) by (auto simp: set_returning)
  have uniq: "j = k" if "j \<in> set (db_jobs db)" "pj_id j = jid" for j
    using assms(1) k that by (auto simp: queued_clean_def distinct_map inj_on_def claimable_def)
  have undone: "to_queue (assign_to now rid k) = k"
    using assms(1) k by (auto simp: to_queue_def assign_to_def queued_clean_def jobs_ok_def job_ok_def list_all_iff claimable_def
        intro!: PipelineJob.equality)
  have "update_where ?Q to_queue (update_where (claimable jid) (assign_to now rid) (db_jobs db)) = db_jobs db"
  proof (rule update_where_twice)
    fix j assume j: "j \<in> set (db_jobs db)"
    show "(if ?Q (if claimable jid j then assign_to now rid j else j) then to_queue (if claimable jid j then assign_to now rid j else j)
        else (if claimable jid j then assign_to now rid j else j)) = j"
    proof (cases "j = k")
      case True
      with k(2) undone show ?thesis by (simp add: claimable_def assign_to_def)
    next
      case False
      with uniq [OF j] show ?thesis by (auto simp: claimable_def)
    qed
  qed
  then show ?thesis by (simp add: unclaim_def upd_defs c(1))
qed

lemma undone_runners:
  assumes "queued_clean db" "claim_for_runner now jid rid db = (Some c, db1)"
    and "\<And>r. r \<in> set (db_runners db) \<Longrightarrow> rn_id r = rid \<Longrightarrow> schedulable r"
  shows "db_runners (release rid db1) = db_runners db"
proof -
  have "update_where (\<lambda>r. rn_id r = rid \<and> rn_status r = ''busy'')
      (\<lambda>r. r\<lparr>rn_status := (if rn_draining_at r \<noteq> None then ''offline'' else ''idle''), rn_draining_at := None\<rparr>)
      (update_where (idle_runner rid) make_busy (db_runners db)) = db_runners db"
  proof (rule update_where_twice, goal_cases)
    case (1 r)
    then show ?case
      using assms(3) [OF 1] by (cases r) (auto simp: idle_runner_def make_busy_def schedulable_def)
  qed
  then show ?thesis by (simp add: release_def upd_runners_def claim_Some(2) [OF assms(2)])
qed

lemma final_part_outcome:
  "final_part j = final_part k \<Longrightarrow> pj_conclusion j = pj_conclusion k \<and> pj_error_category j = pj_error_category k"
  by (cases j; cases k) (simp add: final_part_def)

text \<open>A job that is failed closed ends with the category, whatever becomes of its log.\<close>

lemma fail_closed_rows:
  assumes "j \<in> set (db_jobs (st_db s))" "pj_id j = pj_id c" "pj_status j \<noteq> ''completed''"
  shows "\<exists>j'\<in>set (db_jobs (st_db (snd (fail_closed c rid cat s)))). pj_id j' = pj_id c \<and> pj_status j' = ''completed'' \<and>
    pj_conclusion j' = Some ''failure'' \<and> pj_error_category j' = Some cat"
proof -
  define t where "t = release_runner (Some rid) (clear_job_masks (pj_id c) s)"
  have t: "db_jobs (st_db t) = db_jobs (st_db s)"
    by (simp add: t_def tables_of release_def upd_runners_def)
  obtain i where i: "i < length (db_jobs (st_db t))" "db_jobs (st_db t) ! i = j"
    using assms(1) t by (metis in_set_conv_nth)
  let ?ff = "force_finish (st_now t) (pj_id c) ''failure'' (Some cat) (st_db t)"
  let ?k = "db_jobs (snd ?ff) ! i"
  have k: "pj_status ?k = ''completed''" "pj_conclusion ?k = Some ''failure''" "pj_error_category ?k = Some cat" "pj_id ?k = pj_id c"
    using i assms(2,3) by (simp_all add: force_finish_def upd_defs)
  have len: "length (db_jobs (snd ?ff)) = length (db_jobs (st_db t))" by (rule force.row_count)
  have hit: "fst ?ff \<noteq> None"
    using assms(1-3) t by (auto simp: force_finish_def upd_defs returning_Nil)
  then obtain f where f: "with_db (force_finish (st_now t) (pj_id c) ''failure'' (Some cat)) t = (Some f, t\<lparr>st_db := snd ?ff\<rparr>)"
    by (auto simp: with_db_def case_prod_unfold)
  have "jobs_since (snd ?ff) (st_db (t\<lparr>st_db := snd ?ff\<rparr>))" by (simp add: jobs_since_def)
  from jobs_ws.on_job_finished [OF this, of f] have s': "jobs_since (snd ?ff) (st_db (snd (fail_closed c rid cat s)))"
    by (simp add: fail_closed_def force_end_def t_def [symmetric] f)
  define j' where "j' = db_jobs (st_db (snd (fail_closed c rid cat s))) ! i"
  from s' i(1) len have m: "job_step\<^sup>*\<^sup>* ?k j'" "j' \<in> set (db_jobs (st_db (snd (fail_closed c rid cat s))))"
    by (auto simp: jobs_since_def j'_def)
  from steps_terminal [OF m(1) k(1)] have "final_part j' = final_part ?k" "pj_status j' = ''completed''" by auto
  moreover have "pj_id j' = pj_id ?k" using steps_identity [OF m(1)] by (simp add: identity_part_def)
  ultimately show ?thesis using final_part_outcome [of j' ?k] k m(2) by auto
qed

lemma fold_hub: "(\<And>x t. st_runner_hub (f x t) = st_runner_hub t) \<Longrightarrow> st_runner_hub (fold f xs s) = st_runner_hub s"
  by (induction xs arbitrary: s) simp_all

lemma skip_dependents_hub: "st_runner_hub (skip_dependents pid s) = st_runner_hub s"
  by (simp add: skip_dependents_def Let_def case_prod_unfold fold_hub skip_one_def)

lemma finished_hub: "st_runner_hub (snd (on_job_finished job s)) = st_runner_hub s"
  using runner_hub_same(12) [of job s]
  by (cases "flush_logs job s"; cases "fst (flush_logs job s)")
    (simp_all add: on_job_finished_def Let_def skip_dependents_hub)

lemma fail_closed_hub: "st_runner_hub (snd (fail_closed c rid cat s)) = st_runner_hub s"
proof -
  have "st_runner_hub (snd (force_end jid con ca t)) = st_runner_hub t" for jid con ca t
  proof -
    obtain x t1 where w: "with_db (force_finish (st_now t) jid con ca) t = (x, t1)" by fastforce
    with runner_hub_same(11) [of "force_finish (st_now t) jid con ca" t] have "st_runner_hub t1 = st_runner_hub t" by simp
    then show ?thesis by (cases x) (simp_all add: force_end_def w finished_hub)
  qed
  then show ?thesis by (simp add: fail_closed_def clear_job_masks_def)
qed

text \<open>
  C7: A dispatch that fails is contained.  When the scheduler has claimed a job for a runner and
  the dispatch does not end in a delivery, no runner's queue has changed; if the runner was
  not reached or the payload could not be built, the job and runner tables are exactly what
  they were before the claim; in the three cases where the job must not run (no checkout, no
  secrets, an unsafe working directory) the job is completed as failed with the category of
  its case and never runs.
\<close>

theorem failed_dispatch_contained:
  assumes "queued_clean (st_db (sv_app s))"
    and "pick_runner (find_idle_by_ids (st_db (sv_app s)) ids) used job = Some r"
    and "claim_for_runner (st_now (sv_app s)) (pj_id job) (rn_id r) (st_db (sv_app s)) = (Some c, db1)"
    and "fst (dispatch w c (rn_id r) (upd_app (\<lambda>a. a\<lparr>st_db := db1\<rparr>) s)) = outcome" "outcome \<noteq> Inr Sent"
    and "s' = snd (assign_one w (find_idle_by_ids (st_db (sv_app s)) ids) used job s)"
  shows "st_runner_hub (sv_app s') = st_runner_hub (sv_app s) \<and>
    (case fail_category outcome of
       None \<Rightarrow> db_jobs (st_db (sv_app s')) = db_jobs (st_db (sv_app s)) \<and>
         db_runners (st_db (sv_app s')) = db_runners (st_db (sv_app s))
     | Some cat \<Rightarrow> \<exists>j\<in>set (db_jobs (st_db (sv_app s'))). pj_id j = pj_id job \<and> pj_status j = ''completed'' \<and>
         pj_conclusion j = Some ''failure'' \<and> pj_error_category j = Some cat)"
proof -
  let ?s1 = "upd_app (\<lambda>a. a\<lparr>st_db := db1\<rparr>) s"
  obtain s2 where d: "dispatch w c (rn_id r) ?s1 = (outcome, s2)" using assms(4) by (metis prod.collapse)
  have s2: "st_db (sv_app s2) = db1" "st_runner_hub (sv_app s2) = st_runner_hub (sv_app s)"
    using dispatch_db [of w c "rn_id r" ?s1] dispatch_hub [of w c "rn_id r" ?s1] assms(5) by (simp_all add: d)
  have one: "s' = snd (settle_dispatch c (rn_id r) outcome s2)"
    using d by (simp add: assms(2,3,6) assign_one_def on_app_def with_db_def upd_app_def and_then_def split: sum.splits)
  note claim = claim_Some [OF assms(3)]
  have c: "c \<in> set (db_jobs db1)" "pj_id c = pj_id job" "pj_status c \<noteq> ''completed''"
    using claim(1,3) returning_in_table by (fastforce, auto simp: set_returning claimable_def assign_to_def)
  have free: "schedulable x" if "x \<in> set (db_runners (st_db (sv_app s)))" "rn_id x = rn_id r" for x
  proof -
    from first_with_Some [OF assms(2) [unfolded pick_runner_def]]
    obtain y where "y \<in> set (db_runners (st_db (sv_app s)))" "schedulable y" "rn_id y = rn_id r"
      by (auto simp: find_idle_by_ids_def selected_def Runner.truncate_def)
    moreover have "inj_on rn_id (set (db_runners (st_db (sv_app s))))"
      using assms(1) by (simp add: queued_clean_def distinct_map)
    ultimately show ?thesis using that by (metis inj_onD)
  qed
  show ?thesis
  proof (cases "fail_category outcome")
    case None
    with assms(5) have "s' = upd_app (undo_claim c (rn_id r)) s2"
      by (cases outcome rule: fail_category.cases) (auto simp: one settle_dispatch_def)
    then have "st_db (sv_app s') = release (rn_id r) (snd (unclaim (pj_id job) db1))"
      "st_runner_hub (sv_app s') = st_runner_hub (sv_app s2)"
      by (simp_all add: undo_claim_def tables_of clear_job_masks_def c(2) s2(1))
    moreover have "db_jobs (release i db) = db_jobs db" "db_runners (release i (snd (unclaim j db))) = db_runners (release i db)" for i j db
      by (simp_all add: release_def upd_runners_def unclaim_def upd_defs)
    ultimately show ?thesis
      using None undone_jobs [OF assms(1,3)] undone_runners [OF assms(1,3) free] s2 by simp
  next
    case (Some cat)
    then have "sv_app s' = snd (fail_closed c (rn_id r) cat (sv_app s2))"
      by (cases outcome rule: fail_category.cases) (auto simp: one settle_dispatch_def and_then_def split: sum.splits)
    with Some fail_closed_rows [of c "sv_app s2" c "rn_id r" cat] fail_closed_hub [of c "rn_id r" cat "sv_app s2"] c s2
    show ?thesis by simp
  qed
qed

definition keyless_world :: World where
  "keyless_world = demo_world\<lparr>wd_secrets_key := None\<rparr>"

lemma demo_tables:
  "db_jobs (st_db (sv_app demo_server)) = [demo_job]" "db_runners (st_db (sv_app demo_server)) = [demo_runner]"
  "db_pipelines (st_db (sv_app demo_server)) = [demo_run]"
  by (simp_all add: demo_server_def empty_db_def)

lemma demo_clean: "queued_clean (st_db (sv_app demo_server))"
  by (simp add: queued_clean_def demo_tables jobs_ok_def job_ok_def demo_job_def job_row_def)

lemma demo_pick: "pick_runner (find_idle_by_ids (st_db (sv_app demo_server)) [3]) [] demo_job = Some (selected demo_runner)"
  by (simp add: pick_runner_def find_idle_by_ids_def demo_tables labels_satisfy_def eq_ignore_ascii_case_def schedulable_def
      demo_job_def job_row_def demo_runner_def runner_row_def selected_def Runner.truncate_def)

definition demo_claimed :: PipelineJob where
  "demo_claimed = assign_to 7 3 demo_job"

lemma demo_claim: "fst (claim_for_runner 7 11 3 (st_db (sv_app demo_server))) = Some demo_claimed"
  by (simp add: claim_for_runner_def upd_defs demo_tables claimable_def demo_job_def job_row_def idle_runner_def demo_runner_def
      runner_row_def returning_def demo_claimed_def)

lemma keyless_dispatch:
  "db_pipelines db1 = [demo_run] \<Longrightarrow>
   fst (dispatch keyless_world demo_claimed 3 (upd_app (\<lambda>a. a\<lparr>st_db := db1\<rparr>) demo_server)) = Inr SecretsUnavailable"
proof -
  assume p: "db_pipelines db1 = [demo_run]"
  have f: "find_pipeline db1 (pj_pipeline_id demo_claimed) = Some (pl_selected demo_run)"
    by (simp add: find_pipeline_def p demo_run_def pipeline_row_def demo_claimed_def assign_to_def demo_job_def job_row_def)
  have b: "build_checkout keyless_world (sv_vault demo_server) demo_repo ''abcdef0'' = Inr None"
    "dispatch_secrets keyless_world (sv_vault demo_server) 10 7 e = None" for e
    by (code_simp, simp add: dispatch_secrets_def keyless_world_def any_for_dispatch_def applies_def demo_server_def
        demo_secret_def secret_row_def list_ex_iff)
  show ?thesis
    by (simp add: dispatch_def f demo_dispatch_parts b)
qed

theorem failed_dispatch_contained_witness:
  "\<exists>j\<in>set (db_jobs (st_db (sv_app (snd (assign_one keyless_world (find_idle_by_ids (st_db (sv_app demo_server)) [3]) [] demo_job
      demo_server))))). pj_id j = 11 \<and> pj_error_category j = Some ''secrets_unavailable''"
proof -
  obtain db1 where c: "claim_for_runner 7 11 3 (st_db (sv_app demo_server)) = (Some demo_claimed, db1)"
    using demo_claim by (metis prod.collapse)
  have "db_pipelines db1 = [demo_run]"
    using claim_ledger(1) [of 7 11 3 "st_db (sv_app demo_server)"] by (simp add: c demo_tables)
  from keyless_dispatch [OF this] have d: "fst (dispatch keyless_world demo_claimed 3 (upd_app (\<lambda>a. a\<lparr>st_db := db1\<rparr>) demo_server))
    = Inr SecretsUnavailable" .
  have i: "rn_id (selected demo_runner) = 3" "pj_id demo_job = 11" "st_now (sv_app demo_server) = 7"
    by (simp_all add: selected_def Runner.truncate_def demo_runner_def runner_row_def demo_job_def job_row_def demo_server_def)
  from failed_dispatch_contained [OF demo_clean demo_pick, of demo_claimed db1 keyless_world "Inr SecretsUnavailable"] c d
  show ?thesis by (auto simp: i)
qed

section \<open>The head of the queue\<close>

lemma trim_tight: "utf8 s \<Longrightarrow> list_all (\<lambda>c. \<not> is_whitespace c) (chars s) \<Longrightarrow> trim s = s"
proof -
  assume u: "utf8 s" and l: "list_all (\<lambda>c. \<not> is_whitespace c) (chars s)"
  have drop: "list_all (\<lambda>c. \<not> is_whitespace c) cs \<Longrightarrow> dropWhile is_whitespace cs = cs" for cs by (cases cs) auto
  show ?thesis using l drop [OF l] drop [of "rev (chars s)"] of_chars_chars [OF u] by (simp add: trim_def list_all_rev)
qed

lemma assign_jobs_unmatched:
  "\<forall>job\<in>set jobs. pick_runner idle used job = None \<Longrightarrow> assign_jobs w idle used jobs s = (Inr (), s)"
  by (induction jobs) (simp_all add: assign_one_def)

text \<open>
  Jobs no runner can take hide the jobs behind them.  A pass looks at the first fifty eligible
  jobs only; when none of them matches a connected idle runner it assigns nothing, whatever
  waits further back, and as nothing has changed the next pass looks at the same fifty.
\<close>

theorem unmatchable_jobs_block_queue:
  assumes "\<forall>job\<in>set (find_eligible (st_db (sv_app s)) ASSIGN_BATCH).
     pick_runner (find_idle_by_ids (st_db (sv_app s)) (connected_ids (st_runner_hub (sv_app s)))) [] job = None"
  shows "assign_eligible w s = (Inr (), s)"
  using assign_jobs_unmatched [OF assms] by (simp add: assign_eligible_def Let_def)

definition gpu_job :: "nat \<Rightarrow> PipelineJob" where
  "gpu_job i = job_row 0 (100 + i) 10 ''train'' None [''gpu''] [] (JObj []) 60 0"

definition crowded_server :: Server where
  "crowded_server = upd_app (\<lambda>a. a\<lparr>st_db := (st_db a)\<lparr>db_jobs := map gpu_job [0..<50] @ [demo_job]\<rparr>\<rparr>) demo_server"

lemma crowded_idle:
  "find_idle_by_ids (st_db (sv_app crowded_server)) (connected_ids (st_runner_hub (sv_app crowded_server))) = [selected demo_runner]"
  by (simp add: crowded_server_def find_idle_by_ids_def demo_tables demo_server_def connected_ids_def hub_register_def
      RunnerHub_default_def schedulable_def demo_runner_def runner_row_def)

lemma crowded_eligible: "find_eligible (st_db (sv_app crowded_server)) ASSIGN_BATCH = map gpu_job [0..<50]"
proof -
  let ?db = "st_db (sv_app crowded_server)"
  have jobs: "db_jobs ?db = map gpu_job [0..<50] @ [demo_job]" by (simp add: crowded_server_def)
  have at0: "pj_queued_at j = 0 \<and> eligible ?db j" if "j \<in> set (db_jobs ?db)" for j
    using that unfolding jobs eligible_def live_pipeline_def blocked_by_needs_def
    by (auto simp: gpu_job_def demo_job_def job_row_def crowded_server_def demo_tables demo_run_def pipeline_row_def list_ex_iff)
  have "filter (eligible ?db) (db_jobs ?db) = db_jobs ?db" using at0 by (simp add: filter_id_conv)
  moreover have "sort_key pj_queued_at (db_jobs ?db) = db_jobs ?db"
    using at0 by (intro sort_key_id_if_sorted) (simp add: sorted_iff_nth_mono)
  ultimately show ?thesis by (simp add: find_eligible_def jobs ASSIGN_BATCH_def)
qed

theorem unmatchable_jobs_block_queue_witness:
  "demo_job \<in> set (db_jobs (st_db (sv_app crowded_server))) \<and>
   pick_runner [selected demo_runner] [] demo_job = Some (selected demo_runner) \<and>
   assign_eligible demo_world crowded_server = (Inr (), crowded_server)"
proof (intro conjI)
  show "demo_job \<in> set (db_jobs (st_db (sv_app crowded_server)))" by (simp add: crowded_server_def)
  show "pick_runner [selected demo_runner] [] demo_job = Some (selected demo_runner)"
    by (simp add: pick_runner_def labels_satisfy_def eq_ignore_ascii_case_def demo_job_def job_row_def demo_runner_def
        runner_row_def selected_def Runner.truncate_def)
  have t: "trim ''linux'' = ''linux''" "trim ''gpu'' = ''gpu''"
    by (auto intro!: trim_tight utf8_ascii simp: chars_ascii ascii_def is_whitespace_def)
  show "assign_eligible demo_world crowded_server = (Inr (), crowded_server)"
    by (rule unmatchable_jobs_block_queue)
      (auto simp: crowded_eligible crowded_idle pick_runner_def labels_satisfy_def eq_ignore_ascii_case_def gpu_job_def job_row_def
        t selected_def Runner.truncate_def demo_runner_def runner_row_def to_ascii_lowercase_def)
qed

section \<open>Whose runner\<close>

text \<open>The same tables with other owners of the runners.\<close>

definition owned_by :: "(uuid \<Rightarrow> uuid) \<Rightarrow> Db \<Rightarrow> Db" where
  "owned_by f db = db\<lparr>db_runners := map (\<lambda>r. r\<lparr>rn_workspace_id := f (rn_id r)\<rparr>) (db_runners db)\<rparr>"

lemma dispatch_pipelines:
  assumes "db_pipelines db' = db_pipelines (st_db (sv_app s))"
  shows "fst (dispatch w job rid (upd_app (\<lambda>a. a\<lparr>st_db := db'\<rparr>) s)) = fst (dispatch w job rid s)"
proof -
  have p: "find_pipeline db' i = find_pipeline (st_db (sv_app s)) i" for i by (simp add: find_pipeline_def assms)
  have b: "build_payload w (a\<lparr>st_db := db'\<rparr>) j r env steps co = build_payload w a j r env steps co" for a j r env steps co
    by (simp add: build_payload_def)
  have d: "fst (deliver w job rid pl ids t) = fst (deliver w job rid pl ids t')"
    if "st_runner_hub (sv_app t) = st_runner_hub (sv_app t')" for pl ids t t'
    using that by (auto simp: deliver_def on_app_def send_runner_def Let_def case_prod_unfold split: option.splits)
  show ?thesis
    by (auto simp: dispatch_def p Let_def build_payload_def intro!: d split: option.splits sum.splits)
qed

text \<open>
  The matching does not ask whose runner it is.  Who owns the runners has no influence on which
  runner a job is offered to, on the claim, or on what the dispatch sends: a runner registered
  in one workspace is handed the jobs, and with them the secrets, of every other.
\<close>

theorem matching_ignores_workspaces:
  "map rn_id (find_idle_by_ids (owned_by f db) ids) = map rn_id (find_idle_by_ids db ids) \<and>
   map_option rn_id (pick_runner (find_idle_by_ids (owned_by f db) ids) used job) =
     map_option rn_id (pick_runner (find_idle_by_ids db ids) used job) \<and>
   claim_for_runner now jid rid (owned_by f db) = apsnd (owned_by f) (claim_for_runner now jid rid db) \<and>
   fst (dispatch w job rid (upd_app (\<lambda>a. a\<lparr>st_db := owned_by f (st_db a)\<rparr>) s)) = fst (dispatch w job rid s)"
proof (intro conjI)
  let ?g = "\<lambda>r :: RunnerRow. r\<lparr>rn_workspace_id := f (rn_id r)\<rparr>"
  have sel: "rn_id (selected (?g r)) = rn_id (selected r)" "rn_labels (selected (?g r)) = rn_labels (selected r)" for r
    by (simp_all add: selected_def Runner.truncate_def)
  have idle: "find_idle_by_ids (owned_by f db) ids = map (\<lambda>r. selected (?g r)) (filter (\<lambda>r. rn_id r \<in> set ids \<and> schedulable r) (db_runners db))"
    by (simp add: find_idle_by_ids_def owned_by_def filter_map comp_def schedulable_def)
  show "map rn_id (find_idle_by_ids (owned_by f db) ids) = map rn_id (find_idle_by_ids db ids)"
    unfolding idle by (simp add: find_idle_by_ids_def sel)
  have pick: "map_option rn_id (first_with P (map (\<lambda>r. selected (?g r)) rs)) = map_option rn_id (first_with P (map selected rs))"
    if "\<And>r. P (selected (?g r)) = P (selected r)" for P rs
    using that by (induction rs) (simp_all add: sel)
  show "map_option rn_id (pick_runner (find_idle_by_ids (owned_by f db) ids) used job) =
      map_option rn_id (pick_runner (find_idle_by_ids db ids) used job)"
    unfolding idle pick_runner_def by (simp add: find_idle_by_ids_def pick sel)
  have upd: "update_where (idle_runner rid) make_busy (map ?g rs) = map ?g (update_where (idle_runner rid) make_busy rs)"
    "returning (idle_runner rid) make_busy (map ?g rs) = map ?g (returning (idle_runner rid) make_busy rs)" for rs
    by (induction rs) (auto simp: update_where_def returning_def idle_runner_def make_busy_def)
  show "claim_for_runner now jid rid (owned_by f db) = apsnd (owned_by f) (claim_for_runner now jid rid db)"
    by (auto simp: claim_for_runner_def upd_defs owned_by_def upd split: option.splits)
  show "fst (dispatch w job rid (upd_app (\<lambda>a. a\<lparr>st_db := owned_by f (st_db a)\<rparr>) s)) = fst (dispatch w job rid s)"
    using dispatch_pipelines [of "owned_by f (st_db (sv_app s))" s w job rid] by (simp add: owned_by_def upd_app_def)
qed

end
