(* ===== verification/Pages.thy ===== *)
theory Pages
  imports Listing Contained
begin

text \<open>
  What the listings promise: the search text is taken literally, the pages of a listing are the
  listing, and the reason shown for a waiting job is the scheduler's.
\<close>

section \<open>Search\<close>

definition meta :: "uchar set" where "meta = {37, 92, 95}"

lemma meta_chars: "{ch (CHR 0x5C), ch (CHR ''%''), ch (CHR ''_'')} = meta"
  by (auto simp: meta_def)

text \<open>Case folding leaves the three characters alone and makes none of them.\<close>

definition folds :: "(uchar \<Rightarrow> uchar) \<Rightarrow> bool" where
  "folds low \<longleftrightarrow> (\<forall>c. c \<notin> meta \<longrightarrow> low c \<notin> meta) \<and> (\<forall>c\<in>meta. low c = c)"

lemma folds_fix: "folds low \<Longrightarrow> c \<in> meta \<Longrightarrow> low c = c"
  by (simp add: folds_def)

lemma escape_like_chars:
  assumes "utf8 q"
  shows "chars (escape_like q @ s) = concat (map (\<lambda>c. if c \<in> meta then [92, c] else [c]) (chars q)) @ chars s"
proof -
  have "chars (concat (map (\<lambda>c. if c \<in> meta then CHR 0x5C # enc_char c else enc_char c) cs) @ s) =
      concat (map (\<lambda>c. if c \<in> meta then [92, c] else [c]) cs) @ chars s" if "\<forall>c\<in>set cs. scalar c" for cs
    using that
  proof (induction cs)
    case (Cons c cs)
    have "chars (CHR 0x5C # t) = 92 # chars t" for t using chars_1 [of 92 t] by simp
    with Cons show ?case by (simp add: chars_enc_char)
  qed simp
  from this [OF scalar_chars [OF assms]] show ?thesis by (simp only: escape_like_def meta_chars)
qed

lemma like_percent: "like (37 # p) [] = like p []" "like (37 # p) (c # s) = (like p (c # s) \<or> like (37 # p) s)"
  by (subst like.simps; simp)+

lemma like_escape: "like (92 # c # p) (x # s) \<longleftrightarrow> c = x \<and> like p s" "\<not> like (92 # p) []"
  by (subst like.simps; simp)+

lemma like_plain:
  assumes "c \<notin> meta"
  shows "like (c # p) (x # s) \<longleftrightarrow> c = x \<and> like p s" "\<not> like (c # p) []"
  using assms by (subst like.simps; simp add: meta_def)+

declare like.simps(2) [simp del]

lemma like_literal:
  assumes "folds low"
  shows "like (map low (concat (map (\<lambda>c. if c \<in> meta then [92, c] else [c]) cs)) @ [37]) s \<longleftrightarrow> prefix (map low cs) s"
proof (induction cs arbitrary: s)
  case Nil
  have "like [37] s" by (induction s) (simp_all add: like_percent)
  then show ?case by simp
next
  case (Cons c cs)
  show ?case
  proof (cases "c \<in> meta")
    case True
    from folds_fix [OF assms this] have "low c = c" .
    moreover have "low 92 = 92" by (rule folds_fix [OF assms]) (simp add: meta_def)
    ultimately show ?thesis using True by (cases s) (simp_all add: Cons like_escape)
  next
    case False
    with assms have "low c \<notin> meta" by (auto simp: folds_def)
    with False show ?thesis by (cases s) (simp_all add: Cons like_plain)
  qed
qed

lemma like_anywhere: "like (37 # p @ [37]) s \<longleftrightarrow> (\<exists>a b. s = a @ b \<and> like (p @ [37]) b)"
proof (induction s)
  case (Cons c s)
  then show ?case by (auto simp: like_percent Cons_eq_append_conv)
qed (simp add: like_percent)

lemma search_literal:
  assumes "utf8 q" "folds low"
  shows "ilike low (search_pattern q) s \<longleftrightarrow> sublist (map low (chars q)) (map low (chars s))"
proof -
  have "chars (CHR ''%'' # t) = 37 # chars t" for t using chars_1 [of 37 t] by simp
  then have "chars (search_pattern q) = 37 # concat (map (\<lambda>c. if c \<in> meta then [92, c] else [c]) (chars q)) @ [37]"
    using escape_like_chars [OF assms(1), of "''%''"] by (simp add: search_pattern_def)
  moreover have "low 37 = 37" by (rule folds_fix [OF assms(2)]) (simp add: meta_def)
  ultimately have "ilike low (search_pattern q) s \<longleftrightarrow>
      like (37 # map low (concat (map (\<lambda>c. if c \<in> meta then [92, c] else [c]) (chars q))) @ [37]) (map low (chars s))"
    by (simp add: ilike_def)
  also have "\<dots> \<longleftrightarrow> (\<exists>a b. map low (chars s) = a @ b \<and> prefix (map low (chars q)) b)"
    by (simp only: like_anywhere like_literal [OF assms(2)])
  finally show ?thesis by (auto simp: sublist_def prefix_def)
qed

section \<open>Walking the pages\<close>

text \<open>The rows a client collects that follows the cursors from an answer to the next.\<close>

inductive walk :: "(rstr option \<Rightarrow> AppError + 'r list \<times> rstr option) \<Rightarrow> rstr option \<Rightarrow> 'r list \<Rightarrow> bool" for fetch where
  last: "fetch c = Inr (rows, None) \<Longrightarrow> walk fetch c rows"
| more: "fetch c = Inr (rows, Some c') \<Longrightarrow> walk fetch (Some c') rest \<Longrightarrow> walk fetch c (rows @ rest)"

lemma walk_unique: "walk fetch c rows \<Longrightarrow> walk fetch c rows' \<Longrightarrow> rows = rows'"
proof (induction arbitrary: rows' rule: walk.induct)
  case (last c rows)
  from last.prems last.hyps show ?case by cases simp_all
next
  case (more c rows c' rest)
  from more.prems more.hyps(1) obtain rest' where "rows' = rows @ rest'" "walk fetch (Some c') rest'"
    by cases auto
  with more.IH show ?case by simp
qed

locale keyset =
  fixes ok :: "'q \<Rightarrow> bool" and everything :: "'q \<Rightarrow> 'r list" and key :: "'r \<Rightarrow> Cursor"
    and behind :: "Cursor \<Rightarrow> Cursor \<Rightarrow> bool" and page :: "'q \<Rightarrow> Cursor option \<Rightarrow> nat \<Rightarrow> 'r list"
  assumes sorted: "ok q \<Longrightarrow> sorted_wrt (\<lambda>a b. behind (key a) (key b)) (everything q)"
    and asym: "behind a b \<Longrightarrow> \<not> behind b a"
    and page: "page q c n = take n (filter (\<lambda>r. given c (\<lambda>c. behind c (key r))) (everything q))"
begin

lemma rest:
  assumes "ok q" and all: "everything q = pre @ post" and c: "c = (if pre = [] then None else Some (key (List.last pre)))"
  shows "page q c n = take n post"
proof -
  have s: "sorted_wrt (\<lambda>a b. behind (key a) (key b)) (pre @ post)" using sorted [OF \<open>ok q\<close>] all by simp
  have irrefl: "\<not> behind a a" for a using asym [of a a] by blast
  have "filter (\<lambda>r. given c (\<lambda>c. behind c (key r))) (pre @ post) = post"
  proof (cases pre rule: rev_cases)
    case Nil
    then show ?thesis by (simp add: c given_def)
  next
    case (snoc ys y)
    then have g: "given c (\<lambda>c. behind c (key r)) \<longleftrightarrow> behind (key y) (key r)" for r by (simp add: c given_def)
    from s snoc have "filter (\<lambda>r. behind (key y) (key r)) pre = []" "filter (\<lambda>r. behind (key y) (key r)) post = post"
      by (auto simp: sorted_wrt_append filter_empty_conv filter_id_conv irrefl dest: asym)
    then show ?thesis by (simp add: g)
  qed
  then show ?thesis by (simp add: page all)
qed

text \<open>Whoever follows the cursors sees every row exactly once, in the order of the listing.\<close>

lemma walk_everything:
  assumes "ok q" "0 < n"
    and fetch: "\<And>c. set_option c \<subseteq> key ` set (everything q) \<Longrightarrow> fetch (map_option fmt c) = Inr (map resp (page q c n),
       if length (page q c n) = n then Some (fmt (key (List.last (page q c n)))) else None)"
  shows "walk fetch None rows \<longleftrightarrow> rows = map resp (everything q)"
proof -
  have "walk fetch (map_option fmt c) (map resp post)"
    if "everything q = pre @ post" "c = (if pre = [] then None else Some (key (List.last pre)))" for c pre post
    using that
  proof (induction post arbitrary: pre c rule: length_induct)
    case (1 post)
    have p: "page q c n = take n post" by (rule rest [OF \<open>ok q\<close> "1.prems"])
    have "set_option c \<subseteq> key ` set (everything q)" using "1.prems" by auto
    note fetch = fetch [OF this]
    show ?case
    proof (cases "length (take n post) = n")
      case False
      then have "take n post = post" by simp
      with False show ?thesis using fetch by (auto intro!: walk.last simp: p)
    next
      case True
      let ?c = "key (List.last (take n post))"
      have ne: "take n post \<noteq> []" using True \<open>0 < n\<close> by auto
      have "walk fetch (map_option fmt (Some ?c)) (map resp (drop n post))"
        by (rule "1.IH" [rule_format, of "drop n post" "pre @ take n post"])
          (use True \<open>0 < n\<close> "1.prems" ne in auto)
      then have "walk fetch (map_option fmt c) (map resp (take n post) @ map resp (drop n post))"
        using fetch True by (intro walk.more) (auto simp: p)
      then show ?thesis by (simp flip: map_append)
    qed
  qed
  from this [of "[]" "everything q" None] have "walk fetch None (map resp (everything q))" by simp
  then show ?thesis by (auto intro: walk_unique)
qed

end

section \<open>The two listings\<close>

lemma strictly_sorted:
  fixes k :: "'a \<Rightarrow> 'b :: linorder"
  assumes "distinct (map k xs)"
  shows "sorted_wrt (\<lambda>a b. k a < k b) (sort_key k xs)"
proof -
  have "distinct (map k (sort_key k xs))" using assms by (simp add: distinct_map)
  then have "sorted_wrt (<) (map k (sort_key k xs))" by (simp add: strict_sorted_iff)
  then show ?thesis by (simp add: sorted_wrt_map)
qed

lemma distinct_filter_map:
  assumes "distinct (map f xs)" "\<And>x y. g x = Some y \<Longrightarrow> h (k y) = f x"
  shows "distinct (map k (filter_map g xs))"
  using assms(1)
proof (induction xs)
  case (Cons a xs)
  have "k y \<noteq> k z" if "g a = Some y" "z \<in> set (filter_map g xs)" for y z
  proof -
    from that(2) obtain x where "x \<in> set xs" "g x = Some z" by (auto simp: set_filter_map)
    with assms(2) that(1) Cons.prems show ?thesis by (metis distinct.simps(2) image_eqI list.set_map list.simps(9))
  qed
  with Cons show ?case by (auto split: option.splits)
qed simp

lemma run_key_list_row: "list_row v p = Some y \<Longrightarrow> snd (run_key y) = pl_id p"
  by (auto simp: list_row_def run_key_def pl_selected_def Pipeline.truncate_def)

interpretation listing: keyset "\<lambda>(v, db, ws, f). distinct (map pl_id (db_pipelines db))"
  "\<lambda>(v, db, ws, f). list_all_for_workspace low v db ws f" run_key "\<lambda>a b. b < a"
  "\<lambda>(v, db, ws, f) c n. take n (filter (\<lambda>r. given c (\<lambda>c. run_key r < c)) (list_all_for_workspace low v db ws f))" for low
proof
  fix q :: "Vault \<times> Db \<times> uuid \<times> ListFilter"
  assume ok: "case q of (v, db, ws, f) \<Rightarrow> distinct (map pl_id (db_pipelines db))"
  obtain v db ws f where q: "q = (v, db, ws, f)" by (cases q)
  let ?P = "\<lambda>p. pl_workspace_id p = ws \<and> matches_filter low db f p"
  from ok have "distinct (map pl_id (filter ?P (db_pipelines db)))" by (simp add: q distinct_map_filter)
  then have "distinct (map run_key (filter_map (list_row v) (filter ?P (db_pipelines db))))"
    by (rule distinct_filter_map [where h = snd]) (rule run_key_list_row)
  from strictly_sorted [OF this]
  show "sorted_wrt (\<lambda>a b. run_key b < run_key a) (case q of (v, db, ws, f) \<Rightarrow> list_all_for_workspace low v db ws f)"
    by (simp add: q list_all_for_workspace_def sorted_wrt_rev)
qed (auto simp: case_prod_unfold)

lemma queue_row_key: "queue_row v db p j = Some y \<Longrightarrow> snd (queue_key y) = pj_id j"
  by (auto simp: queue_row_def queue_key_def)

lemma distinct_filter_map_const:
  "length xs \<le> 1 \<Longrightarrow> distinct (map k (filter_map g xs))"
  by (cases xs) (auto split: option.splits)

lemma distinct_filter_eq: "distinct (map f xs) \<Longrightarrow> length (filter (\<lambda>x. f x = c \<and> P x) xs) \<le> 1"
  by (induction xs) (auto simp: image_iff filter_empty_conv)

lemma distinct_concat_keys:
  assumes "distinct (map f js)" "\<And>j. j \<in> set js \<Longrightarrow> distinct (map k (g j))" "\<And>j y. y \<in> set (g j) \<Longrightarrow> h (k y) = f j"
  shows "distinct (map k (concat (map g js)))"
  using assms(1,2)
proof (induction js)
  case (Cons j js)
  have "k ` set (g j) \<inter> k ` set (concat (map g js)) = {}"
    using Cons.prems(1) assms(3) by (auto simp: image_iff) metis
  with Cons show ?case by simp
qed simp

lemma queue_keys_distinct:
  assumes "distinct (map pl_id (db_pipelines db))" "distinct (map pj_id (db_jobs db))"
  shows "distinct (map queue_key (concat (map (\<lambda>j. filter_map (\<lambda>p. queue_row v db p j)
     (filter (\<lambda>p. pl_id p = pj_pipeline_id j \<and> pl_workspace_id p = ws \<and> matches_queue low f p j) (db_pipelines db))) (db_jobs db))))"
  by (rule distinct_concat_keys [where h = snd, OF assms(2)])
    (auto intro!: distinct_filter_map_const distinct_filter_eq assms(1) simp: set_filter_map dest: queue_row_key)

interpretation queue_pages: keyset
  "\<lambda>(v, db, ws, f). distinct (map pl_id (db_pipelines db)) \<and> distinct (map pj_id (db_jobs db))"
  "\<lambda>(v, db, ws, f). queue_all_for_workspace low v db ws f" queue_key "\<lambda>a b. a < b"
  "\<lambda>(v, db, ws, f) c n. take n (filter (\<lambda>r. given c (\<lambda>c. c < queue_key r)) (queue_all_for_workspace low v db ws f))" for low
proof
  fix q :: "Vault \<times> Db \<times> uuid \<times> QueueFilter"
  assume ok: "case q of (v, db, ws, f) \<Rightarrow> distinct (map pl_id (db_pipelines db)) \<and> distinct (map pj_id (db_jobs db))"
  obtain v db ws f where q: "q = (v, db, ws, f)" by (cases q)
  from ok q have "distinct (map pl_id (db_pipelines db))" "distinct (map pj_id (db_jobs db))" by simp_all
  from strictly_sorted [OF queue_keys_distinct [OF this]]
  show "sorted_wrt (\<lambda>a b. queue_key a < queue_key b) (case q of (v, db, ws, f) \<Rightarrow> queue_all_for_workspace low v db ws f)"
    by (simp add: q queue_all_for_workspace_def)
qed (auto simp: case_prod_unfold)

section \<open>Following the cursors\<close>

lemma page_limit_bounds: "1 \<le> page_limit l" "page_limit l \<le> 100"
  by (auto simp: page_limit_def)

lemma clamp_page_limit: "clamp_page (page_limit l) = nat (page_limit l)"
  by (auto simp: clamp_page_def page_limit_def)

lemma build_list_filter_cursor:
  "build_list_filter ff (query\<lparr>lq_cursor := x\<rparr>) c l =
     bind_result (build_list_filter ff query None l) (\<lambda>f. Inr (f\<lparr>lf_cursor := c\<rparr>))"
  by (simp add: build_list_filter_def bind_result_def check_conclusion_def parse_ts_def split: sum.split)

lemma build_list_filter_limit: "build_list_filter ff query c l = Inr f \<Longrightarrow> lf_limit f = l"
  by (auto simp: build_list_filter_def)

lemma build_queue_filter_cursor:
  "build_queue_filter (query\<lparr>qq_cursor := x\<rparr>) c l =
     bind_result (build_queue_filter query None l) (\<lambda>f. Inr (f\<lparr>qf_cursor := c\<rparr>))"
  by (simp add: build_queue_filter_def bind_result_def split: sum.split)

lemma build_queue_filter_limit: "build_queue_filter query c l = Inr f \<Longrightarrow> qf_limit f = l"
  by (auto simp: build_queue_filter_def)

lemma query_cursor_format:
  "formats_ok ff keys \<Longrightarrow> set_option c \<subseteq> keys \<Longrightarrow> query_cursor ff (map_option (\<lambda>c. format_cursor ff (fst c) (snd c)) c) = Inr c"
  by (cases c) (simp_all add: query_cursor_def cursor_roundtrip)

lemma next_cursor_page:
  "next_cursor ff key (page_limit l) rows =
     (if length rows = nat (page_limit l) then Some (format_cursor ff (fst (key (List.last rows))) (snd (key (List.last rows)))) else None)"
  using page_limit_bounds(1) [of l] by (auto simp: next_cursor_def)

lemma list_all_cursor [simp]: "list_all_for_workspace low v db ws (f\<lparr>lf_cursor := c\<rparr>) = list_all_for_workspace low v db ws f"
  by (simp add: list_all_for_workspace_def matches_filter_def)

lemma queue_all_cursor [simp]: "queue_all_for_workspace low v db ws (f\<lparr>qf_cursor := c\<rparr>) = queue_all_for_workspace low v db ws f"
  by (simp add: queue_all_for_workspace_def matches_queue_def)

lemma listing_keys:
  "run_key ` set (list_all_for_workspace low v db ws f) \<subseteq> (\<lambda>p. (pl_created_at p, pl_id p)) ` set (db_pipelines db)"
  by (auto simp: list_all_for_workspace_def set_filter_map list_row_def run_key_def pl_selected_def Pipeline.truncate_def)

lemma queue_keys:
  "queue_key ` set (queue_all_for_workspace low v db ws f) \<subseteq> (\<lambda>j. (pj_queued_at j, pj_id j)) ` set (db_jobs db)"
  by (auto simp: queue_all_for_workspace_def set_filter_map queue_row_def queue_key_def)

text \<open>
  C22: A client that follows the cursors of the pipeline listing sees every matching pipeline of the workspace
  exactly once, newest first, and stops.
\<close>

theorem pipeline_pages_complete:
  assumes formats: "formats_ok ff ((\<lambda>p. (pl_created_at p, pl_id p)) ` set (db_pipelines (st_db (sv_app s))))"
    and ids: "distinct (map pl_id (db_pipelines (st_db (sv_app s))))"
    and perm: "require_permission (sv_vault s) user ws CONTENT_READ = Inr ()"
    and f: "build_list_filter ff query None (page_limit (lq_limit query)) = Inr f"
  shows "walk (\<lambda>c. list_pipelines ff low user ws (query\<lparr>lq_cursor := c\<rparr>) s) None rows \<longleftrightarrow>
     rows = map PipelineResponse_from (list_all_for_workspace low (sv_vault s) (st_db (sv_app s)) ws f)"
proof -
  let ?q = "(sv_vault s, st_db (sv_app s), ws, f)" and ?n = "nat (page_limit (lq_limit query))"
  have n: "0 < ?n" using page_limit_bounds(1) [of "lq_limit query"] by simp
  have ok: "case ?q of (v, db, ws, f) \<Rightarrow> distinct (map pl_id (db_pipelines db))" using ids by simp
  show ?thesis
    by (rule listing.walk_everything [OF ok n, where fmt = "\<lambda>c. format_cursor ff (fst c) (snd c)", simplified prod.case])
      (simp add: list_pipelines_def perm query_cursor_format [OF formats] listing_keys [THEN subset_trans [rotated]] build_list_filter_cursor f Let_def next_cursor_page
        list_pipelines_for_workspace_def build_list_filter_limit [OF f] clamp_page_limit)
qed

text \<open>
  A client that follows the cursors of the job queue sees every matching active job exactly once, in
  scheduler order, each with the reason of its wait, and stops.
\<close>

theorem queue_pages_complete:
  assumes formats: "formats_ok ff ((\<lambda>j. (pj_queued_at j, pj_id j)) ` set (db_jobs (st_db (sv_app s))))"
    and ids: "distinct (map pl_id (db_pipelines (st_db (sv_app s))))" "distinct (map pj_id (db_jobs (st_db (sv_app s))))"
    and perm: "require_permission (sv_vault s) user ws CONTENT_READ = Inr ()"
    and f: "build_queue_filter query None (page_limit (qq_limit query)) = Inr f"
  shows "walk (\<lambda>c. list_queue ff low user ws (query\<lparr>qq_cursor := c\<rparr>) s) None rows \<longleftrightarrow>
     rows = map (\<lambda>r. QueueJobResponse_from_row r (compute_queue_reason r (online_fleet (connected_ids (st_runner_hub (sv_app s)))
        (list_runners_for_workspace (st_db (sv_app s)) ws)))) (queue_all_for_workspace low (sv_vault s) (st_db (sv_app s)) ws f)"
proof -
  let ?q = "(sv_vault s, st_db (sv_app s), ws, f)" and ?n = "nat (page_limit (qq_limit query))"
  have n: "0 < ?n" using page_limit_bounds(1) [of "qq_limit query"] by simp
  have ok: "case ?q of (v, db, ws, f) \<Rightarrow> distinct (map pl_id (db_pipelines db)) \<and> distinct (map pj_id (db_jobs db))"
    using ids by simp
  show ?thesis
    by (rule queue_pages.walk_everything [OF ok n, where fmt = "\<lambda>c. format_cursor ff (fst c) (snd c)", simplified prod.case])
      (simp add: list_queue_def perm query_cursor_format [OF formats] queue_keys [THEN subset_trans [rotated]] build_queue_filter_cursor f Let_def next_cursor_page
        list_queue_for_workspace_def build_queue_filter_limit [OF f] clamp_page_limit)
qed

lemma utf8_trim: "utf8 s \<Longrightarrow> utf8 (trim s)"
  unfolding trim_def by (rule utf8_of_chars) (auto dest!: set_dropWhileD scalar_chars)

text \<open>
  C27: The text of a search is taken literally: after trimming, exactly the texts that hold it as a substring,
  up to case, match the pattern built from it, whatever metacharacters it has.
\<close>

theorem search_is_literal:
  assumes "build_list_filter ff query c l = Inr f" "lq_q query = Some q" "lf_search_pattern f = Some pat"
    and "utf8 q" "folds low"
  shows "ilike low pat s \<longleftrightarrow> sublist (map low (chars (trim q))) (map low (chars s))"
proof -
  have "pat = search_pattern (trim q)"
    using assms(1-3) by (auto simp: build_list_filter_def short_text_def split: if_splits)
  moreover have "utf8 (trim q)" using \<open>utf8 q\<close> by (rule utf8_trim)
  ultimately show ?thesis by (simp only: search_literal [OF _ \<open>folds low\<close>])
qed

section \<open>The scheduler's view\<close>

lemma online_idle:
  "(\<exists>x\<in>set (online_fleet ids (list_runners_for_workspace db ws)). or_idle x \<and> labels_satisfy wanted (or_labels x)) \<longleftrightarrow>
     (\<exists>x\<in>set (find_idle_by_ids db ids). rn_workspace_id x = ws \<and> labels_satisfy wanted (rn_labels x))"
  by (auto simp: online_fleet_def list_runners_for_workspace_def find_idle_by_ids_def is_schedulable_def schedulable_def
      selected_def Runner.truncate_def)

lemma compute_waiting:
  assumes "pj_status (qj_job row) = ''queued''"
  shows "compute_queue_reason row online = ''waiting_dependencies'' \<longleftrightarrow> qj_blocked_by_needs row"
    "compute_queue_reason row online = ''waiting_scheduler'' \<longleftrightarrow> \<not> qj_blocked_by_needs row \<and>
       (\<exists>x\<in>set online. or_idle x \<and> labels_satisfy (pj_runs_on (qj_job row)) (or_labels x))"
  using assms by (auto simp: compute_queue_reason_def Let_def filter_empty_conv list_all_iff)

lemma queue_all_row:
  assumes "y \<in> set (queue_all_for_workspace low v db ws f)"
  obtains "qj_job y \<in> set (db_jobs db)" "live_pipeline db (pj_pipeline_id (qj_job y))"
    "qj_blocked_by_needs y = blocked_by_needs db (qj_job y)"
  using assms that
  by (fastforce simp: queue_all_for_workspace_def set_filter_map queue_row_def live_pipeline_def list_ex_iff matches_queue_def)


lemma count_fleet:
  "count_where P (filter Q (map g (sort_key k xs))) = count_where (\<lambda>x. Q (g x) \<and> P (g x)) xs"
  by (simp add: count_where_def filter_map filter_sort o_def conj_commute)

lemma count_map: "count_where P (map g (filter Q xs)) = count_where (\<lambda>x. Q x \<and> P (g x)) xs"
  by (simp add: count_where_def filter_map o_def conj_commute)

lemma count_split:
  "(\<And>x. x \<in> set xs \<Longrightarrow> P x \<longleftrightarrow> A x \<or> B x) \<Longrightarrow> (\<And>x. x \<in> set xs \<Longrightarrow> \<not> (A x \<and> B x)) \<Longrightarrow>
     count_where P xs = count_where A xs + count_where B xs"
  by (induction xs) (auto simp: count_where_def)

text \<open>The idle runners counted are those the scheduler may pick, and every usable runner is counted once.\<close>

lemma idle_count:
  "qs_runners_idle (queue_summary now db ws ids) = count_where (\<lambda>r. rn_workspace_id r = ws) (find_idle_by_ids db ids)"
  by (simp add: queue_summary_def Let_def list_runners_for_workspace_def count_fleet find_idle_by_ids_def count_map
      claimable_runner_def schedulable_def selected_def Runner.truncate_def conj_ac)
    (simp add: count_where_def conj_ac)

lemma fleet_partition:
  fixes now db ws ids
  defines "q \<equiv> queue_summary now db ws ids"
  shows "qs_runners_idle q + qs_runners_busy q + qs_runners_offline q + qs_runners_disabled q =
     count_where (\<lambda>r. rn_workspace_id r = ws \<and> rn_revoked_at r = None) (db_runners db)"
proof -
  let ?fleet = "filter (\<lambda>r. rn_revoked_at r = None) (list_runners_for_workspace db ws)"
  let ?on = "\<lambda>r. claimable_runner ids r \<or> busy_runner ids r" and ?off = "\<lambda>r. rn_status r = ''disabled''"
  have "count_where (\<lambda>_. True) ?fleet = count_where (\<lambda>r. ?off r \<or> ?on r) ?fleet + count_where (\<lambda>r. \<not> ?off r \<and> \<not> ?on r) ?fleet"
    by (rule count_split) auto
  also have "count_where (\<lambda>r. ?off r \<or> ?on r) ?fleet = count_where ?off ?fleet + count_where ?on ?fleet"
    by (rule count_split) (auto simp: claimable_runner_def busy_runner_def)
  also have "count_where ?on ?fleet = count_where (claimable_runner ids) ?fleet + count_where (busy_runner ids) ?fleet"
    by (rule count_split) (auto simp: claimable_runner_def busy_runner_def)
  also have "count_where (\<lambda>_. True) ?fleet = count_where (\<lambda>r. rn_workspace_id r = ws \<and> rn_revoked_at r = None) (db_runners db)"
    by (simp add: list_runners_for_workspace_def count_fleet) (simp add: count_where_def selected_def Runner.truncate_def conj_commute)
  finally show ?thesis by (simp add: q_def queue_summary_def Let_def)
qed

lemma waiting_counts:
  "qs_queued_total (queue_summary now db ws ids) =
     qs_queued_blocked (queue_summary now db ws ids) + qs_queued_waiting_runner (queue_summary now db ws ids)"
  unfolding queue_summary_def Let_def by (simp add: count_where_def sum_length_filter_compl del: filter_filter)

section \<open>A workspace with one run\<close>

definition demo_formats :: Formats where
  "demo_formats = \<lparr>ff_time = (\<lambda>t. [char_of (nat t)]),
     ff_parse_time = (\<lambda>s. case s of [c] \<Rightarrow> Some (int (of_char c)) | _ \<Rightarrow> None),
     ff_uuid = (\<lambda>i. [char_of i]), ff_parse_uuid = (\<lambda>s. case s of [c] \<Rightarrow> Some (of_char c) | _ \<Rightarrow> None)\<rparr>"

definition demo_query :: ListQuery where
  "demo_query = \<lparr>lq_repository_id = None, lq_workflow_id = None, lq_status = Some ''queued'', lq_conclusion = None,
     lq_trigger = Some ''push'', lq_branch = None, lq_triggered_by = None, lq_runner_id = None, lq_created_after = None,
     lq_created_before = None, lq_q = None, lq_cursor = None, lq_limit = Some 1\<rparr>"

definition demo_queue_query :: QueueQuery where
  "demo_queue_query = \<lparr>qq_status = Some ''queued'', qq_repository_id = Some 7, qq_workflow_id = None, qq_runner_id = None,
     qq_label = None, qq_q = None, qq_cursor = None, qq_limit = Some 1\<rparr>"

text \<open>User 1 may read workspace 10, and the connected runner 3 is its own.\<close>

definition demo_console :: Server where
  "demo_console = demo_server
     \<lparr>sv_app := (sv_app demo_server)\<lparr>st_db := (st_db (sv_app demo_server))\<lparr>db_runners := [demo_runner\<lparr>rn_workspace_id := 10\<rparr>]\<rparr>\<rparr>,
      sv_vault := (sv_vault demo_server)\<lparr>va_members := [(1, 10, 5)], va_role_permissions := [(5, ''content.read'')]\<rparr>\<rparr>"

lemma demo_console_parts:
  "require_permission (sv_vault demo_console) 1 10 CONTENT_READ = Inr ()"
  "distinct (map pl_id (db_pipelines (st_db (sv_app demo_console))))" "distinct (map pj_id (db_jobs (st_db (sv_app demo_console))))"
  "map (\<lambda>p. (pl_created_at p, pl_id p)) (db_pipelines (st_db (sv_app demo_console))) = [(0, 10)]"
  "map (\<lambda>j. (pj_queued_at j, pj_id j)) (db_jobs (st_db (sv_app demo_console))) = [(0, 11)]"
  by code_simp+

lemma demo_formats_ok: "i < 100 \<Longrightarrow> formats_ok demo_formats {(0, i)}"
proof -
  have "CHR ''~'' \<noteq> char_of (0 :: nat)" by code_simp
  then show "i < 100 \<Longrightarrow> formats_ok demo_formats {(0, i)}" by (simp add: formats_ok_def demo_formats_def)
qed

theorem pipeline_pages_complete_witness:
  "walk (\<lambda>c. list_pipelines demo_formats id 1 10 (demo_query\<lparr>lq_cursor := c\<rparr>) demo_console) None
     [PipelineResponse_from_row (pl_selected demo_run) ''acme/app'']"
proof -
  have keys: "(\<lambda>p. (pl_created_at p, pl_id p)) ` set (db_pipelines (st_db (sv_app demo_console))) = {(0, 10)}"
    using demo_console_parts(4) by (metis list.set_map list.simps(15) empty_set)
  have "\<exists>f. build_list_filter demo_formats demo_query None (page_limit (lq_limit demo_query)) = Inr f \<and>
      list_all_for_workspace id (sv_vault demo_console) (st_db (sv_app demo_console)) 10 f =
        [\<lparr>pr_pipeline = pl_selected demo_run, pr_repo_full_name = ''acme/app''\<rparr>]"
    by (simp add: build_list_filter_def one_of_def check_conclusion_def short_text_def parse_ts_def demo_query_def
        list_all_for_workspace_def matches_filter_def given_def list_row_def demo_console_def demo_server_def demo_run_def
        pipeline_row_def demo_repo_def)
  then obtain f where f: "build_list_filter demo_formats demo_query None (page_limit (lq_limit demo_query)) = Inr f"
    and all: "list_all_for_workspace id (sv_vault demo_console) (st_db (sv_app demo_console)) 10 f =
        [\<lparr>pr_pipeline = pl_selected demo_run, pr_repo_full_name = ''acme/app''\<rparr>]" by blast
  show ?thesis
    using pipeline_pages_complete [OF _ demo_console_parts(2,1) f, where low = id, unfolded keys all] demo_formats_ok [of 10]
    by (simp add: PipelineResponse_from_def)
qed

definition demo_queue_row :: QueueJobRow where
  "demo_queue_row = \<lparr>qj_job = demo_job, qj_pipeline_number = 1, qj_repository_id = 7, qj_repo_full_name = ''acme/app'',
     qj_pipeline_workflow_id = Some 4, qj_workflow_name = ''ci'', qj_git_ref = ''main'', qj_trigger = ''push'',
     qj_actor_login = None, qj_actor_avatar_url = None, qj_blocked_by_needs = False\<rparr>"

lemma demo_queue_filter:
  obtains f where "build_queue_filter demo_queue_query None (page_limit (qq_limit demo_queue_query)) = Inr f"
    "queue_all_for_workspace id (sv_vault demo_console) (st_db (sv_app demo_console)) 10 f = [demo_queue_row]"
proof -
  have "\<exists>f. build_queue_filter demo_queue_query None (page_limit (qq_limit demo_queue_query)) = Inr f \<and>
      queue_all_for_workspace id (sv_vault demo_console) (st_db (sv_app demo_console)) 10 f = [demo_queue_row]"
    by (simp add: build_queue_filter_def one_of_def short_text_def demo_queue_query_def queue_all_for_workspace_def
        matches_queue_def given_def queue_row_def demo_console_def demo_server_def demo_run_def pipeline_row_def demo_repo_def
        demo_queue_row_def demo_job_def job_row_def blocked_by_needs_def)
  then show thesis using that by blast
qed

lemma demo_reason: "compute_queue_reason demo_queue_row (online_fleet (connected_ids (st_runner_hub (sv_app demo_console)))
    (list_runners_for_workspace (st_db (sv_app demo_console)) 10)) = ''waiting_scheduler''"
proof -
  have "labels_satisfy [''linux''] [''linux'']" by (simp add: labels_satisfy_def eq_ignore_ascii_case_def)
  moreover have "online_fleet (connected_ids (st_runner_hub (sv_app demo_console)))
      (list_runners_for_workspace (st_db (sv_app demo_console)) 10) = [\<lparr>or_labels = [''linux''], or_idle = True\<rparr>]"
    by code_simp
  ultimately show ?thesis
    by (simp add: compute_queue_reason_def demo_queue_row_def demo_job_def job_row_def Let_def)
qed

theorem queue_pages_complete_witness:
  "walk (\<lambda>c. list_queue demo_formats id 1 10 (demo_queue_query\<lparr>qq_cursor := c\<rparr>) demo_console) None
     [QueueJobResponse_from_row demo_queue_row ''waiting_scheduler'']"
proof -
  have keys: "(\<lambda>j. (pj_queued_at j, pj_id j)) ` set (db_jobs (st_db (sv_app demo_console))) = {(0, 11)}"
    using demo_console_parts(5) by (metis list.set_map list.simps(15) empty_set)
  obtain f where f: "build_queue_filter demo_queue_query None (page_limit (qq_limit demo_queue_query)) = Inr f"
    "queue_all_for_workspace id (sv_vault demo_console) (st_db (sv_app demo_console)) 10 f = [demo_queue_row]"
    by (rule demo_queue_filter)
  show ?thesis
    using queue_pages_complete [OF _ demo_console_parts(2,3,1) f(1), where low = id, unfolded keys f(2)] demo_formats_ok [of 11]
    by (simp add: demo_reason)
qed


theorem search_is_literal_witness:
  "ilike id (search_pattern ''50%'') ''at 50% done'' \<and> \<not> ilike id (search_pattern ''50%'') ''at 500 done''"
proof -
  let ?query = "demo_query\<lparr>lq_q := Some ''50%''\<rparr>"
  have a: "utf8 ''50%''" "utf8 ''at 50% done''" by (simp_all add: utf8_ascii ascii_def)
  have c: "chars ''50%'' = [53, 48, 37]" "chars ''at 50% done'' = [97, 116, 32, 53, 48, 37, 32, 100, 111, 110, 101]"
    "chars ''at 500 done'' = [97, 116, 32, 53, 48, 48, 32, 100, 111, 110, 101]"
    by (simp_all add: chars_ascii ascii_def)
  have t: "trim ''50%'' = ''50%''" by (rule trim_tight [OF a(1)]) (simp add: c is_whitespace_def)
  have "folds id" by (simp add: folds_def)
  have "\<exists>f. build_list_filter demo_formats ?query None 50 = Inr f \<and> lf_search_pattern f = Some (search_pattern ''50%'')"
    by (simp add: build_list_filter_def one_of_def check_conclusion_def short_text_def parse_ts_def demo_query_def t)
  then obtain f where f: "build_list_filter demo_formats ?query None 50 = Inr f" "lf_search_pattern f = Some (search_pattern ''50%'')"
    by blast
  have "ilike id (search_pattern ''50%'') s \<longleftrightarrow> sublist [53, 48, 37] (chars s)" for s
    using search_is_literal [OF f(1) _ f(2) a(1) \<open>folds id\<close>, of s] by (simp add: t c)
  moreover have "sublist [53, 48, 37] [97, 116, 32, 53, 48, 37, 32, 100, 111, 110, 101 :: nat]"
    by (simp add: sublist_Cons_right)
  moreover have "\<not> sublist [53, 48, 37] [97, 116, 32, 53, 48, 48, 32, 100, 111, 110, 101 :: nat]"
    by (simp add: sublist_Cons_right)
  ultimately show ?thesis by (simp add: c)
qed

end
