(* ===== verification/SecretViews.thy ===== *)
theory SecretViews
  imports SecretFacts Pages
begin

text \<open>
  What the console shows of secrets: the requirements of the workflows, grouped, and the catalogue,
  page by page.
\<close>

section \<open>Requirements\<close>

definition summary_of :: "RequirementRefRow list \<Rightarrow> Requirement" where
  "summary_of rs =
    \<lparr>re_repository_id = rq_repository_id (hd rs), re_configured_id = fetch_optional (filter_map rq_configured_id rs),
     re_count = length rs, re_references = take MAX_REFS_PER_ENTRY (map (\<lambda>r. (rq_workflow_id r, rq_workflow_path r)) rs)\<rparr>"

definition rows_for :: "rstr \<times> rstr \<Rightarrow> RequirementRefRow list \<Rightarrow> RequirementRefRow list" where
  "rows_for k = filter (\<lambda>r. ref_key r = k)"

definition entry_ok :: "(rstr \<Rightarrow> bool) \<Rightarrow> RequirementRefRow list \<Rightarrow> nat \<Rightarrow> rstr \<times> rstr \<Rightarrow> Requirement option \<Rightarrow> bool" where
  "entry_ok keep rows n k x = (case x of
     None \<Rightarrow> keep (snd k) \<and> rows_for k rows \<noteq> [] \<longrightarrow> MAX_ENTRIES \<le> n
   | Some e \<Rightarrow> keep (snd k) \<and> rows_for k rows \<noteq> [] \<and> e = summary_of (rows_for k rows))"

definition grouped :: "(rstr \<Rightarrow> bool) \<Rightarrow> RequirementRefRow list \<Rightarrow> ((rstr \<times> rstr) \<times> Requirement) list \<Rightarrow> bool" where
  "grouped keep rows m \<longleftrightarrow> bt_ok m \<and> (\<forall>k. entry_ok keep rows (length m) k (map_of m k))"

lemma fetch_append: "fetch_optional (xs @ ys) = (case fetch_optional xs of None \<Rightarrow> fetch_optional ys | Some x \<Rightarrow> Some x)"
  by (cases xs) auto

lemma filter_map_empty: "filter_map f xs = [] \<longleftrightarrow> (\<forall>x\<in>set xs. f x = None)"
  by (induction xs) (auto split: option.split)

lemma summary_of_snoc: "rs \<noteq> [] \<Longrightarrow> summary_of (rs @ [row]) = add_reference row (summary_of rs)"
  by (auto simp: summary_of_def add_reference_def fetch_append filter_map_append MAX_REFS_PER_ENTRY_def split: option.split)

lemma summary_of_single: "summary_of [row] = add_reference row (new_entry row)"
  by (auto simp: summary_of_def add_reference_def new_entry_def MAX_REFS_PER_ENTRY_def split: option.split)

lemma length_bt_insert: "bt_ok m \<Longrightarrow> length (bt_insert k v m) = length m + (if map_of m k = None then 1 else 0)"
proof (induction k v m rule: bt_insert.induct)
  case (2 k v k' v' m)
  then have "k < k' \<Longrightarrow> map_of m k = None" by (auto simp: bt_ok_def map_of_eq_None_iff)
  with 2 show ?case by (auto simp: bt_ok_def)
qed simp

lemma entry_ok_other:
  "entry_ok keep rows n k x \<Longrightarrow> k \<noteq> ref_key row \<Longrightarrow> n \<le> n' \<Longrightarrow> entry_ok keep (rows @ [row]) n' k x"
  by (auto simp: entry_ok_def rows_for_def split: option.splits)

lemma entry_ok_add:
  assumes "entry_ok keep rows n (ref_key row) x" "keep (rq_name row)" "x = None \<Longrightarrow> n < MAX_ENTRIES"
  shows "entry_ok keep (rows @ [row]) n' (ref_key row)
    (Some (add_reference row (case x of None \<Rightarrow> new_entry row | Some e \<Rightarrow> e)))"
proof (cases x)
  case None
  with assms have "rows_for (ref_key row) rows = []" by (auto simp: entry_ok_def ref_key_def)
  with None assms(2) show ?thesis by (simp add: entry_ok_def rows_for_def summary_of_single) (simp add: ref_key_def)
next
  case (Some e)
  with assms show ?thesis by (simp add: entry_ok_def rows_for_def summary_of_snoc)
qed

lemma group_row_grouped:
  assumes "grouped keep rows m"
  shows "grouped keep (rows @ [row]) (group_row keep row m)"
proof -
  from assms have ok: "bt_ok m" and inv: "\<And>k. entry_ok keep rows (length m) k (map_of m k)"
    by (simp_all add: grouped_def del: split_paired_All)
  let ?add = "bt_insert (ref_key row) (add_reference row (case map_of m (ref_key row) of None \<Rightarrow> new_entry row | Some e \<Rightarrow> e)) m"
  have skip: "grouped keep (rows @ [row]) m" if "entry_ok keep (rows @ [row]) (length m) (ref_key row) (map_of m (ref_key row))"
    unfolding grouped_def using ok that entry_ok_other [OF inv _ order_refl] by metis
  have add: "grouped keep (rows @ [row]) ?add"
    if "keep (rq_name row)" "map_of m (ref_key row) = None \<Longrightarrow> length m < MAX_ENTRIES"
  proof -
    have "entry_ok keep (rows @ [row]) (length ?add) k (map_of ?add k)" for k
    proof (cases "k = ref_key row")
      case True
      then show ?thesis using entry_ok_add [OF inv that] by simp
    next
      case False
      then show ?thesis using entry_ok_other [OF inv False] ok by (simp add: length_bt_insert)
    qed
    then show ?thesis using ok by (simp add: grouped_def bt_ok_insert)
  qed
  show ?thesis
  proof (cases "keep (rq_name row) \<and> (map_of m (ref_key row) = None \<longrightarrow> length m < MAX_ENTRIES)")
    case True
    then have "group_row keep row m = ?add" by (auto simp: group_row_def split: option.split)
    with add True show ?thesis by simp
  next
    case False
    have "group_row keep row m = m" using False by (auto simp: group_row_def split: option.split)
    moreover have "entry_ok keep (rows @ [row]) (length m) (ref_key row) (map_of m (ref_key row))"
      using False inv [of "ref_key row"] by (auto simp: entry_ok_def ref_key_def split: option.splits)
    ultimately show ?thesis using skip by simp
  qed
qed

lemma group_requirements_grouped: "grouped keep rows (group_requirements keep rows)"
proof (induction rows rule: rev_induct)
  case Nil
  show ?case by (simp add: group_requirements_def grouped_def entry_ok_def rows_for_def)
next
  case (snoc row rows)
  from group_row_grouped [OF this] show ?case by (simp add: group_requirements_def)
qed


lemma requirement_entry:
  assumes "(k, e) \<in> set (group_requirements keep rows)"
  shows "rows_for k rows \<noteq> []" "e = summary_of (rows_for k rows)"
proof -
  note g = group_requirements_grouped [of keep rows, unfolded grouped_def]
  from g have "map_of (group_requirements keep rows) k = Some e"
    using assms by (intro map_of_is_SomeI) (auto simp: bt_ok_def strict_sorted_iff)
  with g [THEN conjunct2, THEN spec, of k]
  show "rows_for k rows \<noteq> []" "e = summary_of (rows_for k rows)" by (simp_all add: entry_ok_def)
qed

lemma satisfied_by_dispatch:
  "(\<exists>s\<in>set (va_secrets v). secret_satisfies ws repo n s) \<longleftrightarrow> (\<exists>env. n \<in> sc_name ` set (resolve_for_dispatch v ws repo env))"
proof
  assume "\<exists>s\<in>set (va_secrets v). secret_satisfies ws repo n s"
  then obtain s where s: "s \<in> set (va_secrets v)" "applies ws repo (sc_environment_id s) s" "sc_name s = n"
    by (auto simp: secret_satisfies_def applies_def)
  from resolve_complete [OF s(1,2)] s(3) show "\<exists>env. n \<in> sc_name ` set (resolve_for_dispatch v ws repo env)"
    by (metis image_eqI)
next
  assume "\<exists>env. n \<in> sc_name ` set (resolve_for_dispatch v ws repo env)"
  then obtain env s where "s \<in> set (resolve_for_dispatch v ws repo env)" "sc_name s = n" by auto
  with resolve_facts [OF this(1)] show "\<exists>s\<in>set (va_secrets v). secret_satisfies ws repo n s"
    by (auto simp: secret_satisfies_def applies_def)
qed

lemma fetch_sorted_filter: "fetch_optional (sort_key f (filter P xs)) = None \<longleftrightarrow> (\<forall>x\<in>set xs. \<not> P x)"
proof -
  have "fetch_optional (sort_key f (filter P xs)) = None \<longleftrightarrow> filter P xs = []"
    using length_sort [of f "filter P xs"] by (metis fetch_optional_None length_0_conv)
  then show ?thesis by (simp add: filter_empty_conv)
qed

lemma secret_ref_row:
  assumes "row \<in> set (secret_ref_states collate v h ws)"
  obtains r where "r \<in> set (va_repositories v)" "rp_workspace_id r = ws" "rq_repository_id row = rp_id r"
    "rq_repository_name row = rp_full_name r"
    "rq_configured_id row = None \<longleftrightarrow> (\<forall>s\<in>set (va_secrets v). \<not> secret_satisfies ws (rp_id r) (rq_name row) s)"
proof -
  from assms have "row \<in> set (refs_of ''secretRefs'' v h ws
     (\<lambda>r name. map_option sc_id (fetch_optional (sort_key scope_rank (filter (secret_satisfies ws (rp_id r) name) (va_secrets v))))))"
    by (auto simp: secret_ref_states_def dest!: in_set_takeD)
  then obtain r where "r \<in> set (va_repositories v)" "rp_workspace_id r = ws" "rq_repository_id row = rp_id r"
    "rq_repository_name row = rp_full_name r" "rq_configured_id row =
       map_option sc_id (fetch_optional (sort_key scope_rank (filter (secret_satisfies ws (rp_id r) (rq_name row)) (va_secrets v))))"
    by (auto simp: refs_of_def)
  with that [of r] show thesis by (simp only: option.map_disc_iff fetch_sorted_filter)
qed


section \<open>The catalogues\<close>

lemma secret_cursor_meta: "snd (secret_cursor (secret_meta v s)) = sc_id s"
  by (simp add: secret_cursor_def secret_meta_def)

interpretation secret_pages: keyset "\<lambda>(v, ws, f). distinct (map sc_id (va_secrets v))"
  "\<lambda>(v, ws, f). secrets_all low v ws f" secret_cursor "\<lambda>a b. b < a"
  "\<lambda>(v, ws, f) c n. take n (filter (\<lambda>m. given c (\<lambda>c. secret_cursor m < c)) (secrets_all low v ws f))" for low
proof
  fix q :: "Vault \<times> uuid \<times> SecretFilter"
  assume ok: "case q of (v, ws, f) \<Rightarrow> distinct (map sc_id (va_secrets v))"
  obtain v ws f where q: "q = (v, ws, f)" by (cases q)
  let ?rows = "filter (\<lambda>s. sc_workspace_id s = ws \<and> matches_secret low f s) (va_secrets v)"
  from ok have "distinct (map sc_id ?rows)" by (simp add: q distinct_map_filter)
  then have "distinct (map secret_cursor (map (secret_meta v) ?rows))"
    by (auto simp: distinct_map inj_on_def dest: arg_cong [where f = snd] simp: secret_cursor_meta)
  from strictly_sorted [OF this]
  show "sorted_wrt (\<lambda>a b. secret_cursor b < secret_cursor a) (case q of (v, ws, f) \<Rightarrow> secrets_all low v ws f)"
    by (simp add: q secrets_all_def sorted_wrt_rev)
qed (auto simp: case_prod_unfold)

lemma catalog_limit_bounds: "1 \<le> catalog_limit l" "catalog_limit l \<le> 50"
  by (auto simp: catalog_limit_def)

lemma clamp_catalog_limit: "clamp_catalog (catalog_limit l) = nat (catalog_limit l)"
  by (auto simp: clamp_catalog_def catalog_limit_def)

lemma build_secret_filter_cursor:
  "build_secret_filter (query\<lparr>sq_cursor := x\<rparr>) (Inr c) l =
     bind_result (build_secret_filter query (Inr None) l) (\<lambda>f. Inr (f\<lparr>sf_cursor := c\<rparr>))"
  by (simp add: build_secret_filter_def bind_result_def split: sum.split)

lemma build_secret_filter_limit: "build_secret_filter query c l = Inr f \<Longrightarrow> sf_limit f = l"
  by (auto simp: build_secret_filter_def)

lemma next_cursor_catalog:
  "next_cursor ff key (catalog_limit l) rows =
     (if length rows = nat (catalog_limit l) then Some (format_cursor ff (fst (key (List.last rows))) (snd (key (List.last rows)))) else None)"
  using catalog_limit_bounds(1) [of l] by (auto simp: next_cursor_def)

lemma secrets_all_cursor [simp]: "secrets_all low v ws (f\<lparr>sf_cursor := c\<rparr>) = secrets_all low v ws f"
  by (simp add: secrets_all_def matches_secret_def)

lemma secret_keys: "secret_cursor ` set (secrets_all low v ws f) \<subseteq> (\<lambda>s. (sc_created_at s, sc_id s)) ` set (va_secrets v)"
  by (auto simp: secrets_all_def secret_cursor_def secret_meta_def)

text \<open>
  Following the cursors of the secret catalogue shows the metadata of every matching secret of the workspace once.
\<close>

theorem secret_pages_complete:
  assumes formats: "formats_ok ff ((\<lambda>s. (sc_created_at s, sc_id s)) ` set (va_secrets (sv_vault s)))"
    and ids: "distinct (map sc_id (va_secrets (sv_vault s)))"
    and perm: "require_permission (sv_vault s) (us_id user) ws SECRETS_READ = Inr ()"
    and f: "build_secret_filter query (Inr None) (catalog_limit (sq_limit query)) = Inr f"
  shows "walk (\<lambda>c. list_secrets ff low user ws (query\<lparr>sq_cursor := c\<rparr>) s) None rows \<longleftrightarrow>
     rows = map SecretResponse_from (secrets_all low (sv_vault s) ws f)"
proof -
  let ?q = "(sv_vault s, ws, f)" and ?n = "nat (catalog_limit (sq_limit query))"
  have n: "0 < ?n" using catalog_limit_bounds(1) [of "sq_limit query"] by simp
  have ok: "case ?q of (v, ws, f) \<Rightarrow> distinct (map sc_id (va_secrets v))" using ids by simp
  show ?thesis
    by (rule secret_pages.walk_everything [OF ok n, where fmt = "\<lambda>c. format_cursor ff (fst c) (snd c)", simplified prod.case])
      (simp add: list_secrets_def perm query_cursor_format [OF formats] secret_keys [THEN subset_trans [rotated]]
        build_secret_filter_cursor f Let_def next_cursor_catalog secrets_list_catalog_def build_secret_filter_limit [OF f] clamp_catalog_limit)
qed

end
