(* ===== verification/ApiFacts.thy ===== *)
theory ApiFacts
  imports PipelineApi System
begin

text \<open>
  What the console's endpoints guarantee: downloads without secrets, exact input validation,
  reruns that reproduce the run, and a history no request rewrites.
\<close>

section \<open>Downloads\<close>

lemma raw_body_clean:
  assumes "one_line v" "v \<noteq> []" "\<forall>c\<in>set chunks. \<not> sublist v (lc_content c)"
  shows "\<not> sublist v (raw_body chunks)"
  using assms(3)
proof (induction chunks)
  case (Cons c chunks)
  obtain x where x: "raw_body (c # chunks) = x @ CHR 0x0A # raw_body chunks" "prefix x (lc_content c)"
  proof (cases "ends_line (lc_content c)")
    case True
    then obtain x where "lc_content c = x @ [CHR 0x0A]" by (metis ends_line_def append_butlast_last_id)
    with True that [of x] show thesis by (simp add: raw_body_def)
  qed (use that [of "lc_content c"] in \<open>simp add: raw_body_def\<close>)
  have "\<not> sublist v x" using x(2) Cons.prems by (auto dest: prefix_imp_sublist sublist_order.order.trans)
  then show ?case
    using Cons sublist_over_sep [of v x "CHR 0x0A" "raw_body chunks"] assms(1) by (auto simp: x(1) one_line_def)
qed (use assms(2) in \<open>simp add: raw_body_def\<close>)

lemma fetch_all_contents: "lc_content ` set (fetch_all db jid) = (\<lambda>r. lc_content (lr_chunk r)) ` set (rows_of db jid)"
  by (auto simp: fetch_all_def rows_of_def)

lemma scoped_job_id: "scoped_job permission user ws pid jid s = Inr (p, job) \<Longrightarrow> pj_id job = jid"
  by (auto simp: scoped_job_def find_for_pipeline_def dest!: fetch_optional_Some)


section \<open>Dispatch inputs\<close>

definition declared :: "json list \<Rightarrow> (rstr \<times> json) list" where
  "declared defs = filter_map (\<lambda>d. map_option (\<lambda>n. (n, d)) (j_str (jidx d ''name''))) defs"

definition input_ok :: "Api \<Rightarrow> (rstr \<times> json) list \<Rightarrow> rstr \<times> json \<Rightarrow> bool" where
  "input_ok api inputs nd \<longleftrightarrow> (case map_of inputs (fst nd) of
     Some v \<Rightarrow> value_fits (snd nd) v \<and> length (wd_json_text (ap_world api) v) \<le> MAX_INPUT_VALUE_BYTES
   | None \<Rightarrow> j_str (jidx (snd nd) ''default'') \<noteq> None \<or> \<not> input_required (snd nd))"

definition effective_value :: "Api \<Rightarrow> (rstr \<times> json) list \<Rightarrow> rstr \<times> json \<Rightarrow> json option" where
  "effective_value api inputs nd = (case map_of inputs (fst nd) of
     Some v \<Rightarrow> Some v
   | None \<Rightarrow> map_option (default_value (ap_number api) (snd nd)) (j_str (jidx (snd nd) ''default'')))"

definition add_effective :: "Api \<Rightarrow> (rstr \<times> json) list \<Rightarrow> rstr \<times> json \<Rightarrow> (rstr \<times> json) list \<Rightarrow> (rstr \<times> json) list" where
  "add_effective api inputs nd m = (case effective_value api inputs nd of None \<Rightarrow> m | Some v \<Rightarrow> bt_insert (fst nd) v m)"

lemma resolve_input_Inr:
  "resolve_input api d n (map_of inputs n) = Inr v \<longleftrightarrow> input_ok api inputs (n, d) \<and> v = effective_value api inputs (n, d)"
  by (auto simp: resolve_input_def input_ok_def effective_value_def split: option.split)

lemma declared_simps [simp]:
  "declared [] = []"
  "declared (d # defs) = (case j_str (jidx d ''name'') of None \<Rightarrow> declared defs | Some n \<Rightarrow> (n, d) # declared defs)"
  by (simp_all add: declared_def split: option.split)

lemma resolve_inputs_Inr:
  "resolve_inputs api inputs defs m known = Inr (m', known') \<longleftrightarrow>
     (\<forall>nd\<in>set (declared defs). input_ok api inputs nd) \<and> known' = known @ map fst (declared defs) \<and>
     m' = fold (add_effective api inputs) (declared defs) m"
proof (induction defs arbitrary: m known)
  case (Cons d defs)
  show ?case
  proof (cases "j_str (jidx d ''name'')")
    case (Some n)
    have "(case effective_value api inputs (n, d) of None \<Rightarrow> m | Some v \<Rightarrow> bt_insert n v m) = add_effective api inputs (n, d) m"
      by (simp only: add_effective_def fst_conv)
    then show ?thesis by (auto simp: Some Cons resolve_input_Inr)
  qed (simp add: Cons)
qed auto

lemma map_of_add_effective: "map_of (add_effective api inputs nd m) n =
    (if n = fst nd then (case effective_value api inputs nd of None \<Rightarrow> map_of m n | Some v \<Rightarrow> Some v) else map_of m n)"
  by (simp add: add_effective_def split: option.split)

lemma map_of_effective:
  assumes "distinct (map fst ds)"
  shows "map_of (fold (add_effective api inputs) ds m) n =
     (case map_of ds n of None \<Rightarrow> map_of m n
      | Some d \<Rightarrow> (case effective_value api inputs (n, d) of None \<Rightarrow> map_of m n | Some v \<Rightarrow> Some v))"
  using assms
proof (induction ds arbitrary: m)
  case (Cons nd ds)
  obtain k d where nd: "nd = (k, d)" by (cases nd)
  have "map_of ds k = None" using Cons.prems by (simp add: nd map_of_eq_None_iff)
  with Cons show ?case by (cases "n = k") (simp_all add: nd map_of_add_effective split: option.split)
qed simp

text \<open>
  C24: A manual dispatch is accepted exactly if every declared input is submitted with a value that fits
  its type and size or has a default or is optional, nothing else is submitted, and the whole is
  small enough; the inputs the run gets are then the submitted values and, where none was
  submitted, the defaults.
\<close>

theorem dispatch_inputs_exact:
  assumes "defs \<noteq> []" "distinct (map fst (declared defs))"
  shows "validate_dispatch_inputs api defs (Some inputs) = Inr r \<longleftrightarrow>
    (\<forall>nd\<in>set (declared defs). input_ok api inputs nd) \<and> fst ` set inputs \<subseteq> fst ` set (declared defs) \<and>
    (\<exists>m. r = Some (JObj m) \<and> length (wd_json_text (ap_world api) (JObj m)) \<le> MAX_INPUTS_TOTAL_BYTES \<and>
       m = fold (add_effective api inputs) (declared defs) [] \<and>
       (\<forall>n. map_of m n = Option.bind (map_of (declared defs) n) (\<lambda>d. effective_value api inputs (n, d))))"
proof -
  have "first_with (\<lambda>n. n \<notin> fst ` set (declared defs)) (map fst inputs) = None \<longleftrightarrow> fst ` set inputs \<subseteq> fst ` set (declared defs)"
    by (auto simp: first_with_None)
  then show ?thesis using assms(1)
    by (auto simp: validate_dispatch_inputs_def Let_def resolve_inputs_Inr map_of_effective [OF assms(2)]
        split: option.splits if_splits)
qed

section \<open>Reruns\<close>

lemma find_repository_Some: "find_repository v ws i = Some r \<Longrightarrow> rp_workspace_id r = ws \<and> rp_id r = i"
  by (auto simp: find_repository_def dest: first_with_Some)

lemma find_detail_Some: "find_detail_for_workspace v h ws i = Some k \<Longrightarrow> wk_id k = i"
  by (auto simp: find_detail_for_workspace_def dest: first_with_Some)

lemma create_from_Inr:
  assumes "create_from api i ids repo k ctx s = (Inr (p, b), s')" "tc_webhook_delivery_id ctx = None"
  obtains number rows where
    "p = pl_selected (pipeline_row (st_now (sv_app s)) i number
       (new_pipeline (wd_config (ap_world api)) repo (wk_id k) (wk_name k) (wk_path k) ctx))"
    "db_pipelines (st_db (sv_app s')) = db_pipelines (st_db (sv_app s)) @ [pipeline_row (st_now (sv_app s)) i number
       (new_pipeline (wd_config (ap_world api)) repo (wk_id k) (wk_name k) (wk_path k) ctx)]"
    "db_jobs (st_db (sv_app s')) = db_jobs (st_db (sv_app s)) @ rows"
    "\<forall>j\<in>set rows. pj_pipeline_id j = i \<and> pj_status j = ''queued'' \<and> pj_attempt j = 1" "sv_vault s' = sv_vault s"
proof -
  let ?new = "new_pipeline (wd_config (ap_world api)) repo (wk_id k) (wk_name k) (wk_path k) ctx"
  from assms(1) obtain plans where
    "build_plans (wd_parse_yaml (ap_world api)) (wk_raw_content k) (cf_default_job_image (wd_config (ap_world api)))
       (cf_image_allowlist (wd_config (ap_world api))) = Inr plans"
    by (auto simp: create_from_def create_pipeline_def split: sum.splits)
  note plans = this
  define jobs where "jobs = map (finish_plan (ap_world api) (sv_vault s) (rp_workspace_id repo) ctx) plans"
  define res where "res = create_insert (st_now (sv_app s)) i ids ?new jobs (st_db (sv_app s))"
  have none: "find_existing db ?new = None" for db by (simp add: find_existing_def new_pipeline_def assms(2))
  have on: "on_app (with_db (create_pipeline_row (st_now (sv_app s)) i ids ?new jobs)) s =
      (fst res, s\<lparr>sv_app := (sv_app s)\<lparr>st_db := snd res\<rparr>\<rparr>)"
    by (simp add: on_app_def with_db_def create_pipeline_row_insert res_def case_prod_unfold Let_def)
  from assms(1) obtain rows where r: "fst res = Inr (p, rows, b)"
    and s': "s' = (let t = s\<lparr>sv_app := (sv_app s)\<lparr>st_db := snd res\<rparr>\<rparr> in if b then upd_app (announce p) t else t)"
    unfolding create_from_def create_pipeline_def plans sum.case jobs_def [symmetric] on prod.case
    by (auto split: sum.splits prod.splits)
  have "b" using r by (auto simp: res_def create_insert_def none Let_def case_prod_unfold split: if_splits)
  with r have c: "create_insert (st_now (sv_app s)) i ids ?new jobs (st_db (sv_app s)) = (Inr (p, rows, True), snd res)"
    by (simp add: res_def prod_eq_iff)
  obtain number where n: "p = pl_selected (pipeline_row (st_now (sv_app s)) i number ?new)"
    "rows = map (planned_row (st_now (sv_app s)) i ?new) (zip ids jobs)"
    "db_pipelines (snd res) = db_pipelines (st_db (sv_app s)) @ [pipeline_row (st_now (sv_app s)) i number ?new]"
    "db_jobs (snd res) = db_jobs (st_db (sv_app s)) @ rows"
    by (rule create_insert_new [OF c])
  have t: "st_db (sv_app s') = snd res" "sv_vault s' = sv_vault s" using \<open>b\<close> by (simp_all add: s' announce_def Let_def)
  have "\<forall>j\<in>set rows. pj_pipeline_id j = i \<and> pj_status j = ''queued'' \<and> pj_attempt j = 1"
    by (auto simp: n(2) planned_row_def job_row_def)
  with n t that show thesis by simp
qed

lemma find_row_new:
  assumes "fresh_id i db" "db_pipelines db' = db_pipelines db @ [row]" "pl_id row = i" "find_row_for_workspace v db' ws i = Some r"
  shows "r = \<lparr>pr_pipeline = pl_selected row, pr_repo_full_name = pr_repo_full_name r\<rparr>"
proof -
  have "filter (\<lambda>p. pl_workspace_id p = ws \<and> pl_id p = i) (db_pipelines db) = []"
    using assms(1) by (auto simp: fresh_id_def filter_empty_conv)
  with assms(2-4) show ?thesis
    by (auto simp: find_row_for_workspace_def list_row_def split: if_splits option.splits)
qed

text \<open>
  C25: A rerun is the original run again: a new pipeline of the same repository, workflow, commit, ref,
  inputs and pull request, queued with fresh jobs and owned by the caller, added to the tables as
  they were.
\<close>

theorem rerun_reproduces:
  assumes "rerun api i ids user ws pid req h s = (Inr r, s')" "fresh_id i (st_db (sv_app s))"
  shows "(\<exists>original. find_pipeline_for_workspace (st_db (sv_app s)) ws pid = Some original \<and> plr_id r = i \<and>
      plr_repository_id r = pl_repository_id original \<and> plr_workflow_id r = pl_workflow_id original \<and>
      plr_commit_sha r = pl_commit_sha original \<and> plr_commit_message r = pl_commit_message original \<and>
      plr_git_ref r = pl_git_ref original \<and> plr_trigger_inputs r = pl_trigger_inputs original \<and>
      plr_pr_number r = pl_pr_number original) \<and>
    plr_trigger r = ''manual'' \<and> plr_actor_login r = Some (us_username user) \<and> plr_status r = ''queued'' \<and>
    (\<exists>row rows. db_pipelines (st_db (sv_app s')) = db_pipelines (st_db (sv_app s)) @ [row] \<and> pl_id row = i \<and>
       db_jobs (st_db (sv_app s')) = db_jobs (st_db (sv_app s)) @ rows \<and>
       (\<forall>j\<in>set rows. pj_pipeline_id j = i \<and> pj_status j = ''queued'' \<and> pj_attempt j = 1))"
proof -
  from assms(1) obtain original k repo where src: "rerun_source user ws pid h s = Inr (original, k, repo)"
    by (auto simp: rerun_def split: sum.splits)
  let ?ctx = "rerun_context user original req"
  obtain res s1 where res: "create_from api i ids repo k ?ctx s = (res, s1)" by (rule prod.exhaust)
  with assms(1) obtain p b where "res = Inr (p, b)" by (cases res) (auto simp: rerun_def src)
  with res have c: "create_from api i ids repo k ?ctx s = (Inr (p, b), s1)" by simp
  obtain number rows where n:
    "p = pl_selected (pipeline_row (st_now (sv_app s)) i number (new_pipeline (wd_config (ap_world api)) repo (wk_id k) (wk_name k) (wk_path k) ?ctx))"
    "db_pipelines (st_db (sv_app s1)) = db_pipelines (st_db (sv_app s)) @ [pipeline_row (st_now (sv_app s)) i number
       (new_pipeline (wd_config (ap_world api)) repo (wk_id k) (wk_name k) (wk_path k) ?ctx)]"
    "db_jobs (st_db (sv_app s1)) = db_jobs (st_db (sv_app s)) @ rows"
    "\<forall>j\<in>set rows. pj_pipeline_id j = i \<and> pj_status j = ''queued'' \<and> pj_attempt j = 1"
    by (rule create_from_Inr [OF c]) (simp add: rerun_context_def)
  let ?row = "pipeline_row (st_now (sv_app s)) i number (new_pipeline (wd_config (ap_world api)) repo (wk_id k) (wk_name k) (wk_path k) ?ctx)"
  have i: "pl_id p = i" by (simp add: n(1) pl_selected_def Pipeline.truncate_def pipeline_row_def)
  define s2 where "s2 = upd_app (record_event i None ''pipeline.rerun'' None None None (Some (us_id user))
      (jobj [(''rerunOf'', JStr (dec (pl_id original)))])) s1"
  have t: "db_pipelines (st_db (sv_app s2)) = db_pipelines (st_db (sv_app s1))" "db_jobs (st_db (sv_app s2)) = db_jobs (st_db (sv_app s1))"
    by (simp_all add: s2_def tables_of(12) append_def Let_def)
  from assms(1) obtain r' where r: "find_row_for_workspace (sv_vault s2) (st_db (sv_app s2)) ws i = Some r'"
      "r = PipelineResponse_from r'" "s' = s2"
    by (auto simp: rerun_def src c respond_created_def i s2_def)
  have "r' = \<lparr>pr_pipeline = pl_selected ?row, pr_repo_full_name = pr_repo_full_name r'\<rparr>"
    by (rule find_row_new [OF assms(2) _ _ r(1)]) (simp_all add: t n(2) pipeline_row_def)
  then have r': "pr_pipeline r' = pl_selected ?row" by (metis PipelineListRow.select_convs(1))
  have o: "find_pipeline_for_workspace (st_db (sv_app s)) ws pid = Some original" "pl_workflow_id original = Some (wk_id k)"
    "rp_id repo = pl_repository_id original"
    using src by (auto simp: rerun_source_def scoped_pipeline_def dest: find_detail_Some find_repository_Some)
  show ?thesis
    using o n(4) t n(2,3)
    by (auto simp: r(2,3) PipelineResponse_from_def PipelineResponse_from_row_def r' pl_selected_def Pipeline.truncate_def
        pipeline_row_def new_pipeline_def rerun_context_def)
qed

section \<open>The console beside the server\<close>

datatype ConsoleOp =
    CancelRun User uuid uuid "rstr option"
  | CancelJob User uuid uuid uuid "rstr option"
  | Rerun uuid "uuid list" User uuid uuid "rstr option"
  | DispatchRun uuid "uuid list" User uuid uuid DispatchRequest "rstr option"
  | Download User uuid uuid "rstr option"

fun console_step :: "Api \<Rightarrow> Hooks \<Rightarrow> ConsoleOp \<Rightarrow> Server \<Rightarrow> Server" where
  "console_step api h (CancelRun user ws pid req) s = snd (cancel user ws pid req s)"
| "console_step api h (CancelJob user ws pid jid req) s = snd (job_cancel user ws pid jid req s)"
| "console_step api h (Rerun i ids user ws pid req) s = snd (rerun api i ids user ws pid req h s)"
| "console_step api h (DispatchRun i ids user ws wid body req) s = snd (dispatch_workflow api i ids user ws wid body req h s)"
| "console_step api h (Download user ws aid req) s = snd (artifact_download api user ws aid req s)"

text \<open>The ids an operation draws are new, as \<open>gen_random_uuid\<close> promises.\<close>

fun draws_fresh :: "ConsoleOp \<Rightarrow> Db \<Rightarrow> bool" where
  "draws_fresh (Rerun i ids user ws pid req) db = fresh_id i db"
| "draws_fresh (DispatchRun i ids user ws wid body req) db = fresh_id i db"
| "draws_fresh _ db = True"

text \<open>The steps of the server and of the console, in any order.\<close>

datatype AnyOp = ServerOp SysOp | ConsoleOp Hooks ConsoleOp

fun any_step :: "Api \<Rightarrow> AnyOp \<Rightarrow> Sys \<Rightarrow> Sys" where
  "any_step api (ServerOp op) y = sys_step (ap_world api) op y"
| "any_step api (ConsoleOp h op) y =
     (if draws_fresh op (st_db (sy_app y)) then y\<lparr>sy_server := console_step api h op (sy_server y)\<rparr> else y)"

context kept_sys
begin

lemma respond: "snd (respond_created ws' pid s) = s"
  by (simp add: respond_created_def)

lemma create_from: "ap_world api = w \<Longrightarrow> fresh_id i (st_db (sv_app s)) \<Longrightarrow> P (st_db (sv_app s)) \<Longrightarrow>
    P (st_db (sv_app (snd (create_from api i ids repo k ctx s))))"
  unfolding create_from_def by (simp add: create)

lemma console_step:
  assumes "ap_world api = w" "draws_fresh op (st_db (sv_app s))" "P (st_db (sv_app s))"
  shows "P (st_db (sv_app (console_step api h op s)))"
proof (cases op)
  case (Rerun i ids user ws pid req)
  with assms have c: "P (st_db (sv_app (snd (create_from api i ids repo k ctx s))))" for repo k ctx
    by (intro create_from) simp_all
  show ?thesis
    unfolding Rerun using assms(3)
    by (auto simp: rerun_def respond intro!: and_then_state [where P = "\<lambda>s. P (st_db (sv_app s))"] c recorded split: sum.split)
next
  case (DispatchRun i ids user ws wid body req)
  with assms have c: "P (st_db (sv_app (snd (create_from api i ids repo k ctx s))))" for repo k ctx
    by (intro create_from) simp_all
  show ?thesis
    unfolding DispatchRun using assms(3)
    by (auto simp: dispatch_workflow_def respond intro!: and_then_state [where P = "\<lambda>s. P (st_db (sv_app s))"] c split: sum.split)
qed (use assms in \<open>auto simp: cancel_def job_cancel_def artifact_download_def intro!: cancel_pipeline cancel_job audit split: sum.split\<close>)

lemma any_step:
  assumes w: "ap_world api = w" and ok: "sys_ok y"
  shows "sys_ok (any_step api op y)"
proof (cases op)
  case (ServerOp op')
  then show ?thesis using sys_step [OF ok, of op'] by (simp add: w)
next
  case (ConsoleOp h op')
  then show ?thesis using console_step [OF w _ ok, of op' h] ok by simp
qed

lemma any_run:
  assumes w: "ap_world api = w"
  shows "sys_ok y \<Longrightarrow> sys_ok (fold (any_step api) ops y)"
  by (induction ops arbitrary: y) (simp_all add: any_step [OF w])

end

text \<open>
  C4: No request rewrites history.  Whatever users request through the console, beside whatever the
  scheduler, the runners and the connections do, in any order, the ledger stays exact, a completed
  pipeline keeps its row and a completed job its conclusion, exit code, runner and times.
\<close>

theorem console_keeps_history:
  assumes "ledger_ok (st_db (sy_app y))"
  shows "ledger_ok (st_db (sy_app (fold (any_step api) ops y))) \<and>
    set (finished_rows (st_db (sy_app y))) \<subseteq> set (finished_rows (st_db (sy_app (fold (any_step api) ops y)))) \<and>
    (\<forall>i<length (db_jobs (st_db (sy_app y))). pj_status (db_jobs (st_db (sy_app y)) ! i) = ''completed'' \<longrightarrow>
       final_part (db_jobs (st_db (sy_app (fold (any_step api) ops y))) ! i) = final_part (db_jobs (st_db (sy_app y)) ! i))"
proof (intro conjI allI impI)
  let ?db = "st_db (sy_app y)" and ?db' = "st_db (sy_app (fold (any_step api) ops y))"
  have "ledger_from (set (finished_rows ?db)) ?db" using assms by (simp add: ledger_from_def)
  from led_sys.any_run [OF refl this] show "ledger_ok ?db'" "set (finished_rows ?db) \<subseteq> set (finished_rows ?db')"
    by (simp_all add: ledger_from_def)
  fix i assume i: "i < length (db_jobs ?db)" "pj_status (db_jobs ?db ! i) = ''completed''"
  have "jobs_since ?db ?db" by (simp add: jobs_since_def)
  from jobs_sys.any_run [OF refl this] i(1) have "job_step\<^sup>*\<^sup>* (db_jobs ?db ! i) (db_jobs ?db' ! i)"
    by (simp add: jobs_since_def)
  from steps_terminal [OF this i(2)] show "final_part (db_jobs ?db' ! i) = final_part (db_jobs ?db ! i)" by blast
qed

section \<open>Scope\<close>

text \<open>
  Nobody changes what is not theirs to change.  Without the permission every request of the console
  that would change something is refused as it stands, and a pipeline of another workspace, or a
  job of another pipeline, is not found.
\<close>

lemma scoped_refused:
  "\<not> allowed (sv_vault s) (us_id user) ws perm \<Longrightarrow> scoped_pipeline perm user ws pid s = Inl Forbidden"
  "allowed (sv_vault s) (us_id user) ws perm \<Longrightarrow> find_pipeline_for_workspace (st_db (sv_app s)) ws pid = None \<Longrightarrow>
     scoped_pipeline perm user ws pid s = Inl NotFound"
  by (simp_all add: scoped_pipeline_def require_permission_def)

theorem console_writes_are_scoped:
  "\<not> allowed (sv_vault s) (us_id user) ws CONTENT_WRITE \<Longrightarrow>
     cancel user ws pid req s = (Inl Forbidden, s) \<and> job_cancel user ws pid jid req s = (Inl Forbidden, s) \<and>
     rerun api i ids user ws pid req h s = (Inl Forbidden, s) \<and> dispatch_workflow api i ids user ws wid body req h s = (Inl Forbidden, s)"
  by (simp add: cancel_def job_cancel_def rerun_def dispatch_workflow_def scoped_job_def rerun_source_def dispatch_source_def
      scoped_refused) (simp add: require_permission_def)

end
