(* ===== verification/Isolation.thy ===== *)
theory Isolation
  imports ApiFacts
begin

text \<open>
  A request of the console reaches only its workspace: the pipelines of every other workspace,
  and their jobs, are the same before and after.
\<close>

section \<open>The rows of other pipelines\<close>

definition job_homes :: "Db \<Rightarrow> (uuid \<times> uuid) list" where
  "job_homes db = map (\<lambda>j. (pj_id j, pj_pipeline_id j)) (db_jobs db)"

definition foreign :: "uuid \<Rightarrow> Db \<Rightarrow> PipelineRow list \<times> PipelineJob list" where
  "foreign pid db = (filter (\<lambda>p. pl_id p \<noteq> pid) (db_pipelines db), filter (\<lambda>j. pj_pipeline_id j \<noteq> pid) (db_jobs db))"

definition inside :: "uuid \<Rightarrow> PipelineRow list \<times> PipelineJob list \<Rightarrow> (uuid \<times> uuid) list \<Rightarrow> Db \<Rightarrow> bool" where
  "inside pid F K db \<longleftrightarrow> distinct (map fst K) \<and> foreign pid db = F \<and> job_homes db = K"

lemma inside_same:
  "inside pid F K db \<Longrightarrow> db_pipelines db' = db_pipelines db \<Longrightarrow> db_jobs db' = db_jobs db \<Longrightarrow> inside pid F K db'"
  by (simp add: inside_def foreign_def job_homes_def)

lemma job_homes_update:
  "(\<And>j. pj_id (f j) = pj_id j \<and> pj_pipeline_id (f j) = pj_pipeline_id j) \<Longrightarrow>
     job_homes (db\<lparr>db_jobs := update_where Q f (db_jobs db)\<rparr>) = job_homes db"
  by (simp add: job_homes_def update_where_def)

lemma filter_update_where:
  "(\<And>x. x \<in> set xs \<Longrightarrow> Q x \<Longrightarrow> \<not> P x \<and> \<not> P (f x)) \<Longrightarrow> filter P (update_where Q f xs) = filter P xs"
  by (induction xs) (auto simp: update_where_def)

lemma inside_jobs:
  assumes "inside pid F K db" "\<And>j. j \<in> set (db_jobs db) \<Longrightarrow> Q j \<Longrightarrow> pj_pipeline_id j = pid"
    and "\<And>j. pj_id (f j) = pj_id j \<and> pj_pipeline_id (f j) = pj_pipeline_id j"
  shows "inside pid F K (db\<lparr>db_jobs := update_where Q f (db_jobs db)\<rparr>)"
proof -
  have "filter (\<lambda>j. pj_pipeline_id j \<noteq> pid) (update_where Q f (db_jobs db)) = filter (\<lambda>j. pj_pipeline_id j \<noteq> pid) (db_jobs db)"
    by (rule filter_update_where) (use assms(2,3) in auto)
  moreover have "job_homes (db\<lparr>db_jobs := update_where Q f (db_jobs db)\<rparr>) = job_homes db"
    by (rule job_homes_update) (rule assms(3))
  ultimately show ?thesis using assms(1) by (simp add: inside_def foreign_def)
qed

lemma inside_home:
  assumes "inside pid F K db" "(jid, pid) \<in> set K" "j \<in> set (db_jobs db)" "pj_id j = jid"
  shows "pj_pipeline_id j = pid"
proof -
  from assms(1,3,4) have "distinct (map fst K)" "(jid, pj_pipeline_id j) \<in> set K"
    by (auto simp: inside_def job_homes_def)
  with assms(2) show ?thesis by (metis eq_key_imp_eq_value)
qed

lemma inside_listed: "inside pid F K db \<Longrightarrow> j \<in> set (db_jobs db) \<Longrightarrow> pj_pipeline_id j = pid \<Longrightarrow> (pj_id j, pid) \<in> set K"
  by (auto simp: inside_def job_homes_def)

section \<open>Statements\<close>

lemma inside_upd_job:
  assumes "inside pid F K db" "\<And>j. j \<in> set (db_jobs db) \<Longrightarrow> Q j \<Longrightarrow> pj_pipeline_id j = pid"
    and "\<And>j. pj_id (f j) = pj_id j \<and> pj_pipeline_id (f j) = pj_pipeline_id j"
  shows "inside pid F K (snd (upd_job Q f db))" "inside pid F K (snd (upd_jobs Q f db))"
  using inside_jobs [of pid F K db Q f, OF assms] by (simp_all add: upd_job_def upd_jobs_def)

lemma inside_statements:
  assumes "inside pid F K db"
  shows "inside pid F K (snd (cancel_queued now pid db))"
    "(jid, pid) \<in> set K \<Longrightarrow> inside pid F K (snd (cancel_one_queued now jid db))"
    "(jid, pid) \<in> set K \<Longrightarrow> inside pid F K (snd (force_finish now jid c cat db))"
    "\<forall>i\<in>set ids. (i, pid) \<in> set K \<Longrightarrow> inside pid F K (snd (mark_skipped now ids db))"
    "(jid, pid) \<in> set K \<Longrightarrow> inside pid F K (snd (add_log_bytes db jid n))"
    "inside pid F K (insert_chunk now i ck db)" "inside pid F K (release rid db)" "inside pid F K (add_audit au db)"
    "inside pid F K (snd (append now p j t a b r actor payload db))"
proof -
  note home = inside_home [OF assms]
  show "inside pid F K (snd (cancel_queued now pid db))"
    unfolding cancel_queued_def by (rule inside_upd_job [OF assms]) (auto simp: conclude_queued_def)
  show "(jid, pid) \<in> set K \<Longrightarrow> inside pid F K (snd (cancel_one_queued now jid db))"
    unfolding cancel_one_queued_def by (rule inside_upd_job [OF assms]) (auto simp: conclude_queued_def dest: home)
  show "(jid, pid) \<in> set K \<Longrightarrow> inside pid F K (snd (force_finish now jid c cat db))"
    unfolding force_finish_def by (rule inside_upd_job [OF assms]) (auto dest: home)
  show "\<forall>i\<in>set ids. (i, pid) \<in> set K \<Longrightarrow> inside pid F K (snd (mark_skipped now ids db))"
    unfolding mark_skipped_def by (rule inside_upd_job [OF assms]) (auto simp: conclude_queued_def dest: home)
  show "(jid, pid) \<in> set K \<Longrightarrow> inside pid F K (snd (add_log_bytes db jid n))"
    by (auto simp: add_log_bytes_def Let_def split: option.split intro!: assms inside_jobs dest: home)
  show "inside pid F K (insert_chunk now i ck db)" "inside pid F K (release rid db)" "inside pid F K (add_audit au db)"
    "inside pid F K (snd (append now p j t a b r actor payload db))"
    by (rule inside_same [OF assms]; simp add: insert_chunk_def release_def upd_runners_def add_audit_def append_def Let_def)+
qed

section \<open>Hooks\<close>

abbreviation keeps_inside :: "uuid \<Rightarrow> PipelineRow list \<times> PipelineJob list \<Rightarrow> (uuid \<times> uuid) list \<Rightarrow> AppState \<Rightarrow> bool" where
  "keeps_inside pid F K s \<equiv> inside pid F K (st_db s)"

lemma inside_flush:
  "(pj_id job, pid) \<in> set K \<Longrightarrow> keeps_inside pid F K s \<Longrightarrow> keeps_inside pid F K (snd (flush_logs job s))"
  using finish_job_keeps [of "inside pid F K" "pj_id job" "(st_log_hub s, st_db s)"]
  by (simp add: flush_logs_def with_logs_def Let_def case_prod_unfold inside_statements)

lemma inside_recorded: "keeps_inside pid F K s \<Longrightarrow> keeps_inside pid F K (record_event p j t a b rid actor payload s)"
  by (simp add: tables_of inside_statements)

lemma inside_released: "keeps_inside pid F K s \<Longrightarrow> keeps_inside pid F K (release_runner r s)"
  by (simp add: tables_of inside_statements split: option.split)

lemma inside_fold: "(\<And>x s. keeps_inside pid F K s \<Longrightarrow> keeps_inside pid F K (f x s)) \<Longrightarrow> keeps_inside pid F K s \<Longrightarrow> keeps_inside pid F K (fold f xs s)"
  by (induction xs arbitrary: s) auto

lemma doom_pass_ids: "set (snd (fold doom_step js st)) \<subseteq> set (snd st) \<union> pj_id ` set js"
proof (induction js arbitrary: st)
  case (Cons j js)
  have "set (snd (doom_step j st)) \<subseteq> insert (pj_id j) (set (snd st))" by (auto simp: doom_step_def)
  with Cons.IH [of "doom_step j st"] show ?case by auto
qed simp

lemma to_skip_listed: "set (to_skip jobs) \<subseteq> pj_id ` set jobs"
proof -
  have "set (snd (doom_loop jobs st)) \<subseteq> set (snd st) \<union> pj_id ` set jobs" for st
  proof (induction jobs st rule: doom_loop.induct)
    case (1 jobs st)
    show ?case
    proof (cases "snd (doom_pass jobs st) = snd st")
      case False
      with "1.IH" [OF refl False] doom_pass_ids [of jobs st] show ?thesis
        by (subst doom_loop.simps) (auto simp: Let_def doom_pass_def)
    qed (subst doom_loop.simps, simp add: Let_def)
  qed
  from this [of "(map pj_job_key (filter failed_for_good jobs), [])"] show ?thesis by (simp add: to_skip_def)
qed

lemma inside_skip: "keeps_inside pid F K s \<Longrightarrow> keeps_inside pid F K (skip_dependents pid s)"
proof -
  assume ok: "keeps_inside pid F K s"
  have "\<forall>i\<in>set (to_skip (list_for_pipeline (st_db s) pid)). (i, pid) \<in> set K"
    using to_skip_listed [of "list_for_pipeline (st_db s) pid"] inside_listed [OF ok]
    by (fastforce simp: list_for_pipeline_def)
  with ok show ?thesis
    by (auto simp: skip_dependents_def Let_def case_prod_unfold skip_one_def tables_of(10) inside_statements
        intro!: inside_fold inside_recorded)
qed

lemma inside_settled: "keeps_inside pid F K s \<Longrightarrow> keeps_inside pid F K (maybe_finalize pid s)"
proof -
  assume ok: "keeps_inside pid F K s"
  have "filter (\<lambda>p. pl_id p \<noteq> pid) (db_pipelines (st_db (maybe_finalize pid s))) = filter (\<lambda>p. pl_id p \<noteq> pid) (db_pipelines (st_db s))"
    by (auto simp: maybe_finalize_rows open_pipeline_def complete_with_def split: option.split intro!: filter_update_where)
  with ok show ?thesis by (simp add: inside_def foreign_def job_homes_def)
qed

lemma inside_finished:
  assumes "pj_pipeline_id job = pid" "(pj_id job, pid) \<in> set K" "keeps_inside pid F K s"
  shows "keeps_inside pid F K (snd (on_job_finished job s))"
  unfolding on_job_finished_def
  by (rule and_then_state [where P = "keeps_inside pid F K"])
    (auto simp: Let_def assms inside_flush intro!: inside_settled inside_skip inside_recorded inside_released)

lemma inside_force_end:
  assumes "(jid, pid) \<in> set K" "keeps_inside pid F K s"
  shows "keeps_inside pid F K (snd (force_end jid c cat s))"
proof -
  obtain res t where f: "with_db (force_finish (st_now s) jid c cat) s = (res, t)" by (rule prod.exhaust)
  then have t: "keeps_inside pid F K t" "res = fst (force_finish (st_now s) jid c cat (st_db s))"
    using inside_statements(3) [OF assms(2,1), of "st_now s" c cat] by (auto simp: with_db_def Let_def case_prod_unfold)
  have "pj_id j = jid \<and> pj_pipeline_id j = pid" if "res = Some j" for j
    using that t(2) inside_home [OF assms(2,1)]
    by (auto simp: force_finish_def upd_job_def upd_jobs_def returning_def dest!: fetch_optional_Some)
  with t(1) assms(1) show ?thesis
    by (cases res) (auto simp: force_end_def f intro!: inside_finished)
qed

lemma inside_cancel_running:
  "(pj_id job, pid) \<in> set K \<Longrightarrow> keeps_inside pid F K s \<Longrightarrow> keeps_inside pid F K (snd (cancel_running job s))"
  by (auto simp: cancel_running_def Let_def case_prod_unfold intro!: inside_force_end split: option.splits)

lemma inside_cancelled_one: "keeps_inside pid F K s \<Longrightarrow> keeps_inside pid F K (cancelled_one p actor payload job s)"
  by (simp add: cancelled_one_def inside_recorded)

lemma inside_audit: "keeps_inside pid F K s \<Longrightarrow> keeps_inside pid F K (audit au s)"
  by (simp add: tables_of inside_statements)

lemma inside_cancel_pipeline:
  assumes "keeps_inside (pl_id p) F K s"
  shows "keeps_inside (pl_id p) F K (snd (cancel_pipeline p actor req s))"
proof -
  have run: "(pj_id j, pl_id p) \<in> set K" if "keeps_inside (pl_id p) F K t" "j \<in> set (running_for_pipeline (st_db t) (pl_id p))" for j t
    using that inside_listed [OF that(1), of j] by (auto simp: running_for_pipeline_def)
  show ?thesis
    using assms
    by (auto simp: cancel_pipeline_def Let_def case_prod_unfold tables_of(10)
        intro!: and_then_state [where P = "keeps_inside (pl_id p) F K"] for_each_state [where P = "keeps_inside (pl_id p) F K"]
          inside_settled inside_audit inside_fold inside_cancelled_one inside_recorded inside_statements
          inside_cancel_running
        dest: run [rotated])
qed

lemma inside_cancel_job:
  assumes "(pj_id job, pl_id p) \<in> set K" "keeps_inside (pl_id p) F K s"
  shows "keeps_inside (pl_id p) F K (snd (cancel_job p job actor req s))"
proof -
  define t where "t = record_event (pl_id p) (Some (pj_id job)) ''job.cancel_requested'' None None None actor (JObj []) s"
  define u where "u = with_db (cancel_one_queued (st_now t) (pj_id job)) t"
  have u: "keeps_inside (pl_id p) F K (snd u)"
    by (simp add: u_def t_def tables_of(10) inside_statements inside_recorded assms)
  have cur: "pj_id j = pj_id job" if "find_for_pipeline (st_db (snd u)) (pl_id p) (pj_id job) = Some j" for j
    using that by (auto simp: find_for_pipeline_def dest!: fetch_optional_Some)
  define m where "m = (case fst u of
      Some c \<Rightarrow> (Inr (), maybe_finalize (pl_id p) (skip_dependents (pl_id p) (cancelled_one (pl_id p) actor (JObj []) c (snd u))))
    | None \<Rightarrow> (case find_for_pipeline (st_db (snd u)) (pl_id p) (pj_id job) of
                 None \<Rightarrow> (Inl NotFound, snd u)
               | Some current \<Rightarrow> if pj_status current = ''completed'' then (Inl (Conflict ''job already finished''), snd u)
                   else cancel_running current (snd u)))"
  have "keeps_inside (pl_id p) F K (snd m)"
  proof (cases "fst u")
    case None
    show ?thesis
    proof (cases "find_for_pipeline (st_db (snd u)) (pl_id p) (pj_id job)")
      case (Some j)
      from assms(1) have "(pj_id j, pl_id p) \<in> set K" unfolding cur [OF Some] .
      from inside_cancel_running [OF this u] u show ?thesis by (simp add: m_def None Some)
    qed (simp add: m_def None u)
  qed (simp add: m_def u inside_settled inside_skip inside_cancelled_one)
  then show ?thesis
    unfolding cancel_job_def Let_def case_prod_unfold t_def [symmetric] u_def [symmetric] m_def [symmetric]
    using assms(2) by (auto intro!: and_then_state [where P = "keeps_inside (pl_id p) F K"] inside_audit)
qed

section \<open>Requests\<close>

definition run_part :: "uuid \<Rightarrow> Db \<Rightarrow> PipelineRow list \<times> PipelineJob list" where
  "run_part pid db = (filter (\<lambda>p. pl_id p = pid) (db_pipelines db), filter (\<lambda>j. pj_pipeline_id j = pid) (db_jobs db))"

lemma run_part_foreign: "q \<noteq> pid \<Longrightarrow> run_part q db =
    (filter (\<lambda>p. pl_id p = q) (fst (foreign pid db)), filter (\<lambda>j. pj_pipeline_id j = q) (snd (foreign pid db)))"
  by (auto simp: run_part_def foreign_def intro!: filter_cong)

lemma foreign_part: "foreign pid db' = foreign pid db \<Longrightarrow> q \<noteq> pid \<Longrightarrow> run_part q db' = run_part q db"
  by (simp only: run_part_foreign)

fun op_workspace :: "ConsoleOp \<Rightarrow> uuid" where
  "op_workspace (CancelRun user ws pid req) = ws"
| "op_workspace (CancelJob user ws pid jid req) = ws"
| "op_workspace (Rerun i ids user ws pid req) = ws"
| "op_workspace (DispatchRun i ids user ws wid body req) = ws"
| "op_workspace (Download user ws aid req) = ws"

lemma create_from_Inl:
  assumes "create_from api i ids repo k ctx s = (Inl e, s')"
  shows "st_db (sv_app s') = st_db (sv_app s)"
proof (cases "build_plans (wd_parse_yaml (ap_world api)) (wk_raw_content k) (cf_default_job_image (wd_config (ap_world api)))
       (cf_image_allowlist (wd_config (ap_world api)))")
  case (Inr plans)
  define res where "res = create_insert (st_now (sv_app s)) i ids (new_pipeline (wd_config (ap_world api)) repo (wk_id k) (wk_name k) (wk_path k) ctx)
    (map (finish_plan (ap_world api) (sv_vault s) (rp_workspace_id repo) ctx) plans) (st_db (sv_app s))"
  have "on_app (with_db (create_pipeline_row (st_now (sv_app s)) i ids (new_pipeline (wd_config (ap_world api)) repo (wk_id k) (wk_name k) (wk_path k) ctx)
      (map (finish_plan (ap_world api) (sv_vault s) (rp_workspace_id repo) ctx) plans))) s = (fst res, s\<lparr>sv_app := (sv_app s)\<lparr>st_db := snd res\<rparr>\<rparr>)"
    by (simp add: on_app_def with_db_def create_pipeline_row_insert res_def case_prod_unfold Let_def)
  with assms Inr have r: "fst res = Inl e" and s': "s' = s\<lparr>sv_app := (sv_app s)\<lparr>st_db := snd res\<rparr>\<rparr>"
    by (auto simp: create_from_def create_pipeline_def split: sum.splits prod.splits)
  have "snd res = st_db (sv_app s)" using r create_insert_cases unfolding res_def by (metis fst_conv sum.distinct(1))
  then show ?thesis by (simp add: s')
qed (use assms in \<open>simp add: create_from_def create_pipeline_def\<close>)

lemma create_from_part:
  assumes "fresh_id i (st_db (sv_app s))" "p \<in> set (db_pipelines (st_db (sv_app s)))" "tc_webhook_delivery_id ctx = None"
  shows "run_part (pl_id p) (st_db (sv_app (snd (create_from api i ids repo k ctx s)))) = run_part (pl_id p) (st_db (sv_app s))"
proof -
  obtain res s' where c: "create_from api i ids repo k ctx s = (res, s')" by (rule prod.exhaust)
  have ne: "pl_id p \<noteq> i" using assms(1,2) by (auto simp: fresh_id_def)
  show ?thesis
  proof (cases res)
    case (Inl e)
    with c have "st_db (sv_app s') = st_db (sv_app s)" by (simp add: create_from_Inl)
    then show ?thesis by (simp add: c)
  next
    case (Inr pb)
    obtain q b where pb: "pb = (q, b)" by (rule prod.exhaust)
    obtain number rows where n: "db_pipelines (st_db (sv_app s')) = db_pipelines (st_db (sv_app s)) @ [pipeline_row (st_now (sv_app s)) i number
         (new_pipeline (wd_config (ap_world api)) repo (wk_id k) (wk_name k) (wk_path k) ctx)]"
      "db_jobs (st_db (sv_app s')) = db_jobs (st_db (sv_app s)) @ rows"
      "\<forall>j\<in>set rows. pj_pipeline_id j = i \<and> pj_status j = ''queued'' \<and> pj_attempt j = 1"
      by (rule create_from_Inr [OF c [unfolded Inr pb] assms(3)])
    from n(3) ne have "filter (\<lambda>j. pj_pipeline_id j = pl_id p) rows = []" by (auto simp: filter_empty_conv)
    with n(1,2) ne show ?thesis by (simp add: c run_part_def pipeline_row_def)
  qed
qed

lemma respond_same [simp]: "snd (respond_created ws pid s) = s"
  by (simp add: respond_created_def)

lemma record_part [simp]:
  "run_part q (st_db (record_event p j t a b rid actor payload s)) = run_part q (st_db s)"
  "run_part q (st_db (audit au s)) = run_part q (st_db s)"
  by (simp_all add: run_part_def tables_of append_def add_audit_def Let_def)

text \<open>
  C5: A request reaches only its workspace.  Whatever a user asks of the console for one workspace,
  every pipeline of another one keeps its row, and all its jobs their rows.
\<close>

theorem requests_stay_in_their_workspace:
  assumes ids: "distinct (map pl_id (db_pipelines (st_db (sv_app s))))" "distinct (map pj_id (db_jobs (st_db (sv_app s))))"
    and op: "draws_fresh op (st_db (sv_app s))"
    and p: "p \<in> set (db_pipelines (st_db (sv_app s)))" "pl_workspace_id p \<noteq> op_workspace op"
  shows "run_part (pl_id p) (st_db (sv_app (console_step api h op s))) = run_part (pl_id p) (st_db (sv_app s))"
proof -
  let ?db = "st_db (sv_app s)"
  have other: "pl_id p \<noteq> pid \<and> pl_id q = pid" if "find_pipeline_for_workspace ?db ws pid = Some q" "ws = op_workspace op" for q ws pid
  proof -
    from that(1) obtain r where r: "r \<in> set (db_pipelines ?db)" "pl_workspace_id r = ws" "pl_id r = pid" "q = pl_selected r"
      by (auto simp: find_pipeline_for_workspace_def dest!: fetch_optional_Some)
    with that(2) p(2) have "r \<noteq> p" by auto
    with ids(1) p(1) r have "pl_id p \<noteq> pl_id r" by (auto simp: distinct_map inj_on_def)
    with r show ?thesis by (simp add: pl_selected_def Pipeline.truncate_def)
  qed
  have start: "keeps_inside pid (foreign pid ?db) (job_homes ?db) (sv_app s)" for pid
    using ids(2) by (simp add: inside_def job_homes_def comp_def)
  have frame: "run_part (pl_id p) (st_db t) = run_part (pl_id p) ?db"
    if "keeps_inside pid (foreign pid ?db) (job_homes ?db) t" "pl_id p \<noteq> pid" for pid t
    using that by (intro foreign_part) (simp_all add: inside_def)
  show ?thesis
  proof (cases op)
    case (CancelRun user ws pid req)
    show ?thesis
    proof (cases "scoped_pipeline CONTENT_WRITE user ws pid s")
      case (Inr q)
      then have "find_pipeline_for_workspace ?db ws pid = Some q" by (auto simp: scoped_pipeline_def)
      from other [OF this] have q: "pl_id p \<noteq> pid" "pl_id q = pid" by (simp_all add: CancelRun)
      from frame [OF inside_cancel_pipeline [of q, unfolded q(2), OF start] q(1)] show ?thesis
        by (simp add: CancelRun cancel_def Inr)
    qed (simp add: CancelRun cancel_def)
  next
    case (CancelJob user ws pid jid req)
    show ?thesis
    proof (cases "scoped_job CONTENT_WRITE user ws pid jid s")
      case (Inr qj)
      obtain q j where qj: "qj = (q, j)" by (rule prod.exhaust)
      with Inr have "find_pipeline_for_workspace ?db ws pid = Some q" by (auto simp: scoped_job_def scoped_pipeline_def)
      from other [OF this] have q: "pl_id p \<noteq> pid" "pl_id q = pid" by (simp_all add: CancelJob)
      from Inr qj have "(pj_id j, pid) \<in> set (job_homes ?db)"
        by (auto simp: scoped_job_def find_for_pipeline_def job_homes_def dest!: fetch_optional_Some)
      from frame [OF inside_cancel_job [of j q, unfolded q(2), OF this start] q(1)] show ?thesis
        by (simp add: CancelJob job_cancel_def Inr qj)
    qed (simp add: CancelJob job_cancel_def)
  next
    case (Rerun i ids user ws pid req)
    have part: "run_part (pl_id p) (st_db (sv_app (snd (create_from api i ids repo k (rerun_context user o' req) s)))) = run_part (pl_id p) ?db"
      for repo k o' using op p(1) by (intro create_from_part) (simp_all add: Rerun rerun_context_def)
    show ?thesis
      by (auto simp: Rerun rerun_def part split: sum.split
          intro!: and_then_state [where P = "\<lambda>t. run_part (pl_id p) (st_db (sv_app t)) = run_part (pl_id p) ?db"])
  next
    case (DispatchRun i ids user ws wid body req)
    have part: "run_part (pl_id p) (st_db (sv_app (snd (create_from api i ids repo k ctx s)))) = run_part (pl_id p) ?db"
      if "dispatch_source api user ws wid body req h s = Inr (k, repo, ctx)" for repo k ctx
      using op p(1) that by (intro create_from_part) (auto simp: DispatchRun dispatch_source_def dispatch_context_def)
    show ?thesis
      by (auto simp: DispatchRun dispatch_workflow_def part split: sum.split
          intro!: and_then_state [where P = "\<lambda>t. run_part (pl_id p) (st_db (sv_app t)) = run_part (pl_id p) ?db"])
  next
    case (Download user ws aid req)
    then show ?thesis by (auto simp: artifact_download_def split: sum.split)
  qed
qed

end
