(* ===== verification/WebhookProc.thy ===== *)
theory WebhookProc
  imports WebhookReceive TriggerEval
begin

text \<open>
  The webhook processor, \<open>services/webhook_processor.rs\<close>: one delivery after another is claimed,
  routed by its event, and completed by its timeline rows and its final status, or counted as
  failed.
\<close>

section \<open>Vocabulary\<close>

definition MAX_RETRIES :: int where "MAX_RETRIES = 3"
definition STUCK_SECS :: int where "STUCK_SECS = 300"
definition MAX_SKIPPED_SUMMARY :: nat where "MAX_SKIPPED_SUMMARY = 50"

definition OUTCOME_PIPELINES :: rstr where "OUTCOME_PIPELINES = ''pipelines_created''"
definition OUTCOME_SYNC :: rstr where "OUTCOME_SYNC = ''sync_scheduled''"
definition OUTCOME_BOTH :: rstr where "OUTCOME_BOTH = ''pipelines_and_sync''"
definition OUTCOME_IGNORED :: rstr where "OUTCOME_IGNORED = ''ignored''"
definition OUTCOME_FAILED :: rstr where "OUTCOME_FAILED = ''failed''"

definition REASON_NO_MATCHING_WORKFLOWS :: rstr where "REASON_NO_MATCHING_WORKFLOWS = ''no_matching_workflows''"
definition REASON_FILTERS_NOT_MATCHED :: rstr where "REASON_FILTERS_NOT_MATCHED = ''filters_not_matched''"
definition REASON_BRANCH_DELETED :: rstr where "REASON_BRANCH_DELETED = ''branch_deleted''"
definition REASON_TAG_DELETED :: rstr where "REASON_TAG_DELETED = ''tag_deleted''"
definition REASON_NO_HEAD_COMMIT :: rstr where "REASON_NO_HEAD_COMMIT = ''no_head_commit''"
definition REASON_FORK_PR_SKIPPED :: rstr where "REASON_FORK_PR_SKIPPED = ''fork_pr_skipped''"
definition REASON_PR_ACTION_IGNORED :: rstr where "REASON_PR_ACTION_IGNORED = ''pr_action_ignored''"
definition REASON_PR_CLOSED :: rstr where "REASON_PR_CLOSED = ''pr_closed''"
definition REASON_EVENT_NOT_SUPPORTED :: rstr where "REASON_EVENT_NOT_SUPPORTED = ''event_not_supported''"
definition REASON_REPOSITORY_DELETED :: rstr where "REASON_REPOSITORY_DELETED = ''repository_deleted''"
definition REASON_ACCESS_REVOKED :: rstr where "REASON_ACCESS_REVOKED = ''access_revoked''"

record EventRow =
  er_repository_id :: uuid
  er_git_ref :: "rstr option"
  er_head_sha :: "rstr option"
  er_outcome :: rstr
  er_ignored_reason :: "rstr option"
  er_pipeline_ids :: "uuid list"
  er_sync_run_id :: "uuid option"
  er_summary :: json

record Completion =
  cp_delivery_status :: rstr
  cp_events :: "EventRow list"

definition processed :: "EventRow list \<Rightarrow> Completion" where
  "processed events = \<lparr>cp_delivery_status = ''processed'', cp_events = events\<rparr>"

definition ignored_delivery :: Completion where
  "ignored_delivery = \<lparr>cp_delivery_status = ''ignored'', cp_events = []\<rparr>"

text \<open>A row that says only what was concluded.\<close>

definition plain_event :: "Repository \<Rightarrow> rstr option \<Rightarrow> rstr \<Rightarrow> rstr option \<Rightarrow> json \<Rightarrow> EventRow" where
  "plain_event repo git_ref outcome reason summary =
    \<lparr>er_repository_id = rp_id repo, er_git_ref = git_ref, er_head_sha = None, er_outcome = outcome,
     er_ignored_reason = reason, er_pipeline_ids = [], er_sync_run_id = None, er_summary = summary\<rparr>"

section \<open>Reading a payload\<close>

definition payload_get :: "ClaimedDelivery \<Rightarrow> rstr \<Rightarrow> json option" where
  "payload_get d key = Option.bind (cd_payload d) (\<lambda>p. jget p key)"

definition payload_str :: "ClaimedDelivery \<Rightarrow> rstr \<Rightarrow> rstr option" where
  "payload_str d key = Option.bind (payload_get d key) j_str"

fun j_bool :: "json \<Rightarrow> bool option" where
  "j_bool (JBool b) = Some b"
| "j_bool _ = None"

definition is_i64 :: "int \<Rightarrow> bool" where
  "is_i64 n \<longleftrightarrow> - (2 ^ 63) \<le> n \<and> n < 2 ^ 63"

definition digits :: "rstr \<Rightarrow> int option" where
  "digits s = (if s \<noteq> [] \<and> list_all is_ascii_digit (chars s) then Some (int (dec_value 0 s)) else None)"

fun j_i64 :: "json \<Rightarrow> int option" where
  "j_i64 (JNum s) =
     (case (case strip_prefix ''-'' s of None \<Rightarrow> digits s | Some ds \<Rightarrow> map_option uminus (digits ds)) of
        None \<Rightarrow> None
      | Some n \<Rightarrow> if is_i64 n then Some n else None)"
| "j_i64 _ = None"

definition is_zero_sha :: "rstr \<Rightarrow> bool" where
  "is_zero_sha sha \<longleftrightarrow> sha = [] \<or> list_all (\<lambda>c. c = ch (CHR ''0'')) (chars sha)"

definition push_outcome :: "uuid list \<Rightarrow> bool \<Rightarrow> nat \<Rightarrow> rstr \<times> rstr option" where
  "push_outcome pipeline_ids synced considered =
     (if pipeline_ids \<noteq> [] then (if synced then (OUTCOME_BOTH, None) else (OUTCOME_PIPELINES, None))
      else if synced then (OUTCOME_SYNC, None)
      else (OUTCOME_IGNORED, Some (if considered = 0 then REASON_NO_MATCHING_WORKFLOWS else REASON_FILTERS_NOT_MATCHED)))"

section \<open>Syncs and pipelines\<close>

definition schedule :: "HookWorld \<Rightarrow> uuid \<Rightarrow> rstr \<Rightarrow> Site \<Rightarrow> (unit + uuid option) \<times> Site" where
  "schedule hw repository_id trigger st =
     and_then (stmt hw (\<lambda>_ st. let (r, v) = claim_for_sync (st_now (site_app st)) repository_id (sv_vault (snd st))
                               in (r, upd_vault (\<lambda>_. v) st)) st)
       (\<lambda>claimed st. case claimed of
           None \<Rightarrow> (Inr None, st)
         | Some repository \<Rightarrow>
             and_then (stmt hw (\<lambda>(i, _) st. (i, on_hooks (\<lambda>h. h\<lparr>hk_sync_runs := hk_sync_runs h @
                   [\<lparr>sr_id = i, sr_repository_id = repository_id, sr_trigger = trigger\<rparr>]\<rparr>) st)) st)
               (\<lambda>run_id st. (Inr (Some run_id), on_hooks (\<lambda>h. h\<lparr>hk_syncs := hk_syncs h @ [(repository, run_id)]\<rparr>) st)))"

record PrContext =
  px_number :: int
  px_title :: "rstr option"
  px_user_login :: "rstr option"

definition hook_trigger ::
  "ClaimedDelivery \<Rightarrow> rstr \<Rightarrow> rstr \<Rightarrow> rstr \<Rightarrow> PrContext option \<Rightarrow> TriggerContext"
where
  "hook_trigger d trigger commit_sha git_ref pr =
    \<lparr>tc_trigger = trigger, tc_triggered_by = None, tc_commit_sha = commit_sha,
     tc_commit_message = (case pr of Some pr \<Rightarrow> px_title pr | None \<Rightarrow> payload_str d ''commitMessage''),
     tc_commit_author = (case pr of Some pr \<Rightarrow> px_user_login pr | None \<Rightarrow>
        (case payload_str d ''commitAuthor'' of None \<Rightarrow> payload_str d ''pusherName'' | Some a \<Rightarrow> Some a)),
     tc_actor_login = payload_str d ''senderLogin'', tc_actor_avatar_url = payload_str d ''senderAvatarUrl'',
     tc_git_ref = git_ref, tc_inputs = None, tc_pr_number = map_option px_number pr, tc_request_id = None,
     tc_webhook_delivery_id = Some (cd_delivery_id d)\<rparr>"

text \<open>A creation that fails, for whatever reason, is logged and passed over.\<close>

definition create_for :: "HookWorld \<Rightarrow> Repository \<Rightarrow> TriggerContext \<Rightarrow> RunnableWorkflow \<Rightarrow> Site \<Rightarrow> uuid list \<times> Site" where
  "create_for hw repo ctx k st =
     (case stmt hw (\<lambda>(i, ids) (h, s). let (r, s) = create_pipeline (hw_world hw) i ids repo (wk_id k) (wk_name k)
                      (wk_path k) (wk_raw_content k) ctx s in (r, (h, s))) st of
        (Inr (Inr (p, newly_created)), (h, s)) \<Rightarrow>
          ([pl_id p], (h, if newly_created then upd_app (spawn_checks (ChecksCreate (pl_id p))) s else s))
      | (_, st) \<Rightarrow> ([], st))"

fun run_workflows ::
  "HookWorld \<Rightarrow> Repository \<Rightarrow> TriggerContext \<Rightarrow> EventContext \<Rightarrow> RunnableWorkflow list \<Rightarrow>
     uuid list \<times> json list \<Rightarrow> Site \<Rightarrow> (uuid list \<times> json list) \<times> Site"
where
  "run_workflows hw repo ctx ev [] acc st = (acc, st)"
| "run_workflows hw repo ctx ev (k # ks) (ids, skipped) st =
     (case evaluate (wk_triggers k) (wk_metadata k) ev of
        Skip reason \<Rightarrow>
          run_workflows hw repo ctx ev ks (ids, if length skipped < MAX_SKIPPED_SUMMARY
            then skipped @ [jobj [(''path'', JStr (wk_path k)), (''reason'', JStr reason)]] else skipped) st
      | Run \<Rightarrow> let (new_ids, st) = create_for hw repo ctx k st in run_workflows hw repo ctx ev ks (ids @ new_ids, skipped) st)"

definition run_matching_workflows ::
  "HookWorld \<Rightarrow> ClaimedDelivery \<Rightarrow> Repository \<Rightarrow> rstr \<Rightarrow> rstr \<Rightarrow> rstr \<Rightarrow> PrContext option \<Rightarrow> EventContext \<Rightarrow> Site \<Rightarrow>
     (unit + uuid list \<times> json list \<times> nat) \<times> Site"
where
  "run_matching_workflows hw d repo trigger commit_sha git_ref pr ev st =
     and_then (stmt hw (\<lambda>_ st. (runnable_for_repo hw (rp_id repo)
           (if trigger = ''pull_request'' then ''pull_request'' else ''push'') (fst st), st)) st)
       (\<lambda>ks st. let ((ids, skipped), st) =
            run_workflows hw repo (hook_trigger d trigger commit_sha git_ref pr) ev ks ([], []) st
          in (Inr (ids, skipped, length ks), st))"

definition find_repos :: "HookWorld \<Rightarrow> int \<Rightarrow> Site \<Rightarrow> (unit + Repository list) \<times> Site" where
  "find_repos hw github_repo_id = stmt hw (\<lambda>_ st. (find_all_by_github_id github_repo_id (sv_vault (snd st)), st))"

text \<open>A loop that collects one result per element and ends with the first failure.\<close>

fun collect :: "('x \<Rightarrow> 's \<Rightarrow> ('e + 'y) \<times> 's) \<Rightarrow> 'x list \<Rightarrow> 's \<Rightarrow> ('e + 'y list) \<times> 's" where
  "collect f [] s = (Inr [], s)"
| "collect f (x # xs) s = and_then (f x s) (\<lambda>y s. and_then (collect f xs s) (\<lambda>ys s. (Inr (y # ys), s)))"

section \<open>Pushes\<close>

definition branch_push ::
  "HookWorld \<Rightarrow> ClaimedDelivery \<Rightarrow> rstr \<Rightarrow> rstr \<Rightarrow> rstr list option \<Rightarrow> rstr \<Rightarrow> Repository \<Rightarrow> Site \<Rightarrow> (unit + EventRow) \<times> Site"
where
  "branch_push hw d git_ref commit_sha changed branch repo st =
     and_then (if branch = rp_default_branch repo
               then and_then (schedule hw (rp_id repo) ''webhook'' st) (\<lambda>run st. (Inr (run, run = None), st))
               else (Inr (None, False), st))
       (\<lambda>(sync_run_id, sync_collapsed) st.
          let synced = (sync_run_id \<noteq> None \<or> sync_collapsed) in
          if is_zero_sha commit_sha
          then (Inr ((plain_event repo (Some git_ref) (if synced then OUTCOME_SYNC else OUTCOME_IGNORED)
                  (if synced then None else Some REASON_BRANCH_DELETED) (jobj [(''branchDeleted'', JBool True)]))
                  \<lparr>er_sync_run_id := sync_run_id\<rparr>), st)
          else and_then (run_matching_workflows hw d repo ''push'' commit_sha git_ref None
                  \<lparr>kind = Push branch, changed_paths = changed\<rparr> st)
            (\<lambda>(ids, skipped, considered) st.
               let (outcome, reason) = push_outcome ids synced considered
               in (Inr \<lparr>er_repository_id = rp_id repo, er_git_ref = Some git_ref, er_head_sha = Some commit_sha,
                    er_outcome = outcome, er_ignored_reason = reason, er_pipeline_ids = ids, er_sync_run_id = sync_run_id,
                    er_summary = jobj ((''skipped'', JArr skipped) #
                       (if sync_collapsed then [(''syncCollapsed'', JBool True)] else []))\<rparr>, st)))"

definition tag_push ::
  "HookWorld \<Rightarrow> ClaimedDelivery \<Rightarrow> rstr \<Rightarrow> rstr \<Rightarrow> rstr \<Rightarrow> Repository \<Rightarrow> Site \<Rightarrow> (unit + EventRow) \<times> Site"
where
  "tag_push hw d git_ref commit_sha tag repo st =
     (if is_zero_sha commit_sha
      then (Inr (plain_event repo (Some git_ref) OUTCOME_IGNORED (Some REASON_TAG_DELETED)
             (jobj [(''tagDeleted'', JBool True)])), st)
      else and_then (run_matching_workflows hw d repo ''tag'' commit_sha git_ref None
              \<lparr>kind = TagPush tag, changed_paths = None\<rparr> st)
        (\<lambda>(ids, skipped, considered) st.
           let (outcome, reason) = push_outcome ids False considered
           in (Inr \<lparr>er_repository_id = rp_id repo, er_git_ref = Some git_ref, er_head_sha = Some commit_sha,
                er_outcome = outcome, er_ignored_reason = reason, er_pipeline_ids = ids, er_sync_run_id = None,
                er_summary = jobj [(''skipped'', JArr skipped)]\<rparr>, st)))"

definition push_event_for_repo ::
  "HookWorld \<Rightarrow> ClaimedDelivery \<Rightarrow> rstr \<Rightarrow> rstr \<Rightarrow> rstr list option \<Rightarrow> Repository \<Rightarrow> Site \<Rightarrow> (unit + EventRow) \<times> Site"
where
  "push_event_for_repo hw d git_ref commit_sha changed repo st =
     (case strip_prefix ''refs/heads/'' git_ref of
        Some branch \<Rightarrow> branch_push hw d git_ref commit_sha changed branch repo st
      | None \<Rightarrow>
          (case strip_prefix ''refs/tags/'' git_ref of
             Some tag \<Rightarrow> tag_push hw d git_ref commit_sha tag repo st
           | None \<Rightarrow> (Inr (plain_event repo (Some git_ref) OUTCOME_IGNORED (Some REASON_EVENT_NOT_SUPPORTED) (JObj [])), st)))"

definition pushed_commit :: "ClaimedDelivery \<Rightarrow> rstr" where
  "pushed_commit d = (case payload_str d ''after'' of Some s \<Rightarrow> s | None \<Rightarrow>
     (case payload_str d ''headCommitSha'' of Some s \<Rightarrow> s | None \<Rightarrow> []))"

definition pushed_paths :: "ClaimedDelivery \<Rightarrow> rstr list option" where
  "pushed_paths d =
     (if (case Option.bind (payload_get d ''pathsTruncated'') j_bool of None \<Rightarrow> True | Some b \<Rightarrow> b) then None
      else map_option (filter_map j_str) (Option.bind (payload_get d ''changedPaths'') j_array))"

definition process_push :: "HookWorld \<Rightarrow> ClaimedDelivery \<Rightarrow> Site \<Rightarrow> (unit + Completion) \<times> Site" where
  "process_push hw d st =
     (case cd_github_repo_id d of
        None \<Rightarrow> (Inr ignored_delivery, st)
      | Some github_repo_id \<Rightarrow>
          and_then (find_repos hw github_repo_id st) (\<lambda>repos st.
            if repos = [] then (Inr ignored_delivery, st)
            else case payload_str d ''ref'' of
              None \<Rightarrow> (Inr ignored_delivery, st)
            | Some git_ref \<Rightarrow>
                and_then (collect (push_event_for_repo hw d git_ref (pushed_commit d) (pushed_paths d)) repos st)
                  (\<lambda>events st. (Inr (processed events), st))))"

section \<open>Pull requests\<close>

text \<open>What the code reads of the payload's pull request before it decides anything.\<close>

record PrView =
  pw_number :: "int option"
  pw_head_sha :: "rstr option"
  pw_base_ref :: "rstr option"
  pw_head_repo :: "int option"
  pw_base_repo :: "int option"
  pw_merged :: bool
  pw_title :: "rstr option"
  pw_user_login :: "rstr option"

definition pr_view :: "json \<Rightarrow> PrView" where
  "pr_view pr =
    \<lparr>pw_number = Option.bind (jget pr ''number'') j_i64, pw_head_sha = Option.bind (jget pr ''headSha'') j_str,
     pw_base_ref = Option.bind (jget pr ''baseRef'') j_str, pw_head_repo = Option.bind (jget pr ''headRepoId'') j_i64,
     pw_base_repo = Option.bind (jget pr ''baseRepoId'') j_i64,
     pw_merged = (Option.bind (jget pr ''merged'') j_bool = Some True),
     pw_title = Option.bind (jget pr ''title'') j_str, pw_user_login = Option.bind (jget pr ''userLogin'') j_str\<rparr>"

definition pull_ref :: "int \<Rightarrow> rstr" where
  "pull_ref n = ''refs/pull/'' @ dec_int n @ ''/head''"

definition pr_event :: "PrView \<Rightarrow> rstr \<Rightarrow> rstr option \<Rightarrow> uuid list \<Rightarrow> json list \<Rightarrow> Repository \<Rightarrow> EventRow" where
  "pr_event pr outcome reason ids skipped repo =
    \<lparr>er_repository_id = rp_id repo, er_git_ref = map_option pull_ref (pw_number pr), er_head_sha = pw_head_sha pr,
     er_outcome = outcome, er_ignored_reason = reason, er_pipeline_ids = ids, er_sync_run_id = None,
     er_summary = jobj ((''skipped'', JArr skipped) # entry ''prNumber'' jint (pw_number pr) @
        (if pw_merged pr then [(''merged'', JBool True)] else []))\<rparr>"

definition same_repo :: "PrView \<Rightarrow> bool" where
  "same_repo pr \<longleftrightarrow> pw_head_repo pr \<noteq> None \<and> pw_head_repo pr = pw_base_repo pr"

definition is_i32 :: "int \<Rightarrow> bool" where
  "is_i32 n \<longleftrightarrow> - (2 ^ 31) \<le> n \<and> n < 2 ^ 31"

definition pr_event_for_repo ::
  "HookWorld \<Rightarrow> ClaimedDelivery \<Rightarrow> PrView \<Rightarrow> rstr \<Rightarrow> int \<Rightarrow> rstr \<Rightarrow> rstr \<Rightarrow> Repository \<Rightarrow> Site \<Rightarrow> (unit + EventRow) \<times> Site"
where
  "pr_event_for_repo hw d pr action pr_number head_sha base_ref repo st =
     and_then (run_matching_workflows hw d repo ''pull_request'' head_sha (pull_ref pr_number)
         (Some \<lparr>px_number = pr_number, px_title = pw_title pr, px_user_login = pw_user_login pr\<rparr>)
         \<lparr>kind = PullRequest action base_ref, changed_paths = None\<rparr> st)
       (\<lambda>(ids, skipped, considered) st.
          (Inr (if ids = [] then pr_event pr OUTCOME_IGNORED (Some (if considered = 0 then REASON_NO_MATCHING_WORKFLOWS
                  else REASON_FILTERS_NOT_MATCHED)) ids skipped repo
                else pr_event pr OUTCOME_PIPELINES None ids skipped repo), st))"

definition route_pull_request ::
  "HookWorld \<Rightarrow> ClaimedDelivery \<Rightarrow> rstr \<Rightarrow> PrView \<Rightarrow> Repository list \<Rightarrow> Site \<Rightarrow> (unit + Completion) \<times> Site"
where
  "route_pull_request hw d action pr repos st =
     (let rows_for_all = (\<lambda>reason. processed (map (pr_event pr OUTCOME_IGNORED (Some reason) [] []) repos)) in
      if action = ''closed'' then (Inr (rows_for_all REASON_PR_CLOSED), st)
      else if action = [] then (Inr (rows_for_all REASON_PR_ACTION_IGNORED), st)
      else if \<not> same_repo pr then (Inr (rows_for_all REASON_FORK_PR_SKIPPED), st)
      else case (pw_number pr, pw_head_sha pr, pw_base_ref pr) of
        (Some number, Some head_sha, Some base_ref) \<Rightarrow>
          if \<not> is_i32 number then (Inr (rows_for_all REASON_PR_ACTION_IGNORED), st)
          else and_then (collect (pr_event_for_repo hw d pr action number head_sha base_ref) repos st)
                 (\<lambda>events st. (Inr (processed events), st))
      | _ \<Rightarrow> (Inr (rows_for_all REASON_NO_HEAD_COMMIT), st))"

definition process_pull_request :: "HookWorld \<Rightarrow> ClaimedDelivery \<Rightarrow> rstr \<Rightarrow> Site \<Rightarrow> (unit + Completion) \<times> Site" where
  "process_pull_request hw d action st =
     (case cd_github_repo_id d of
        None \<Rightarrow> (Inr ignored_delivery, st)
      | Some github_repo_id \<Rightarrow>
          and_then (find_repos hw github_repo_id st) (\<lambda>repos st.
            if repos = [] then (Inr ignored_delivery, st)
            else case payload_get d ''pullRequest'' of
              None \<Rightarrow> (Inr ignored_delivery, st)
            | Some pr \<Rightarrow> route_pull_request hw d action (pr_view pr) repos st))"

section \<open>Repositories and installations\<close>

definition vault_stmt :: "HookWorld \<Rightarrow> (time \<Rightarrow> Vault \<Rightarrow> Vault) \<Rightarrow> Site \<Rightarrow> (unit + unit) \<times> Site" where
  "vault_stmt hw f = stmt hw (\<lambda>_ st. ((), upd_vault (f (st_now (site_app st))) st))"

definition resync :: "HookWorld \<Rightarrow> Repository \<Rightarrow> Site \<Rightarrow> (unit + EventRow) \<times> Site" where
  "resync hw repo st = and_then (schedule hw (rp_id repo) ''webhook'' st)
     (\<lambda>run st. (Inr ((plain_event repo None OUTCOME_SYNC None
          (if run = None then jobj [(''syncCollapsed'', JBool True)] else JObj []))\<lparr>er_sync_run_id := run\<rparr>), st))"

definition process_repository :: "HookWorld \<Rightarrow> ClaimedDelivery \<Rightarrow> rstr \<Rightarrow> Site \<Rightarrow> (unit + Completion) \<times> Site" where
  "process_repository hw d action st =
     (case cd_github_repo_id d of
        None \<Rightarrow> (Inr ignored_delivery, st)
      | Some github_repo_id \<Rightarrow>
          and_then (find_repos hw github_repo_id st) (\<lambda>repos st.
            if repos = [] then (Inr ignored_delivery, st)
            else if action = ''deleted'' then
              and_then (vault_stmt hw (\<lambda>now. mark_repositories_failed now [github_repo_id] ''repository deleted on github'') st)
                (\<lambda>_ st. (Inr (processed (map (\<lambda>repo.
                   plain_event repo None OUTCOME_IGNORED (Some REASON_REPOSITORY_DELETED) (JObj [])) repos)), st))
            else if action \<in> {''renamed'', ''edited'', ''privatized'', ''publicized'', ''transferred''} then
              and_then (collect (resync hw) repos st) (\<lambda>events st. (Inr (processed events), st))
            else (Inr (processed (map (\<lambda>repo.
                   plain_event repo None OUTCOME_IGNORED (Some REASON_EVENT_NOT_SUPPORTED) (JObj [])) repos)), st)))"

definition evict_token :: "int \<Rightarrow> Site \<Rightarrow> Site" where
  "evict_token installation_id = on_hooks (\<lambda>h. h\<lparr>hk_evicted := hk_evicted h @ [installation_id]\<rparr>)"

definition str_or_empty :: "rstr option \<Rightarrow> rstr" where
  "str_or_empty s = (case s of None \<Rightarrow> [] | Some s \<Rightarrow> s)"

definition apply_installation :: "HookWorld \<Rightarrow> ClaimedDelivery \<Rightarrow> int \<Rightarrow> rstr \<Rightarrow> Site \<Rightarrow> (unit + unit) \<times> Site" where
  "apply_installation hw d installation_id action st =
     (if action = ''created'' then
        let account = str_or_empty (payload_str d ''installationAccountLogin'');
            sender = str_or_empty (payload_str d ''senderLogin'')
        in if account \<noteq> [] \<and> sender \<noteq> []
           then stmt hw (\<lambda>_ st. ((), on_hooks (record_created_event (st_now (site_app st)) installation_id account sender) st)) st
           else (Inr (), st)
      else if action = ''deleted'' then
        and_then (stmt hw (\<lambda>_ st. ((), delete_by_installation_id installation_id st)) (evict_token installation_id st))
          (\<lambda>_. stmt hw (\<lambda>_ st. ((), on_hooks (delete_installation_events installation_id) st)))
      else if action = ''suspend'' then
        vault_stmt hw (\<lambda>now. set_suspended now installation_id True) (evict_token installation_id st)
      else if action = ''unsuspend'' then vault_stmt hw (\<lambda>now. set_suspended now installation_id False) st
      else (Inr (), st))"

definition process_installation :: "HookWorld \<Rightarrow> ClaimedDelivery \<Rightarrow> rstr \<Rightarrow> Site \<Rightarrow> (unit + Completion) \<times> Site" where
  "process_installation hw d action st =
     (case cd_installation_id d of
        None \<Rightarrow> (Inr ignored_delivery, st)
      | Some installation_id \<Rightarrow>
          and_then (apply_installation hw d installation_id action st) (\<lambda>_ st. (Inr (processed []), st)))"

definition removed_ids :: "ClaimedDelivery \<Rightarrow> int list" where
  "removed_ids d = (case Option.bind (payload_get d ''repositoriesRemoved'') j_array of
     None \<Rightarrow> [] | Some xs \<Rightarrow> filter_map j_i64 xs)"

definition process_installation_repositories ::
  "HookWorld \<Rightarrow> ClaimedDelivery \<Rightarrow> rstr \<Rightarrow> Site \<Rightarrow> (unit + Completion) \<times> Site"
where
  "process_installation_repositories hw d action st =
     (let ids = removed_ids d in
      if action \<noteq> ''removed'' \<or> ids = [] then (Inr (processed []), st)
      else and_then (collect (find_repos hw) (dedup_onto [] ids) st) (\<lambda>found st.
        and_then (vault_stmt hw (\<lambda>now. mark_repositories_failed now ids ''access revoked'') st)
          (\<lambda>_ st. (Inr (processed (map (\<lambda>repo.
             plain_event repo None OUTCOME_IGNORED (Some REASON_ACCESS_REVOKED) (JObj [])) (concat found))), st))))"

section \<open>One delivery\<close>

definition process_delivery :: "HookWorld \<Rightarrow> ClaimedDelivery \<Rightarrow> Site \<Rightarrow> (unit + Completion) \<times> Site" where
  "process_delivery hw d st =
     (let action = str_or_empty (cd_action d); event = cd_event d in
      if event = ''push'' then process_push hw d st
      else if event = ''pull_request'' then process_pull_request hw d action st
      else if event = ''repository'' then process_repository hw d action st
      else if event = ''installation'' then process_installation hw d action st
      else if event = ''installation_repositories'' then process_installation_repositories hw d action st
      else (Inr ignored_delivery, st))"

definition timeline_row :: "ClaimedDelivery \<Rightarrow> EventRow \<Rightarrow> NewRepositoryEvent" where
  "timeline_row d e =
    \<lparr>re_repository_id = er_repository_id e, re_delivery_id = cd_delivery_id d, re_event = cd_event d, re_action = cd_action d,
     re_git_ref = er_git_ref e, re_head_sha = er_head_sha e, re_actor_login = payload_str d ''senderLogin'',
     re_actor_avatar_url = payload_str d ''senderAvatarUrl'', re_outcome = er_outcome e,
     re_ignored_reason = er_ignored_reason e, re_pipeline_ids = er_pipeline_ids e, re_sync_run_id = er_sync_run_id e,
     re_summary = er_summary e, re_received_at = cd_received_at d\<rparr>"

definition insert_events :: "NewRepositoryEvent list \<Rightarrow> uuid list \<Rightarrow> Site \<Rightarrow> Site" where
  "insert_events evs ids st = fold (\<lambda>(i, e). insert_event e i) (zip ids evs) st"

text \<open>A timeline row refers to its repository: one that is gone fails the transaction.\<close>

definition repos_exist :: "NewRepositoryEvent list \<Rightarrow> Site \<Rightarrow> bool" where
  "repos_exist evs st \<longleftrightarrow> re_repository_id ` set evs \<subseteq> rp_id ` set (va_repositories (sv_vault (snd st)))"

definition commit_completion :: "HookWorld \<Rightarrow> ClaimedDelivery \<Rightarrow> Completion \<Rightarrow> Site \<Rightarrow> (unit + unit) \<times> Site" where
  "commit_completion hw d c st =
     (let evs = map (timeline_row d) (cp_events c) in
      and_then (stmt hw (\<lambda>(_, ids) st.
          if repos_exist evs st
          then (True, finish (cd_delivery_id d) (cp_delivery_status c) (insert_events evs ids st))
          else (False, st)) st)
        (\<lambda>done st. (if done then Inr () else Inl (), st)))"

definition failed_row :: "ClaimedDelivery \<Rightarrow> Repository \<Rightarrow> NewRepositoryEvent" where
  "failed_row d repo = (timeline_row d (plain_event repo (payload_str d ''ref'') OUTCOME_FAILED None (JObj [])))
     \<lparr>re_head_sha := payload_str d ''after''\<rparr>"

definition record_failed_event :: "HookWorld \<Rightarrow> ClaimedDelivery \<Rightarrow> Site \<Rightarrow> Site" where
  "record_failed_event hw d st =
     (case cd_github_repo_id d of
        None \<Rightarrow> st
      | Some github_repo_id \<Rightarrow>
          (case find_repos hw github_repo_id st of
             (Inl _, st) \<Rightarrow> st
           | (Inr repos, st) \<Rightarrow>
               if repos = [] then st
               else snd (stmt hw (\<lambda>(_, ids) st. ((), insert_events (map (failed_row d) repos) ids st)) st)))"

definition give_up :: "HookWorld \<Rightarrow> ClaimedDelivery \<Rightarrow> Site \<Rightarrow> Site" where
  "give_up hw d st =
     (let st = snd (stmt hw (\<lambda>_ st. ((), record_failure (cd_delivery_id d) MAX_RETRIES st)) st)
      in if cd_retry_count d + 1 \<ge> MAX_RETRIES then record_failed_event hw d st else st)"

definition process :: "HookWorld \<Rightarrow> ClaimedDelivery \<Rightarrow> Site \<Rightarrow> Site" where
  "process hw d st =
     (case process_delivery hw d st of
        (Inr completion, st) \<Rightarrow>
          (case commit_completion hw d completion st of (Inr _, st) \<Rightarrow> st | (Inl _, st) \<Rightarrow> give_up hw d st)
      | (Inl _, st) \<Rightarrow> give_up hw d st)"

section \<open>The loop\<close>

text \<open>The queue is drained until nothing is pending or a claim fails.\<close>

partial_function (option) drain :: "HookWorld \<Rightarrow> Site \<Rightarrow> Site option" where
  "drain hw st =
     (case stmt hw (\<lambda>_. claim_next hw) st of
        (Inl _, st) \<Rightarrow> Some st
      | (Inr None, st) \<Rightarrow> Some st
      | (Inr (Some d), st) \<Rightarrow> drain hw (process hw d st))"

datatype Wake = Poked | Ticked

definition on_wake :: "HookWorld \<Rightarrow> Wake \<Rightarrow> Site \<Rightarrow> Site option" where
  "on_wake hw wake st =
     drain hw (case wake of
        Poked \<Rightarrow> on_hooks (\<lambda>h. h\<lparr>hk_poked := False\<rparr>) st
      | Ticked \<Rightarrow> snd (stmt hw (\<lambda>_. revert_stuck STUCK_SECS) st))"

end
