(* ===== verification/WebhookKept.thy ===== *)
theory WebhookKept
  imports WebhookProc System
begin

text \<open>
  What the webhook code keeps: the contract a predicate on tables has to meet for a delivery's
  processing to keep it, the queue it leaves alone, and the end of every drain.
\<close>

section \<open>What processing a delivery keeps\<close>

lemma stmt_result:
  "P (tick st) \<Longrightarrow> (\<And>x st. P st \<Longrightarrow> P (snd (f x st))) \<Longrightarrow> P (snd (stmt hw f st))"
  by (simp add: stmt_def Let_def case_prod_unfold)

lemma tick_hooks: "tick st = on_hooks (\<lambda>h. h\<lparr>hk_statements := hk_statements h + 1\<rparr>) st"
  by (simp add: tick_def on_hooks_def)

lemma collect_state:
  assumes "P s" "\<And>x s. P s \<Longrightarrow> P (snd (f x s))"
  shows "P (snd (collect f xs s))"
  using assms(1)
proof (induction xs arbitrary: s)
  case (Cons x xs)
  from assms(2) [OF Cons.prems] show ?case
    by (auto simp: and_then_def split: sum.splits dest: Cons.IH)
qed simp

locale kept_site =
  fixes hw :: HookWorld and P :: "Site \<Rightarrow> bool"
  assumes hooks: "(\<And>h. hk_deliveries (f h) = hk_deliveries h) \<Longrightarrow> P st \<Longrightarrow> P (on_hooks f st)"
    and vault: "P st \<Longrightarrow> P (upd_vault g st)"
    and spawned: "P (h, s) \<Longrightarrow> P (h, upd_app (spawn_checks c) s)"
    and created: "P (h, s) \<Longrightarrow> P (h, snd (create_pipeline (hw_world hw) i ids repo wid name path raw ctx s))"
    and dropped: "P st \<Longrightarrow> P (delete_by_installation_id inst st)"
begin

lemma ticked: "P st \<Longrightarrow> P (tick st)"
  unfolding tick_hooks by (rule hooks) simp

lemma stmt: "P st \<Longrightarrow> (\<And>x st. P st \<Longrightarrow> P (snd (f x st))) \<Longrightarrow> P (snd (stmt hw f st))"
  using ticked by (rule stmt_result)

lemma seq: "P (snd rs) \<Longrightarrow> (\<And>x s. P s \<Longrightarrow> P (snd (f x s))) \<Longrightarrow> P (snd (and_then rs f))"
  by (rule and_then_state)

lemma schedule: "P st \<Longrightarrow> P (snd (schedule hw i t st))"
  unfolding schedule_def
proof (intro seq stmt)
  fix claimed :: "Repository option" and st assume p: "P st"
  show "P (snd (case claimed of None \<Rightarrow> (Inr None, st)
     | Some repository \<Rightarrow> and_then (WebhooksDb.stmt hw (\<lambda>(j, _) st. (j, on_hooks (\<lambda>h. h\<lparr>hk_sync_runs := hk_sync_runs h @
          [\<lparr>sr_id = j, sr_repository_id = i, sr_trigger = t\<rparr>]\<rparr>) st)) st)
        (\<lambda>run_id st. (Inr (Some run_id), on_hooks (\<lambda>h. h\<lparr>hk_syncs := hk_syncs h @ [(repository, run_id)]\<rparr>) st))))"
  proof (cases claimed)
    case (Some repository)
    have "P (snd (WebhooksDb.stmt hw (\<lambda>(j, _) st. (j, on_hooks (\<lambda>h. h\<lparr>hk_sync_runs := hk_sync_runs h @
          [\<lparr>sr_id = j, sr_repository_id = i, sr_trigger = t\<rparr>]\<rparr>) st)) st))"
      using p by (rule stmt) (simp add: case_prod_unfold hooks)
    then show ?thesis unfolding Some option.case by (rule seq) (simp add: hooks)
  qed (simp add: p)
qed (simp_all add: case_prod_unfold Let_def vault)

lemma create_for: "P st \<Longrightarrow> P (snd (create_for hw repo ctx k st))"
proof -
  let ?f = "\<lambda>(i, ids) (h, s). let (r, s) = create_pipeline (hw_world hw) i ids repo (wk_id k) (wk_name k)
      (wk_path k) (wk_raw_content k) ctx s in (r, (h, s))"
  assume "P st"
  then have p: "P (snd (WebhooksDb.stmt hw ?f st))" by (rule stmt) (simp add: case_prod_unfold Let_def created)
  obtain r h s where r: "WebhooksDb.stmt hw ?f st = (r, h, s)" by (metis prod.exhaust)
  with p spawned [of h s] show ?thesis
    unfolding create_for_def by (auto split: sum.splits)
qed

lemma run_workflows: "P st \<Longrightarrow> P (snd (run_workflows hw repo ctx ev ks acc st))"
proof (induction ks arbitrary: acc st)
  case (Cons k ks)
  obtain ids skipped where "acc = (ids, skipped)" by fastforce
  then show ?case using Cons.IH create_for [OF Cons.prems, of repo ctx k] Cons.prems
    by (simp add: case_prod_unfold Let_def split: Decision.split)
qed simp

lemma run_matching: "P st \<Longrightarrow> P (snd (run_matching_workflows hw d repo t sha r pr ev st))"
  unfolding run_matching_workflows_def
  by (rule seq, erule stmt) (simp_all add: case_prod_unfold Let_def run_workflows)

lemma find_repos: "P st \<Longrightarrow> P (snd (find_repos hw i st))"
  unfolding find_repos_def by (erule stmt) simp

lemma vault_stmt: "P st \<Longrightarrow> P (snd (vault_stmt hw g st))"
  unfolding vault_stmt_def by (erule stmt) (simp add: vault)

lemma push_event: "P st \<Longrightarrow> P (snd (push_event_for_repo hw d r sha paths repo st))"
proof -
  assume p: "P st"
  have "P (snd (branch_push hw d r sha paths branch repo st))" for branch
    unfolding branch_push_def
  proof (rule seq)
    show "P (snd (if branch = rp_default_branch repo
        then and_then (WebhookProc.schedule hw (rp_id repo) ''webhook'' st) (\<lambda>run st. (Inr (run, run = None), st))
        else (Inr (None, False), st)))"
      using p by (auto intro!: seq schedule)
  qed (auto simp: case_prod_unfold Let_def intro!: seq run_matching)
  moreover have "P (snd (tag_push hw d r sha tag repo st))" for tag
    using p unfolding tag_push_def by (auto simp: case_prod_unfold Let_def intro!: seq run_matching)
  ultimately show ?thesis using p by (simp add: push_event_for_repo_def split: option.split)
qed

lemma process_push: "P st \<Longrightarrow> P (snd (process_push hw d st))"
  unfolding process_push_def
  by (auto split: option.split intro!: seq find_repos collect_state [where P = P] push_event)

lemma pr_event: "P st \<Longrightarrow> P (snd (pr_event_for_repo hw d pr a n sha b repo st))"
  unfolding pr_event_for_repo_def by (rule seq, erule run_matching) (simp add: case_prod_unfold)

lemma route: "P st \<Longrightarrow> P (snd (route_pull_request hw d a pr repos st))"
  unfolding route_pull_request_def Let_def
  by (auto split: option.split intro!: seq collect_state [where P = P] pr_event)

lemma process_pull_request: "P st \<Longrightarrow> P (snd (process_pull_request hw d a st))"
  unfolding process_pull_request_def by (auto split: option.split intro!: seq find_repos route)

lemma resync: "P st \<Longrightarrow> P (snd (resync hw repo st))"
  unfolding resync_def by (rule seq, erule schedule) simp

lemma found: "P st \<Longrightarrow> (\<And>repos st. P st \<Longrightarrow> P (snd (f repos st))) \<Longrightarrow> P (snd (and_then (find_repos hw i st) f))"
  by (rule seq) (rule find_repos)

lemma process_repository: "P st \<Longrightarrow> P (snd (process_repository hw d a st))"
proof -
  have r: "P (snd (and_then (collect (WebhookProc.resync hw) repos st) (\<lambda>events st. (Inr (processed events), st))))"
    if "P st" for repos st
    by (rule seq, rule collect_state [where P = P, OF that resync]) simp_all
  have m: "P (snd (and_then (WebhookProc.vault_stmt hw g st) (\<lambda>_ st. (Inr (c :: Completion), st))))" if "P st" for g c st
    by (rule seq, rule vault_stmt [OF that]) simp
  show "P st \<Longrightarrow> P (snd (process_repository hw d a st))"
    unfolding process_repository_def by (cases "cd_github_repo_id d") (simp_all add: found r m)
qed

lemma evict: "P st \<Longrightarrow> P (evict_token i st)"
  unfolding evict_token_def by (rule hooks) simp_all

lemma deleted: "P st \<Longrightarrow> P (snd (and_then (WebhooksDb.stmt hw (\<lambda>_ st. ((), delete_by_installation_id i st)) st)
    (\<lambda>_. WebhooksDb.stmt hw (\<lambda>_ st. ((), on_hooks (delete_installation_events i) st)))))"
proof -
  assume p: "P st"
  have "P (snd (WebhooksDb.stmt hw (\<lambda>_ st. ((), delete_by_installation_id i st)) st))"
    using p by (rule stmt) (simp add: dropped)
  moreover have "P (snd (WebhooksDb.stmt hw (\<lambda>_ st. ((), on_hooks (delete_installation_events i) st)) st))" if "P st" for st
    using that by (rule stmt) (simp add: hooks delete_installation_events_def)
  ultimately show ?thesis by (rule seq)
qed

lemma apply_installation: "P st \<Longrightarrow> P (snd (apply_installation hw d i a st))"
proof -
  assume p: "P st"
  have c: "P (snd (WebhooksDb.stmt hw (\<lambda>_ st. ((), on_hooks (record_created_event (st_now (site_app st)) i ac se) st)) st))" for ac se
    using p by (rule stmt) (simp add: hooks record_created_event_def)
  show ?thesis
    using p by (simp add: apply_installation_def Let_def c deleted evict vault_stmt)
qed

lemma process_installation: "P st \<Longrightarrow> P (snd (process_installation hw d a st))"
  unfolding process_installation_def by (auto split: option.split intro!: seq apply_installation)

lemma process_installation_repositories: "P st \<Longrightarrow> P (snd (process_installation_repositories hw d a st))"
proof -
  assume p: "P st"
  have "P (snd (collect (find_repos hw) ids st))" for ids
    using p by (rule collect_state [where P = P]) (rule find_repos)
  then have "P (snd (and_then (collect (find_repos hw) ids st) (\<lambda>found st.
        and_then (WebhookProc.vault_stmt hw g st) (\<lambda>_ st. (Inr (h found :: Completion), st)))))" for ids g h
    by (rule seq) (rule seq, erule vault_stmt, simp)
  with p show ?thesis by (auto simp: process_installation_repositories_def Let_def)
qed

lemma process_delivery: "P st \<Longrightarrow> P (snd (process_delivery hw d st))"
  unfolding process_delivery_def Let_def
  by (simp add: process_push process_pull_request process_repository process_installation process_installation_repositories)

end

end
