(* ===== verification/WebhookQueue.thy ===== *)
theory WebhookQueue
  imports WebhookKept
begin

text \<open>
  The webhook queue as a state machine: what a delivery's processing does to its row, the end
  of every drain, and what every run of requests, drains and server operations keeps.
\<close>

section \<open>What a delivery's processing does to the queue\<close>

lemma stmt_parts:
  obtains "stmt hw f st = (Inl (), tick st)" "hw_fault hw (hk_statements (fst st))"
  | r st' where "f (hw_ids hw (hk_statements (fst st))) (tick st) = (r, st')" "stmt hw f st = (Inr r, st')"
proof (cases "hw_fault hw (hk_statements (fst st))")
  case False
  then show thesis
    by (intro that(2) [of "fst (f (hw_ids hw (hk_statements (fst st))) (tick st))"])
      (auto simp: stmt_def Let_def case_prod_unfold)
qed (simp add: that(1) stmt_def)

lemma queue_simps [simp]:
  "hk_deliveries (fst (tick st)) = hk_deliveries (fst st)" "snd (tick st) = snd st"
  "hk_statements (fst (tick st)) = Suc (hk_statements (fst st))"
  "snd (on_hooks f st) = snd st" "fst (upd_vault g st) = fst st"
  "site_app (upd_vault g st) = site_app st"
  "hk_deliveries (fst (upd_deliveries g' st)) = g' (hk_deliveries (fst st))" "snd (upd_deliveries g' st) = snd st"
  "fst (on_hooks f st) = f (fst st)"
  by (simp_all add: tick_def on_hooks_def upd_vault_def upd_deliveries_def)

interpretation queue: kept_site hw "\<lambda>st. hk_deliveries (fst st) = D" for hw D
  by unfold_locales (simp_all add: delete_by_installation_id_def Let_def case_prod_unfold)

lemma insert_events_queue [simp]:
  "hk_deliveries (fst (insert_events evs ids st)) = hk_deliveries (fst st)" "snd (insert_events evs ids st) = snd st"
proof -
  have "hk_deliveries (fst (fold (\<lambda>(i, e). insert_event e i) xs st)) = hk_deliveries (fst st) \<and>
      snd (fold (\<lambda>(i, e). insert_event e i) xs st) = snd st" for xs
    by (induction xs arbitrary: st) (auto simp: insert_event_def)
  then show "hk_deliveries (fst (insert_events evs ids st)) = hk_deliveries (fst st)" "snd (insert_events evs ids st) = snd st"
    by (simp_all add: insert_events_def)
qed

lemma find_repos_queue [simp]:
  "hk_deliveries (fst (snd (find_repos hw i st))) = hk_deliveries (fst st)" "snd (snd (find_repos hw i st)) = snd st"
  by (simp_all add: find_repos_def stmt_def Let_def)

lemma record_failed_event_queue:
  "hk_deliveries (fst (record_failed_event hw d st)) = hk_deliveries (fst st) \<and> snd (record_failed_event hw d st) = snd st"
  by (auto simp: record_failed_event_def stmt_def Let_def case_prod_unfold split: option.splits sum.splits)

definition finish_row :: "time \<Rightarrow> rstr \<Rightarrow> DeliveryRow \<Rightarrow> DeliveryRow" where
  "finish_row now stat d = d\<lparr>dl_status := stat, dl_processed_at := Some now, cd_payload := None\<rparr>"

definition row_outcome :: "(DeliveryRow \<Rightarrow> DeliveryRow) \<Rightarrow> bool" where
  "row_outcome g \<longleftrightarrow> g = id \<or> (\<exists>now stat. stat \<in> {''processed'', ''ignored''} \<and> g = finish_row now stat) \<or>
     (\<exists>now. g = bump_retry now MAX_RETRIES)"

lemma give_up_queue:
  "\<exists>g. row_outcome g \<and> hk_deliveries (fst (give_up hw d st)) =
     update_where (\<lambda>x. cd_delivery_id x = cd_delivery_id d) g (hk_deliveries (fst st)) \<and> snd (give_up hw d st) = snd st"
proof (rule stmt_parts [of hw "\<lambda>_ st. ((), record_failure (cd_delivery_id d) MAX_RETRIES st)" st])
  assume "stmt hw (\<lambda>_ st. ((), record_failure (cd_delivery_id d) MAX_RETRIES st)) st = (Inl (), tick st)"
  then show ?thesis
    by (intro exI [of _ id]) (auto simp: give_up_def Let_def record_failed_event_queue row_outcome_def update_where_def cong: if_cong)
next
  fix r st'
  assume "((), record_failure (cd_delivery_id d) MAX_RETRIES (tick st)) = (r, st')"
    "stmt hw (\<lambda>_ st. ((), record_failure (cd_delivery_id d) MAX_RETRIES st)) st = (Inr r, st')"
  then show ?thesis
    by (intro exI [of _ "bump_retry (st_now (site_app st)) MAX_RETRIES"])
      (auto simp: give_up_def Let_def record_failed_event_queue row_outcome_def record_failure_def)
qed

text \<open>A completion's status is one of the two terminal ones.\<close>

definition completed_as :: "unit + Completion \<Rightarrow> bool" where
  "completed_as r \<longleftrightarrow> (case r of Inl _ \<Rightarrow> True | Inr c \<Rightarrow> cp_delivery_status c \<in> {''processed'', ''ignored''})"

lemma completed_simps [simp]: "completed_as (Inr (processed evs))" "completed_as (Inr ignored_delivery)" "completed_as (Inl e)"
  by (simp_all add: completed_as_def processed_def ignored_delivery_def)

lemma completed_seq: "(\<And>x s. completed_as (fst (f x s))) \<Longrightarrow> completed_as (fst (and_then rs f))"
  by (auto simp: and_then_def split: sum.splits)

lemma completed_if: "completed_as (fst a) \<Longrightarrow> completed_as (fst b) \<Longrightarrow> completed_as (fst (if c then a else b))"
  by simp

lemma completed_option:
  "completed_as (fst a) \<Longrightarrow> (\<And>x. completed_as (fst (f x))) \<Longrightarrow> completed_as (fst (case v of None \<Rightarrow> a | Some x \<Rightarrow> f x))"
  by (simp split: option.split)

lemma route_completed: "completed_as (fst (route_pull_request hw d a pr repos st))"
  unfolding route_pull_request_def Let_def prod.case
  by (intro completed_if completed_option completed_seq) simp_all

lemma process_delivery_completed: "completed_as (fst (process_delivery hw d st))"
  unfolding process_delivery_def process_push_def process_pull_request_def process_repository_def
    process_installation_def process_installation_repositories_def Let_def
  by (intro completed_if completed_option completed_seq) (simp_all add: route_completed)

lemma commit_cases:
  "commit_completion hw d c st = (Inl (), tick st) \<or>
   (\<exists>evs ids. commit_completion hw d c st =
      (Inr (), finish (cd_delivery_id d) (cp_delivery_status c) (insert_events evs ids (tick st))))"
  by (cases "hw_fault hw (hk_statements (fst st))")
    (auto simp: commit_completion_def stmt_def Let_def case_prod_unfold)

lemma process_cases:
  "process hw d st = give_up hw d (snd (process_delivery hw d st)) \<or>
   process hw d st = give_up hw d (tick (snd (process_delivery hw d st))) \<or>
   (\<exists>evs ids stat. stat \<in> {''processed'', ''ignored''} \<and>
      process hw d st = finish (cd_delivery_id d) stat (insert_events evs ids (tick (snd (process_delivery hw d st)))))"
proof -
  obtain r st' where r: "process_delivery hw d st = (r, st')" by (rule prod.exhaust)
  show ?thesis
  proof (cases r)
    case (Inl e)
    with r show ?thesis by (simp add: process_def)
  next
    case (Inr c)
    with r process_delivery_completed [of hw d st] have "cp_delivery_status c \<in> {''processed'', ''ignored''}"
      by (simp add: completed_as_def)
    with commit_cases [of hw d c st'] r Inr show ?thesis by (elim disjE exE) (simp_all add: process_def, blast+)
  qed
qed

lemma process_queue:
  "\<exists>g. row_outcome g \<and> hk_deliveries (fst (process hw d st)) =
     update_where (\<lambda>x. cd_delivery_id x = cd_delivery_id d) g (hk_deliveries (fst st))"
proof -
  have q: "hk_deliveries (fst (snd (process_delivery hw d st))) = hk_deliveries (fst st)"
    by (rule queue.process_delivery) simp
  from process_cases [of hw d st] show ?thesis
  proof (elim disjE exE conjE)
    fix evs ids stat
    assume "stat \<in> {''processed'', ''ignored''}"
      "process hw d st = finish (cd_delivery_id d) stat (insert_events evs ids (tick (snd (process_delivery hw d st))))"
    then show ?thesis
      by (intro exI [of _ "finish_row (st_now (site_app (snd (process_delivery hw d st)))) stat"])
        (auto simp: row_outcome_def finish_def finish_row_def [abs_def] q)
  qed (use give_up_queue [of hw d] q in \<open>metis queue_simps(1)\<close>)+
qed

section \<open>Every drain ends\<close>

definition weight :: "DeliveryRow \<Rightarrow> nat" where
  "weight d = (if dl_status d = ''pending'' then nat (MAX_RETRIES - cd_retry_count d) + 1 else 0)"

lemma outcome_weight:
  assumes "row_outcome g" "dl_status d = ''pending''"
  shows "weight (g (d\<lparr>dl_status := ''processing'', dl_last_attempt_at := t\<rparr>)) < weight d"
  using assms by (auto simp: row_outcome_def weight_def finish_row_def bump_retry_def MAX_RETRIES_def split: if_splits)

lemma weight_decreases:
  assumes "distinct (map cd_delivery_id rows)" "d \<in> set rows" "dl_status d = ''pending''" "row_outcome g"
  defines "same \<equiv> \<lambda>x. cd_delivery_id x = cd_delivery_id d"
  shows "sum_list (map weight (update_where same g (mark_processing now (cd_delivery_id d) rows))) < sum_list (map weight rows)"
  using assms(1,2)
proof (induction rows)
  case (Cons x xs)
  have other: "update_where same g (mark_processing now (cd_delivery_id d) ys) = ys" if "cd_delivery_id d \<notin> cd_delivery_id ` set ys" for ys
    using that by (induction ys) (auto simp: update_where_def mark_processing_def same_def)
  show ?case
  proof (cases "x = d")
    case True
    with Cons.prems(1) other [of xs] outcome_weight [OF assms(4,3)] show ?thesis
      by (simp add: update_where_def mark_processing_def same_def)
  next
    case False
    with Cons.prems have "d \<in> set xs" "cd_delivery_id x \<noteq> cd_delivery_id d" by (auto simp: rev_image_eqI)
    with Cons.IH Cons.prems(1) show ?thesis by (simp add: update_where_def mark_processing_def same_def)
  qed
qed simp

lemma mark_processing_ids [simp]: "map cd_delivery_id (mark_processing now i rows) = map cd_delivery_id rows"
  by (simp add: mark_processing_def update_where_def comp_def if_distrib cong: if_cong)

lemma outcome_ids: "row_outcome g \<Longrightarrow> map cd_delivery_id (update_where p g rows) = map cd_delivery_id rows"
  by (auto simp: update_where_def row_outcome_def finish_row_def bump_retry_def)

lemma oldest_pending_mem: "oldest_pending hw rows = Some d \<Longrightarrow> d \<in> set rows \<and> dl_status d = ''pending''"
  by (auto simp: oldest_pending_def dest!: fetch_optional_Some)

lemma oldest_pending_None: "oldest_pending hw rows = None \<longleftrightarrow> (\<forall>d\<in>set rows. dl_status d \<noteq> ''pending'')"
proof -
  have "length (sort_key cd_received_at (sort_key (\<lambda>d. hw_collate hw (cd_delivery_id d))
      (filter (\<lambda>d. dl_status d = ''pending'') rows))) = length (filter (\<lambda>d. dl_status d = ''pending'') rows)" by simp
  then have "oldest_pending hw rows = None \<longleftrightarrow> filter (\<lambda>d. dl_status d = ''pending'') rows = []"
    unfolding oldest_pending_def fetch_optional_None by (simp only: length_0_conv [symmetric])
  then show ?thesis by (simp add: filter_empty_conv)
qed

text \<open>One round of the loop: nothing is left, the claim failed, or one row is claimed and dealt with.\<close>

lemma claim_round:
  obtains "stmt hw (\<lambda>_. claim_next hw) st = (Inl (), tick st)" "hw_fault hw (hk_statements (fst st))"
  | "stmt hw (\<lambda>_. claim_next hw) st = (Inr None, tick st)" "\<forall>d\<in>set (hk_deliveries (fst st)). dl_status d \<noteq> ''pending''"
  | d st' where "stmt hw (\<lambda>_. claim_next hw) st = (Inr (Some (claimed d)), st')" "d \<in> set (hk_deliveries (fst st))"
      "dl_status d = ''pending''" "snd st' = snd st"
      "hk_deliveries (fst st') = mark_processing (st_now (site_app st)) (cd_delivery_id d) (hk_deliveries (fst st))"
proof (rule stmt_parts [of hw "\<lambda>_. claim_next hw" st])
  assume "stmt hw (\<lambda>_. claim_next hw) st = (Inl (), tick st)" "hw_fault hw (hk_statements (fst st))"
  then show thesis by (rule that(1))
next
  fix r st' assume c: "claim_next hw (tick st) = (r, st')" "stmt hw (\<lambda>_. claim_next hw) st = (Inr r, st')"
  show thesis
  proof (cases "oldest_pending hw (hk_deliveries (fst st))")
    case None
    with c oldest_pending_None [of hw "hk_deliveries (fst st)"] that(2) show thesis by (auto simp: claim_next_def)
  next
    case (Some d)
    with c oldest_pending_mem [OF Some] that(3) show thesis by (auto simp: claim_next_def)
  qed
qed

lemma claimed_id [simp]: "cd_delivery_id (claimed d) = cd_delivery_id d" "cd_retry_count (claimed d) = cd_retry_count d"
  by (simp_all add: claimed_def ClaimedDelivery.truncate_def)

lemma drain_ends:
  assumes "distinct (map cd_delivery_id (hk_deliveries (fst st)))"
  shows "\<exists>st'. drain hw st = Some st' \<and>
    ((\<forall>d\<in>set (hk_deliveries (fst st')). dl_status d \<noteq> ''pending'') \<or> hw_fault hw (hk_statements (fst st') - 1))"
  using assms
proof (induction "sum_list (map weight (hk_deliveries (fst st)))" arbitrary: st rule: less_induct)
  case less
  show ?case
  proof (rule claim_round [of hw st])
    fix d st' assume c: "stmt hw (\<lambda>_. claim_next hw) st = (Inr (Some (claimed d)), st')" "d \<in> set (hk_deliveries (fst st))"
      "dl_status d = ''pending''" "snd st' = snd st"
      "hk_deliveries (fst st') = mark_processing (st_now (site_app st)) (cd_delivery_id d) (hk_deliveries (fst st))"
    obtain g where g: "row_outcome g" "hk_deliveries (fst (process hw (claimed d) st')) =
        update_where (\<lambda>x. cd_delivery_id x = cd_delivery_id d) g (hk_deliveries (fst st'))"
      using process_queue [of hw "claimed d" st'] by auto
    have "\<exists>st''. drain hw (process hw (claimed d) st') = Some st'' \<and>
      ((\<forall>d\<in>set (hk_deliveries (fst st'')). dl_status d \<noteq> ''pending'') \<or> hw_fault hw (hk_statements (fst st'') - 1))"
      using weight_decreases [OF less.prems c(2,3) g(1)] less.prems outcome_ids [OF g(1)]
      by (intro less.hyps) (simp_all add: g(2) c(5))
    then show ?thesis by (subst drain.simps) (simp add: c(1))
  qed (subst drain.simps; simp)+
qed

end
