(* ===== verification/WebhookRuns.thy ===== *)
theory WebhookRuns
  imports WebhookQueue
begin

text \<open>
  Runs of the server with GitHub's webhooks: requests, wake-ups of the processor and everything
  else the server does, in any order.
\<close>

section \<open>One pipeline for a delivery and a workflow\<close>

definition row_keys :: "PipelineRow list \<Rightarrow> (rstr \<times> uuid option) list" where
  "row_keys rows = filter_map (\<lambda>p. map_option (\<lambda>d. (d, pl_workflow_id p)) (pl_webhook_delivery_id p)) rows"

lemma keys_rows: "delivery_keys db = row_keys (db_pipelines db)"
  by (simp add: delivery_keys_def row_keys_def)

lemma row_keys_update:
  "(\<And>p. pl_webhook_delivery_id (f p) = pl_webhook_delivery_id p \<and> pl_workflow_id (f p) = pl_workflow_id p) \<Longrightarrow>
     row_keys (update_where p f rows) = row_keys rows"
  by (induction rows) (simp_all add: row_keys_def update_where_def split: option.split)

lemma distinct_row_keys_filter: "distinct (row_keys rows) \<Longrightarrow> distinct (row_keys (filter p rows))"
proof (induction rows)
  case (Cons r rows)
  have "set (row_keys (filter p rows)) \<subseteq> set (row_keys rows)" by (auto simp: row_keys_def set_filter_map)
  with Cons show ?case by (auto simp: row_keys_def split: option.splits)
qed simp

definition keys_ok :: "Db \<Rightarrow> bool" where
  "keys_ok db \<longleftrightarrow> distinct (delivery_keys db)"

lemma keys_same: "keys_ok db \<Longrightarrow> row_keys (db_pipelines db') = row_keys (db_pipelines db) \<Longrightarrow> keys_ok db'"
  by (simp add: keys_ok_def keys_rows)

lemma insert_keys: "keys_ok db \<Longrightarrow> keys_ok (snd (create_insert now i ids new jobs db))"
proof (cases rule: disjE [OF create_insert_cases [of now i ids new jobs db]])
  case 1
  assume ok: "keys_ok db"
  let ?db = "snd (create_insert now i ids new jobs db)"
  from 1 obtain p rows where "create_insert now i ids new jobs db = (Inr (p, rows, True), ?db)" by blast
  then obtain number where n: "find_existing db new = None"
    and rows: "db_pipelines ?db = db_pipelines db @ [pipeline_row now i number new]"
    by (rule create_insert_new)
  have "(d, Some (np_workflow_id new)) \<notin> set (delivery_keys db)" if "np_webhook_delivery_id new = Some d" for d
    using n that by (auto simp: find_existing_def find_by_delivery_def filter_empty_conv delivery_keys_def set_filter_map same_delivery_def)
  with ok show ?thesis
    by (cases "np_webhook_delivery_id new")
      (auto simp: keys_ok_def delivery_keys_def rows filter_map_append pipeline_row_def)
qed simp

lemma create_keys: "keys_ok db \<Longrightarrow> keys_ok (snd (create_pipeline_row now i ids new jobs db))"
  by (simp add: create_pipeline_row_insert insert_keys)

lemma maybe_finalize_keys: "row_keys (db_pipelines (st_db (maybe_finalize pid s))) = row_keys (db_pipelines (st_db s))"
  by (auto simp: maybe_finalize_def with_db_def tables_of finalize_def upd_pipeline_def append_def add_audit_def Let_def
      complete_with_def intro!: row_keys_update split: option.splits prod.splits)

lemma pipelines_same:
  "db_pipelines (snd (add_log_bytes db i n)) = db_pipelines db"
  "db_pipelines (snd (claim_for_runner now i rid db)) = db_pipelines db"
  by (auto simp: add_log_bytes_def claim_for_runner_def upd_job_def upd_jobs_def case_prod_unfold Let_def split: option.splits)

interpretation keys_ws: kept_ws keys_ok
proof unfold_locales
  fix s :: AppState and pid assume "keys_ok (st_db s)"
  then show "keys_ok (st_db (maybe_finalize pid s))" using maybe_finalize_keys by (rule keys_same)
next
  fix db now pid assume "keys_ok db"
  then show "keys_ok (snd (mark_in_progress now pid db))"
    by (rule keys_same) (simp add: mark_in_progress_def upd_pipeline_def row_keys_update)
qed (erule keys_same; simp add: append_def add_audit_def insert_chunk_def pipelines_same mark_skipped_def cancel_queued_def
      cancel_one_queued_def force_finish_def requeue_orphans_def recover_orphans_def unclaim_def revert_unacked_def ack_def
      set_stage_def finish_from_runner_def upd_job_def upd_jobs_def release_def mark_offline_def mark_connected_def
      update_labels_def touch_last_seen_def touch_last_seen_with_health_def exchange_bootstrap_token_def upd_runners_def
      insert_pending_def mark_uploaded_def mark_failed_def upd_artifacts_def case_prod_unfold Let_def split: option.split)+

interpretation keys_sys: kept_sys keys_ok w for w
  by unfold_locales (auto intro: keys_ws.on_runner_msg create_keys)

interpretation keys_site: kept_site hw "\<lambda>st. keys_ok (site_db st)" for hw
proof unfold_locales
  fix inst st assume "keys_ok (site_db st)"
  then show "keys_ok (site_db (delete_by_installation_id inst st))"
    by (auto simp: delete_by_installation_id_def drop_pipelines_def upd_app_def Let_def case_prod_unfold keys_ok_def keys_rows
        intro: distinct_row_keys_filter)
next
  fix h s i ids repo wid name path raw ctx assume "keys_ok (site_db (h, s))"
  then show "keys_ok (site_db (h, snd (create_pipeline (hw_world hw) i ids repo wid name path raw ctx s)))"
    using create_keys [of "st_db (sv_app s)"]
    by (auto simp: create_pipeline_def announce_def poke_def tables_of(10) upd_app_def prod_eq_iff split: sum.splits prod.splits
        dest!: arg_cong [where f = snd] on_app_result)
qed (simp_all add: upd_app_def upd_vault_def)

section \<open>Rows of the queue\<close>

definition waiting_row :: "DeliveryRow \<Rightarrow> bool" where
  "waiting_row d \<longleftrightarrow> dl_status d \<in> {''pending'', ''processing''}"

text \<open>
  A row that waits has attempts left; one that is done has a final status and no payload.
\<close>

definition row_ok :: "DeliveryRow \<Rightarrow> bool" where
  "row_ok d \<longleftrightarrow> (if waiting_row d then cd_retry_count d < MAX_RETRIES
     else dl_status d \<in> {''processed'', ''ignored'', ''failed''} \<and> cd_payload d = None)"

definition hooks_ok :: "Site \<Rightarrow> bool" where
  "hooks_ok st \<longleftrightarrow> distinct (map cd_delivery_id (hk_deliveries (fst st))) \<and>
     (\<forall>d\<in>set (hk_deliveries (fst st)). row_ok d) \<and> keys_ok (site_db st)"

definition delivery_ids :: "Site \<Rightarrow> rstr list" where
  "delivery_ids st = map cd_delivery_id (hk_deliveries (fst st))"

lemma row_ok_update:
  "(\<And>d. d \<in> set rows \<Longrightarrow> p d \<Longrightarrow> row_ok d \<Longrightarrow> row_ok (g d)) \<Longrightarrow> \<forall>d\<in>set rows. row_ok d \<Longrightarrow>
     \<forall>d\<in>set (update_where p g rows). row_ok d"
  by (auto simp: update_where_def)

lemma outcome_row_ok: "row_outcome g \<Longrightarrow> row_ok d \<Longrightarrow> row_ok (g d)"
  by (auto simp: row_outcome_def row_ok_def waiting_row_def finish_row_def bump_retry_def split: if_splits)

lemma ids_update: "(\<And>d. cd_delivery_id (g d) = cd_delivery_id d) \<Longrightarrow>
    map cd_delivery_id (update_where p g rows) = map cd_delivery_id rows"
  by (simp add: update_where_def)

text \<open>What one step does to a state: it stays in order and no delivery is lost.\<close>

definition run_ok :: "Site \<Rightarrow> Site \<Rightarrow> bool" where
  "run_ok st st' \<longleftrightarrow> (hooks_ok st \<longrightarrow> hooks_ok st' \<and> prefix (delivery_ids st) (delivery_ids st'))"

lemma run_ok_refl [simp]: "run_ok st st"
  by (simp add: run_ok_def)

lemma run_ok_trans: "run_ok st st1 \<Longrightarrow> run_ok st1 st2 \<Longrightarrow> run_ok st st2"
  by (auto simp: run_ok_def intro: prefix_order.trans)

lemma process_ok: "run_ok st (process hw d st)"
proof -
  obtain g where g: "row_outcome g" "hk_deliveries (fst (process hw d st)) =
     update_where (\<lambda>x. cd_delivery_id x = cd_delivery_id d) g (hk_deliveries (fst st))"
    using process_queue by blast
  have s: "snd (process hw d st) = snd (snd (process_delivery hw d st))"
  proof -
    have "snd (give_up hw d st1) = snd st1" for st1 using give_up_queue [of hw d st1] by blast
    then show ?thesis using process_cases [of hw d st] by (elim disjE exE conjE) (simp_all only: finish_def queue_simps insert_events_queue)
  qed
  have "keys_ok (site_db st) \<Longrightarrow> keys_ok (site_db (process hw d st))"
    unfolding s by (rule keys_site.process_delivery)
  then show ?thesis
    by (auto simp: run_ok_def hooks_ok_def delivery_ids_def g(2) outcome_ids [OF g(1)]
        dest: row_ok_update [rotated] intro: outcome_row_ok [OF g(1)])
qed

lemma claim_ok: "run_ok st (snd (stmt hw (\<lambda>_. claim_next hw) st))"
proof (rule claim_round [of hw st])
  fix d st' assume c: "stmt hw (\<lambda>_. claim_next hw) st = (Inr (Some (claimed d)), st')" "d \<in> set (hk_deliveries (fst st))"
    "dl_status d = ''pending''" "snd st' = snd st"
    "hk_deliveries (fst st') = mark_processing (st_now (site_app st)) (cd_delivery_id d) (hk_deliveries (fst st))"
  {
    assume ok: "hooks_ok st"
    then have u: "x = d" if "x \<in> set (hk_deliveries (fst st))" "cd_delivery_id x = cd_delivery_id d" for x
      using c(2) that by (auto simp: hooks_ok_def distinct_map inj_on_def)
    have "\<forall>x\<in>set (hk_deliveries (fst st')). row_ok x"
      unfolding c(5) mark_processing_def
      using ok c(3) by (intro row_ok_update) (auto dest: u simp: hooks_ok_def row_ok_def waiting_row_def)
    with ok have "hooks_ok st'" by (simp add: hooks_ok_def c(4,5))
  }
  then show ?thesis by (simp add: c(1) run_ok_def delivery_ids_def c(5))
qed (simp_all add: run_ok_def hooks_ok_def delivery_ids_def)

lemma drain_ok: "drain hw st = Some st' \<Longrightarrow> run_ok st st'"
proof (rule drain.raw_induct)
  fix drain' hw st st'
  assume ih: "\<And>hw st st'. drain' hw st = Some st' \<Longrightarrow> run_ok st st'"
    and d: "(case stmt hw (\<lambda>_. claim_next hw) st of (Inl _, st) \<Rightarrow> Some st | (Inr None, st) \<Rightarrow> Some st
      | (Inr (Some d), st) \<Rightarrow> drain' hw (process hw d st)) = Some st'"
  obtain r st1 where r: "stmt hw (\<lambda>_. claim_next hw) st = (r, st1)" by (rule prod.exhaust)
  with claim_ok [of st hw] have s: "run_ok st st1" by simp
  show "run_ok st st'"
  proof (cases r)
    case (Inr x)
    with d r s show ?thesis
      by (cases x) (auto intro: run_ok_trans [OF s] run_ok_trans [OF process_ok] ih)
  qed (use d r s in simp)
qed

lemma revert_ok: "run_ok st (snd (revert_stuck n st))"
proof -
  let ?p = "\<lambda>d. dl_status d = ''processing'' \<and>
    (case dl_last_attempt_at d of None \<Rightarrow> False | Some t \<Rightarrow> t < st_now (site_app st) - secs n)"
  have "hk_deliveries (fst (snd (revert_stuck n st))) =
      update_where ?p (\<lambda>d. d\<lparr>dl_status := ''pending''\<rparr>) (hk_deliveries (fst st))" "snd (snd (revert_stuck n st)) = snd st"
    by (simp_all add: revert_stuck_def Let_def)
  moreover have "row_ok (d\<lparr>dl_status := ''pending''\<rparr>)" if "?p d" "row_ok d" for d
    using that by (auto simp: row_ok_def waiting_row_def)
  ultimately show ?thesis
    using row_ok_update [of "hk_deliveries (fst st)" ?p "\<lambda>d. d\<lparr>dl_status := ''pending''\<rparr>"]
    by (simp add: run_ok_def hooks_ok_def delivery_ids_def ids_update)
qed

end
