(* ===== verification/WebhookFacts.thy ===== *)
theory WebhookFacts
  imports WebhookRuns
begin

text \<open>
  The guarantees of the webhook path: who gets in, what a run keeps, that the processor always
  comes to rest, and what a pull request from a fork, a failed creation and an interrupted sync
  lead to.
\<close>

section \<open>Runs\<close>

inductive site_step :: "HookWorld \<Rightarrow> Site \<Rightarrow> Site \<Rightarrow> bool" for hw where
  request: "site_step hw st (snd (receive_hook hw headers body st))"
| wake: "on_wake hw how st = Some st' \<Longrightarrow> site_step hw st st'"
| server: "sy_server y = s \<Longrightarrow> site_step hw (h, s) (h, sy_server (sys_step (hw_world hw) op y))"

inductive_cases site_stepE: "site_step hw st st'"

lemma receive_cases:
  obtains cause where "verify_signature hw headers body = Inl cause"
      "receive_hook hw headers body st =
         (401, on_hooks (\<lambda>h. h\<lparr>hk_auth := record_at cause (st_now (site_app st)) (hk_auth h)\<rparr>) st)"
  | "verify_signature hw headers body = Inr ()" "receive_hook hw headers body st = (400, st)"
  | "verify_signature hw headers body = Inr ()" "receive_hook hw headers body st = (500, tick st)"
  | i ev e stat payload r st' where "verify_signature hw headers body = Inr ()"
      "header_str hw headers ''x-github-delivery'' = Some i" "header_str hw headers ''x-github-event'' = Some ev"
      "hw_parse hw body = Some e"
      "(stat, payload) = (if ev \<in> set PROCESSED_EVENTS then (''pending'', Some (normalize_payload e)) else (''ignored'', None))"
      "insert_delivery i ev (ev_action e) (map_option fst (ev_installation e)) (ev_repository e) stat payload (tick st) = (r, st')"
      "receive_hook hw headers body st = (if r then (202, if stat = ''pending'' then on_hooks (\<lambda>h. h\<lparr>hk_poked := True\<rparr>) st' else st')
         else (200, st'))"
proof (cases "verify_signature hw headers body")
  case (Inl cause)
  then show thesis by (intro that(1)) (simp_all add: receive_hook_def Let_def)
next
  case (Inr u)
  then have v: "verify_signature hw headers body = Inr ()" by simp
  show thesis
  proof (cases "\<exists>ev i e. header_str hw headers ''x-github-event'' = Some ev \<and>
      header_str hw headers ''x-github-delivery'' = Some i \<and> hw_parse hw body = Some e")
    case False
    with v show thesis by (intro that(2)) (auto simp: receive_hook_def Let_def split: option.split)
  next
    case True
    then obtain ev i e where h: "header_str hw headers ''x-github-event'' = Some ev"
      "header_str hw headers ''x-github-delivery'' = Some i" "hw_parse hw body = Some e" by blast
    define sp where "sp = (if ev \<in> set PROCESSED_EVENTS then (''pending'', Some (normalize_payload e)) else (''ignored'', None))"
    obtain stat payload where sp: "sp = (stat, payload)" by (rule prod.exhaust)
    let ?f = "\<lambda>_. insert_delivery i ev (ev_action e) (map_option fst (ev_installation e)) (ev_repository e) stat payload"
    have r: "receive_hook hw headers body st = (case stmt hw ?f st of (Inl _, st) \<Rightarrow> (500, st)
        | (Inr False, st) \<Rightarrow> (200, st)
        | (Inr True, st) \<Rightarrow> (202, if stat = ''pending'' then on_hooks (\<lambda>h. h\<lparr>hk_poked := True\<rparr>) st else st))"
      using sp by (simp add: receive_hook_def Let_def v h sp_def)
    show thesis
    proof (rule stmt_parts [of hw ?f st])
      assume "stmt hw ?f st = (Inl (), tick st)"
      with r v show thesis by (intro that(3)) simp_all
    next
      fix b st' assume "?f (hw_ids hw (hk_statements (fst st))) (tick st) = (b, st')" "stmt hw ?f st = (Inr b, st')"
      with r show thesis by (intro that(4) [OF v h(2,1,3) sp [unfolded sp_def, symmetric]]) (auto split: bool.split)
    qed
  qed
qed

lemma insert_ok:
  assumes "insert_delivery i ev a inst repo stat payload st = (r, st')"
    and "stat = ''pending'' \<or> stat = ''ignored'' \<and> payload = None"
  shows "run_ok st st'"
proof -
  let ?rows = "hk_deliveries (fst st)"
  let ?hit = "\<lambda>d. cd_delivery_id d = i \<and> dl_status d = ''failed''"
  let ?g = "\<lambda>d. d\<lparr>dl_status := ''pending'', cd_retry_count := 0, cd_payload := payload\<rparr>"
  have s: "snd st' = snd st" using assms(1) by (auto simp: insert_delivery_def Let_def split: if_splits)
  show ?thesis
  proof (cases "i \<in> cd_delivery_id ` set ?rows")
    case True
    with assms(1) have "hk_deliveries (fst st') = update_where ?hit ?g ?rows" by (auto simp: insert_delivery_def Let_def)
    moreover have "row_ok (?g d)" for d by (simp add: row_ok_def waiting_row_def MAX_RETRIES_def)
    ultimately show ?thesis using row_ok_update [of ?rows ?hit ?g]
      by (simp add: run_ok_def hooks_ok_def delivery_ids_def s ids_update)
  next
    case False
    with assms(1) have "hk_deliveries (fst st') = ?rows @ [delivery_row (st_now (site_app st)) i ev a inst repo stat payload]"
      by (auto simp: insert_delivery_def Let_def)
    with False assms(2) show ?thesis
      by (auto simp: run_ok_def hooks_ok_def delivery_ids_def s delivery_row_def row_ok_def waiting_row_def MAX_RETRIES_def)
  qed
qed

lemma receive_ok: "run_ok st (snd (receive_hook hw headers body st))"
proof (rule receive_cases [of hw headers body st])
  fix i ev e stat payload r st'
  assume sp: "(stat, payload) = (if ev \<in> set PROCESSED_EVENTS then (''pending'', Some (normalize_payload e)) else (''ignored'', None))"
    and ins: "insert_delivery i ev (ev_action e) (map_option fst (ev_installation e)) (ev_repository e) stat payload (tick st) = (r, st')"
    and res: "receive_hook hw headers body st = (if r then (202, if stat = ''pending''
       then on_hooks (\<lambda>h. h\<lparr>hk_poked := True\<rparr>) st' else st') else (200, st'))"
  have "run_ok (tick st) st'" by (rule insert_ok [OF ins]) (use sp in \<open>auto split: if_splits\<close>)
  then show ?thesis by (auto simp: res run_ok_def hooks_ok_def delivery_ids_def)
qed (simp_all add: run_ok_def hooks_ok_def delivery_ids_def)

lemma wake_ok:
  assumes "on_wake hw how st = Some st'" shows "run_ok st st'"
proof -
  define st1 where "st1 = (case how of Poked \<Rightarrow> on_hooks (\<lambda>h. h\<lparr>hk_poked := False\<rparr>) st
    | Ticked \<Rightarrow> snd (stmt hw (\<lambda>_. revert_stuck STUCK_SECS) st))"
  have "run_ok st st1"
  proof (cases how)
    case Ticked
    have t: "run_ok st (tick st)" by (simp add: run_ok_def hooks_ok_def delivery_ids_def)
    show ?thesis
      using t run_ok_trans [OF t revert_ok [of "tick st" STUCK_SECS]]
      by (simp add: st1_def Ticked stmt_def Let_def case_prod_unfold)
  qed (simp add: st1_def run_ok_def hooks_ok_def delivery_ids_def)
  moreover have "run_ok st1 st'" using assms by (intro drain_ok) (simp add: on_wake_def st1_def)
  ultimately show ?thesis by (rule run_ok_trans)
qed

lemma site_step_ok: "site_step hw st st' \<Longrightarrow> run_ok st st'"
proof (induction rule: site_step.induct)
  case (server y s h op)
  then show ?case using keys_sys.sys_step [of y "hw_world hw" op]
    by (simp add: run_ok_def hooks_ok_def delivery_ids_def)
qed (auto intro: receive_ok wake_ok)

lemma site_run_ok: "(site_step hw)\<^sup>*\<^sup>* st st' \<Longrightarrow> run_ok st st'"
  by (induction rule: rtranclp_induct) (auto intro: run_ok_trans site_step_ok)

text \<open>
  C10: The webhook queue stays in order.  Whatever requests arrive, however often the processor
  wakes, whichever statements fail, and whatever the rest of the server does in between: no
  recorded delivery is ever lost, the key of a delivery stays unique, a delivery that waits has
  been tried fewer than three times and one that is done has a final status and no stored
  payload, and no delivery has two pipelines of one workflow.
\<close>

theorem webhook_queue_in_order:
  assumes "hooks_ok st" "(site_step hw)\<^sup>*\<^sup>* st st'"
  shows "hooks_ok st' \<and> prefix (delivery_ids st) (delivery_ids st')"
  using site_run_ok [OF assms(2)] assms(1) by (simp add: run_ok_def)

definition demo_envelope :: Envelope where
  "demo_envelope = \<lparr>ev_action = None, ev_installation = None, ev_repository = Some 5, ev_repositories_removed = None,
     ev_sender = None, ev_git_ref = Some ''refs/heads/dev'', ev_after = Some ''abc'', ev_head_commit = None, ev_pusher = None,
     ev_commits = Some [\<lparr>cm_added = Some [''a''], cm_removed = None, cm_modified = Some [''a'', ''b'']\<rparr>], ev_size = None,
     ev_pull_request = None\<rparr>"

definition demo_hw :: HookWorld where
  "demo_hw = \<lparr>hw_world = demo_world, hw_webhook_secret = ''k'', hw_to_str = Some, hw_parse = (\<lambda>b. Some demo_envelope),
     hw_collate = id, hw_fault = (\<lambda>n. n = 5), hw_ids = (\<lambda>n. (n + 50, [n + 60]))\<rparr>"

definition demo_headers :: headers where
  "demo_headers = map_of [(''x-github-event'', ''push''), (''x-github-delivery'', ''d1''),
     (''x-hub-signature-256'', ''sha256=k'')]"

definition demo_hooks :: Hooks where
  "demo_hooks = \<lparr>hk_deliveries = [], hk_events = [], hk_workflows = [], hk_branches = [], hk_sync_runs = [], hk_installation_events = [],
     hk_auth = \<lparr>ws_total = 0, ws_last_at_ms = 0, ws_last_cause = 0, ws_bucket_counts = replicate 24 0,
       ws_bucket_hours = replicate 24 0\<rparr>, hk_poked = False, hk_evicted = [], hk_syncs = [], hk_statements = 0\<rparr>"

definition demo_site :: Site where
  "demo_site = (demo_hooks, demo_server)"

lemma demo_hw_simps [simp]:
  "hw_world demo_hw = demo_world" "hw_webhook_secret demo_hw = ''k''" "hw_to_str demo_hw = Some"
  "hw_parse demo_hw b = Some demo_envelope" "hw_collate demo_hw = id" "hw_fault demo_hw n \<longleftrightarrow> n = 5"
  "hw_ids demo_hw n = (n + 50, [n + 60])" "hk_statements demo_hooks = 0" "hk_deliveries demo_hooks = []"
  by (simp_all add: demo_hw_def demo_hooks_def)

lemma demo_headers_simps [simp]:
  "header_str demo_hw demo_headers ''x-github-event'' = Some ''push''"
  "header_str demo_hw demo_headers ''x-github-delivery'' = Some ''d1''"
  "verify_signature demo_hw demo_headers body = Inr ()"
  by (simp_all add: header_str_def MAX_HEADER_LEN_def verify_signature_def demo_headers_def demo_world_def)

lemma demo_received:
  "\<exists>st. receive_hook demo_hw demo_headers ''{}'' demo_site = (202, st) \<and> delivery_ids st = [''d1'']"
  by (simp add: receive_hook_def Let_def stmt_def PROCESSED_EVENTS_def insert_delivery_def demo_site_def delivery_ids_def
      delivery_row_def case_prod_unfold)

lemma demo_ok: "hooks_ok demo_site"
  by (simp add: hooks_ok_def demo_site_def demo_hooks_def keys_ok_def delivery_keys_def demo_server_def empty_db_def
      demo_run_def pipeline_row_def)

theorem webhook_queue_in_order_witness:
  "\<exists>st. (site_step demo_hw)\<^sup>*\<^sup>* demo_site st \<and> delivery_ids st = [''d1''] \<and> hooks_ok st"
proof -
  obtain st where st: "receive_hook demo_hw demo_headers ''{}'' demo_site = (202, st)" "delivery_ids st = [''d1'']"
    using demo_received by blast
  with request [of demo_hw demo_site demo_headers "''{}''"] have "(site_step demo_hw)\<^sup>*\<^sup>* demo_site st" by simp
  with webhook_queue_in_order [OF demo_ok this] st(2) show ?thesis by blast
qed

text \<open>
  C9: Nobody gets in without the secret.  A webhook request is answered with 401 exactly if its
  signature header is not \<open>sha256=\<close> and the hex form of the HMAC of the body as it was received;
  then it changes nothing but the gauge of rejections, whatever the other headers and the body
  are.  A request that is answered with 202 has put one row into the queue under the
  delivery's own id: waiting with a normalized payload, or, if its event is not one the
  processor handles, ignored.
\<close>

theorem only_signed_deliveries_enter:
  assumes "receive_hook hw headers body st = (code, st')"
  shows "(code \<noteq> 401 \<longleftrightarrow> (\<exists>raw hex. headers ''x-hub-signature-256'' = Some raw \<and> hw_to_str hw raw = Some (''sha256='' @ hex) \<and>
      hex_decode (wd_crypto (hw_world hw)) hex = Some (hmac (wd_crypto (hw_world hw)) (hw_webhook_secret hw) body))) \<and>
    (code = 401 \<longrightarrow> snd st' = snd st \<and> (\<exists>g. fst st' = (fst st)\<lparr>hk_auth := g\<rparr>)) \<and>
    (code = 202 \<longrightarrow> (\<exists>d\<in>set (hk_deliveries (fst st')). header_str hw headers ''x-github-delivery'' = Some (cd_delivery_id d) \<and>
       (dl_status d = ''pending'' \<and> (\<exists>e. hw_parse hw body = Some e \<and> cd_payload d \<in> {None, Some (normalize_payload e)}) \<or>
        dl_status d = ''ignored'' \<and> cd_payload d = None)))"
proof -
  have signed: "verify_signature hw headers body = Inr () \<longleftrightarrow> (\<exists>raw hex. headers ''x-hub-signature-256'' = Some raw \<and>
      hw_to_str hw raw = Some (''sha256='' @ hex) \<and>
      hex_decode (wd_crypto (hw_world hw)) hex = Some (hmac (wd_crypto (hw_world hw)) (hw_webhook_secret hw) body))"
    by (auto simp: verify_signature_def strip_prefix_Some split: option.splits if_splits)
  have row: "\<exists>d\<in>set (hk_deliveries (fst st1)). cd_delivery_id d = i \<and> cd_payload d = payload \<and> dl_status d \<in> {stat, ''pending''}"
    if "insert_delivery i ev a inst repo stat payload st0 = (True, st1)" for i ev a inst repo stat payload st0 st1
  proof (cases "i \<in> cd_delivery_id ` set (hk_deliveries (fst st0))")
    case True
    let ?g = "\<lambda>d. d\<lparr>dl_status := ''pending'', cd_retry_count := 0, cd_payload := payload\<rparr>"
    from True that obtain d where d: "d \<in> set (hk_deliveries (fst st0))" "cd_delivery_id d = i" "dl_status d = ''failed''"
      by (auto simp: insert_delivery_def Let_def list_ex_iff)
    then have "?g d \<in> set (hk_deliveries (fst st1))"
      using True that by (force simp: insert_delivery_def Let_def update_where_def)
    then show ?thesis using d(2) by (intro bexI [of _ "?g d"]) simp_all
  qed (use that in \<open>auto simp: insert_delivery_def Let_def delivery_row_def\<close>)
  have st: "fst (tick st) = (fst st)\<lparr>hk_statements := hk_statements (fst st) + 1\<rparr>" for st by (simp add: tick_def)
  show ?thesis
    unfolding signed [symmetric]
  proof (rule receive_cases [of hw headers body st])
    fix cause
    assume "verify_signature hw headers body = Inl cause"
      "receive_hook hw headers body st = (401, on_hooks (\<lambda>h. h\<lparr>hk_auth := record_at cause (st_now (site_app st)) (hk_auth h)\<rparr>) st)"
    with assms show "(code \<noteq> 401 \<longleftrightarrow> verify_signature hw headers body = Inr ()) \<and>
        (code = 401 \<longrightarrow> snd st' = snd st \<and> (\<exists>g. fst st' = (fst st)\<lparr>hk_auth := g\<rparr>)) \<and>
        (code = 202 \<longrightarrow> (\<exists>d\<in>set (hk_deliveries (fst st')). header_str hw headers ''x-github-delivery'' = Some (cd_delivery_id d) \<and>
         (dl_status d = ''pending'' \<and> (\<exists>e. hw_parse hw body = Some e \<and> cd_payload d \<in> {None, Some (normalize_payload e)}) \<or>
          dl_status d = ''ignored'' \<and> cd_payload d = None)))"
      by auto
  next
    fix i ev e stat payload r st1
    assume v: "verify_signature hw headers body = Inr ()" and i: "header_str hw headers ''x-github-delivery'' = Some i"
      and e: "hw_parse hw body = Some e"
      and sp: "(stat, payload) = (if ev \<in> set PROCESSED_EVENTS then (''pending'', Some (normalize_payload e)) else (''ignored'', None))"
      and ins: "insert_delivery i ev (ev_action e) (map_option fst (ev_installation e)) (ev_repository e) stat payload (tick st) = (r, st1)"
      and res: "receive_hook hw headers body st = (if r then (202, if stat = ''pending''
         then on_hooks (\<lambda>h. h\<lparr>hk_poked := True\<rparr>) st1 else st1) else (200, st1))"
    show "(code \<noteq> 401 \<longleftrightarrow> verify_signature hw headers body = Inr ()) \<and>
        (code = 401 \<longrightarrow> snd st' = snd st \<and> (\<exists>g. fst st' = (fst st)\<lparr>hk_auth := g\<rparr>)) \<and>
        (code = 202 \<longrightarrow> (\<exists>d\<in>set (hk_deliveries (fst st')). header_str hw headers ''x-github-delivery'' = Some (cd_delivery_id d) \<and>
         (dl_status d = ''pending'' \<and> (\<exists>e. hw_parse hw body = Some e \<and> cd_payload d \<in> {None, Some (normalize_payload e)}) \<or>
          dl_status d = ''ignored'' \<and> cd_payload d = None)))"
    proof (cases r)
      case True
      from True ins have "insert_delivery i ev (ev_action e) (map_option fst (ev_installation e)) (ev_repository e) stat payload (tick st) = (True, st1)"
        by simp
      from row [OF this] obtain d where d: "d \<in> set (hk_deliveries (fst st1))" "cd_delivery_id d = i" "cd_payload d = payload"
        "dl_status d \<in> {stat, ''pending''}" by blast
      from True res assms have "code = 202" "hk_deliveries (fst st') = hk_deliveries (fst st1)" by auto
      with d v i e sp show ?thesis by (auto split: if_splits)
    qed (use res assms v in auto)
  qed (use assms in auto)
qed

theorem only_signed_deliveries_enter_witness:
  "\<exists>st. receive_hook demo_hw demo_headers ''{}'' demo_site = (202, st) \<and> (\<exists>d\<in>set (hk_deliveries (fst st)). cd_delivery_id d = ''d1'')"
proof -
  obtain st where st: "receive_hook demo_hw demo_headers ''{}'' demo_site = (202, st)" using demo_received by blast
  from only_signed_deliveries_enter [OF this] st show ?thesis by auto
qed

text \<open>
  C11: The processor always comes to rest.  Whatever is in the queue and whichever statements
  fail, a wake-up of the processor ends, and it ends either with no delivery waiting or at a
  claim that failed.
\<close>

theorem wake_returns:
  assumes "distinct (delivery_ids st)"
  shows "\<exists>st'. on_wake hw how st = Some st' \<and>
    ((\<forall>d\<in>set (hk_deliveries (fst st')). dl_status d \<noteq> ''pending'') \<or> hw_fault hw (hk_statements (fst st') - 1))"
  unfolding on_wake_def
proof (rule drain_ends)
  have "map cd_delivery_id (hk_deliveries (fst (snd (stmt hw (\<lambda>_. revert_stuck STUCK_SECS) st)))) = delivery_ids st"
    by (simp add: stmt_def Let_def case_prod_unfold revert_stuck_def delivery_ids_def ids_update)
  with assms show "distinct (map cd_delivery_id (hk_deliveries (fst (case how of
        Poked \<Rightarrow> on_hooks (\<lambda>h. h\<lparr>hk_poked := False\<rparr>) st
      | Ticked \<Rightarrow> snd (stmt hw (\<lambda>_. revert_stuck STUCK_SECS) st)))))"
    by (cases how) (simp_all add: delivery_ids_def)
qed

theorem wake_returns_witness:
  "\<exists>st st'. receive_hook demo_hw demo_headers ''{}'' demo_site = (202, st) \<and> on_wake demo_hw Poked st = Some st'"
proof -
  obtain st where st: "receive_hook demo_hw demo_headers ''{}'' demo_site = (202, st)" "delivery_ids st = [''d1'']"
    using demo_received by blast
  then have "distinct (delivery_ids st)" by simp
  from wake_returns [OF this, of demo_hw Poked] st(1) show ?thesis by blast
qed

end
