(* ===== verification/WebhookEdge.thy ===== *)
theory WebhookEdge
  imports WebhookFacts
begin

text \<open>
  The edges of the webhook path: pull requests from forks, the changed paths a filter sees,
  creations that fail, and syncs that are interrupted.
\<close>

section \<open>Reading back what was stored\<close>

lemma dec_digits: "list_all (\<lambda>c. 48 \<le> (of_char c :: nat) \<and> (of_char c :: nat) \<le> 57) (dec n)"
proof (induction n rule: dec.induct)
  case (1 n)
  have d: "48 \<le> (of_char (char_of (48 + m :: nat)) :: nat) \<and> (of_char (char_of (48 + m :: nat)) :: nat) \<le> 57" if "m < 10" for m
    using that by simp
  show ?case
  proof (cases "n < 10")
    case True
    with d [of n] show ?thesis by (simp add: dec.simps [of n])
  next
    case False
    with 1 d [of "n mod 10"] show ?thesis by (simp add: dec.simps [of n])
  qed
qed

lemma digits_dec: "digits (dec n) = Some (int n)"
proof -
  have "ascii (dec n)" using dec_digits [of n] by (auto simp: ascii_def list_all_iff)
  then have "list_all is_ascii_digit (chars (dec n))"
    using dec_digits [of n] by (auto simp: chars_ascii is_ascii_digit_def list_all_iff)
  then show ?thesis by (simp add: digits_def dec_value_dec)
qed

lemma j_i64_jint: "is_i64 n \<Longrightarrow> j_i64 (jint n) = Some n"
proof -
  assume n: "is_i64 n"
  have "strip_prefix ''-'' (dec m) = None" for m
  proof (cases "dec m")
    case (Cons c cs)
    with dec_digits [of m] have "c \<noteq> CHR ''-''" by auto
    with Cons show ?thesis by simp
  qed simp
  with n show ?thesis by (cases "n < 0") (simp_all add: jint_def dec_int_def digits_dec)
qed

lemma map_of_entry: "map_of (rev (entry key f x)) k = (if k = key then map_option f x else None)"
  by (auto simp: entry_def split: option.split)

lemma jget_jobj: "jget (jobj kvs) k = map_of (rev kvs) k"
  by (simp add: jobj_def map_of_bt_extend)

lemma map_of_changed: "k \<noteq> ''changedPaths'' \<Longrightarrow> k \<noteq> ''pathsTruncated'' \<Longrightarrow> map_of (rev (changed_entries e)) k = None"
  by (auto simp: changed_entries_def case_prod_unfold Let_def split: option.split)

lemma stored_pull_request: "jget (normalize_payload e) ''pullRequest'' = map_option pr_json (ev_pull_request e)"
  by (simp add: normalize_payload_def jget_jobj map_add_def map_of_entry map_of_changed split: option.split)

lemma stored_sides:
  "jget (pr_json pr) ''headRepoId'' = map_option jint (Option.bind (pq_head pr) ps_repo)"
  "jget (pr_json pr) ''baseRepoId'' = map_option jint (Option.bind (pq_base pr) ps_repo)"
  by (simp_all add: pr_json_def jget_jobj map_add_def map_of_entry split: option.split)

lemma stored_paths:
  assumes "ev_commits e = Some commits"
  defines "c \<equiv> collect_paths [] (case ev_size e of None \<Rightarrow> False | Some s \<Rightarrow> s > int (length commits)) (commit_paths commits)"
  shows "jget (normalize_payload e) ''changedPaths'' = Some (JArr (map JStr (fst c)))"
    and "jget (normalize_payload e) ''pathsTruncated'' = Some (JBool (snd c))"
proof -
  have "map_of (rev (changed_entries e)) ''changedPaths'' = Some (JArr (map JStr (fst c)))"
    "map_of (rev (changed_entries e)) ''pathsTruncated'' = Some (JBool (snd c))"
    using assms(1) by (simp_all add: changed_entries_def case_prod_unfold Let_def flip: c_def)
  then show "jget (normalize_payload e) ''changedPaths'' = Some (JArr (map JStr (fst c)))"
    and "jget (normalize_payload e) ''pathsTruncated'' = Some (JBool (snd c))"
    by (simp_all add: normalize_payload_def jget_jobj map_add_def map_of_entry split: option.split)
qed

section \<open>Forks\<close>

lemma process_server: "snd (process hw d st) = snd (snd (process_delivery hw d st))"
proof -
  have "snd (give_up hw d st1) = snd st1" for st1 using give_up_queue [of hw d st1] by blast
  then show ?thesis
    using process_cases [of hw d st] by (elim disjE exE conjE) (simp_all only: finish_def queue_simps insert_events_queue)
qed

text \<open>
  C12: Code from a fork never runs.  When the delivery of a pull request names different
  repositories for its two sides, or does not name both, processing it creates no pipeline and
  changes nothing else on the server: whatever the action, the workflows, their filters and the
  failures of statements are.
\<close>

theorem fork_pull_requests_run_nothing:
  assumes "cd_event d = ''pull_request''" "cd_payload d = Some (normalize_payload e)" "ev_pull_request e = Some pr"
    and "\<not> (\<exists>i. Option.bind (pq_head pr) ps_repo = Some i \<and> Option.bind (pq_base pr) ps_repo = Some i)"
    and "pred_option is_i64 (Option.bind (pq_head pr) ps_repo)" "pred_option is_i64 (Option.bind (pq_base pr) ps_repo)"
  shows "snd (process hw d st) = snd st"
proof -
  have view: "pw_head_repo (pr_view (pr_json pr)) = Option.bind (pq_head pr) ps_repo"
    "pw_base_repo (pr_view (pr_json pr)) = Option.bind (pq_base pr) ps_repo"
    using assms(5,6) by (auto simp: pr_view_def stored_sides j_i64_jint split: bind_split option.split)
  then have fork: "\<not> same_repo (pr_view (pr_json pr))" using assms(4) by (auto simp: same_repo_def)
  have "snd (snd (route_pull_request hw d a (pr_view (pr_json pr)) repos st1)) = snd st1" for a repos st1
    using fork by (simp add: route_pull_request_def Let_def)
  moreover have "payload_get d ''pullRequest'' = Some (pr_json pr)"
    using assms(2,3) by (simp add: payload_get_def stored_pull_request)
  ultimately have "snd (snd (process_pull_request hw d a st)) = snd st" for a
    by (auto simp: process_pull_request_def and_then_def split: option.split sum.split)
  then show ?thesis by (simp add: process_server process_delivery_def Let_def assms(1))
qed

definition demo_pull :: PullRequestRef where
  "demo_pull = \<lparr>pq_number = 3, pq_title = None, pq_merged = None, pq_draft = None,
     pq_head = Some \<lparr>ps_sha = Some ''abcdefg'', ps_git_ref = None, ps_repo = Some 8\<rparr>,
     pq_base = Some \<lparr>ps_sha = None, ps_git_ref = Some ''main'', ps_repo = Some 5\<rparr>, pq_user = None\<rparr>"

definition demo_delivery :: "rstr \<Rightarrow> Envelope \<Rightarrow> ClaimedDelivery" where
  "demo_delivery event e = \<lparr>cd_delivery_id = ''d1'', cd_event = event, cd_action = Some ''opened'', cd_installation_id = None,
     cd_github_repo_id = Some 5, cd_payload = Some (normalize_payload e), cd_retry_count = 0, cd_received_at = 1\<rparr>"

theorem fork_pull_requests_run_nothing_witness:
  "snd (process demo_hw (demo_delivery ''pull_request'' (demo_envelope\<lparr>ev_pull_request := Some demo_pull\<rparr>)) demo_site) = demo_server"
  using fork_pull_requests_run_nothing [of "demo_delivery ''pull_request'' (demo_envelope\<lparr>ev_pull_request := Some demo_pull\<rparr>)"
      "demo_envelope\<lparr>ev_pull_request := Some demo_pull\<rparr>" demo_pull demo_hw demo_site]
  by (simp add: demo_delivery_def demo_pull_def is_i64_def demo_site_def)

section \<open>Changed paths\<close>

definition visible_path :: "rstr \<Rightarrow> bool" where
  "visible_path p \<longleftrightarrow> p \<noteq> [] \<and> length p \<le> MAX_FIELD_LEN"

lemma collect_paths_spec:
  assumes "collect_paths acc t ps = (paths, t')" "distinct acc" "length acc \<le> MAX_CHANGED_PATHS"
  shows "distinct paths \<and> length paths \<le> MAX_CHANGED_PATHS \<and> (t \<longrightarrow> t') \<and>
    (\<not> t' \<longrightarrow> set paths = set acc \<union> set (filter visible_path ps)) \<and>
    (t' \<and> \<not> t \<longrightarrow> MAX_CHANGED_PATHS < card (set acc \<union> set (filter visible_path ps)))"
  using assms
proof (induction acc t ps rule: collect_paths.induct)
  case (2 acc t p ps)
  show ?case
  proof (cases "p = [] \<or> length p > MAX_FIELD_LEN \<or> p \<in> set acc")
    case True
    then have "set acc \<union> set (filter visible_path (p # ps)) = set acc \<union> set (filter visible_path ps)"
      by (auto simp: visible_path_def)
    with True 2 show ?thesis by simp
  next
    case False
    then have v: "visible_path p" by (simp add: visible_path_def)
    show ?thesis
    proof (cases "MAX_CHANGED_PATHS \<le> length acc")
      case True
      with False 2 have r: "paths = acc" "t'" "length acc = MAX_CHANGED_PATHS" by simp_all
      have "card (set acc \<union> set (filter visible_path (p # ps))) \<ge> card (insert p (set acc))"
        using v by (intro card_mono) auto
      moreover have "card (insert p (set acc)) = Suc MAX_CHANGED_PATHS"
        using False 2(4) r(3) by (simp add: distinct_card)
      ultimately show ?thesis using r 2 by simp
    next
      case F: False
      have "set (acc @ [p]) \<union> set (filter visible_path ps) = set acc \<union> set (filter visible_path (p # ps))"
        using v by auto
      with False F 2 show ?thesis by simp
    qed
  qed
qed simp

lemma j_str_strings [simp]: "filter_map j_str (map JStr ps) = ps"
  by (rule filter_map_map_JStr)

lemma pushed_paths_stored:
  assumes "cd_payload d = Some (normalize_payload e)" "ev_commits e = Some commits"
  shows "pushed_paths d = (let (paths, t) = collect_paths []
     (case ev_size e of None \<Rightarrow> False | Some s \<Rightarrow> s > int (length commits)) (commit_paths commits)
     in if t then None else Some paths)"
  using stored_paths [OF assms(2)] assms(1)
  by (simp add: pushed_paths_def payload_get_def case_prod_unfold Let_def)



text \<open>
  A push of long paths is taken for a push of nothing.  When every path a push changes is
  longer than 512 bytes, the stored set is empty and is not marked as incomplete, so a workflow
  with a path filter, even one that matches everything, is skipped, where an incomplete set
  would have let it run.
\<close>

theorem long_paths_are_skipped:
  assumes "cd_payload d = Some (normalize_payload e)" "ev_commits e = Some commits" "ev_size e = None"
    and "\<forall>p\<in>set (commit_paths commits). length p > MAX_FIELD_LEN" "patterns filters ''paths'' \<noteq> []"
  shows "pushed_paths d = Some [] \<and> evaluate_paths filters (pushed_paths d) = Skip SKIP_PATH_FILTERED \<and>
    evaluate_paths filters None = Run"
proof -
  have "collect_paths acc False ps = (acc, False)" if "\<forall>p\<in>set ps. length p > MAX_FIELD_LEN" for acc ps
    using that by (induction ps) simp_all
  with assms have "pushed_paths d = Some []" by (simp add: pushed_paths_stored [OF assms(1,2)])
  with assms(5) show ?thesis by (simp add: evaluate_paths_def Let_def)
qed

definition long_envelope :: Envelope where
  "long_envelope = demo_envelope\<lparr>ev_commits := Some [\<lparr>cm_added = Some [replicate 600 (CHR ''a'')], cm_removed = None, cm_modified = None\<rparr>]\<rparr>"

theorem long_paths_are_skipped_witness:
  "evaluate_paths (JObj [(''paths'', JArr [JStr ''**''])]) (pushed_paths (demo_delivery ''push'' long_envelope)) = Skip SKIP_PATH_FILTERED"
proof -
  let ?f = "JObj [(''paths'', JArr [JStr ''**''])]" and ?d = "demo_delivery ''push'' long_envelope"
  have p: "cd_payload ?d = Some (normalize_payload long_envelope)" by (simp add: demo_delivery_def)
  have c: "ev_commits long_envelope = Some [\<lparr>cm_added = Some [replicate 600 (CHR ''a'')], cm_removed = None, cm_modified = None\<rparr>]"
    "ev_size long_envelope = None"
    by (simp_all add: long_envelope_def demo_envelope_def)
  have "patterns ?f ''paths'' \<noteq> []" by (simp add: patterns_def jidx_def MAX_PATTERN_LEN_def MAX_PATTERNS_def)
  from long_paths_are_skipped [OF p c _ this] have "\<forall>p\<in>set (commit_paths
      [\<lparr>cm_added = Some [replicate 600 (CHR ''a'')], cm_removed = None, cm_modified = None\<rparr>]). length p > MAX_FIELD_LEN \<Longrightarrow> ?thesis"
    by blast
  then show ?thesis by (simp add: commit_paths_def MAX_FIELD_LEN_def)
qed

section \<open>Failures\<close>

lemma stmt_fault: "hw_fault hw (hk_statements (fst st)) \<Longrightarrow> stmt hw f st = (Inl (), tick st)"
  by (simp add: stmt_def Let_def)

lemma stmt_fine:
  "\<not> hw_fault hw (hk_statements (fst st)) \<Longrightarrow>
   stmt hw f st = (let (r, st) = f (hw_ids hw (hk_statements (fst st))) (tick st) in (Inr r, st))"
  by (simp add: stmt_def Let_def)

lemma ticks_simps [simp]:
  "hk_statements (fst ((tick ^^ n) st)) = hk_statements (fst st) + n" "snd ((tick ^^ n) st) = snd st"
  "hk_deliveries (fst ((tick ^^ n) st)) = hk_deliveries (fst st)"
  by (induction n) simp_all

lemma run_workflows_faulty:
  assumes "\<forall>i<length (filter (\<lambda>k. evaluate (wk_triggers k) (wk_metadata k) ev = Run) ks). hw_fault hw (hk_statements (fst st) + i)"
  shows "\<exists>skipped'. run_workflows hw repo ctx ev ks (ids, skipped) st =
    ((ids, skipped'), (tick ^^ length (filter (\<lambda>k. evaluate (wk_triggers k) (wk_metadata k) ev = Run) ks)) st)"
  using assms
proof (induction ks arbitrary: skipped st)
  case (Cons k ks)
  show ?case
  proof (cases "evaluate (wk_triggers k) (wk_metadata k) ev")
    case Run
    let ?n = "length (filter (\<lambda>k. evaluate (wk_triggers k) (wk_metadata k) ev = Run) ks)"
    have "hw_fault hw (hk_statements (fst st))" using Cons.prems Run by force
    then have "create_for hw repo ctx k st = ([], tick st)" by (simp add: create_for_def stmt_fault)
    moreover have "\<forall>i<?n. hw_fault hw (hk_statements (fst (tick st)) + i)"
      using Cons.prems Run by (auto dest: spec [of _ "Suc _"])
    from Cons.IH [OF this, of skipped] obtain sk where
      "run_workflows hw repo ctx ev ks (ids, skipped) (tick st) = ((ids, sk), (tick ^^ ?n) (tick st))" by blast
    ultimately show ?thesis using Run by (simp add: funpow_swap1)
  next
    case (Skip reason)
    then show ?thesis using Cons by simp
  qed
qed simp

text \<open>
  A failed creation loses the push.  Say a push to a branch of a connected repository
  should run some of its workflows, and the database fails exactly while their pipelines are
  created.  Then the delivery is nevertheless completed, and so never tried again: it is
  recorded as processed, the timeline says that no filter matched, and no pipeline exists.
\<close>

theorem failed_creation_is_dropped:
  fixes hw d st branch git_ref
  defines "n \<equiv> hk_statements (fst st)"
    and "runs \<equiv> filter (\<lambda>k. evaluate (wk_triggers k) (wk_metadata k) \<lparr>kind = Push branch, changed_paths = pushed_paths d\<rparr> = Run)"
  assumes "cd_event d = ''push''" "cd_github_repo_id d = Some g" "payload_str d ''ref'' = Some git_ref"
    and "strip_prefix ''refs/heads/'' git_ref = Some branch"
    and "find_all_by_github_id g (sv_vault (snd st)) = [repo]" "branch \<noteq> rp_default_branch repo" "\<not> is_zero_sha (pushed_commit d)"
    and "runs (runnable_for_repo hw (rp_id repo) ''push'' (fst st)) \<noteq> []"
    and "\<not> hw_fault hw n" "\<not> hw_fault hw (n + 1)"
    and "\<forall>i<length (runs (runnable_for_repo hw (rp_id repo) ''push'' (fst st))). hw_fault hw (n + 2 + i)"
    and "\<not> hw_fault hw (n + 2 + length (runs (runnable_for_repo hw (rp_id repo) ''push'' (fst st))))"
  shows "snd (process hw d st) = snd st \<and>
    hk_deliveries (fst (process hw d st)) = update_where (\<lambda>x. cd_delivery_id x = cd_delivery_id d)
      (finish_row (st_now (site_app st)) ''processed'') (hk_deliveries (fst st)) \<and>
    (\<exists>event. fst (process_delivery hw d st) = Inr (processed [event]) \<and> er_pipeline_ids event = [] \<and>
       er_outcome event = OUTCOME_IGNORED \<and> er_ignored_reason event = Some REASON_FILTERS_NOT_MATCHED)"
proof -
  let ?ks = "runnable_for_repo hw (rp_id repo) ''push'' (fst st)"
  let ?m = "length (runs ?ks)"
  let ?ev = "\<lparr>kind = Push branch, changed_paths = pushed_paths d\<rparr>"
  let ?ctx = "hook_trigger d ''push'' (pushed_commit d) git_ref None"
  have ks: "runnable_for_repo hw (rp_id repo) ''push'' (fst (tick (tick st))) = ?ks" by (simp add: runnable_for_repo_def tick_def)
  obtain sk where w: "run_workflows hw repo ?ctx ?ev ?ks ([], []) (tick (tick st)) = (([], sk), (tick ^^ ?m) (tick (tick st)))"
    using run_workflows_faulty [of ?ev ?ks hw "tick (tick st)" repo ?ctx "[]" "[]"] assms(13)
    unfolding runs_def n_def by (auto simp: numeral_2_eq_2)
  have "?ks \<noteq> []" using assms(10) by (auto simp: runs_def)
  define event where "event = \<lparr>er_repository_id = rp_id repo, er_git_ref = Some git_ref,
    er_head_sha = Some (pushed_commit d), er_outcome = OUTCOME_IGNORED, er_ignored_reason = Some REASON_FILTERS_NOT_MATCHED,
    er_pipeline_ids = [], er_sync_run_id = None, er_summary = jobj [(''skipped'', JArr sk)]\<rparr>"
  have f: "find_repos hw g st = (Inr [repo], tick st)"
    using assms(7,11) by (simp add: find_repos_def stmt_fine n_def)
  have rm: "run_matching_workflows hw d repo ''push'' (pushed_commit d) git_ref None ?ev (tick st) =
      (Inr ([], sk, length ?ks), (tick ^^ ?m) (tick (tick st)))"
    using assms(12) by (simp add: run_matching_workflows_def stmt_fine n_def ks w)
  have "push_event_for_repo hw d git_ref (pushed_commit d) (pushed_paths d) repo (tick st) =
      (Inr event, (tick ^^ ?m) (tick (tick st)))"
    using assms(6,8,9) \<open>?ks \<noteq> []\<close>
    by (simp add: push_event_for_repo_def branch_push_def rm push_outcome_def event_def)
  then have pd: "process_delivery hw d st = (Inr (processed [event]), (tick ^^ ?m) (tick (tick st)))"
    using assms(3-5) by (simp add: process_delivery_def Let_def process_push_def f)
  have "rp_id repo \<in> rp_id ` set (va_repositories (sv_vault (snd st)))"
  proof -
    have "repo \<in> set (find_all_by_github_id g (sv_vault (snd st)))" using assms(7) by simp
    then show ?thesis by (auto simp: find_all_by_github_id_def)
  qed
  then have e: "repos_exist [timeline_row d event] st1" if "snd st1 = snd st" for st1
    using that by (simp add: repos_exist_def timeline_row_def event_def)
  define st2 where "st2 = (tick ^^ ?m) (tick (tick st))"
  have s2: "hk_statements (fst st2) = n + 2 + ?m" "snd st2 = snd st" "hk_deliveries (fst st2) = hk_deliveries (fst st)"
    by (simp_all add: st2_def n_def)
  obtain ids where c: "commit_completion hw d (processed [event]) st2 =
      (Inr (), finish (cd_delivery_id d) ''processed'' (insert_events [timeline_row d event] ids (tick st2)))"
    using assms(14) s2 e [of "tick st2"] by (auto simp: commit_completion_def stmt_fine processed_def case_prod_unfold Let_def)
  have "process hw d st = finish (cd_delivery_id d) ''processed'' (insert_events [timeline_row d event] ids (tick st2))"
    by (simp add: process_def pd c flip: st2_def)
  with s2 have "snd (process hw d st) = snd st \<and> hk_deliveries (fst (process hw d st)) =
      update_where (\<lambda>x. cd_delivery_id x = cd_delivery_id d) (finish_row (st_now (site_app st)) ''processed'') (hk_deliveries (fst st))"
    by (simp add: finish_def finish_row_def [abs_def])
  moreover have "fst (process_delivery hw d st) = Inr (processed [event]) \<and> er_pipeline_ids event = [] \<and>
      er_outcome event = OUTCOME_IGNORED \<and> er_ignored_reason event = Some REASON_FILTERS_NOT_MATCHED"
    by (simp add: pd, simp add: event_def)
  ultimately show ?thesis by blast
qed

definition demo_workflow :: WorkflowRow where
  "demo_workflow = \<lparr>wk_id = 4, wk_name = ''w'', wk_path = ''p'', wk_raw_content = [], wk_triggers = [''push''],
     wk_metadata = JNull, wk_repository_id = rp_id demo_repo, wk_validation_status = ''valid''\<rparr>"

definition demo_push :: ClaimedDelivery where
  "demo_push = (demo_delivery ''push'' demo_envelope)\<lparr>cd_github_repo_id := Some (rp_github_repo_id demo_repo)\<rparr>"

definition demo_push_site :: Site where
  "demo_push_site = (demo_hooks\<lparr>hk_workflows := [demo_workflow], hk_statements := 3\<rparr>, demo_server)"

lemma cap_short: "ascii s \<Longrightarrow> length s \<le> MAX_FIELD_LEN \<Longrightarrow> cap s = s"
  by (simp add: cap_def take_chars_def chars_ascii of_chars_ascii comp_def ascii_def)

lemma demo_push_fields:
  "cd_event demo_push = ''push''" "cd_github_repo_id demo_push = Some (rp_github_repo_id demo_repo)"
  "payload_str demo_push ''ref'' = Some ''refs/heads/dev''" "pushed_commit demo_push = ''abc''"
proof -
  have g: "jget (normalize_payload demo_envelope) ''ref'' = Some (JStr (cap ''refs/heads/dev''))"
    "jget (normalize_payload demo_envelope) ''after'' = Some (JStr (cap ''abc''))"
    by (simp_all add: normalize_payload_def jget_jobj map_add_def map_of_entry map_of_changed, simp_all add: demo_envelope_def)
  have c: "cap ''refs/heads/dev'' = ''refs/heads/dev''" "cap ''abc'' = ''abc''"
    by (rule cap_short; simp add: ascii_def MAX_FIELD_LEN_def)+
  show "payload_str demo_push ''ref'' = Some ''refs/heads/dev''" "pushed_commit demo_push = ''abc''"
    by (simp_all add: payload_str_def payload_get_def pushed_commit_def demo_push_def demo_delivery_def g c)
qed (simp_all add: demo_push_def demo_delivery_def)

theorem failed_creation_is_dropped_witness:
  "snd (process demo_hw demo_push demo_push_site) = demo_server"
proof -
  have run: "runnable_for_repo demo_hw (rp_id demo_repo) ''push'' (fst demo_push_site) = [RunnableWorkflow.truncate demo_workflow]"
    by (simp add: runnable_for_repo_def demo_push_site_def demo_workflow_def)
  have "evaluate (wk_triggers (RunnableWorkflow.truncate demo_workflow)) (wk_metadata (RunnableWorkflow.truncate demo_workflow))
     \<lparr>kind = Push ''dev'', changed_paths = ps\<rparr> = Run" for ps
    by (simp add: demo_workflow_def RunnableWorkflow.truncate_def evaluate_def jidx_def patterns_def evaluate_paths_def Let_def)
  then have f: "filter (\<lambda>k. evaluate (wk_triggers k) (wk_metadata k) \<lparr>kind = Push ''dev'', changed_paths = pushed_paths demo_push\<rparr> = Run)
      (runnable_for_repo demo_hw (rp_id demo_repo) ''push'' (fst demo_push_site)) = [RunnableWorkflow.truncate demo_workflow]"
    by (simp add: run)
  have all: "find_all_by_github_id (rp_github_repo_id demo_repo) (sv_vault (snd demo_push_site)) = [demo_repo]"
    by (simp add: find_all_by_github_id_def demo_push_site_def demo_server_def)
  have n: "hk_statements (fst demo_push_site) = 3" by (simp add: demo_push_site_def)
  have b: "strip_prefix ''refs/heads/'' ''refs/heads/dev'' = Some ''dev''" "''dev'' \<noteq> rp_default_branch demo_repo"
    by (simp_all add: demo_repo_def)
  have z: "\<not> is_zero_sha (pushed_commit demo_push)"
    by (simp add: demo_push_fields(4) is_zero_sha_def chars_ascii ascii_def)
  have "snd (process demo_hw demo_push demo_push_site) = snd demo_push_site"
    by (rule failed_creation_is_dropped [OF demo_push_fields(1-3) b(1) all b(2) z, THEN conjunct1]) (simp_all only: f n, simp_all)
  then show ?thesis by (simp add: demo_push_site_def)
qed

text \<open>
  An interrupted sync blocks all later ones.  When a sync is claimed and the statement that
  records its run fails, no sync starts, and from then on no request for a sync of this
  repository does anything: each is answered as if a sync were running, for as long as the
  repository's row stays as it is.
\<close>

theorem interrupted_sync_blocks:
  assumes "r \<in> set (va_repositories (sv_vault (snd st)))" "rp_sync_status r \<noteq> ''syncing''" "rp_id r = i"
    and "\<not> hw_fault hw (hk_statements (fst st))" "hw_fault hw (hk_statements (fst st) + 1)"
  shows "\<exists>st1. schedule hw i trigger st = (Inl (), st1) \<and> hk_syncs (fst st1) = hk_syncs (fst st) \<and>
    hk_sync_runs (fst st1) = hk_sync_runs (fst st) \<and>
    (\<forall>hw' trigger' st2. sv_vault (snd st2) = sv_vault (snd st1) \<and> \<not> hw_fault hw' (hk_statements (fst st2)) \<longrightarrow>
       fst (schedule hw' i trigger' st2) = Inr None \<and> hk_syncs (fst (snd (schedule hw' i trigger' st2))) = hk_syncs (fst st2))"
proof -
  obtain c v where c: "claim_for_sync (st_now (site_app st)) i (sv_vault (snd st)) = (c, v)" by (rule prod.exhaust)
  have "r \<in> set (filter (\<lambda>r. rp_id r = i \<and> rp_sync_status r \<noteq> ''syncing'') (va_repositories (sv_vault (snd st))))"
    using assms(1-3) by simp
  then have ne: "filter (\<lambda>r. rp_id r = i \<and> rp_sync_status r \<noteq> ''syncing'') (va_repositories (sv_vault (snd st))) \<noteq> []" by force
  have "c \<noteq> None"
  proof
    assume "c = None"
    with c have "fetch_optional (returning (\<lambda>r. rp_id r = i \<and> rp_sync_status r \<noteq> ''syncing'')
        (\<lambda>r. r\<lparr>rp_sync_status := ''syncing'', rp_sync_error := None, rp_updated_at := st_now (site_app st)\<rparr>)
        (va_repositories (sv_vault (snd st)))) = None"
      by (simp add: claim_for_sync_def Let_def)
    with ne show False unfolding fetch_optional_None returning_def by simp
  qed
  then obtain repository where some: "c = Some repository" unfolding not_None_eq by (rule exE)
  have now: "va_repositories v = update_where (\<lambda>r. rp_id r = i \<and> rp_sync_status r \<noteq> ''syncing'')
      (\<lambda>r. r\<lparr>rp_sync_status := ''syncing'', rp_sync_error := None, rp_updated_at := st_now (site_app st)\<rparr>)
      (va_repositories (sv_vault (snd st)))"
    using c by (auto simp: claim_for_sync_def Let_def)
  define st1 where "st1 = tick (upd_vault (\<lambda>_. v) (tick st))"
  have first: "schedule hw i trigger st = (Inl (), st1)"
    using assms(4,5) by (simp add: schedule_def stmt_fine c some stmt_fault st1_def)
  have v: "sv_vault (snd st1) = v" by (simp add: st1_def upd_vault_def)
  have "claim_for_sync t i v = (None, v)" for t
  proof -
    have none: "\<not> (rp_id r = i \<and> rp_sync_status r \<noteq> ''syncing'')" if "r \<in> set (va_repositories v)" for r
    proof -
      let ?P = "\<lambda>r. rp_id r = i \<and> rp_sync_status r \<noteq> ''syncing''"
      from that obtain r0 where "r = (if ?P r0 then r0\<lparr>rp_sync_status := ''syncing'', rp_sync_error := None,
          rp_updated_at := st_now (site_app st)\<rparr> else r0)"
        unfolding now update_where_def set_map by blast
      then show ?thesis by (cases "?P r0") simp_all
    qed
    then have "filter (\<lambda>r. rp_id r = i \<and> rp_sync_status r \<noteq> ''syncing'') (va_repositories v) = []"
      by (simp add: filter_empty_conv)
    moreover have "update_where (\<lambda>r. rp_id r = i \<and> rp_sync_status r \<noteq> ''syncing'') f (va_repositories v) = va_repositories v" for f
      unfolding update_where_def by (rule map_idI) (simp only: none if_False)
    ultimately show ?thesis by (simp add: claim_for_sync_def Let_def returning_def)
  qed
  then have later: "schedule hw' i trigger' st2 = (Inr None, upd_vault (\<lambda>_. v) (tick st2))"
    if "sv_vault (snd st2) = v" "\<not> hw_fault hw' (hk_statements (fst st2))" for hw' trigger' st2
    using that by (simp add: schedule_def stmt_fine)
  have "hk_syncs (fst st1) = hk_syncs (fst st)" "hk_sync_runs (fst st1) = hk_sync_runs (fst st)"
    by (simp_all add: st1_def tick_def upd_vault_def)
  moreover have "hk_syncs (fst (upd_vault (\<lambda>_. v) (tick st2))) = hk_syncs (fst st2)" for st2
    by (simp add: tick_def upd_vault_def)
  ultimately show ?thesis using first later v by (intro exI [of _ st1]) simp
qed

theorem interrupted_sync_blocks_witness:
  "\<exists>st1. schedule demo_hw 7 ''webhook'' (demo_hooks\<lparr>hk_statements := 4\<rparr>, demo_server) = (Inl (), st1)"
proof -
  have "demo_repo \<in> set (va_repositories (sv_vault (snd (demo_hooks\<lparr>hk_statements := 4\<rparr>, demo_server))))"
    by (simp add: demo_server_def)
  from interrupted_sync_blocks [OF this, of 7 demo_hw "''webhook''"] show ?thesis by (auto simp: demo_repo_def)
qed

end
