(* ===== verification/ConsoleDemo.thy ===== *)
theory ConsoleDemo
  imports Isolation Pages WebhookEdge
begin

text \<open>
  A concrete server on which the console's guarantees apply: a workspace with one run and one
  workflow, a run of another workspace, and a caller who may read and write the first.
\<close>

section \<open>The caller and the server\<close>

definition demo_user :: User where
  "demo_user = \<lparr>us_id = 1, us_username = ''ada'', us_avatar_url = None\<rparr>"

definition demo_api :: Api where
  "demo_api = \<lparr>ap_world = demo_world\<lparr>wd_config := (wd_config demo_world)\<lparr>cf_default_job_image := ''img''\<rparr>,
       wd_parse_yaml := (\<lambda>_. Inr (YMap demo_run_yaml))\<rparr>,
     ap_collate = id, ap_number = (\<lambda>_. None), ap_presign_get = (\<lambda>b k n. Inr k)\<rparr>"

text \<open>The console's server, with user 1 allowed to write too, and a second run in workspace 20.\<close>

definition other_run :: PipelineRow where
  "other_run = demo_run\<lparr>pl_id := 30, pl_workspace_id := 20\<rparr>"

definition demo_desk :: Server where
  "demo_desk = demo_console
     \<lparr>sv_app := (sv_app demo_console)\<lparr>st_db := (st_db (sv_app demo_console))\<lparr>db_pipelines := [demo_run, other_run]\<rparr>\<rparr>,
      sv_vault := (sv_vault demo_console)\<lparr>va_role_permissions := [(5, ''content.read''), (5, ''content.write'')]\<rparr>\<rparr>"

definition demo_flow :: WorkflowRow where
  "demo_flow = demo_workflow\<lparr>wk_raw_content := ''x''\<rparr>"

section \<open>What is served\<close>

lemma log_run_homes:
  "db_pipelines (snd (log_run now mx pid jid ops s)) = db_pipelines (snd s)"
  "job_homes (snd (log_run now mx pid jid ops s)) = job_homes (snd s)"
proof -
  define P where "P db \<longleftrightarrow> db_pipelines db = db_pipelines (snd s) \<and> job_homes db = job_homes (snd s)" for db
  have chunk: "P db \<Longrightarrow> P (insert_chunk now i ck db)" for now i ck db
    by (simp add: P_def insert_chunk_def job_homes_def)
  have bytes: "P db \<Longrightarrow> P (snd (add_log_bytes db i n))" for db i n
    by (auto simp: P_def add_log_bytes_def job_homes_update Let_def split: option.split)
  note wr = write_chunk_keeps [of P, OF chunk bytes] and fin = finish_job_keeps [of P, OF chunk bytes]
  have step: "P (snd (log_op now mx pid jid op t))" if "P (snd t)" for op t
    using that by (cases op) (auto simp: ingest_log_def Let_def case_prod_unfold intro!: wr fin split: option.splits)
  have "P (snd s)" by (simp add: P_def)
  then have "P (snd (log_run now mx pid jid ops s))"
    using log_run_invariant [where P = "\<lambda>t. P (snd t)" and now = now and mx = mx and pid = pid and jid = jid
      and s = s and ops = ops] step by blast
  then show "db_pipelines (snd (log_run now mx pid jid ops s)) = db_pipelines (snd s)"
    "job_homes (snd (log_run now mx pid jid ops s)) = job_homes (snd s)" by (simp_all add: P_def)
qed

text \<open>What the runner of job 11 sends while the value \<open>ghs_1234\<close> is registered for it.\<close>

definition demo_logged :: Db where
  "demo_logged = snd (log_run 0 100 10 11
      [Ingest 1 Stdout ''key ghs_12'' (Some 0) None, Ingest 2 Stdout ''34!'' None None, Finish]
      (register_masks LogHub_default 11 [''ghs_1234''], st_db (sv_app demo_desk)))"


lemma demo_desk_parts:
  "db_pipelines (st_db (sv_app demo_desk)) = [demo_run, other_run]" "db_jobs (st_db (sv_app demo_desk)) = [demo_job]"
  "db_events (st_db (sv_app demo_desk)) = []" "va_repositories (sv_vault demo_desk) = [demo_repo]"
  "require_permission (sv_vault demo_desk) 1 10 CONTENT_WRITE = Inr ()"
  "pl_id demo_run = 10" "pl_workspace_id demo_run = 10" "pl_repository_id demo_run = 7" "pl_workflow_id demo_run = Some 4"
  "pl_id other_run = 30" "pl_workspace_id other_run = 20" "pl_commit_sha demo_run = ''abcdef0''" "pl_git_ref demo_run = ''main''"
  "rp_id demo_repo = 7" "rp_workspace_id demo_repo = 10" "us_id demo_user = 1" "pj_id demo_job = 11" "pj_pipeline_id demo_job = 10"
  "wk_id demo_flow = 4" "wk_repository_id demo_flow = 7"
  by (simp_all add: demo_desk_def demo_console_def demo_server_def require_permission_def allowed_def CONTENT_WRITE_def
      demo_run_def pipeline_row_def other_run_def demo_repo_def demo_user_def demo_job_def job_row_def demo_flow_def demo_workflow_def empty_db_def)

theorem requests_stay_in_their_workspace_witness:
  "run_part 30 (st_db (sv_app (console_step demo_api demo_hooks (CancelRun demo_user 10 10 None) demo_desk))) =
     run_part 30 (st_db (sv_app demo_desk))"
  using requests_stay_in_their_workspace [of demo_desk "CancelRun demo_user 10 10 None" other_run demo_api demo_hooks]
  by (simp add: demo_desk_parts)

theorem console_keeps_history_witness:
  "\<forall>ops. ledger_ok (st_db (sy_app (fold (any_step demo_api) ops demo_sys))) \<and>
     pj_conclusion (db_jobs (st_db (sy_app (fold (any_step demo_api) ops demo_sys))) ! 0) = Some ''cancelled''"
proof
  fix ops
  let ?db = "st_db (sy_app (fold (any_step demo_api) ops demo_sys))"
  have "ledger_ok (st_db (sy_app demo_sys))"
    by (simp add: ledger_ok_def done_ids_def demo_sys_db demo_run_def pipeline_row_def)
  from console_keeps_history [OF this, of demo_api ops] have l: "ledger_ok ?db"
    and f: "final_part (db_jobs ?db ! 0) = final_part done_job"
    by (auto simp: demo_sys_db done_job_def conclude_queued_def)
  from f have "pj_conclusion (final_part (db_jobs ?db ! 0)) = pj_conclusion (final_part done_job)" by (rule arg_cong)
  with l show "ledger_ok ?db \<and> pj_conclusion (db_jobs ?db ! 0) = Some ''cancelled''"
    by (simp add: final_part_def done_job_def conclude_queued_def)
qed

definition demo_definitions :: "json list" where
  "demo_definitions = [JObj [(''name'', JStr ''env''), (''options'', JArr [JStr ''prod'', JStr ''test'']), (''required'', JBool True), (''type'', JStr ''choice'')],
     JObj [(''default'', JStr ''true''), (''name'', JStr ''dry''), (''type'', JStr ''boolean'')]]"

theorem dispatch_inputs_exact_witness:
  "validate_dispatch_inputs demo_api demo_definitions (Some [(''env'', JStr ''prod'')]) =
     Inr (Some (JObj [(''dry'', JBool True), (''env'', JStr ''prod'')])) \<and>
   \<not> (\<exists>r. validate_dispatch_inputs demo_api demo_definitions (Some [(''env'', JStr ''elsewhere'')]) = Inr r)"
proof -
  have d: "demo_definitions \<noteq> []" "distinct (map fst (declared demo_definitions))"
    by (simp_all add: demo_definitions_def jidx_def)
  show ?thesis
    unfolding dispatch_inputs_exact [OF d]
    by (auto simp: demo_definitions_def jidx_def input_ok_def value_fits_def input_type_def input_options_def add_effective_def
        effective_value_def default_value_def demo_api_def demo_world_def MAX_INPUT_VALUE_BYTES_def MAX_INPUTS_TOTAL_BYTES_def)
qed

theorem rerun_reproduces_witness:
  "\<exists>r s'. rerun demo_api 40 [41] demo_user 10 10 None (demo_hooks\<lparr>hk_workflows := [demo_flow]\<rparr>) demo_desk = (Inr r, s') \<and>
     plr_id r = 40 \<and> plr_commit_sha r = ''abcdef0'' \<and> plr_git_ref r = ''main'' \<and> plr_trigger r = ''manual'' \<and> plr_status r = ''queued''"
proof -
  let ?h = "demo_hooks\<lparr>hk_workflows := [demo_flow]\<rparr>"
  have src: "rerun_source demo_user 10 10 ?h demo_desk = Inr (pl_selected demo_run, demo_flow, demo_repo)"
    by (simp add: rerun_source_def scoped_pipeline_def find_pipeline_for_workspace_def find_detail_for_workspace_def
        find_repository_def demo_desk_parts demo_desk_parts(5) [simplified] pl_selected_def Pipeline.truncate_def)
  obtain plans where plans: "build_plans (wd_parse_yaml (ap_world demo_api)) (wk_raw_content demo_flow)
      (cf_default_job_image (wd_config (ap_world demo_api))) (cf_image_allowlist (wd_config (ap_world demo_api))) = Inr plans"
    "map pn_key plans = [''build'']"
    using demo_run_plans by (auto simp: demo_api_def demo_flow_def demo_world_def)
  let ?ctx = "rerun_context demo_user (pl_selected demo_run) None"
  have keys: "map (pn_key \<circ> finish_plan w v ws ctx) plans = [''build'']" for w v ws ctx
    using plans(2) by (simp add: finish_plan_def comp_def)
  obtain res s1 where c: "create_from demo_api 40 [41] demo_repo demo_flow ?ctx demo_desk = (res, s1)" by (rule prod.exhaust)
  have "\<exists>p b. res = Inr (p, b)"
    using c unfolding create_from_def create_pipeline_def plans(1) sum.case create_pipeline_row_insert
    by (auto simp: on_app_def with_db_def create_insert_def keys find_existing_def new_pipeline_def rerun_context_def Let_def
        case_prod_unfold split: if_splits)
  then obtain p b where res: "res = Inr (p, b)" by blast
  obtain number where n: "p = pl_selected (pipeline_row (st_now (sv_app demo_desk)) 40 number
       (new_pipeline (wd_config (ap_world demo_api)) demo_repo (wk_id demo_flow) (wk_name demo_flow) (wk_path demo_flow) ?ctx))"
    "db_pipelines (st_db (sv_app s1)) = db_pipelines (st_db (sv_app demo_desk)) @ [pipeline_row (st_now (sv_app demo_desk)) 40 number
       (new_pipeline (wd_config (ap_world demo_api)) demo_repo (wk_id demo_flow) (wk_name demo_flow) (wk_path demo_flow) ?ctx)]"
    "sv_vault s1 = sv_vault demo_desk"
    by (rule create_from_Inr [OF c [unfolded res]]) (simp add: rerun_context_def)
  have "pl_id p = 40" by (simp add: n(1) pl_selected_def Pipeline.truncate_def pipeline_row_def)
  then have "\<exists>r s'. rerun demo_api 40 [41] demo_user 10 10 None ?h demo_desk = (Inr r, s')"
    by (simp add: rerun_def src c res respond_created_def find_row_for_workspace_def tables_of(12) append_def Let_def n(2,3)
        demo_desk_parts list_row_def pipeline_row_def new_pipeline_def)
  then obtain r s' where r: "rerun demo_api 40 [41] demo_user 10 10 None ?h demo_desk = (Inr r, s')" by blast
  have "fresh_id 40 (st_db (sv_app demo_desk))" by (simp add: fresh_id_def demo_desk_parts)
  from rerun_reproduces [OF r this] show ?thesis
    using r by (auto simp: find_pipeline_for_workspace_def demo_desk_parts pl_selected_def Pipeline.truncate_def)
qed

end
