(* ===== verification/SecretDemo.thy ===== *)
theory SecretDemo
  imports SecretViews ConsoleDemo
begin

text \<open>
  A concrete workspace with one stored secret, on which the guarantees of secrets apply: a request
  that shadows it for one repository, and a workflow that refers to it and to a missing one.
\<close>

definition demo_body :: CreateSecret where
  "demo_body = \<lparr>cs_name = ''DEPLOY_KEY'', cs_value = ''s3cr3t-77'', cs_description = None, cs_repository_id = Some 7,
     cs_environment_id = None\<rparr>"

definition demo_random :: "rstr \<times> rstr \<times> rstr" where
  "demo_random = (replicate 32 CHR ''w'', replicate 12 CHR ''n'', replicate 12 CHR ''d'')"

lemma demo_valid_name: "validate_secret_name id ''DEPLOY_KEY'' = Inr ''DEPLOY_KEY''"
proof -
  have a: "ascii ''DEPLOY_KEY''" by (simp add: ascii_def)
  have "trim ''DEPLOY_KEY'' = ''DEPLOY_KEY''"
    by (rule trim_tight) (simp_all add: utf8_ascii a chars_ascii is_whitespace_def)
  moreover have "upper_snake ''DEPLOY_KEY''" by (simp add: upper_snake_def shaped_def chars_ascii a str_simps)
  ultimately show ?thesis
    by (simp add: validate_secret_name_def Let_def NAME_MAX_def RESERVED_PREFIXES_def RESERVED_NAMES_def starts_with_def)
qed

lemma demo_name: "secret_name_ok ''DEPLOY_KEY''"
  by (rule validate_name_Inr [OF demo_valid_name])

lemma demo_value: "ascii ''s3cr3t-77''" "ascii ''hunter22''"
  by (simp_all add: ascii_def)

lemma demo_manages: "require_permission (sv_vault demo_server) 1 10 SECRETS_MANAGE = Inr ()" "find_repository (sv_vault demo_server) 10 7 = Some demo_repo"
  by code_simp+

lemma demo_checked:
  "check_secret demo_world demo_user 10 demo_body demo_server = Inr (''master'', ''DEPLOY_KEY'', None)"
proof -
  have w: "wd_nfc demo_world = id" "wd_secrets_key demo_world = Some ''master''" by (simp_all add: demo_world_def)
  have "us_id demo_user = 1" by (simp add: demo_user_def)
  then show ?thesis
    by (simp add: check_secret_def demo_manages demo_manages(1) [simplified] w require_crypto_def demo_body_def demo_valid_name validate_value_def VALUE_MIN_def
        VALUE_MAX_def validate_description_def short_text_def given_def)
qed

lemma demo_aead: "aead_correct (wd_aead demo_world)" "random_ok demo_random"
  by (simp_all add: demo_world_def aead_correct_def demo_random_def random_ok_def NONCE_LEN_def)

lemma demo_seal: "seal (wd_aead demo_world) k n a m = Some m"
  by (simp add: demo_world_def)

lemma demo_body_parts: "cs_value demo_body = ''s3cr3t-77''" "cs_repository_id demo_body = Some 7" "cs_environment_id demo_body = None"
  by (simp_all add: demo_body_def)

lemma demo_secrets: "va_secrets (sv_vault demo_server) = [demo_secret]" "sc_name demo_secret = ''DEPLOY_KEY''"
  "applies ws repo env demo_secret \<longleftrightarrow> ws = 10" "scope_rank demo_secret = 3"
  by (auto simp: demo_server_def demo_secret_def secret_row_def applies_def scope_rank_def)

theorem created_secret_reaches_dispatch_witness:
  "\<exists>r s' new. create_secret demo_world 2 demo_random demo_user 10 demo_body None demo_server = (Inr r, s') \<and>
     dispatch_secrets demo_world (sv_vault s') 10 7 None = Some new \<and>
     map_of (resolved_secrets new) ''DEPLOY_KEY'' = Some ''s3cr3t-77''"
proof -
  obtain r s' where c: "create_secret demo_world 2 demo_random demo_user 10 demo_body None demo_server = (Inr r, s')"
    "srp_name r = ''DEPLOY_KEY''"
    by (auto simp: create_secret_def demo_checked encrypt_def demo_random_def demo_seal demo_body_parts on_store_def secret_insert_def
        demo_secrets demo_secret_def SecretResponse_from_def secret_meta_def same_scope_def secret_row_def Let_def and_then_def)
  have env: "job_environment_id demo_world (sv_vault demo_server) 10 demo_job = None" by code_simp
  note d = demo_opened [unfolded env]
  have "utf8 (cs_value demo_body)" by (simp add: demo_body_def utf8_ascii demo_value)
  from created_secret_reaches_dispatch [OF demo_aead this c(1) d] obtain row new where
    row: "sc_name row = ''DEPLOY_KEY''" "sc_workspace_id row = 10" "sc_repository_id row = Some 7" "sc_environment_id row = None"
    and new: "dispatch_secrets demo_world (sv_vault s') 10 7 None = Some new"
    and val: "map_of (resolved_secrets new) ''DEPLOY_KEY'' =
       (if applies 10 7 None row \<and> scope_rank row < 3 then Some (cs_value demo_body) else map_of (resolved_secrets [(demo_secret, ''hunter22'')]) ''DEPLOY_KEY'')"
    by (auto simp: c(2) demo_secrets demo_body_def)
  have "applies 10 7 None row \<and> scope_rank row < 3" by (simp add: applies_def scope_rank_def row)
  with val c(1) new show ?thesis by (auto simp: demo_body_def)
qed

theorem stored_secrets_always_open_witness:
  "\<forall>ops. fst (dispatch demo_world demo_job 3 (fold (secrets_step demo_world) ops demo_server)) \<noteq> Inr SecretsUnavailable"
proof
  fix ops
  have "value_ok ''hunter22''" by (simp add: value_ok_def MIN_MASK_LEN_def VALUE_MAX_def utf8_ascii demo_value)
  then have "row_checked demo_world ''master'' demo_secret"
    unfolding row_checked_def demo_secrets(2)
    by (simp add: demo_name demo_secret_def secret_row_def demo_world_def decrypt_def KEY_VERSION_def NONCE_LEN_def)
  then have v: "vault_checked demo_world ''master'' (sv_vault demo_server)"
    by (simp add: vault_checked_def demo_secrets secrets_ok_def demo_secret_def secret_row_def)
  have k: "wd_secrets_key demo_world = Some ''master''" by (simp add: demo_world_def)
  from stored_secrets_always_open [OF k demo_aead(1) v refl]
  show "fst (dispatch demo_world demo_job 3 (fold (secrets_step demo_world) ops demo_server)) \<noteq> Inr SecretsUnavailable" by blast
qed

text \<open>A workflow that refers to the stored secret and to one that is not stored.\<close>

definition demo_refs :: Hooks where
  "demo_refs = demo_hooks\<lparr>hk_workflows := [demo_flow\<lparr>wk_metadata := JObj [(''secretRefs'', JArr [JStr ''DEPLOY_KEY'', JStr ''NPM_TOKEN''])]\<rparr>]\<rparr>"

definition demo_reader :: Server where
  "demo_reader = demo_server\<lparr>sv_vault := (sv_vault demo_server)\<lparr>va_role_permissions := [(5, ''secrets.read'')]\<rparr>\<rparr>"


end
