(* ===== verification/Spec2Isabelle.thy ===== *)
theory Spec2Isabelle
  imports TriggerEval RunnerReg SecretDemo
begin

text \<open>
  \<^bold>\<open>Verification library of the overup control plane.\<close>

  overup runs CI pipelines.  A GitHub webhook (\<open>backend/src/handlers/github_webhooks.rs\<close>) is
  stored and answered; a single worker (\<open>services/webhook_processor.rs\<close>) evaluates the stored
  workflows' filters against it and creates pipelines with their jobs
  (\<open>services/pipeline_run.rs\<close>, from plans of \<open>services/pipeline_plan.rs\<close>, from documents
  reduced by \<open>services/workflow_parse.rs\<close>).  A scheduler loop (\<open>services/scheduler.rs\<close>)
  claims queued jobs for idle runners and sends each a signed descriptor over the runner's
  WebSocket; the connection handler (\<open>handlers/runner_ws.rs\<close>) takes stages, logs, artifacts and
  results back.  Users list, inspect, cancel, rerun and dispatch runs through the console's
  endpoints (\<open>handlers/pipelines.rs\<close>, \<open>handlers/jobs.rs\<close>).  PostgreSQL holds all durable state; the hubs hold connections, log masks and
  subscribers in memory.  The handlers run concurrently and meet only in guarded SQL statements
  and behind the hubs' locks.

  \<^bold>\<open>Theories, in the order of their imports\<close>

  \<^item> \<open>Prelude\<close>, \<open>RustStr\<close>, \<open>RustText\<close>, \<open>Json\<close>: fact collections, generic lemmas on lists and
    association lists, the locale \<open>state_order\<close>; Rust's \<open>str\<close> as its UTF-8 bytes with
    \<open>char\<close> as scalar value; trimming, splitting, replacing, \<open>truncate_utf8\<close>; \<open>serde_json\<close>
    values.
  \<^item> \<open>Protocol\<close>: \<open>protocol/src/lib.rs\<close>, the messages as datatypes with the source's
    constructors, the path normaliser, signed descriptors.
  \<^item> \<open>Models\<close>, \<open>Tables\<close>: rows and responses of \<open>models/\<close>; \<open>AppError\<close> of \<open>error.rs\<close>; the
    record \<open>Db\<close> of tables, each a list of rows in storage order, with \<open>update_where\<close> and
    \<open>returning\<close> for a guarded \<open>UPDATE ... RETURNING\<close>.
  \<^item> \<open>JobsDb\<close>, \<open>RunnersDb\<close>, \<open>PipelinesDb\<close>, \<open>ArtifactsDb\<close>, \<open>Vault\<close>, \<open>WebhooksDb\<close>: one
    definition per statement of the modules of \<open>db/\<close> that change state or feed a decision.
    \<open>Vault\<close> adds the envelope encryption and \<open>services/authz.rs\<close>.
  \<^item> \<open>LogHub\<close>, \<open>LogStore\<close>: \<open>services/log_hub.rs\<close>, masking across chunks, caps, byte budget.
  \<^item> \<open>Hubs\<close>: \<open>services/runner_hub.rs\<close>, \<open>services/workspace_hub.rs\<close>, and the record
    \<open>AppState\<close> that the pipeline code threads through.
  \<^item> \<open>PipelineRun\<close>, \<open>Create\<close>: \<open>services/pipeline_run.rs\<close>, every hook, dependency skipping,
    finalisation, cancellation, timeouts, recovery; and creation.
  \<^item> \<open>WorkflowNeeds\<close>, \<open>WorkflowRefs\<close>, \<open>WorkflowParse\<close>, \<open>PipelinePlan\<close>, \<open>TriggerEval\<close>:
    the parser, the planner and the event filters.
  \<^item> \<open>Dispatch\<close>, \<open>Scheduler\<close>: the payload with its live secrets and masks, and the pass.
  \<^item> \<open>RunnerWs\<close>: a connection from its credential to its end, every message a runner may send.
  \<^item> \<open>WebhookReceive\<close>, \<open>WebhookProc\<close>: the endpoint with its rejection gauge, and the processor.
  \<^item> \<open>Listing\<close>, \<open>PipelineApi\<close>: the console.  \<open>Listing\<close> has the two listings with filters, cursors
    and summary; \<open>PipelineApi\<close> the other endpoints of \<open>handlers/pipelines.rs\<close>.
  \<^item> \<open>SecretsApi\<close>: \<open>handlers/secrets.rs\<close> and \<open>handlers/environments.rs\<close>, validation,
    mutations, catalogues, summaries and the requirements of the workflows.
  \<^item> \<open>JobMachine\<close>, \<open>RunnerLife\<close>, \<open>RunnerReg\<close>, \<open>SkipDeps\<close>, \<open>Cancel\<close>, \<open>Kept\<close>, \<open>Ledger\<close>,
    \<open>Flow\<close>, \<open>Conn\<close>, \<open>System\<close>, \<open>Confine\<close>, \<open>Contained\<close>, \<open>WebhookKept\<close>, \<open>WebhookQueue\<close>,
    \<open>WebhookRuns\<close>, \<open>WebhookFacts\<close>, \<open>WebhookEdge\<close>, \<open>Pages\<close>, \<open>ApiFacts\<close>, \<open>Isolation\<close>,
    \<open>SecretFacts\<close>, \<open>SecretViews\<close>: what all this guarantees.  \<open>ConsoleDemo\<close> and
    \<open>SecretDemo\<close> have the servers the console's witnesses run on.

  \<^bold>\<open>How the model reads the code\<close>

  A struct is a record, an enum a datatype, a status column the string it holds; a
  \<open>Result\<close> is a sum with the error on the left; \<open>u64\<close> counters that may wrap are words, byte
  counts of the database are \<open>int\<close>.  What a statement reads from outside, the clock and
  generated ids, is an argument.  An operation returns its result and the changed state.
  Library code the repository calls is a field of a parameter record with named hypotheses
  about its documented behaviour: HMAC, hex and the JSON codec (\<open>crypto\<close>), AES-GCM and the
  random generator, the YAML reader, GitHub's token endpoint and S3 (\<open>World\<close>,
  \<open>HookWorld\<close>).  Each property with such a hypothesis has a witness on a concrete function.

  \<open>JobMachine\<close> and \<open>RunnerLife\<close> reason about single SQL statements in any order, which covers
  every interleaving of the tasks that issue them.  \<open>System\<close> runs whole handlers in any order:
  the interleaving there is that of handlers.  In the webhook theories each statement may fail on
  its own (\<open>hw_fault\<close>), so every prefix of a processing is a run; elsewhere the database answers,
  and the errors that are modelled are those the code itself raises.

  \<^bold>\<open>What the lemma groups show\<close>

  \<^item> \<open>JobMachine\<close>: \<open>job_step\<close> lists the moves of a job row; the locale \<open>job_table\<close>, interpreted
    on every statement, gives finality, exclusiveness of claims, at most two attempts, and the
    refinement of a three-phase contract.  \<open>RunnerLife\<close> does the same for runner rows
    (\<open>runner_table\<close>, \<open>quiet_table\<close>).
  \<^item> \<open>LogHub\<close>, \<open>LogStore\<close>: no registered value is emitted, stored or broadcast, the byte
    budget, and the exception of values with a newline.
  \<^item> \<open>Kept\<close>, \<open>Conn\<close>, \<open>System\<close>, \<open>WebhookKept\<close>: the locales \<open>kept_end\<close>, \<open>kept\<close>, \<open>kept_msg\<close>,
    \<open>kept_conn\<close>, \<open>kept_ws\<close>, \<open>kept_sys\<close>, \<open>kept_site\<close> lift a predicate that every statement
    preserves to hooks, messages, connections, server runs and webhook runs.  Their instances are
    job rows (\<open>jobs_since\<close>), runner rows (\<open>runner_moves\<close>), the ledger (\<open>ledger_from\<close>), the
    artifact limits (\<open>within_limits\<close>), what a message may touch (\<open>confined\<close>), the webhook queue
    and the delivery keys (\<open>keys_ok\<close>).
  \<^item> \<open>SkipDeps\<close>, \<open>Cancel\<close>, \<open>Contained\<close>: the dependency closure is exact, cancelling ends a
    pipeline, a failed dispatch leaves no trace but the job's error.
  \<^item> \<open>Protocol\<close>, \<open>TriggerEval\<close> (locale \<open>glob_engine\<close>), \<open>WorkflowNeeds\<close>, \<open>WorkflowParse\<close>,
    \<open>PipelinePlan\<close>: exactness of the path normaliser, the glob matcher, the cycle search, the
    resource walk, and what an accepted workflow and its plans satisfy.
  \<^item> \<open>WebhookQueue\<close>, \<open>WebhookFacts\<close>, \<open>WebhookEdge\<close>: only signed deliveries enter, the queue
    drains, one delivery makes one pipeline per workflow, forks run nothing.
  \<^item> \<open>Pages\<close>: the locale \<open>keyset\<close>, interpreted on the pipeline listing, on the job queue and, in
    \<open>SecretViews\<close>, on the catalogue of secrets: following the cursors yields the whole listing once.  A search is literal; the reason of a wait is the
    scheduler's.
  \<^item> \<open>ApiFacts\<close>, \<open>Isolation\<close>: downloads hold no secret, dispatch inputs are validated exactly, a rerun
    reproduces its run.  \<open>any_step\<close> adds the requests of the console to the runs of \<open>System\<close>
    and lifts \<open>kept_sys\<close> to them; a request changes only runs of its workspace.
  \<^item> \<open>SecretFacts\<close>, \<open>SecretViews\<close>: a value stored through the console reaches exactly the jobs
    of its scope, every stored row opens through any run of requests and dispatches, and a
    requirement is shown as missing exactly if no dispatch would get it.

  \<^bold>\<open>Termination and bounds\<close>

  Nothing carries fuel.  Loops bounded by their data are \<open>fun\<close> or \<open>function\<close> with a measure; the
  glob matcher, the depth-first search and the budget walk have their own.  \<open>drain\<close> of the
  webhook worker, which ends only because retries are counted, is
  \<open>partial_function (option)\<close>, and \<open>wake_returns\<close> proves that it returns by a weight that each
  delivery lowers.

  \<^bold>\<open>Where the code falls short\<close>

  Theorems state these as the code behaves: a secret with a newline can pass the masks; matching
  ignores workspaces; fifty unmatchable jobs block the queue; a runner drained while idle is lost;
  a creation that fails in a push is dropped; an interrupted sync blocks later ones; long
  changed paths are skipped without failing open.  They are the theorems
  \<open>multi_line_value_leaks\<close>, \<open>matching_ignores_workspaces\<close>, \<open>unmatchable_jobs_block_queue\<close>,
  \<open>drained_idle_never_scheduled\<close>, \<open>failed_creation_is_dropped\<close>, \<open>interrupted_sync_blocks\<close> and
  \<open>long_paths_are_skipped\<close>.

  \<^bold>\<open>Not modelled\<close>

  The runner binary and hosted-runner provisioning drive Docker; GitHub, S3 and the registry
  clients are network I/O; the console is TypeScript.  Notifications, search, dashboards and
  the artifact catalogue are aggregating SQL queries over the tables,
  decision-free in Rust for the most part; the feeds of audit entries, whose times the model does not
  keep, are left out with them.  Sessions and OAuth only name the caller, who is an argument here.  The body of a
  repository sync is a sequence of GitHub calls; its claim and the parse of each file are
  modelled.  The real-time loops (heartbeats, janitor, wake-up timers) are the steps they take.
  The SQL schema enters as the constraints written into the statements; isolation between two
  concurrent transactions is that of whole statements, as their row locks give.
\<close>

end
